(* ===== verification/Prelude.thy ===== *)
theory Prelude
  imports Main "HOL-Library.Word" "HOL-Library.Signed_Division" "HOL-Library.AList"
begin

text \<open>
  What every component shares: Go's fixed-width integer conversions, \<open>time.Time\<close> and
  \<open>time.Duration\<close>, the parts of package \<open>strings\<close> the services call, JSON payloads, and the
  generic lemmas about maps and lists.

  A signed Go integer is an \<open>int\<close> that stays in range because every operation that can leave the
  range is followed by the conversion of its width (\<open>i8\<close>, \<open>i16\<close>, \<open>i32\<close>, \<open>i64\<close>, two's complement).
  \<open>uint64\<close>, \<open>uint32\<close> and \<open>uint16\<close> are words. A \<open>time.Time\<close> is the number of nanoseconds since the
  Unix epoch (no monotonic reading), a \<open>time.Duration\<close> an \<open>int64\<close> number of nanoseconds.
\<close>

named_theorems go_int \<open>range and identity lemmas of the integer conversions\<close>

type_synonym u16 = "16 word"
type_synonym u32 = "32 word"
type_synonym u64 = "64 word"
type_synonym time = int
type_synonym duration = int

section \<open>Integer conversions\<close>

definition i8 :: "int \<Rightarrow> int" where "i8 = signed_take_bit 7"
definition i16 :: "int \<Rightarrow> int" where "i16 = signed_take_bit 15"
definition i32 :: "int \<Rightarrow> int" where "i32 = signed_take_bit 31"
definition i64 :: "int \<Rightarrow> int" where "i64 = signed_take_bit 63"

definition in_i8 :: "int \<Rightarrow> bool" where "in_i8 x \<longleftrightarrow> - (2 ^ 7) \<le> x \<and> x < 2 ^ 7"
definition in_i32 :: "int \<Rightarrow> bool" where "in_i32 x \<longleftrightarrow> - (2 ^ 31) \<le> x \<and> x < 2 ^ 31"
definition in_i64 :: "int \<Rightarrow> bool" where "in_i64 x \<longleftrightarrow> - (2 ^ 63) \<le> x \<and> x < 2 ^ 63"

text \<open>\<open>int64(w)\<close> and \<open>uint64(n)\<close> between \<open>uint64\<close> and \<open>int64\<close>.\<close>

definition u64_to_i64 :: "u64 \<Rightarrow> int" where "u64_to_i64 w = sint w"
definition i64_to_u64 :: "int \<Rightarrow> u64" where "i64_to_u64 n = word_of_int n"

lemma i64_in [go_int]: "in_i64 (i64 x)"
  using signed_take_bit_int_greater_eq_minus_exp [of 63 x] signed_take_bit_int_less_exp [of 63 x]
  by (simp add: i64_def in_i64_def)

lemma i64_id [go_int]: "in_i64 x \<Longrightarrow> i64 x = x"
  by (simp add: i64_def in_i64_def signed_take_bit_int_eq_self)

lemma i64_0 [simp]: "i64 0 = 0"
  by (simp add: i64_def)

lemma i16_id [go_int]: "- (2 ^ 15) \<le> x \<Longrightarrow> x < 2 ^ 15 \<Longrightarrow> i16 x = x"
  by (simp add: i16_def signed_take_bit_int_eq_self)

lemma i8_id [go_int]: "- (2 ^ 7) \<le> x \<Longrightarrow> x < 2 ^ 7 \<Longrightarrow> i8 x = x"
  by (simp add: i8_def signed_take_bit_int_eq_self)

lemma i8_i16: "in_i8 x \<Longrightarrow> i8 (i16 x) = x"
  by (simp add: in_i8_def i8_id i16_id)

lemma u64_i64_u64 [simp]: "i64_to_u64 (u64_to_i64 w) = w"
  by (simp add: i64_to_u64_def u64_to_i64_def)

lemma unat_Suc_u64: "unat w < 2 ^ 64 - 1 \<Longrightarrow> unat (w + 1 :: u64) = unat w + 1"
  by (simp add: unat_word_ariths)

lemma less_u64_Suc: "unat w < 2 ^ 64 - 1 \<Longrightarrow> w < (w + 1 :: u64)"
  by (simp add: word_less_nat_alt unat_Suc_u64)

section \<open>Time\<close>

text \<open>The zero \<open>time.Time\<close> is the first instant of year 1.\<close>

definition zero_time :: time where "zero_time = - 62135596800 * 10 ^ 9"

definition second :: duration where "second = 10 ^ 9"

text \<open>\<open>t.Sub(u)\<close> saturates at the ends of \<open>int64\<close>.\<close>

definition time_sub :: "time \<Rightarrow> time \<Rightarrow> duration" where
  "time_sub t u = max (- (2 ^ 63)) (min (2 ^ 63 - 1) (t - u))"

lemma time_sub_less: "in_i64 d \<Longrightarrow> 0 < d \<Longrightarrow> time_sub t u < d \<longleftrightarrow> t - u < d"
  by (auto simp: time_sub_def in_i64_def max_def min_def)

text \<open>\<open>t.UTC().Format(time.RFC3339)\<close>: the proleptic Gregorian date of the day and the seconds of the
  day, for years of four digits.\<close>

fun dec_digits :: "nat \<Rightarrow> nat \<Rightarrow> string" where
  "dec_digits 0 n = []"
| "dec_digits (Suc w) n = dec_digits w (n div 10) @ [char_of (48 + n mod 10)]"

text \<open>\<open>%d\<close>.\<close>

fun dec_nat :: "nat \<Rightarrow> string" where
  "dec_nat n = (if n < 10 then [char_of (48 + n)] else dec_nat (n div 10) @ [char_of (48 + n mod 10)])"

declare dec_nat.simps [simp del]

definition dec_int :: "int \<Rightarrow> string" where
  "dec_int i = (if i < 0 then CHR ''-'' # dec_nat (nat (- i)) else dec_nat (nat i))"

definition civil_from_days :: "int \<Rightarrow> int \<times> int \<times> int" where
  "civil_from_days d =
     (let z = d + 719468; era = z div 146097; doe = z - era * 146097;
          yoe = (doe - doe div 1460 + doe div 36524 - doe div 146096) div 365;
          doy = doe - (365 * yoe + yoe div 4 - yoe div 100);
          mp = (5 * doy + 2) div 153;
          day = doy - (153 * mp + 2) div 5 + 1;
          month = (if mp < 10 then mp + 3 else mp - 9)
      in (yoe + era * 400 + (if month \<le> 2 then 1 else 0), month, day))"

definition Format_RFC3339 :: "time \<Rightarrow> string" where
  "Format_RFC3339 t =
     (let s = t div 10 ^ 9; (y, m, d) = civil_from_days (s div 86400); r = nat (s mod 86400) in
      dec_digits 4 (nat y) @ ''-'' @ dec_digits 2 (nat m) @ ''-'' @ dec_digits 2 (nat d) @ ''T'' @
      dec_digits 2 (r div 3600) @ '':'' @ dec_digits 2 (r mod 3600 div 60) @ '':'' @ dec_digits 2 (r mod 60) @ ''Z'')"

lemma civil_from_days_examples:
  "civil_from_days 0 = (1970, 1, 1) \<and> civil_from_days (- 719162) = (1, 1, 1) \<and>
   civil_from_days 19782 = (2024, 2, 29) \<and> civil_from_days 19783 = (2024, 3, 1)"
  by code_simp

section \<open>JSON payloads\<close>

text \<open>The body of an event is built by \<open>json.Marshal\<close> from a map and read by \<open>json.Unmarshal\<close>
  into a struct: a message body is the object's fields, or \<open>None\<close> when it is not such an object.
  A field that is absent leaves the Go zero value.\<close>

datatype 'f json = JStr string | JInt int | JNum 'f | JArr "string list"

type_synonym 'f json_object = "(string \<times> 'f json) list"

text \<open>\<open>json.Unmarshal\<close> into a string field and into an integer field of the range \<open>lo..hi\<close>: \<open>None\<close> for a
  value of the wrong type or out of range.\<close>

definition json_str :: "'f json_object \<Rightarrow> string \<Rightarrow> string option" where
  "json_str ob k = (case map_of ob k of None \<Rightarrow> Some '''' | Some (JStr s) \<Rightarrow> Some s | _ \<Rightarrow> None)"

definition json_int :: "int \<Rightarrow> int \<Rightarrow> 'f json_object \<Rightarrow> string \<Rightarrow> int option" where
  "json_int lo hi ob k = (case map_of ob k of None \<Rightarrow> Some 0
     | Some (JInt n) \<Rightarrow> (if lo \<le> n \<and> n \<le> hi then Some n else None) | _ \<Rightarrow> None)"

lemmas json_get = json_str_def json_int_def

section \<open>Package strings\<close>

text \<open>The UTF-8 encodings of the code points with the property White_Space, which
  \<open>strings.TrimSpace\<close> removes at both ends.\<close>

definition space_encodings :: "string list" where
  "space_encodings =
     map (map char_of) ([[9], [10], [11], [12], [13], [32], [194, 133], [194, 160], [225, 154, 128],
       [226, 128, 168], [226, 128, 169], [226, 128, 175], [226, 129, 159], [227, 128, 128]]
       @ map (\<lambda>b. [226, 128, b]) [128, 129, 130, 131, 132, 133, 134, 135, 136, 137, 138 :: nat])"

definition starts_with :: "string \<Rightarrow> string \<Rightarrow> bool" where
  "starts_with p s \<longleftrightarrow> take (length p) s = p"

definition space_prefix :: "string list \<Rightarrow> string \<Rightarrow> nat" where
  "space_prefix es s = (case filter (\<lambda>e. starts_with e s) es of [] \<Rightarrow> 0 | e # _ \<Rightarrow> length e)"

function trim_left :: "string list \<Rightarrow> string \<Rightarrow> string" where
  "trim_left es s = (let n = space_prefix es s in
     if n = 0 \<or> s = [] then s else trim_left es (drop n s))"
  by pat_completeness auto
termination
  by (relation "measure (length \<circ> snd)") auto

declare trim_left.simps [simp del]

definition TrimSpace :: "string \<Rightarrow> string" where
  "TrimSpace s = rev (trim_left (map rev space_encodings) (rev (trim_left space_encodings s)))"

text \<open>\<open>strings.ToLower\<close> maps an ASCII string byte by byte; for any other string it maps the code
  points by the Unicode tables, the parameter \<open>U\<close>.\<close>

definition ascii_lower :: "char \<Rightarrow> char" where
  "ascii_lower c = (let n = of_char c :: nat in
     if 65 \<le> n \<and> n \<le> 90 then char_of (n + 32) else c)"

definition ToLower :: "(string \<Rightarrow> string) \<Rightarrow> string \<Rightarrow> string" where
  "ToLower U s = (if list_all (\<lambda>c. (of_char c :: nat) < 128) s then map ascii_lower s else U s)"

text \<open>\<open>strings.Trim(s, "-")\<close> for a single-byte cut set.\<close>

definition trim_char :: "char \<Rightarrow> string \<Rightarrow> string" where
  "trim_char c s = rev (dropWhile (\<lambda>d. d = c) (rev (dropWhile (\<lambda>d. d = c) s)))"

lemma length_trim_left: "length (trim_left es s) \<le> length s"
proof (induction es s rule: trim_left.induct)
  case (1 es s)
  show ?case
  proof (cases "space_prefix es s = 0 \<or> s = []")
    case True
    then show ?thesis by (subst trim_left.simps) (auto simp: Let_def)
  next
    case False
    have "trim_left es s = trim_left es (drop (space_prefix es s) s)"
      using False by (subst trim_left.simps) (auto simp: Let_def)
    with "1.IH" [OF refl False] show ?thesis by simp
  qed
qed

lemma length_TrimSpace: "length (TrimSpace s) \<le> length s"
  unfolding TrimSpace_def
  using length_trim_left [of space_encodings s]
    length_trim_left [of "map rev space_encodings" "rev (trim_left space_encodings s)"]
  by simp

text \<open>Trimming leaves a text alone that starts and ends with printable ASCII.\<close>

definition printable :: "char \<Rightarrow> bool" where
  "printable c \<longleftrightarrow> 33 \<le> (of_char c :: nat) \<and> (of_char c :: nat) < 128"

lemma trim_left_id:
  assumes "\<forall>e\<in>set es. e \<noteq> [] \<and> \<not> printable (hd e)" "s \<noteq> []" "printable (hd s)"
  shows "trim_left es s = s"
proof -
  have "\<not> starts_with e s" if "e \<in> set es" for e
    using assms that by (cases e; cases s) (auto simp: starts_with_def)
  then have "space_prefix es s = 0" by (simp add: space_prefix_def filter_empty_conv [THEN iffD2])
  then show ?thesis by (subst trim_left.simps) simp
qed

lemma TrimSpace_id:
  assumes "s \<noteq> []" "printable (hd s)" "printable (last s)" shows "TrimSpace s = s"
proof -
  have "\<forall>e\<in>set space_encodings. e \<noteq> [] \<and> \<not> printable (hd e)" "\<forall>e\<in>set (map rev space_encodings). e \<noteq> [] \<and> \<not> printable (hd e)"
    by (simp_all add: space_encodings_def printable_def)
  then show ?thesis using assms by (simp add: TrimSpace_def trim_left_id hd_rev)
qed

lemma TrimSpace_Nil: "TrimSpace [] = []"
  by (simp add: TrimSpace_def trim_left.simps)

lemma set_trim_char: "set (trim_char c s) \<subseteq> set s"
  unfolding trim_char_def by (auto dest!: set_dropWhileD)

lemma length_trim_char: "length (trim_char c s) \<le> length s"
  unfolding trim_char_def by (metis length_dropWhile_le length_rev order_trans)

section \<open>Maps and lists\<close>

lemma finite_dom_upd [simp]: "finite (dom m) \<Longrightarrow> finite (dom (m(k \<mapsto> v)))"
  by simp

lemma dom_map_option [simp]: "dom (\<lambda>k. map_option (f k) (m k)) = dom m"
  by (auto simp: dom_def)

text \<open>Tables are association lists with distinct keys; a cascade deletes by a condition on the key.\<close>

lemma map_of_filter_key: "map_of (filter (\<lambda>e. P (fst e)) xs) k = (if P k then map_of xs k else None)"
  by (induction xs) auto

lemma distinct_filter_key: "distinct (map fst xs) \<Longrightarrow> distinct (map fst (filter P xs))"
  by (induction xs) auto

lemma keep_last_length:
  "0 \<le> r \<Longrightarrow> int (length (if int (length xs) > r then drop (nat (int (length xs) - r)) xs else xs)) \<le> r"
  by auto

end
