(* ===== verification/Go_Float.thy ===== *)
theory Go_Float
  imports Complex_Main "HOL-Library.Log_Nat"
begin

text \<open>
  Go's \<open>float64\<close> (IEEE 754 binary64, round to nearest, ties to even). A finite value is the
  rational number it denotes; \<open>+Inf\<close>, \<open>-Inf\<close> and \<open>NaN\<close> are constructors of their own. Every
  arithmetic operation computes the exact rational result and rounds it once, by \<open>mkf\<close>.

  The sign of zero is not kept (no operation of the program can observe it: it is never divided by
  and never printed), and an expression \<open>x*y + z\<close> is rounded twice, as on amd64, where the compiler
  does not fuse the two operations.

  The lemmas the services use: rounding is monotone (\<open>rnd64_mono\<close>), exact on the values of the
  format (\<open>rnd64_exact\<close>) and so keeps signs and representable bounds.
\<close>

named_theorems f64_ops \<open>the defining equations of the float64 operations\<close>

section \<open>Rounding a rational to the binary64 grid\<close>

definition rne :: "rat \<Rightarrow> int" where
  "rne x = (let f = \<lfloor>x\<rfloor>; d = x - of_int f in
     if d < 1 / 2 then f else if d > 1 / 2 then f + 1 else if even f then f else f + 1)"

definition flog2 :: "rat \<Rightarrow> int" where
  "flog2 x = (let (p, q) = quotient_of x; k = bitlen p - bitlen q in
     if 2 powi k \<le> x then k else k - 1)"

text \<open>The exponent of one unit in the last place: 53 significant bits, at least \<open>2^-1074\<close>.\<close>

definition ulp_exp :: "rat \<Rightarrow> int" where
  "ulp_exp x = max (- 1074) (flog2 \<bar>x\<bar> - 52)"

definition rnd64 :: "rat \<Rightarrow> rat" where
  "rnd64 x = (if x = 0 then 0
     else of_int (rne (x / 2 powi (ulp_exp x))) * 2 powi (ulp_exp x))"

section \<open>Values and operations\<close>

datatype f64 = Fin rat | PInf | NInf | NaN

definition mkf :: "rat \<Rightarrow> f64" where
  "mkf x = (let r = rnd64 x in
     if 2 ^ 1024 \<le> r then PInf else if r \<le> - (2 ^ 1024) then NInf else Fin r)"

fun fneg :: "f64 \<Rightarrow> f64" where
  "fneg (Fin x) = Fin (- x)"
| "fneg PInf = NInf"
| "fneg NInf = PInf"
| "fneg NaN = NaN"

fun fadd :: "f64 \<Rightarrow> f64 \<Rightarrow> f64" where
  "fadd (Fin x) (Fin y) = mkf (x + y)"
| "fadd NaN _ = NaN"
| "fadd _ NaN = NaN"
| "fadd PInf NInf = NaN"
| "fadd NInf PInf = NaN"
| "fadd PInf _ = PInf"
| "fadd NInf _ = NInf"
| "fadd _ PInf = PInf"
| "fadd _ NInf = NInf"

definition fsub :: "f64 \<Rightarrow> f64 \<Rightarrow> f64" where
  "fsub a b = fadd a (fneg b)"

definition inf_signed :: "bool \<Rightarrow> f64" where
  "inf_signed neg = (if neg then NInf else PInf)"

fun fneg_sign :: "f64 \<Rightarrow> bool" where
  "fneg_sign (Fin x) = (x < 0)"
| "fneg_sign NInf = True"
| "fneg_sign _ = False"

definition fis_zero :: "f64 \<Rightarrow> bool" where
  "fis_zero a = (a = Fin 0)"

fun fmul :: "f64 \<Rightarrow> f64 \<Rightarrow> f64" where
  "fmul (Fin x) (Fin y) = mkf (x * y)"
| "fmul NaN _ = NaN"
| "fmul _ NaN = NaN"
| "fmul a b = (if fis_zero a \<or> fis_zero b then NaN
     else inf_signed (fneg_sign a \<noteq> fneg_sign b))"

fun fdiv :: "f64 \<Rightarrow> f64 \<Rightarrow> f64" where
  "fdiv (Fin x) (Fin y) = (if y = 0 then (if x = 0 then NaN else inf_signed (x < 0)) else mkf (x / y))"
| "fdiv NaN _ = NaN"
| "fdiv _ NaN = NaN"
| "fdiv (Fin x) _ = Fin 0"
| "fdiv a (Fin y) = inf_signed (fneg_sign a \<noteq> (y < 0))"
| "fdiv _ _ = NaN"

text \<open>Comparisons: every comparison with \<open>NaN\<close> is false, also \<open>==\<close>.\<close>

fun flt :: "f64 \<Rightarrow> f64 \<Rightarrow> bool" where
  "flt (Fin x) (Fin y) = (x < y)"
| "flt NaN _ = False"
| "flt _ NaN = False"
| "flt NInf b = (b \<noteq> NInf)"
| "flt a NInf = False"
| "flt PInf _ = False"
| "flt _ PInf = True"

fun feq :: "f64 \<Rightarrow> f64 \<Rightarrow> bool" where
  "feq NaN _ = False"
| "feq a b = (a = b)"

definition fle :: "f64 \<Rightarrow> f64 \<Rightarrow> bool" where
  "fle a b = (flt a b \<or> feq a b)"

text \<open>\<open>math.Abs\<close>.\<close>

fun fabs :: "f64 \<Rightarrow> f64" where
  "fabs (Fin x) = Fin \<bar>x\<bar>"
| "fabs NaN = NaN"
| "fabs _ = PInf"

text \<open>\<open>float64(n)\<close> for an integer, and the truncating conversion \<open>int64(v)\<close>. The Go specification
  leaves the result open when the truncated value does not fit (or there is none); it is the
  parameter \<open>cv\<close>.\<close>

definition i2f :: "int \<Rightarrow> f64" where
  "i2f n = mkf (of_int n)"

definition trunc_rat :: "rat \<Rightarrow> int" where
  "trunc_rat x = (if 0 \<le> x then \<lfloor>x\<rfloor> else - \<lfloor>- x\<rfloor>)"

definition f2i :: "(f64 \<Rightarrow> int) \<Rightarrow> nat \<Rightarrow> f64 \<Rightarrow> int" where
  "f2i cv w v = (case v of
     Fin x \<Rightarrow> (let t = trunc_rat x in if - (2 ^ (w - 1)) \<le> t \<and> t < 2 ^ (w - 1) then t else cv v)
   | _ \<Rightarrow> cv v)"

fun is_fin :: "f64 \<Rightarrow> bool" where
  "is_fin (Fin _) = True"
| "is_fin _ = False"

fun valf :: "f64 \<Rightarrow> rat" where
  "valf (Fin x) = x"
| "valf _ = 0"

text \<open>The finite values of the format: a 53-bit integer times a power of two not below \<open>2^-1074\<close>.\<close>

definition repr64 :: "rat \<Rightarrow> bool" where
  "repr64 x \<longleftrightarrow> rnd64 x = x \<and> \<bar>x\<bar> < 2 ^ 1024"

definition wf64 :: "f64 \<Rightarrow> bool" where
  "wf64 v = (case v of Fin x \<Rightarrow> repr64 x | _ \<Rightarrow> True)"

lemmas [f64_ops] = fsub_def fis_zero_def inf_signed_def fle_def i2f_def

section \<open>Rounding to the nearest integer\<close>

lemma rne_of_int [simp]: "rne (of_int n) = n"
  by (simp add: rne_def)

lemma rne_bounds: "\<bar>of_int (rne x) - x\<bar> \<le> 1 / 2"
proof -
  have "of_int \<lfloor>x\<rfloor> \<le> x" "x < of_int \<lfloor>x\<rfloor> + 1" by linarith+
  then show ?thesis unfolding rne_def Let_def by (auto simp: abs_le_iff)
qed

lemma rne_minus: "rne (- x) = - rne x"
proof (cases "x = of_int \<lfloor>x\<rfloor>")
  case True
  then obtain n where "x = of_int n" by blast
  then show ?thesis by (metis of_int_minus rne_of_int)
next
  case False
  have fl: "\<lfloor>- x\<rfloor> = - \<lfloor>x\<rfloor> - 1"
    using False by linarith
  show ?thesis
    unfolding rne_def Let_def fl by (auto simp: field_simps)
qed

lemma rne_mono:
  assumes "x \<le> y" shows "rne x \<le> rne y"
proof (rule ccontr)
  assume "\<not> ?thesis"
  then have lt: "rne y + 1 \<le> rne x" by simp
  have "\<bar>of_int (rne x) - x\<bar> \<le> 1 / 2" "\<bar>of_int (rne y) - y\<bar> \<le> 1 / 2" by (rule rne_bounds)+
  moreover have "(of_int (rne y) :: rat) + 1 \<le> of_int (rne x)"
    using lt by (metis of_int_1 of_int_add of_int_le_iff)
  ultimately have "x = y" using assms by linarith
  with lt show False by simp
qed

lemma rne_ge_of_int: "of_int n \<le> x \<Longrightarrow> n \<le> rne x"
  using rne_mono [of "of_int n" x] by simp

lemma rne_le_of_int: "x \<le> of_int n \<Longrightarrow> rne x \<le> n"
  using rne_mono [of x "of_int n"] by simp

section \<open>The exponent of a rational\<close>

lemma flog2_bounds:
  assumes "0 < x" shows "2 powi (flog2 x) \<le> x" and "x < 2 powi (flog2 x + 1)"
proof -
  obtain p q where pq: "quotient_of x = (p, q)" by (cases "quotient_of x")
  then have q: "0 < q" and x: "x = of_int p / of_int q"
    by (auto simp: quotient_of_denom_pos quotient_of_div)
  with assms have p: "0 < p"
    by (simp add: zero_less_divide_iff)
  define a b where "a = bitlen p" and "b = bitlen q"
  have a1: "1 \<le> a" and b1: "1 \<le> b"
    using p q by (auto simp: a_def b_def bitlen_alt_def)
  have a: "(2::rat) powi (a - 1) \<le> of_int p" "of_int p < (2::rat) powi a"
    using bitlen_bounds [OF p] a1 unfolding a_def [symmetric]
    by (simp_all add: power_int_def flip: of_int_le_iff of_int_less_iff)
  have b: "(2::rat) powi (b - 1) \<le> of_int q" "of_int q < (2::rat) powi b"
    using bitlen_bounds [OF q] b1 unfolding b_def [symmetric]
    by (simp_all add: power_int_def flip: of_int_le_iff of_int_less_iff)
  have "x < 2 powi a / 2 powi (b - 1)"
    unfolding x using a b p q by (intro frac_less) auto
  then have up: "x < 2 powi (a - b + 1)"
    by (simp add: power_int_diff [symmetric] algebra_simps)
  have "2 powi (a - 1) / 2 powi b \<le> x"
    unfolding x using a b p q by (intro frac_le) auto
  then have lo: "2 powi (a - b - 1) \<le> x"
    by (simp add: power_int_diff [symmetric] algebra_simps)
  show "2 powi (flog2 x) \<le> x" and "x < 2 powi (flog2 x + 1)"
    using up lo by (auto simp: flog2_def pq a_def b_def Let_def)
qed

lemma powi2_pos [simp]: "0 < (2::rat) powi k"
  by (simp add: power_int_def)

lemma powi2_mono: "k \<le> l \<Longrightarrow> (2::rat) powi k \<le> 2 powi l"
  by (rule power_int_increasing) auto

lemma powi2_less_imp: "(2::rat) powi k < 2 powi l \<Longrightarrow> k < l"
  using powi2_mono [of l k] by linarith

lemma flog2_mono:
  assumes "0 < x" "x \<le> y" shows "flog2 x \<le> flog2 y"
proof -
  have "2 powi (flog2 x) \<le> x" using assms flog2_bounds by blast
  also have "x \<le> y" by fact
  also have "y < 2 powi (flog2 y + 1)" using assms flog2_bounds by auto
  finally show ?thesis using powi2_less_imp by fastforce
qed

lemma powi2_split: "j \<le> k \<Longrightarrow> (2::rat) powi k = of_int (2 ^ nat (k - j)) * 2 powi j"
  by (simp add: power_int_add [symmetric] flip: power_int_of_nat)

section \<open>Rounding to the grid\<close>

lemma rnd64_0 [simp]: "rnd64 0 = 0"
  by (simp add: rnd64_def)

lemma rnd64_minus [simp]: "rnd64 (- x) = - rnd64 x"
  by (simp add: rnd64_def ulp_exp_def rne_minus)

lemma rnd64_grid_ge:
  assumes "ulp_exp x \<le> e" "of_int n * 2 powi e \<le> x"
  shows "of_int n * 2 powi e \<le> rnd64 x"
proof (cases "x = 0")
  case True
  with assms show ?thesis by simp
next
  case False
  let ?u = "ulp_exp x"
  have eq: "(of_int n :: rat) * 2 powi e = of_int (n * 2 ^ nat (e - ?u)) * 2 powi ?u"
    using powi2_split [OF assms(1)] by simp
  have "of_int (n * 2 ^ nat (e - ?u)) \<le> x / 2 powi ?u"
    using assms(2) unfolding eq by (simp add: pos_le_divide_eq)
  then have "n * 2 ^ nat (e - ?u) \<le> rne (x / 2 powi ?u)"
    by (rule rne_ge_of_int)
  then show ?thesis
    unfolding eq rnd64_def using False by (simp del: of_int_mult)
qed

lemma rnd64_grid_le:
  assumes "ulp_exp x \<le> e" "x \<le> of_int n * 2 powi e"
  shows "rnd64 x \<le> of_int n * 2 powi e"
  using rnd64_grid_ge [of "- x" e "- n"] assms by (simp add: ulp_exp_def)

lemma rnd64_exact:
  assumes "ulp_exp x \<le> e" "x = of_int n * 2 powi e"
  shows "rnd64 x = x"
  using rnd64_grid_ge [of x e n] rnd64_grid_le [of x e n] assms by force

lemma rnd64_pos_mono:
  assumes "0 < x" "x \<le> y" shows "rnd64 x \<le> rnd64 y"
proof (cases "ulp_exp x = ulp_exp y")
  case True
  then show ?thesis
    using assms by (simp add: rnd64_def rne_mono divide_right_mono)
next
  case False
  have fl: "flog2 x \<le> flog2 y" by (rule flog2_mono [OF assms])
  with False assms have lt: "flog2 x + 1 \<le> flog2 y" and u: "ulp_exp x \<le> flog2 y" "ulp_exp y \<le> flog2 y"
    by (auto simp: ulp_exp_def max_def split: if_splits)
  have "x \<le> of_int 1 * 2 powi (flog2 y)"
    using flog2_bounds(2) [OF assms(1)] powi2_mono [OF lt] by simp
  with u(1) have "rnd64 x \<le> of_int 1 * 2 powi (flog2 y)"
    by (rule rnd64_grid_le)
  also have "\<dots> \<le> rnd64 y"
    using flog2_bounds(1) [of y] assms u(2) by (intro rnd64_grid_ge) auto
  finally show ?thesis .
qed

lemma rnd64_nonneg: "0 \<le> x \<Longrightarrow> 0 \<le> rnd64 x"
  using rnd64_grid_ge [of x "ulp_exp x" 0] by simp

lemma rnd64_mono:
  assumes "x \<le> y" shows "rnd64 x \<le> rnd64 y"
proof -
  consider "0 < x" | "x \<le> 0" "0 \<le> y" | "y < 0" by linarith
  then show ?thesis
  proof cases
    case 1
    with assms show ?thesis by (rule rnd64_pos_mono [rotated])
  next
    case 2
    then have "0 \<le> - rnd64 x" "0 \<le> rnd64 y"
      using rnd64_nonneg [of "- x"] rnd64_nonneg [of y] by simp_all
    then show ?thesis by simp
  next
    case 3
    then have "rnd64 (- y) \<le> rnd64 (- x)" using assms by (intro rnd64_pos_mono) auto
    then show ?thesis by simp
  qed
qed


lemma flog2_less:
  assumes "0 < x" "x < 2 powi k" shows "flog2 x < k"
  using flog2_bounds(1) [OF assms(1)] assms(2) by (intro powi2_less_imp) linarith

text \<open>A 53-bit integer times a power of two is a value of the format.\<close>

lemma rnd64_dyadic:
  assumes "\<bar>n\<bar> \<le> 2 ^ 53" "- 1074 \<le> e"
  shows "rnd64 (of_int n * 2 powi e) = of_int n * 2 powi e"
proof -
  let ?x = "of_int n * 2 powi e :: rat"
  have abs: "\<bar>?x\<bar> = of_int \<bar>n\<bar> * 2 powi e" by (simp add: abs_mult)
  consider "n = 0" | "n \<noteq> 0" "\<bar>n\<bar> < 2 ^ 53" | "\<bar>n\<bar> = 2 ^ 53" using assms by linarith
  then show ?thesis
  proof cases
    case 1
    then show ?thesis by simp
  next
    case 2
    have "of_int \<bar>n\<bar> < (2::rat) ^ 53"
      using 2 by (metis of_int_less_iff of_int_numeral of_int_power)
    then have "\<bar>?x\<bar> < 2 powi (53 + e)"
      unfolding abs by (simp add: power_int_add mult_strict_right_mono)
    with 2 have "flog2 \<bar>?x\<bar> < 53 + e" by (intro flog2_less) auto
    with assms(2) have "ulp_exp ?x \<le> e" by (simp add: ulp_exp_def)
    then show ?thesis by (rule rnd64_exact) simp
  next
    case 3
    then have x: "?x = of_int (sgn n) * 2 powi (53 + e)"
      using abs_mult_sgn [of n] by (simp add: power_int_add mult.assoc flip: of_int_mult)
    have "\<bar>?x\<bar> < 2 powi (54 + e)"
      unfolding abs 3 by (simp add: power_int_add)
    with 3 have "flog2 \<bar>?x\<bar> < 54 + e" by (intro flog2_less) auto
    with assms(2) have "ulp_exp ?x \<le> 53 + e" by (simp add: ulp_exp_def)
    from this x show ?thesis by (rule rnd64_exact)
  qed
qed

lemma rnd64_of_int [simp]: "\<bar>n\<bar> \<le> 2 ^ 53 \<Longrightarrow> rnd64 (of_int n) = of_int n"
  using rnd64_dyadic [of n 0] by simp

lemma rne_ulp_bound:
  assumes "x \<noteq> 0" shows "\<bar>rne (x / 2 powi (ulp_exp x))\<bar> \<le> 2 ^ 53"
proof -
  let ?u = "ulp_exp x"
  have "\<bar>x\<bar> < 2 powi (flog2 \<bar>x\<bar> + 1)" using assms flog2_bounds(2) by simp
  also have "\<dots> \<le> 2 powi (53 + ?u)" by (rule powi2_mono) (simp add: ulp_exp_def)
  finally have "\<bar>x / 2 powi ?u\<bar> \<le> of_int (2 ^ 53)"
    by (simp add: abs_divide pos_divide_le_eq power_int_add)
  then have "x / 2 powi ?u \<le> of_int (2 ^ 53)" "of_int (- (2 ^ 53)) \<le> x / 2 powi ?u"
    by (metis abs_le_D1, metis abs_le_D2 minus_le_iff of_int_minus)
  then show ?thesis
    using rne_le_of_int rne_ge_of_int by (fastforce simp: abs_le_iff)
qed

lemma rnd64_idem [simp]: "rnd64 (rnd64 x) = rnd64 x"
proof (cases "x = 0")
  case False
  then show ?thesis
    unfolding rnd64_def [of x] using rnd64_dyadic [OF rne_ulp_bound [OF False], of "ulp_exp x"]
    by (simp add: ulp_exp_def)
qed simp

text \<open>Rounding keeps every bound that is itself a value of the format.\<close>

lemma rnd64_le_repr: "x \<le> b \<Longrightarrow> rnd64 b = b \<Longrightarrow> rnd64 x \<le> b"
  using rnd64_mono [of x b] by simp

lemma rnd64_ge_repr: "b \<le> x \<Longrightarrow> rnd64 b = b \<Longrightarrow> b \<le> rnd64 x"
  using rnd64_mono [of b x] by simp

lemma rnd64_nonpos: "x \<le> 0 \<Longrightarrow> rnd64 x \<le> 0"
  by (rule rnd64_le_repr) simp_all


section \<open>Finite results\<close>

text \<open>Every magnitude of the program stays far below the overflow threshold; \<open>2^1000\<close> is the bound
  the lemmas carry.\<close>

lemma rnd64_abs_bound: "\<bar>x\<bar> \<le> of_int (2 ^ k) \<Longrightarrow> \<bar>rnd64 x\<bar> \<le> of_int (2 ^ k)"
proof -
  assume x: "\<bar>x\<bar> \<le> of_int (2 ^ k)"
  have r: "rnd64 (of_int (2 ^ k)) = of_int (2 ^ k)"
    using rnd64_dyadic [of 1 "int k"] by simp
  from x have "x \<le> of_int (2 ^ k)" "- of_int (2 ^ k) \<le> x" by linarith+
  then have "rnd64 x \<le> of_int (2 ^ k)" "- of_int (2 ^ k) \<le> rnd64 x"
    using r by (auto intro: rnd64_le_repr rnd64_ge_repr simp del: of_int_power)
  then show ?thesis by (simp add: abs_le_iff)
qed

lemma mkf_fin: "\<bar>x\<bar> \<le> 2 ^ 1000 \<Longrightarrow> mkf x = Fin (rnd64 x)"
  using rnd64_abs_bound [of x 1000]
  by (auto simp: mkf_def Let_def abs_le_iff not_le intro: le_less_trans)

lemma i2f_fin: "\<bar>n\<bar> \<le> 2 ^ 1000 \<Longrightarrow> i2f n = Fin (rnd64 (of_int n))"
  unfolding i2f_def by (rule mkf_fin) (metis of_int_abs of_int_le_iff of_int_numeral of_int_power)

lemma i2f_small [simp]: "\<bar>n\<bar> \<le> 2 ^ 53 \<Longrightarrow> i2f n = Fin (of_int n)"
  by (subst i2f_fin) (auto intro: order_trans)

lemma fadd_fin: "\<bar>x + y\<bar> \<le> 2 ^ 1000 \<Longrightarrow> fadd (Fin x) (Fin y) = Fin (rnd64 (x + y))"
  by (simp add: mkf_fin)

lemma fsub_fin: "\<bar>x - y\<bar> \<le> 2 ^ 1000 \<Longrightarrow> fsub (Fin x) (Fin y) = Fin (rnd64 (x - y))"
  by (simp add: fsub_def mkf_fin)

lemma fmul_fin: "\<bar>x * y\<bar> \<le> 2 ^ 1000 \<Longrightarrow> fmul (Fin x) (Fin y) = Fin (rnd64 (x * y))"
  by (simp add: mkf_fin)

lemma fdiv_fin: "y \<noteq> 0 \<Longrightarrow> \<bar>x / y\<bar> \<le> 2 ^ 1000 \<Longrightarrow> fdiv (Fin x) (Fin y) = Fin (rnd64 (x / y))"
  by (simp add: mkf_fin)

lemma is_fin_conv: "is_fin v \<longleftrightarrow> (\<exists>x. v = Fin x)"
  by (cases v) auto

lemma fle_Fin [simp]: "fle (Fin x) (Fin y) \<longleftrightarrow> x \<le> y"
  by (auto simp: fle_def)

section \<open>Truncation\<close>

lemma trunc_of_int [simp]: "trunc_rat (of_int n) = n"
  by (simp add: trunc_rat_def flip: of_int_minus)

lemma trunc_mono:
  assumes "x \<le> y" shows "trunc_rat x \<le> trunc_rat y"
proof -
  consider "0 \<le> x" | "x < 0" "0 \<le> y" | "y < 0" by linarith
  then show ?thesis
  proof cases
    case 2
    then have "trunc_rat x = - \<lfloor>- x\<rfloor>" "trunc_rat y = \<lfloor>y\<rfloor>" by (simp_all add: trunc_rat_def)
    moreover have "0 \<le> \<lfloor>- x\<rfloor>" "0 \<le> \<lfloor>y\<rfloor>" using 2 by simp_all
    ultimately show ?thesis by linarith
  next
    case 3
    then have "\<lfloor>- y\<rfloor> \<le> \<lfloor>- x\<rfloor>" using assms by (intro floor_mono) simp
    with 3 assms show ?thesis by (simp add: trunc_rat_def)
  qed (use assms in \<open>simp add: trunc_rat_def floor_mono\<close>)
qed

lemma trunc_nonneg: "0 \<le> x \<Longrightarrow> 0 \<le> trunc_rat x"
  by (simp add: trunc_rat_def)

lemma trunc_le_of_int: "x \<le> of_int n \<Longrightarrow> trunc_rat x \<le> n"
  using trunc_mono [of x "of_int n"] by simp

lemma trunc_ge_of_int: "of_int n \<le> x \<Longrightarrow> n \<le> trunc_rat x"
  using trunc_mono [of "of_int n" x] by simp

lemma f2i_in_range:
  "- (2 ^ (w - 1)) \<le> trunc_rat x \<Longrightarrow> trunc_rat x < 2 ^ (w - 1) \<Longrightarrow> f2i cv w (Fin x) = trunc_rat x"
  by (simp add: f2i_def)

section \<open>Evaluation\<close>

text \<open>Small integers round to themselves, which spares the evaluation of witnesses most of the rational
  arithmetic.\<close>

lemma rnd64_code [code]:
  "rnd64 x = (if \<bar>x\<bar> \<le> 9007199254740992 \<and> of_int \<lfloor>x\<rfloor> = x then x
     else of_int (rne (x / 2 powi (ulp_exp x))) * 2 powi (ulp_exp x))"
proof (cases "\<bar>x\<bar> \<le> 9007199254740992 \<and> of_int \<lfloor>x\<rfloor> = x")
  case True
  then have "\<bar>\<lfloor>x\<rfloor>\<bar> \<le> 2 ^ 53" by (simp add: abs_le_iff le_floor_iff floor_le_iff) linarith
  then show ?thesis using rnd64_of_int [of "\<lfloor>x\<rfloor>"] True by simp
qed (auto simp: rnd64_def)

lemma mkf_code [code]:
  "mkf x = (let r = rnd64 x in
     if \<bar>r\<bar> \<le> 9007199254740992 then Fin r
     else if 2 ^ 1024 \<le> r then PInf else if r \<le> - (2 ^ 1024) then NInf else Fin r)"
proof -
  have "(9007199254740992 :: rat) < 2 ^ 1024" by simp
  then show ?thesis by (auto simp: mkf_def Let_def abs_le_iff)
qed

end
