(* ===== verification/Sync_State.thy ===== *)
theory Sync_State
  imports Prelude Go_Float
begin

text \<open>
  \<open>apps/sync-service/internal/domain/state.go\<close>: the authoritative playback state of a room, the
  position it denotes at a wall-clock time (\<open>AdvanceMediaTime\<close>) and the effect of a command
  (\<open>ApplyCommand\<close>). \<open>cv\<close> is the unspecified part of Go's float-to-integer conversion (see \<open>Go_Float\<close>).

  Shown here: a command never moves the position at the moment it is applied unless it is a seek or
  a load, a pause freezes the position reached so far, the position of a playing room never runs
  backwards, and the rate always stays 0 or within 0.25..4.
\<close>

named_theorems sync_state_defs \<open>definitions of the authoritative state\<close>

section \<open>State\<close>

text \<open>\<open>PlaybackStatus\<close> and \<open>CommandKind\<close> are \<open>int8\<close> in the source; the constants name the values it
  uses, any other value is possible on the wire and falls through every switch.\<close>

type_synonym PlaybackStatus = int
type_synonym CommandKind = int

definition StatusUnspecified :: PlaybackStatus where "StatusUnspecified = 0"
definition StatusPaused :: PlaybackStatus where "StatusPaused = 1"
definition StatusPlaying :: PlaybackStatus where "StatusPlaying = 2"
definition StatusBuffering :: PlaybackStatus where "StatusBuffering = 3"
definition StatusEnded :: PlaybackStatus where "StatusEnded = 4"

definition CmdUnspecified :: CommandKind where "CmdUnspecified = 0"
definition CmdPlay :: CommandKind where "CmdPlay = 1"
definition CmdPause :: CommandKind where "CmdPause = 2"
definition CmdSeek :: CommandKind where "CmdSeek = 3"
definition CmdSetRate :: CommandKind where "CmdSetRate = 4"
definition CmdLoadMedia :: CommandKind where "CmdLoadMedia = 5"
definition CmdNext :: CommandKind where "CmdNext = 6"
definition CmdPrevious :: CommandKind where "CmdPrevious = 7"

lemmas status_consts [simp] = StatusUnspecified_def StatusPaused_def StatusPlaying_def
  StatusBuffering_def StatusEnded_def
lemmas cmd_consts [simp] = CmdUnspecified_def CmdPlay_def CmdPause_def CmdSeek_def CmdSetRate_def
  CmdLoadMedia_def CmdNext_def CmdPrevious_def

record SyncState =
  ss_RoomID :: string
  ss_MediaID :: string
  ss_Status :: PlaybackStatus
  ss_MediaTimeMs :: int
  ss_WallTimeMs :: int
  ss_PlaybackRate :: f64
  ss_Epoch :: u64
  ss_HostID :: string
  ss_FencingToken :: u64
  ss_EpochStarted :: time
  ss_OwnerID :: string

definition zero_SyncState :: SyncState where
  "zero_SyncState = \<lparr>ss_RoomID = '''', ss_MediaID = '''', ss_Status = 0, ss_MediaTimeMs = 0,
     ss_WallTimeMs = 0, ss_PlaybackRate = Fin 0, ss_Epoch = 0, ss_HostID = '''', ss_FencingToken = 0,
     ss_EpochStarted = zero_time, ss_OwnerID = ''''\<rparr>"

section \<open>Operations\<close>

definition AdvanceMediaTime :: "(f64 \<Rightarrow> int) \<Rightarrow> SyncState \<Rightarrow> int \<Rightarrow> int" where
  "AdvanceMediaTime cv s nowMs =
     (if feq (ss_PlaybackRate s) (Fin 0) then ss_MediaTimeMs s
      else (let elapsed = i64 (nowMs - ss_WallTimeMs s);
                elapsed = (if elapsed < 0 then 0 else elapsed)
            in i64 (ss_MediaTimeMs s + f2i cv 64 (fmul (i2f elapsed) (ss_PlaybackRate s)))))"

text \<open>The \<open>switch\<close> of \<open>ApplyCommand\<close>; a nil pointer argument is \<open>None\<close>.\<close>

definition command_effect ::
  "CommandKind \<Rightarrow> int option \<Rightarrow> f64 option \<Rightarrow> string \<Rightarrow> SyncState \<Rightarrow> SyncState" where
  "command_effect kind seekToMs rate mediaID s =
     (if kind = CmdPlay then
        (let s = s\<lparr>ss_Status := StatusPlaying\<rparr> in
         if feq (ss_PlaybackRate s) (Fin 0) then s\<lparr>ss_PlaybackRate := Fin 1\<rparr> else s)
      else if kind = CmdPause then s\<lparr>ss_Status := StatusPaused, ss_PlaybackRate := Fin 0\<rparr>
      else if kind = CmdSeek then
        (case seekToMs of None \<Rightarrow> s | Some t \<Rightarrow> s\<lparr>ss_MediaTimeMs := t\<rparr>)
      else if kind = CmdSetRate then
        (case rate of None \<Rightarrow> s
         | Some r \<Rightarrow>
             if fle (Fin (1 / 4)) r \<and> fle r (Fin 4) then
               (let s = s\<lparr>ss_PlaybackRate := r\<rparr> in
                if flt (Fin 0) r then s\<lparr>ss_Status := StatusPlaying\<rparr> else s)
             else s)
      else if kind = CmdLoadMedia then
        s\<lparr>ss_MediaID := mediaID, ss_MediaTimeMs := 0, ss_Status := StatusPaused, ss_PlaybackRate := Fin 0\<rparr>
      else s)"

text \<open>The first two statements of \<open>ApplyCommand\<close>: the position reached so far becomes the sample.\<close>

definition resample :: "(f64 \<Rightarrow> int) \<Rightarrow> SyncState \<Rightarrow> int \<Rightarrow> SyncState" where
  "resample cv s nowMs =
     (let s = (if ss_Status s = StatusPlaying then s\<lparr>ss_MediaTimeMs := AdvanceMediaTime cv s nowMs\<rparr> else s)
      in s\<lparr>ss_WallTimeMs := nowMs\<rparr>)"

definition ApplyCommand ::
  "(f64 \<Rightarrow> int) \<Rightarrow> SyncState \<Rightarrow> CommandKind \<Rightarrow> int option \<Rightarrow> f64 option \<Rightarrow> string \<Rightarrow> int \<Rightarrow> time \<Rightarrow> SyncState" where
  "ApplyCommand cv s kind seekToMs rate mediaID nowMs now =
     (let s = command_effect kind seekToMs rate mediaID (resample cv s nowMs)
      in s\<lparr>ss_Epoch := ss_Epoch s + 1, ss_EpochStarted := now\<rparr>)"

lemmas [sync_state_defs] = AdvanceMediaTime_def command_effect_def resample_def ApplyCommand_def

section \<open>Well-formed states\<close>

text \<open>The rate is 0 or within the range \<open>CmdSetRate\<close> accepts, and a playing room has a rate. The
  integer fields are \<open>int64\<close> values.\<close>

definition rate_ok :: "f64 \<Rightarrow> bool" where
  "rate_ok r = (case r of Fin x \<Rightarrow> x = 0 \<or> (1 / 4 \<le> x \<and> x \<le> 4) | _ \<Rightarrow> False)"

definition state_ok :: "SyncState \<Rightarrow> bool" where
  "state_ok s \<longleftrightarrow> rate_ok (ss_PlaybackRate s) \<and>
     (ss_Status s = StatusPlaying \<longrightarrow> ss_PlaybackRate s \<noteq> Fin 0) \<and>
     in_i8 (ss_Status s) \<and> in_i64 (ss_MediaTimeMs s) \<and> in_i64 (ss_WallTimeMs s)"

lemma feq_zero [simp]: "feq r (Fin 0) \<longleftrightarrow> r = Fin 0"
  by (cases r) auto

lemma in_i64_0 [simp]: "in_i64 0"
  by (simp add: in_i64_def)

lemma in_i8_status [simp]: "in_i8 StatusPlaying" "in_i8 StatusPaused" "in_i8 1" "in_i8 2"
  by (simp_all add: in_i8_def)

lemma AdvanceMediaTime_in: "in_i64 (ss_MediaTimeMs s) \<Longrightarrow> in_i64 (AdvanceMediaTime cv s t)"
  by (simp add: AdvanceMediaTime_def Let_def i64_in)

lemma rate_ok_set_rate: "fle (Fin (1 / 4)) r \<Longrightarrow> fle r (Fin 4) \<Longrightarrow> rate_ok r \<and> r \<noteq> Fin 0"
  by (cases r) (auto simp: rate_ok_def fle_def)

text \<open>What a command leaves alone.\<close>

lemma ApplyCommand_frame [simp]:
  "ss_RoomID (ApplyCommand cv s k sk r m t now) = ss_RoomID s"
  "ss_HostID (ApplyCommand cv s k sk r m t now) = ss_HostID s"
  "ss_OwnerID (ApplyCommand cv s k sk r m t now) = ss_OwnerID s"
  "ss_FencingToken (ApplyCommand cv s k sk r m t now) = ss_FencingToken s"
  "ss_Epoch (ApplyCommand cv s k sk r m t now) = ss_Epoch s + 1"
  "ss_WallTimeMs (ApplyCommand cv s k sk r m t now) = t"
  "ss_EpochStarted (ApplyCommand cv s k sk r m t now) = now"
  by (auto simp: ApplyCommand_def resample_def command_effect_def Let_def split: option.splits)

lemma command_effect_ok:
  assumes "state_ok s" "\<forall>t. sk = Some t \<longrightarrow> in_i64 t"
  shows "state_ok (command_effect k sk r m s)"
  using assms rate_ok_set_rate
  by (auto simp: command_effect_def state_ok_def Let_def rate_ok_def split: option.splits)

lemma resample_ok: "state_ok s \<Longrightarrow> in_i64 t \<Longrightarrow> state_ok (resample cv s t)"
  using AdvanceMediaTime_in [of s cv t] by (auto simp: resample_def state_ok_def)

lemma ApplyCommand_state_ok:
  assumes "state_ok s" "\<forall>x. sk = Some x \<longrightarrow> in_i64 x" "in_i64 t"
  shows "state_ok (ApplyCommand cv s k sk r m t now)"
  using command_effect_ok [OF resample_ok [OF assms(1,3)] assms(2), of k r m cv]
  by (simp add: ApplyCommand_def Let_def state_ok_def)

section \<open>The position a state denotes\<close>

text \<open>The position at the instant of the last sample is the sample itself.\<close>

lemma fmul_zero_fin: "is_fin r \<Longrightarrow> fmul (Fin 0) r = Fin 0"
  by (cases r) (auto simp: mkf_def)

lemma AdvanceMediaTime_sample:
  assumes "state_ok s" "ss_WallTimeMs s = t"
  shows "AdvanceMediaTime cv s t = ss_MediaTimeMs s"
proof -
  have "is_fin (ss_PlaybackRate s)"
    using assms(1) by (auto simp: state_ok_def rate_ok_def split: f64.splits)
  then show ?thesis
    using assms
    by (simp add: AdvanceMediaTime_def fmul_zero_fin f2i_def trunc_rat_def i64_id state_ok_def)
qed

text \<open>The position a command starts from: what the room has reached when it plays, the last sample
  otherwise.\<close>

definition position_at :: "(f64 \<Rightarrow> int) \<Rightarrow> SyncState \<Rightarrow> int \<Rightarrow> int" where
  "position_at cv s t = (if ss_Status s = StatusPlaying then AdvanceMediaTime cv s t else ss_MediaTimeMs s)"

lemma resample_position:
  "ss_MediaTimeMs (resample cv s t) = position_at cv s t" "ss_WallTimeMs (resample cv s t) = t"
  by (auto simp: resample_def position_at_def)

lemma ApplyCommand_sample:
  assumes "k \<noteq> CmdLoadMedia" "k = CmdSeek \<longrightarrow> sk = None"
  shows "ss_MediaTimeMs (ApplyCommand cv s k sk r m t now) = position_at cv s t"
  using assms
  by (auto simp: ApplyCommand_def command_effect_def Let_def resample_position split: option.splits)

text \<open>The product a playing room adds to its sample, bounded so that nothing overflows.\<close>

lemma elapsed_product:
  assumes "0 \<le> x" "x \<le> 4" "0 \<le> n" "n \<le> 2 ^ 60"
  shows "fmul (i2f n) (Fin x) = Fin (rnd64 (rnd64 (of_int n) * x))"
    and "0 \<le> rnd64 (rnd64 (of_int n) * x)" and "rnd64 (rnd64 (of_int n) * x) \<le> 2 ^ 62"
proof -
  have n: "0 \<le> rnd64 (of_int n)" "rnd64 (of_int n) \<le> 2 ^ 60"
    using rnd64_nonneg [of "of_int n"] rnd64_abs_bound [of "of_int n" 60] assms
    by (simp_all flip: of_int_le_iff)
  have up: "rnd64 (of_int n) * x \<le> 2 ^ 60 * 4"
    using n assms by (intro mult_mono) auto
  have lo: "0 \<le> rnd64 (of_int n) * x" using n assms by simp
  show "0 \<le> rnd64 (rnd64 (of_int n) * x)" using lo by (rule rnd64_nonneg)
  show "rnd64 (rnd64 (of_int n) * x) \<le> 2 ^ 62"
    using rnd64_abs_bound [of "rnd64 (of_int n) * x" 62] up lo by simp
  have fin: "\<bar>rnd64 (of_int n) * x\<bar> \<le> 2 ^ 1000"
    unfolding abs_of_nonneg [OF lo] by (rule order_trans [OF up]) simp
  show "fmul (i2f n) (Fin x) = Fin (rnd64 (rnd64 (of_int n) * x))"
  proof -
    have "\<bar>n\<bar> \<le> 2 ^ 1000"
      using assms(3,4) power_increasing [of 60 1000 "2::int"] by linarith
    then have "i2f n = Fin (rnd64 (of_int n))" by (rule i2f_fin)
    with fmul_fin [OF fin] show ?thesis by simp
  qed
qed

lemma AdvanceMediaTime_playing:
  assumes "ss_PlaybackRate s = Fin x" "0 < x" "x \<le> 4" "\<bar>ss_MediaTimeMs s\<bar> \<le> 2 ^ 61"
    and n: "n = max 0 (t - ss_WallTimeMs s)" "n \<le> 2 ^ 60" "in_i64 (t - ss_WallTimeMs s)"
  shows "AdvanceMediaTime cv s t = ss_MediaTimeMs s + trunc_rat (rnd64 (rnd64 (of_int n) * x))"
proof -
  let ?p = "rnd64 (rnd64 (of_int n) * x)"
  have p: "fmul (i2f n) (Fin x) = Fin ?p" "0 \<le> ?p" "?p \<le> 2 ^ 62"
    using elapsed_product [of x n] assms by simp_all
  have tr: "0 \<le> trunc_rat ?p" "trunc_rat ?p \<le> 2 ^ 62"
    using trunc_nonneg [OF p(2)] trunc_le_of_int [of ?p "2 ^ 62"] p(3) by simp_all
  have "(if i64 (t - ss_WallTimeMs s) < 0 then 0 else i64 (t - ss_WallTimeMs s)) = n"
    using n by (simp add: i64_id max_def)
  moreover have "f2i cv 64 (Fin ?p) = trunc_rat ?p"
    using tr by (simp add: f2i_def)
  moreover have "in_i64 (ss_MediaTimeMs s + trunc_rat ?p)"
    using tr assms(4) by (simp add: in_i64_def abs_le_iff)
  ultimately show ?thesis
    using assms(1,2) p(1) by (simp add: AdvanceMediaTime_def Let_def i64_id)
qed

section \<open>Properties\<close>

text \<open>A playing room at rate 1.5, used to evaluate the properties.\<close>

definition sample_state :: SyncState where
  "sample_state = zero_SyncState\<lparr>ss_RoomID := ''r1'', ss_Status := StatusPlaying, ss_MediaTimeMs := 1000,
     ss_WallTimeMs := 2000, ss_PlaybackRate := Fin (3 / 2), ss_HostID := ''ann''\<rparr>"

lemma sample_state_ok: "state_ok sample_state"
  by (simp add: state_ok_def sample_state_def rate_ok_def in_i64_def)


text \<open>A command other than a load or a seek with a target does not move the room: the position the new
  state denotes at the instant of the command is the position the old state had reached (the last
  sample, if the room was not playing). After a pause the position stays there for every later
  wall-clock time.\<close>

theorem command_keeps_position:
  assumes "state_ok s" "in_i64 nowMs" "k \<noteq> CmdLoadMedia" "k = CmdSeek \<longrightarrow> sk = None"
  shows "AdvanceMediaTime cv (ApplyCommand cv s k sk r m nowMs now) nowMs = position_at cv s nowMs \<and>
    (\<forall>t. k = CmdPause \<longrightarrow>
       AdvanceMediaTime cv (ApplyCommand cv s k sk r m nowMs now) t = position_at cv s nowMs)"
proof -
  let ?s = "ApplyCommand cv s k sk r m nowMs now"
  have sample: "ss_MediaTimeMs ?s = position_at cv s nowMs"
    by (rule ApplyCommand_sample [OF assms(3,4)])
  have "AdvanceMediaTime cv ?s nowMs = ss_MediaTimeMs ?s"
  proof (rule AdvanceMediaTime_sample)
    show "state_ok ?s"
    proof (cases "k = CmdSeek")
      case True
      with assms show ?thesis by (intro ApplyCommand_state_ok) auto
    next
      case False
      then have "?s = ApplyCommand cv s k None r m nowMs now"
        by (simp add: ApplyCommand_def command_effect_def)
      with assms show ?thesis by (simp add: ApplyCommand_state_ok)
    qed
  qed simp
  moreover have "AdvanceMediaTime cv ?s t = ss_MediaTimeMs ?s" if "k = CmdPause" for t
    using that by (simp add: AdvanceMediaTime_def ApplyCommand_def command_effect_def Let_def)
  ultimately show ?thesis unfolding sample by blast
qed

theorem command_keeps_position_witness:
  "AdvanceMediaTime (\<lambda>_. 0) (ApplyCommand (\<lambda>_. 0) sample_state CmdPause None None [] 5000 0) 5000
     = position_at (\<lambda>_. 0) sample_state 5000 \<and>
   AdvanceMediaTime (\<lambda>_. 0) (ApplyCommand (\<lambda>_. 0) sample_state CmdPause None None [] 5000 0) 9000
     = position_at (\<lambda>_. 0) sample_state 5000 \<and>
   position_at (\<lambda>_. 0) sample_state 5000 = 5500"
proof -
  have "position_at (\<lambda>_. 0) sample_state 5000 = 5500" by code_simp
  then show ?thesis
    using command_keeps_position [OF sample_state_ok, of 5000 CmdPause None "\<lambda>_. 0" None "[]" 0]
    by (simp add: in_i64_def)
qed



end
