(* ===== verification/Sync_Heartbeat.thy ===== *)
theory Sync_Heartbeat
  imports Prelude Go_Float "HOL-Library.Multiset"
begin

text \<open>
  \<open>apps/sync-service/internal/domain/heartbeat.go\<close> and \<open>controller.go\<close>: the clock estimate of one
  client, the aggregates over the clients of a room (median by in-place insertion sort, largest
  absolute value) and the proportional-integral drift controller.

  Shown here: the median routine sorts and returns a median; the smoothed round-trip time never
  becomes negative; the integral of the controller and every correction it returns are bounded.
\<close>

section \<open>Client heartbeat\<close>

record ClientHeartbeat =
  hb_SmoothedRTT :: f64
  hb_SmoothedOffset :: f64
  hb_DriftMs :: f64
  hb_LastSeen :: time
  hb_prevT1 :: int
  hb_prevT2 :: int
  hb_prevT3 :: int
  hb_hasPrev :: bool

definition zero_ClientHeartbeat :: ClientHeartbeat where
  "zero_ClientHeartbeat = \<lparr>hb_SmoothedRTT = Fin 0, hb_SmoothedOffset = Fin 0, hb_DriftMs = Fin 0,
     hb_LastSeen = zero_time, hb_prevT1 = 0, hb_prevT2 = 0, hb_prevT3 = 0, hb_hasPrev = False\<rparr>"

definition ewmaAlpha :: f64 where "ewmaAlpha = Fin (1 / 4)"

text \<open>The smoothing step \<open>ewmaAlpha*new + (1-ewmaAlpha)*old\<close>; the constant \<open>1-ewmaAlpha\<close> is exact.\<close>

definition ewma :: "f64 \<Rightarrow> f64 \<Rightarrow> f64" where
  "ewma new old = fadd (fmul ewmaAlpha new) (fmul (Fin (3 / 4)) old)"

definition Update :: "int \<Rightarrow> int \<Rightarrow> int \<Rightarrow> time \<Rightarrow> ClientHeartbeat \<Rightarrow> ClientHeartbeat" where
  "Update t1 t2 t3 now c =
     (if \<not> hb_hasPrev c then
        c\<lparr>hb_prevT1 := t1, hb_prevT2 := t2, hb_prevT3 := t3, hb_hasPrev := True, hb_LastSeen := now\<rparr>
      else
        (let t4 = t1;
             rtt = fsub (i2f (i64 (t4 - hb_prevT1 c))) (i2f (i64 (hb_prevT3 c - hb_prevT2 c)));
             rtt = (if flt rtt (Fin 0) then Fin 0 else rtt);
             offset = fdiv (fadd (i2f (i64 (hb_prevT2 c - hb_prevT1 c))) (i2f (i64 (hb_prevT3 c - t4)))) (Fin 2);
             c = (if feq (hb_SmoothedRTT c) (Fin 0)
                  then c\<lparr>hb_SmoothedRTT := rtt, hb_SmoothedOffset := offset\<rparr>
                  else c\<lparr>hb_SmoothedRTT := ewma rtt (hb_SmoothedRTT c),
                         hb_SmoothedOffset := ewma offset (hb_SmoothedOffset c)\<rparr>)
         in c\<lparr>hb_prevT1 := t1, hb_prevT2 := t2, hb_prevT3 := t3, hb_LastSeen := now\<rparr>))"

definition IsAlive :: "time \<Rightarrow> duration \<Rightarrow> ClientHeartbeat \<Rightarrow> bool" where
  "IsAlive now timeout c \<longleftrightarrow> time_sub now (hb_LastSeen c) < timeout"

definition ClientMediaTimeAt :: "int \<Rightarrow> ClientHeartbeat \<Rightarrow> f64" where
  "ClientMediaTimeAt clientMediaTimeMs c = fadd (i2f clientMediaTimeMs) (hb_SmoothedOffset c)"

definition Heartbeat_Reset :: "ClientHeartbeat \<Rightarrow> ClientHeartbeat" where
  "Heartbeat_Reset c = c\<lparr>hb_SmoothedRTT := Fin 0, hb_SmoothedOffset := Fin 0, hb_DriftMs := Fin 0,
     hb_prevT1 := 0, hb_prevT2 := 0, hb_prevT3 := 0, hb_hasPrev := False\<rparr>"

section \<open>Aggregates\<close>

text \<open>The inner loop of the insertion sort, with \<open>j\<close> counting the elements of \<open>sorted\<close> at or before the
  source's \<open>j\<close> (so 0 is the source's \<open>j = -1\<close>); it returns the slice and the index for \<open>key\<close>.\<close>

fun shift_loop :: "f64 \<Rightarrow> nat \<Rightarrow> f64 list \<Rightarrow> f64 list \<times> nat" where
  "shift_loop key 0 xs = (xs, 0)"
| "shift_loop key (Suc j) xs =
     (if flt key (xs ! j) then shift_loop key j (xs[Suc j := xs ! j]) else (xs, Suc j))"

definition sort_step :: "nat \<Rightarrow> f64 list \<Rightarrow> f64 list" where
  "sort_step i xs = (let key = xs ! i; (xs, j) = shift_loop key i xs in xs[j := key])"

definition insertion_sort :: "f64 list \<Rightarrow> f64 list" where
  "insertion_sort vals = fold sort_step [1..<length vals] vals"

definition MedianFloats :: "f64 list \<Rightarrow> f64" where
  "MedianFloats vals =
     (if length vals = 0 then Fin 0
      else (let sorted = insertion_sort vals; mid = length sorted div 2 in
            if length sorted mod 2 = 0 then fdiv (fadd (sorted ! (mid - 1)) (sorted ! mid)) (Fin 2)
            else sorted ! mid))"

definition MedianRTT :: "f64 list \<Rightarrow> f64" where
  "MedianRTT rtts =
     (if length rtts = 0 then Fin 0
      else (let sorted = insertion_sort rtts; mid = length sorted div 2 in
            if length sorted mod 2 = 0 then fdiv (fadd (sorted ! (mid - 1)) (sorted ! mid)) (Fin 2)
            else sorted ! mid))"

definition MaxAbsFloats :: "f64 list \<Rightarrow> f64" where
  "MaxAbsFloats vals =
     (if length vals = 0 then Fin 0
      else foldl (\<lambda>m v. let a = fabs v in if flt m a then a else m) (fabs (hd vals)) (tl vals))"

section \<open>Drift controller\<close>

record DriftController =
  dc_Kp :: f64
  dc_Ki :: f64
  dc_IntegralClampMs :: f64
  dc_DiscontinuityThresholdMs :: f64
  dc_integral :: f64

definition NewDriftController :: DriftController where
  "NewDriftController = \<lparr>dc_Kp = mkf (15 / 100), dc_Ki = mkf (2 / 100), dc_IntegralClampMs = Fin 200,
     dc_DiscontinuityThresholdMs = Fin 2000, dc_integral = Fin 0\<rparr>"

record ControllerResult =
  cr_CorrectionMs :: f64
  cr_ForceSnapshot :: bool

text \<open>\<open>Duration.Seconds\<close>.\<close>

definition Seconds :: "duration \<Rightarrow> f64" where
  "Seconds d = fadd (i2f (d sdiv second)) (fdiv (i2f (d smod second)) (Fin 1000000000))"

definition Correct ::
  "f64 \<Rightarrow> duration \<Rightarrow> int \<Rightarrow> u32 \<Rightarrow> DriftController \<Rightarrow> ControllerResult \<times> DriftController" where
  "Correct medianDriftMs dt activePeers confidence dc =
     (if activePeers < 2 then (\<lparr>cr_CorrectionMs = Fin 0, cr_ForceSnapshot = False\<rparr>, dc)
      else if confidence < 30 then (\<lparr>cr_CorrectionMs = Fin 0, cr_ForceSnapshot = False\<rparr>, dc)
      else if flt (dc_DiscontinuityThresholdMs dc) (fabs medianDriftMs) then
        (\<lparr>cr_CorrectionMs = Fin 0, cr_ForceSnapshot = True\<rparr>, dc\<lparr>dc_integral := Fin 0\<rparr>)
      else
        (let dtSec = Seconds dt;
             integral = fadd (dc_integral dc) (fmul medianDriftMs dtSec);
             integral = (if flt (dc_IntegralClampMs dc) integral then dc_IntegralClampMs dc
                         else if flt integral (fneg (dc_IntegralClampMs dc)) then fneg (dc_IntegralClampMs dc)
                         else integral);
             correction = fadd (fmul (dc_Kp dc) medianDriftMs) (fmul (dc_Ki dc) integral)
         in (\<lparr>cr_CorrectionMs = correction, cr_ForceSnapshot = False\<rparr>, dc\<lparr>dc_integral := integral\<rparr>)))"

definition Controller_Reset :: "DriftController \<Rightarrow> DriftController" where
  "Controller_Reset dc = dc\<lparr>dc_integral := Fin 0\<rparr>"

section \<open>Sorting\<close>

text \<open>The insertion a step of the sort performs, on the reversed prefix.\<close>

fun ins_rev :: "f64 \<Rightarrow> f64 list \<Rightarrow> f64 list" where
  "ins_rev key [] = [key]"
| "ins_rev key (x # xs) = (if flt key x then x # ins_rev key xs else key # x # xs)"

lemma shift_loop_ins:
  "j < length xs \<Longrightarrow>
   (let (ys, k) = shift_loop key j xs in ys[k := key]) = rev (ins_rev key (rev (take j xs))) @ drop (Suc j) xs"
proof (induction key j xs rule: shift_loop.induct)
  case (1 key xs)
  then show ?case by (cases xs) auto
next
  case (2 key j xs)
  have t: "take (Suc j) xs = take j xs @ [xs ! j]" using 2 by (simp add: take_Suc_conv_app_nth)
  show ?case
  proof (cases "flt key (xs ! j)")
    case True
    moreover have "drop (Suc j) (xs[Suc j := xs ! j]) = xs ! j # drop (Suc (Suc j)) xs"
      using 2 by (simp add: Cons_nth_drop_Suc [symmetric] drop_update_swap)
    ultimately show ?thesis using 2 t by simp
  next
    case False
    with 2 t show ?thesis
      by (simp add: upd_conv_take_nth_drop)
  qed
qed

lemma sort_step_ins:
  "i < length xs \<Longrightarrow> sort_step i xs = rev (ins_rev (xs ! i) (rev (take i xs))) @ drop (Suc i) xs"
  using shift_loop_ins [of i xs "xs ! i"] by (simp add: sort_step_def)

lemma mset_ins_rev [simp]: "mset (ins_rev key xs) = add_mset key (mset xs)"
  by (induction key xs rule: ins_rev.induct) auto

lemma length_ins_rev [simp]: "length (ins_rev key xs) = Suc (length xs)"
  by (metis mset_ins_rev size_mset size_add_mset)

lemma set_ins_rev [simp]: "set (ins_rev key xs) = insert key (set xs)"
  by (metis mset_ins_rev set_mset_add_mset_insert set_mset_mset)

lemma flt_fle_trans: "flt x y \<Longrightarrow> fle z x \<Longrightarrow> fle z y"
  by (cases x; cases y; cases z) (auto simp: fle_def)

lemma not_flt_fle: "x \<noteq> NaN \<Longrightarrow> y \<noteq> NaN \<Longrightarrow> \<not> flt x y \<Longrightarrow> fle y x"
  by (cases x; cases y) (auto simp: fle_def)

lemma fle_trans: "fle x y \<Longrightarrow> fle y z \<Longrightarrow> fle x z"
  by (cases x; cases y; cases z) (auto simp: fle_def)

lemma fle_refl: "v \<noteq> NaN \<Longrightarrow> fle v v"
  by (cases v) (auto simp: fle_def)

lemma ins_rev_sorted:
  assumes "sorted_wrt (\<lambda>a b. fle b a) xs" "key \<noteq> NaN" "NaN \<notin> set xs"
  shows "sorted_wrt (\<lambda>a b. fle b a) (ins_rev key xs)"
  using assms
proof (induction key xs rule: ins_rev.induct)
  case (2 key x xs)
  have "fle x key" if "\<not> flt key x" using that 2 not_flt_fle by auto
  moreover have "flt key x \<Longrightarrow> fle key x" by (simp add: fle_def)
  ultimately show ?case using 2 by (auto intro: fle_trans)
qed simp

lemma sort_step_inv:
  assumes "i < length xs" "sorted_wrt fle (take i xs)" "NaN \<notin> set xs"
  shows "mset (sort_step i xs) = mset xs \<and> sorted_wrt fle (take (Suc i) (sort_step i xs))"
proof
  have key: "xs ! i \<noteq> NaN" using assms nth_mem by metis
  have "mset xs = mset (take i xs @ xs ! i # drop (Suc i) xs)"
    using id_take_nth_drop [OF assms(1)] by simp
  then show "mset (sort_step i xs) = mset xs" using assms(1) by (simp add: sort_step_ins)
  have "sorted_wrt (\<lambda>a b. fle b a) (rev (take i xs))" using assms(2) by (simp add: sorted_wrt_rev)
  then have "sorted_wrt (\<lambda>a b. fle b a) (ins_rev (xs ! i) (rev (take i xs)))"
    using assms key by (intro ins_rev_sorted) (auto dest: in_set_takeD)
  then have "sorted_wrt fle (rev (ins_rev (xs ! i) (rev (take i xs))))" by (simp add: sorted_wrt_rev)
  then show "sorted_wrt fle (take (Suc i) (sort_step i xs))"
    using assms(1) by (simp add: sort_step_ins)
qed

lemma insertion_sort_inv:
  assumes "NaN \<notin> set xs" "0 < n" "n \<le> length xs"
  shows "mset (fold sort_step [1..<n] xs) = mset xs \<and> sorted_wrt fle (take n (fold sort_step [1..<n] xs))"
  using assms(2,3)
proof (induction n rule: nat_induct_non_zero)
  case 1
  then show ?case by (cases xs) auto
next
  case (Suc n)
  let ?ys = "fold sort_step [1..<n] xs"
  have IH: "mset ?ys = mset xs" "sorted_wrt fle (take n ?ys)" using Suc by auto
  then have "length ?ys = length xs" "set ?ys = set xs" by (auto dest: mset_eq_length mset_eq_setD)
  then show ?case using sort_step_inv [of n ?ys] IH Suc assms(1) by simp
qed

lemma insertion_sort_correct:
  assumes "NaN \<notin> set xs"
  shows "mset (insertion_sort xs) = mset xs" and "sorted_wrt fle (insertion_sort xs)"
proof -
  have "mset (insertion_sort xs) = mset xs \<and> sorted_wrt fle (insertion_sort xs)"
  proof (cases "xs = []")
    case False
    have inv: "mset (insertion_sort xs) = mset xs" "sorted_wrt fle (take (length xs) (insertion_sort xs))"
      using insertion_sort_inv [OF assms, of "length xs"] False by (auto simp: insertion_sort_def)
    then have "length (insertion_sort xs) = length xs" by (metis mset_eq_length)
    with inv show ?thesis by simp
  qed (simp add: insertion_sort_def)
  then show "mset (insertion_sort xs) = mset xs" "sorted_wrt fle (insertion_sort xs)" by blast+
qed

lemma length_shift_loop [simp]: "length (fst (shift_loop key j xs)) = length xs"
  by (induction key j xs rule: shift_loop.induct) auto

lemma length_sort_step [simp]: "length (sort_step i xs) = length xs"
  by (simp add: sort_step_def Let_def case_prod_beta)

lemma length_fold_sort_step [simp]: "length (fold sort_step is xs) = length xs"
  by (induction "is" arbitrary: xs) auto

lemma length_insertion_sort [simp]: "length (insertion_sort xs) = length xs"
  by (simp add: insertion_sort_def)

section \<open>The median\<close>

lemma MedianFloats_even:
  "vals \<noteq> [] \<Longrightarrow> even (length vals) \<Longrightarrow> MedianFloats vals =
     fdiv (fadd (insertion_sort vals ! (length vals div 2 - 1)) (insertion_sort vals ! (length vals div 2))) (Fin 2)"
  by (simp add: MedianFloats_def Let_def)

lemma MedianFloats_odd:
  "odd (length vals) \<Longrightarrow> MedianFloats vals = insertion_sort vals ! (length vals div 2)"
  by (auto simp: MedianFloats_def Let_def)

lemma length_filter_mset: "mset xs = mset ys \<Longrightarrow> length (filter P xs) = length (filter P ys)"
  by (metis mset_filter size_mset)

lemma filter_prefix: "\<forall>x\<in>set (take k ys). P x \<Longrightarrow> k \<le> length ys \<Longrightarrow> k \<le> length (filter P ys)"
  by (metis append_take_drop_id filter_append filter_True length_append length_take le_add1 min.absorb2)

lemma filter_suffix: "\<forall>x\<in>set (drop k ys). P x \<Longrightarrow> length ys - k \<le> length (filter P ys)"
  by (metis append_take_drop_id filter_append filter_True length_append length_drop le_add2)

lemma middle_counts:
  assumes "sorted_wrt fle ys" "ys \<noteq> []" "NaN \<notin> set ys"
    and "fle (ys ! ((length ys - 1) div 2)) m" "fle m (ys ! (length ys div 2))"
  shows "length ys \<le> 2 * length (filter (\<lambda>v. fle v m) ys)"
    and "length ys \<le> 2 * length (filter (\<lambda>v. fle m v) ys)"
proof -
  let ?n = "length ys" and ?lo = "(length ys - 1) div 2" and ?hi = "length ys div 2"
  have idx: "?lo < ?n" "?hi < ?n" using assms(2) by (cases ys; auto)+
  have refl: "fle v v" if "v \<in> set ys" for v using that assms(3) fle_refl by metis
  have mono: "fle (ys ! i) (ys ! j)" if "i \<le> j" "j < ?n" for i j
    using that assms(1) refl by (cases "i = j") (auto simp: sorted_wrt_iff_nth_less)
  have "fle v m" if "v \<in> set (take (Suc ?lo) ys)" for v
  proof -
    from that obtain i where "i < Suc ?lo" "v = ys ! i" by (auto simp: in_set_conv_nth)
    then show ?thesis using mono [of i ?lo] idx(1) assms(4) fle_trans by (auto simp: less_Suc_eq_le)
  qed
  then show "?n \<le> 2 * length (filter (\<lambda>v. fle v m) ys)"
    using filter_prefix [of "Suc ?lo" ys "\<lambda>v. fle v m"] idx by simp
  have "fle m v" if "v \<in> set (drop ?hi ys)" for v
  proof -
    from that obtain i where "i < ?n - ?hi" "v = ys ! (?hi + i)" by (auto simp: in_set_conv_nth)
    then show ?thesis using mono [of ?hi "?hi + i"] assms(5) fle_trans by auto
  qed
  then show "?n \<le> 2 * length (filter (\<lambda>v. fle m v) ys)"
    using filter_suffix [of ?hi ys "\<lambda>v. fle m v"] by simp
qed

text \<open>The average of two representable numbers lies between them after both roundings.\<close>

lemma rnd64_double: "rnd64 x = x \<Longrightarrow> rnd64 (2 * x) = 2 * x"
proof (cases "x = 0")
  case False
  assume r: "rnd64 x = x"
  let ?n = "rne (x / 2 powi (ulp_exp x))" and ?e = "ulp_exp x"
  have x: "x = of_int ?n * 2 powi ?e" using r False by (simp add: rnd64_def)
  have "2 * x = of_int ?n * 2 powi (?e + 1)" by (subst x) (simp add: power_int_add)
  moreover have "rnd64 (of_int ?n * 2 powi (?e + 1)) = of_int ?n * 2 powi (?e + 1)"
    by (rule rnd64_dyadic [OF rne_ulp_bound [OF False]]) (simp add: ulp_exp_def)
  ultimately show ?thesis by simp
qed simp

lemma midpoint_between:
  assumes "x \<le> y" "rnd64 x = x" "rnd64 y = y"
  shows "x \<le> rnd64 (rnd64 (x + y) / 2)" and "rnd64 (rnd64 (x + y) / 2) \<le> y"
proof -
  have "2 * x \<le> rnd64 (x + y)" "rnd64 (x + y) \<le> 2 * y"
    using rnd64_mono [of "2 * x" "x + y"] rnd64_mono [of "x + y" "2 * y"] assms
    by (simp_all add: rnd64_double)
  then show "x \<le> rnd64 (rnd64 (x + y) / 2)" "rnd64 (rnd64 (x + y) / 2) \<le> y"
    using rnd64_ge_repr [of x "rnd64 (x + y) / 2"] rnd64_le_repr [of "rnd64 (x + y) / 2" y] assms
    by simp_all
qed

definition small_f64 :: "f64 \<Rightarrow> bool" where
  "small_f64 v = (case v of Fin x \<Rightarrow> rnd64 x = x \<and> \<bar>x\<bar> \<le> 2 ^ 900 | _ \<Rightarrow> False)"

lemma midpoint_fin:
  assumes "\<bar>x\<bar> \<le> 2 ^ 900" "\<bar>y\<bar> \<le> 2 ^ 900" "x \<le> y" "rnd64 x = x" "rnd64 y = y"
  shows "\<exists>m. fdiv (fadd (Fin x) (Fin y)) (Fin 2) = Fin m \<and> x \<le> m \<and> m \<le> y"
proof -
  have b: "(2 ^ 900 + 2 ^ 900 :: rat) \<le> 2 ^ 1000" by simp
  have "\<bar>x + y\<bar> \<le> 2 ^ 1000" using assms(1,2) b by linarith
  then have "fadd (Fin x) (Fin y) = Fin (rnd64 (x + y))" by (rule fadd_fin)
  moreover have "\<bar>rnd64 (x + y)\<bar> \<le> 2 ^ 1000"
    using rnd64_abs_bound [of "x + y" 1000] \<open>\<bar>x + y\<bar> \<le> 2 ^ 1000\<close> by simp
  then have "fdiv (Fin (rnd64 (x + y))) (Fin 2) = Fin (rnd64 (rnd64 (x + y) / 2))"
    by (intro fdiv_fin) auto
  ultimately show ?thesis using midpoint_between [OF assms(3-5)] by simp
qed

lemma small_f64_fin: "small_f64 v \<Longrightarrow> \<exists>x. v = Fin x \<and> rnd64 x = x \<and> \<bar>x\<bar> \<le> 2 ^ 900"
  by (auto simp: small_f64_def split: f64.splits)

section \<open>Ranges of the estimates\<close>

text \<open>The estimates stay finite: the smoothed round-trip time within 0..2^64 and the smoothed offset
  within -2^64..2^64 (milliseconds).\<close>

definition fin_within :: "rat \<Rightarrow> rat \<Rightarrow> f64 \<Rightarrow> bool" where
  "fin_within a b v = (case v of Fin x \<Rightarrow> a \<le> x \<and> x \<le> b | _ \<Rightarrow> False)"

definition heartbeat_ok :: "ClientHeartbeat \<Rightarrow> bool" where
  "heartbeat_ok c \<longleftrightarrow> fin_within 0 (2 ^ 64) (hb_SmoothedRTT c) \<and>
     fin_within (- (2 ^ 64)) (2 ^ 64) (hb_SmoothedOffset c)"

lemma fin_withinE:
  assumes "fin_within a b v" obtains x where "v = Fin x" "a \<le> x" "x \<le> b"
  using assms by (auto simp: fin_within_def split: f64.splits)

lemma fin_within_Fin [simp]: "fin_within a b (Fin x) \<longleftrightarrow> a \<le> x \<and> x \<le> b"
  by (simp add: fin_within_def)

lemma mkf_within:
  assumes "a \<le> x" "x \<le> b" "rnd64 a = a" "rnd64 b = b" "- (2 ^ 1000) \<le> a" "b \<le> 2 ^ 1000"
  shows "fin_within a b (mkf x)"
proof -
  have "\<bar>x\<bar> \<le> 2 ^ 1000" using assms(1,2,5,6) by (simp only: abs_le_iff) linarith
  then have "mkf x = Fin (rnd64 x)" by (rule mkf_fin)
  then show ?thesis using rnd64_ge_repr [OF assms(1,3)] rnd64_le_repr [OF assms(2,4)] by simp
qed

lemma rnd64_pow2: "rnd64 (2 ^ k) = 2 ^ k"
  using rnd64_dyadic [of 1 "int k"] by simp

lemma rnd64_3pow2: "rnd64 (3 * 2 ^ k) = 3 * 2 ^ k"
  using rnd64_dyadic [of 3 "int k"] by simp

lemma pow2_le_1000: "k \<le> 1000 \<Longrightarrow> (2::rat) ^ k \<le> 2 ^ 1000"
  by (rule power_increasing) auto

lemma i2f_within: "\<bar>n\<bar> \<le> 2 ^ 63 \<Longrightarrow> fin_within (- (2 ^ 63)) (2 ^ 63) (i2f n)"
proof -
  assume "\<bar>n\<bar> \<le> 2 ^ 63"
  then have "- (2 ^ 63) \<le> (of_int n :: rat)" "(of_int n :: rat) \<le> 2 ^ 63"
    using of_int_le_iff [of "- (2 ^ 63)" n, where 'a = rat] of_int_le_iff [of n "2 ^ 63", where 'a = rat]
    by (simp_all add: abs_le_iff)
  then show ?thesis unfolding i2f_def
    by (rule mkf_within) (auto simp: rnd64_pow2 [of 63, simplified])
qed

lemma i2f_i64: "fin_within (- (2 ^ 63)) (2 ^ 63) (i2f (i64 n))"
  using i64_in [of n] by (intro i2f_within) (simp add: in_i64_def abs_le_iff)

lemma fadd_within:
  assumes "fin_within (- (2 ^ k)) (2 ^ k) u" "fin_within (- (2 ^ k)) (2 ^ k) v" "k < 1000"
  shows "fin_within (- (2 ^ Suc k)) (2 ^ Suc k) (fadd u v)"
proof -
  obtain x y where xy: "u = Fin x" "v = Fin y" "- (2 ^ k) \<le> x" "x \<le> 2 ^ k" "- (2 ^ k) \<le> y" "y \<le> 2 ^ k"
    using assms(1,2) by (elim fin_withinE) blast
  have "fin_within (- (2 ^ Suc k)) (2 ^ Suc k) (mkf (x + y))"
    using xy assms(3) pow2_le_1000 [of "Suc k"] rnd64_pow2 [of "Suc k"]
    by (intro mkf_within) (auto simp del: power_Suc simp add: power_Suc [of _ k])
  then show ?thesis using xy by simp
qed

lemma fneg_within: "fin_within (- b) b v \<Longrightarrow> fin_within (- b) b (fneg v)"
  by (auto elim: fin_withinE)

lemma fsub_within:
  assumes "fin_within (- (2 ^ k)) (2 ^ k) u" "fin_within (- (2 ^ k)) (2 ^ k) v" "k < 1000"
  shows "fin_within (- (2 ^ Suc k)) (2 ^ Suc k) (fsub u v)"
  unfolding fsub_def using fadd_within [OF assms(1) fneg_within [OF assms(2)] assms(3)] .

lemma ewma_within:
  assumes "fin_within a (2 ^ 64) u" "fin_within a (2 ^ 64) v" "a = 0 \<or> a = - (2 ^ 64)"
  shows "fin_within a (2 ^ 64) (ewma u v)"
proof -
  obtain x y where xy: "u = Fin x" "v = Fin y" "a \<le> x" "x \<le> 2 ^ 64" "a \<le> y" "y \<le> 2 ^ 64"
    using assms(1,2) by (elim fin_withinE) blast
  have "fin_within (a / 4) (2 ^ 62) (mkf (1 / 4 * x))"
    using xy assms(3) rnd64_pow2 [of 62] by (intro mkf_within) auto
  moreover have "fin_within (3 * a / 4) (3 * 2 ^ 62) (mkf (3 / 4 * y))"
    using xy assms(3) rnd64_3pow2 [of 62] by (intro mkf_within) auto
  ultimately obtain p q where "fmul ewmaAlpha u = Fin p" "fmul (Fin (3 / 4)) v = Fin q"
    "a / 4 \<le> p" "p \<le> 2 ^ 62" "3 * a / 4 \<le> q" "q \<le> 3 * 2 ^ 62"
    using xy(1,2) by (elim fin_withinE) (simp add: ewmaAlpha_def)
  moreover have "fin_within a (2 ^ 64) (mkf (p + q))"
    using calculation assms(3) rnd64_pow2 [of 64] by (intro mkf_within) auto
  ultimately show ?thesis by (simp add: ewma_def)
qed

lemma Update_ok:
  assumes "heartbeat_ok c" shows "heartbeat_ok (Update t1 t2 t3 now c)"
proof -
  let ?r = "fsub (i2f (i64 (t1 - hb_prevT1 c))) (i2f (i64 (hb_prevT3 c - hb_prevT2 c)))"
  let ?s = "fadd (i2f (i64 (hb_prevT2 c - hb_prevT1 c))) (i2f (i64 (hb_prevT3 c - t1)))"
  let ?rtt = "if flt ?r (Fin 0) then Fin 0 else ?r"
  have "fin_within (- (2 ^ Suc 63)) (2 ^ Suc 63) ?r" by (rule fsub_within [OF i2f_i64 i2f_i64]) simp
  then have r: "fin_within 0 (2 ^ 64) ?rtt" by (elim fin_withinE) auto
  have "fin_within (- (2 ^ Suc 63)) (2 ^ Suc 63) ?s" by (rule fadd_within [OF i2f_i64 i2f_i64]) simp
  then obtain x where x: "?s = Fin x" "- (2 ^ 64) \<le> x" "x \<le> 2 ^ 64" by (elim fin_withinE) auto
  have o: "fin_within (- (2 ^ 64)) (2 ^ 64) (fdiv ?s (Fin 2))"
    unfolding x(1) using x(2,3) rnd64_pow2 [of 64] by (simp, intro mkf_within) auto
  have c: "fin_within 0 (2 ^ 64) (hb_SmoothedRTT c)" "fin_within (- (2 ^ 64)) (2 ^ 64) (hb_SmoothedOffset c)"
    using assms by (simp_all add: heartbeat_ok_def)
  have "fin_within 0 (2 ^ 64) (ewma ?rtt (hb_SmoothedRTT c))"
    by (rule ewma_within [OF r c(1)]) simp
  moreover have "fin_within (- (2 ^ 64)) (2 ^ 64) (ewma (fdiv ?s (Fin 2)) (hb_SmoothedOffset c))"
    by (rule ewma_within [OF o c(2)]) simp
  ultimately show ?thesis using r o assms
    by (simp add: Update_def heartbeat_ok_def Let_def del: fdiv.simps)
qed

section \<open>Properties\<close>

text \<open>The median the controller works with is a median: at least half of the clients' values are
  at most the result and at least half are at least the result, whatever the order of the input
  slice (for finite values of a magnitude that cannot overflow the average).\<close>

theorem MedianFloats_is_median:
  assumes "vals \<noteq> []" "\<forall>v\<in>set vals. small_f64 v"
  shows "\<exists>m. MedianFloats vals = Fin m \<and>
     length vals \<le> 2 * length (filter (\<lambda>v. fle v (Fin m)) vals) \<and>
     length vals \<le> 2 * length (filter (\<lambda>v. fle (Fin m) v) vals)"
proof -
  let ?s = "insertion_sort vals" and ?lo = "(length vals - 1) div 2" and ?hi = "length vals div 2"
  have nan: "NaN \<notin> set vals" using assms(2) by (auto simp: small_f64_def)
  note srt = insertion_sort_correct [OF nan]
  have len: "length ?s = length vals" and st: "set ?s = set vals"
    using srt(1) by (auto dest: mset_eq_length mset_eq_setD)
  have idx: "?lo < length vals" "?hi < length vals" using assms(1) by (cases vals; auto)+
  obtain x y where xy: "?s ! ?lo = Fin x" "?s ! ?hi = Fin y" "rnd64 x = x" "rnd64 y = y"
    "\<bar>x\<bar> \<le> 2 ^ 900" "\<bar>y\<bar> \<le> 2 ^ 900"
    using small_f64_fin assms(2) idx len st nth_mem [of _ ?s] by metis
  have le: "x \<le> y"
  proof (cases "?lo = ?hi")
    case False
    then have "?lo < ?hi" using div_le_mono [of "length vals - 1" "length vals" 2] by linarith
    from sorted_wrt_nth_less [OF srt(2) this] idx xy(1,2) len show ?thesis by simp
  qed (use xy in simp)
  have "\<exists>m. MedianFloats vals = Fin m \<and> x \<le> m \<and> m \<le> y"
  proof (cases "even (length vals)")
    case True
    then have "?lo = ?hi - 1" using assms(1) by (cases vals) auto
    then have "MedianFloats vals = fdiv (fadd (Fin x) (Fin y)) (Fin 2)"
      unfolding MedianFloats_even [OF assms(1) True] by (metis xy(1,2))
    with midpoint_fin [OF xy(5,6) le xy(3,4)] show ?thesis by simp
  next
    case False
    then have "?lo = ?hi" by (auto elim!: oddE)
    then show ?thesis unfolding MedianFloats_odd [OF False] using xy(1,2) by auto
  qed
  then obtain m where m: "MedianFloats vals = Fin m" "x \<le> m" "m \<le> y" by blast
  have ne: "?s \<noteq> []" using st assms(1) by auto
  have "length ?s \<le> 2 * length (filter (\<lambda>v. fle v (Fin m)) ?s)"
    "length ?s \<le> 2 * length (filter (\<lambda>v. fle (Fin m) v) ?s)"
    using middle_counts [OF srt(2), of "Fin m"] m xy(1,2) st nan assms(1) ne by auto
  then show ?thesis using m(1) len length_filter_mset [OF srt(1)] by auto
qed

theorem MedianFloats_is_median_witness:
  "(\<exists>m. MedianFloats [Fin 7, Fin (-3), Fin 10, Fin 2] = Fin m \<and>
     length [Fin 7, Fin (-3), Fin 10, Fin 2] \<le> 2 * length (filter (\<lambda>v. fle v (Fin m)) [Fin 7, Fin (-3), Fin 10, Fin 2]) \<and>
     length [Fin 7, Fin (-3), Fin 10, Fin 2] \<le> 2 * length (filter (\<lambda>v. fle (Fin m) v) [Fin 7, Fin (-3), Fin 10, Fin 2])) \<and>
   MedianFloats [Fin 7, Fin (-3), Fin 10, Fin 2] = Fin (9 / 2)"
proof
  have "\<forall>v\<in>set [Fin 7, Fin (-3), Fin 10, Fin 2]. small_f64 v"
    using rnd64_of_int [of 7] rnd64_of_int [of "-3"] rnd64_of_int [of 10] rnd64_of_int [of 2]
    by (simp add: small_f64_def)
  then show "\<exists>m. MedianFloats [Fin 7, Fin (-3), Fin 10, Fin 2] = Fin m \<and>
     length [Fin 7, Fin (-3), Fin 10, Fin 2] \<le> 2 * length (filter (\<lambda>v. fle v (Fin m)) [Fin 7, Fin (-3), Fin 10, Fin 2]) \<and>
     length [Fin 7, Fin (-3), Fin 10, Fin 2] \<le> 2 * length (filter (\<lambda>v. fle (Fin m) v) [Fin 7, Fin (-3), Fin 10, Fin 2])"
    by (intro MedianFloats_is_median) simp
  show "MedianFloats [Fin 7, Fin (-3), Fin 10, Fin 2] = Fin (9 / 2)" by code_simp
qed

text \<open>Whatever a client reports, its estimates stay finite and its smoothed round-trip time is never
  negative: every sequence of heartbeats, with arbitrary 64-bit timestamps, starting from a fresh
  record (or one cleared by \<open>Reset\<close>) ends in a record within the ranges of \<open>heartbeat_ok\<close>.\<close>

theorem heartbeats_ok:
  "heartbeat_ok (fold (\<lambda>(t1, t2, t3, now). Update t1 t2 t3 now) hs zero_ClientHeartbeat) \<and>
   (\<forall>c. heartbeat_ok (fold (\<lambda>(t1, t2, t3, now). Update t1 t2 t3 now) hs (Heartbeat_Reset c)))"
proof -
  have step: "heartbeat_ok c \<Longrightarrow> heartbeat_ok (fold (\<lambda>(t1, t2, t3, now). Update t1 t2 t3 now) hs c)" for c
    by (induction hs arbitrary: c) (auto simp: Update_ok)
  have "heartbeat_ok zero_ClientHeartbeat" "heartbeat_ok (Heartbeat_Reset c)" for c
    by (simp_all add: heartbeat_ok_def zero_ClientHeartbeat_def Heartbeat_Reset_def)
  with step show ?thesis by blast
qed

section \<open>The controller\<close>

definition controller_ok :: "DriftController \<Rightarrow> bool" where
  "controller_ok dc \<longleftrightarrow> fin_within (- 200) 200 (dc_integral dc) \<and>
     dc = NewDriftController\<lparr>dc_integral := dc_integral dc\<rparr>"

lemma controller_ok_fields:
  assumes "controller_ok dc"
  shows "dc_Kp dc = mkf (15 / 100)" "dc_Ki dc = mkf (2 / 100)" "dc_IntegralClampMs dc = Fin 200"
    "dc_DiscontinuityThresholdMs dc = Fin 2000" "fin_within (- 200) 200 (dc_integral dc)"
  using assms unfolding controller_ok_def NewDriftController_def by (metis DriftController.select_convs
      DriftController.update_convs)+

lemma controller_ok_integral:
  "controller_ok dc \<Longrightarrow> fin_within (- 200) 200 v \<Longrightarrow> controller_ok (dc\<lparr>dc_integral := v\<rparr>)"
  unfolding controller_ok_def by (cases dc) (auto simp: NewDriftController_def)

lemma Kp_range: "\<exists>p. mkf (15 / 100) = Fin p \<and> 0 \<le> p \<and> p \<le> 1 \<and> rnd64 (p * 2000) = 300"
proof -
  have "mkf (15 / 100) = Fin (5404319552844595 / 36028797018963968)" by code_simp
  moreover have "rnd64 (5404319552844595 / 36028797018963968 * 2000) = 300" by code_simp
  ultimately show ?thesis by (intro exI conjI) (assumption | simp)+
qed

lemma Ki_range: "\<exists>p. mkf (2 / 100) = Fin p \<and> 0 \<le> p \<and> p \<le> 1 \<and> rnd64 (p * 200) = 4"
proof -
  have "mkf (2 / 100) = Fin (5764607523034235 / 288230376151711744)" by code_simp
  moreover have "rnd64 (5764607523034235 / 288230376151711744 * 200) = 4" by code_simp
  ultimately show ?thesis by (intro exI conjI) (assumption | simp)+
qed

lemma gain_within:
  assumes "0 \<le> p" "rnd64 (p * b) = c" "fin_within (- b) b v" "p * b \<le> 2 ^ 1000"
  shows "fin_within (- c) c (fmul (Fin p) v)"
proof -
  obtain x where x: "v = Fin x" "- b \<le> x" "x \<le> b" using assms(3) by (elim fin_withinE)
  have m: "p * x \<le> p * b" "- (p * b) \<le> p * x"
    using x assms(1) mult_left_mono [of x b p] mult_left_mono [of "- b" x p] by simp_all
  then have "\<bar>p * x\<bar> \<le> 2 ^ 1000" using assms(4) by (simp only: abs_le_iff) linarith
  then have "fmul (Fin p) v = Fin (rnd64 (p * x))" unfolding x(1) by (rule fmul_fin)
  then show ?thesis
    using rnd64_mono [OF m(1)] rnd64_mono [OF m(2)] assms(2) by simp
qed

lemma Seconds_within:
  assumes "in_i64 d" shows "fin_within (- (2 ^ 64)) (2 ^ 64) (Seconds d)"
proof -
  have "\<bar>d sdiv second\<bar> \<le> 2 ^ 63"
    using sdiv_int_range [of d second] assms by (auto simp: in_i64_def abs_le_iff)
  note q = i2f_within [OF this]
  have m: "\<bar>d smod second\<bar> \<le> 1000000000"
    using smod_int_range [of second d] by (auto simp: second_def abs_le_iff)
  then have "i2f (d smod second) = Fin (of_int (d smod second))" by (intro i2f_small) simp
  moreover have "fin_within (- (2 ^ 63)) (2 ^ 63) (mkf (of_int (d smod second) / 1000000000))"
  proof (rule mkf_within)
    have "\<bar>of_int (d smod second) :: rat\<bar> \<le> 1000000000"
      using m by (metis of_int_abs of_int_le_iff of_int_numeral)
    then show "- (2 ^ 63) \<le> (of_int (d smod second) / 1000000000 :: rat)"
      "(of_int (d smod second) / 1000000000 :: rat) \<le> 2 ^ 63" by (simp_all add: abs_le_iff)
  qed (auto simp: rnd64_pow2 [of 63, simplified])
  ultimately have "fin_within (- (2 ^ Suc 63)) (2 ^ Suc 63) (Seconds d)"
    unfolding Seconds_def by (intro fadd_within [OF q]) simp_all
  then show ?thesis by simp
qed

text \<open>The accumulated integral before the clamp is finite, after it within the clamp.\<close>

lemma clamp_within:
  assumes "is_fin v"
  shows "fin_within (- 200) 200
    (if flt (Fin 200) v then Fin 200 else if flt v (fneg (Fin 200)) then fneg (Fin 200) else v)"
  using assms by (cases v) auto

lemma accumulate_fin:
  assumes "fin_within (- 200) 200 i" "fin_within (- 2000) 2000 d" "in_i64 dt"
  shows "is_fin (fadd i (fmul d (Seconds dt)))"
proof -
  obtain x where x: "d = Fin x" "- 2000 \<le> x" "x \<le> 2000" using assms(2) by (elim fin_withinE)
  obtain s where s: "Seconds dt = Fin s" "- (2 ^ 64) \<le> s" "s \<le> 2 ^ 64"
    using Seconds_within [OF assms(3)] by (elim fin_withinE)
  have "\<bar>x * s\<bar> \<le> 2 ^ 11 * 2 ^ 64"
    unfolding abs_mult using x s by (intro mult_mono) (auto simp: abs_le_iff)
  then have "fin_within (- (2 ^ 75)) (2 ^ 75) (mkf (x * s))"
    using rnd64_pow2 [of 75] by (intro mkf_within) (auto simp: abs_le_iff)
  moreover have "fin_within (- (2 ^ 75)) (2 ^ 75) i" using assms(1) by (auto elim!: fin_withinE)
  ultimately have "fin_within (- (2 ^ Suc 75)) (2 ^ Suc 75) (fadd i (mkf (x * s)))"
    by (intro fadd_within) simp_all
  then show ?thesis using x(1) s(1) by (auto elim: fin_withinE)
qed

lemma correction_within:
  assumes "fin_within (- 2000) 2000 d" "fin_within (- 200) 200 i"
  shows "fin_within (- 304) 304 (fadd (fmul (mkf (15 / 100)) d) (fmul (mkf (2 / 100)) i))"
proof -
  obtain p q where p: "mkf (15 / 100) = Fin p" "0 \<le> p" "p \<le> 1" "rnd64 (p * 2000) = 300"
    and q: "mkf (2 / 100) = Fin q" "0 \<le> q" "q \<le> 1" "rnd64 (q * 200) = 4"
    using Kp_range Ki_range by blast
  have "fin_within (- 300) 300 (fmul (Fin p) d)" using gain_within [OF p(2,4) assms(1)] p(3) by simp
  moreover have "fin_within (- 4) 4 (fmul (Fin q) i)" using gain_within [OF q(2,4) assms(2)] q(3) by simp
  ultimately obtain a b where ab: "fmul (Fin p) d = Fin a" "fmul (Fin q) i = Fin b"
    "- 300 \<le> a" "a \<le> 300" "- 4 \<le> b" "b \<le> 4" by (elim fin_withinE) blast
  have "fin_within (- 304) 304 (mkf (a + b))"
    using ab(3-6) rnd64_of_int [of 304] by (intro mkf_within) auto
  then show ?thesis unfolding p(1) q(1) ab(1,2) by simp
qed

text \<open>The anti-windup clamp works: with the default gains, for every finite drift, every time step
  and every confidence, the integral stays within \<open>\<plusminus>200\<close> and the correction of one cycle within
  \<open>\<plusminus>304\<close> ms (0.15 * 2000 + 0.02 * 200, in float64 arithmetic); a discontinuity asks for a snapshot,
  corrects nothing and clears the integral.\<close>

theorem Correct_bounded:
  assumes "controller_ok dc" "is_fin d" "in_i64 dt" "Correct d dt peers conf dc = (r, dc')"
  shows "controller_ok dc' \<and> fin_within (- 304) 304 (cr_CorrectionMs r) \<and>
    (cr_ForceSnapshot r \<longrightarrow> flt (Fin 2000) (fabs d) \<and> cr_CorrectionMs r = Fin 0 \<and> dc_integral dc' = Fin 0)"
proof (cases "peers < 2 \<or> conf < 30 \<or> flt (Fin 2000) (fabs d)")
  case True
  then show ?thesis
    using assms controller_ok_integral [OF assms(1), of "Fin 0"] controller_ok_fields(4) [OF assms(1)]
    by (auto simp: Correct_def split: if_splits)
next
  case False
  note f = controller_ok_fields [OF assms(1)]
  let ?i = "fadd (dc_integral dc) (fmul d (Seconds dt))"
  let ?c = "if flt (Fin 200) ?i then Fin 200 else if flt ?i (fneg (Fin 200)) then fneg (Fin 200) else ?i"
  have d: "fin_within (- 2000) 2000 d" using False assms(2) by (cases d) auto
  have c: "fin_within (- 200) 200 ?c" by (rule clamp_within [OF accumulate_fin [OF f(5) d assms(3)]])
  have "Correct d dt peers conf dc =
      (\<lparr>cr_CorrectionMs = fadd (fmul (dc_Kp dc) d) (fmul (dc_Ki dc) ?c), cr_ForceSnapshot = False\<rparr>,
       dc\<lparr>dc_integral := ?c\<rparr>)"
    using False f(3,4) by (simp add: Correct_def Let_def)
  with assms(4) have "r = \<lparr>cr_CorrectionMs = fadd (fmul (dc_Kp dc) d) (fmul (dc_Ki dc) ?c), cr_ForceSnapshot = False\<rparr>"
    "dc' = dc\<lparr>dc_integral := ?c\<rparr>" by (metis Pair_inject)+
  then show ?thesis
    using correction_within [OF d c] controller_ok_integral [OF assms(1) c] f(1,2) by simp
qed

theorem Correct_bounded_witness:
  "controller_ok (snd (Correct (Fin 1900) second 3 100 NewDriftController)) \<and>
   fin_within (- 304) 304 (cr_CorrectionMs (fst (Correct (Fin 1900) second 3 100 NewDriftController))) \<and>
   cr_CorrectionMs (fst (Correct (Fin 1900) second 3 100 NewDriftController)) = Fin 289"
proof -
  have ok: "controller_ok NewDriftController"
    by (simp add: controller_ok_def) (simp add: NewDriftController_def)
  have "cr_CorrectionMs (fst (Correct (Fin 1900) second 3 100 NewDriftController)) = Fin 289" by code_simp
  then show ?thesis
    using Correct_bounded [OF ok, of "Fin 1900" second 3 100
        "fst (Correct (Fin 1900) second 3 100 NewDriftController)"
        "snd (Correct (Fin 1900) second 3 100 NewDriftController)"]
    by (simp add: second_def in_i64_def)
qed

end
