(* ===== verification/Vb_Outbox.thy ===== *)
theory Vb_Outbox
  imports Prelude Go_Float
begin

text \<open>
  \<open>libs/outbox/outbox.go\<close>: the event a service stages in its outbox table. The payload is the object
  \<open>json.Marshal\<close> wrote, \<open>None\<close> when there is none (the services ignore the error of \<open>json.Marshal\<close>,
  which for their payloads occurs only for a float64 that is not finite).
\<close>

type_synonym payload = "f64 json_object"

record Event =
  ev_ID :: string
  ev_AggregateID :: string
  ev_Topic :: string
  ev_Key :: string
  ev_Payload :: "payload option"
  ev_Headers :: "(string \<times> string) list"
  ev_OccurredAt :: time
  ev_Version :: string

text \<open>\<open>json.Marshal\<close> of a map of scalars: it fails on a NaN or an infinity.\<close>

definition json_ok :: "f64 json \<Rightarrow> bool" where
  "json_ok v = (case v of JNum x \<Rightarrow> is_fin x | _ \<Rightarrow> True)"

definition json_marshal :: "payload \<Rightarrow> payload option" where
  "json_marshal ob = (if list_all (json_ok \<circ> snd) ob then Some ob else None)"

text \<open>\<open>json.Unmarshal\<close> into a float64 field.\<close>

definition json_num :: "payload \<Rightarrow> string \<Rightarrow> f64 option" where
  "json_num ob k = (case map_of ob k of None \<Rightarrow> Some (Fin 0) | Some (JNum x) \<Rightarrow> Some x
     | Some (JInt n) \<Rightarrow> Some (i2f n) | _ \<Rightarrow> None)"


end
