(* ===== verification/Room_Sync.thy ===== *)
theory Room_Sync
  imports Sync_State Sync_Heartbeat Vb_Outbox
begin

text \<open>
  \<open>apps/sync-service/internal/app/room_sync.go\<close>: the object that owns the playback state of one room.
  Every exported method takes the mutex for its whole body, so an interleaving of calls is a sequence
  of the operations below (\<open>stageOutbox\<close> and \<open>persistState\<close> lock only to read the state).

  What the environment decides is an argument: the readings of \<open>clock.Now()\<close> and \<open>clock.NowMs()\<close> in
  the order the code takes them, the order \<open>it\<close> in which a \<open>range\<close> loop visits the heartbeat map,
  and the fresh channel a subscription gets. The channels of the subscribers are bounded queues.
  The goroutine that refreshes the presence key is recorded in \<open>rs_pings\<close>; the stager and the
  persister only log their errors, so the event and the state handed to them are results.
\<close>

named_theorems room_sync_defs \<open>operations of a room\<close>

section \<open>Configuration\<close>

record SyncConfig =
  cfg_HeartbeatInterval :: duration
  cfg_HostTimeout :: duration
  cfg_SnapshotInterval :: duration
  cfg_ControllerKp :: f64
  cfg_ControllerKi :: f64
  cfg_ControllerIntegralClampMs :: f64
  cfg_RecoverRingBufferSize :: int
  cfg_DiscontinuityThresholdMs :: f64
  cfg_DriftCorrectionEnabled :: bool

definition default_SyncConfig :: SyncConfig where
  "default_SyncConfig = \<lparr>cfg_HeartbeatInterval = second, cfg_HostTimeout = 5 * second,
     cfg_SnapshotInterval = 5 * second, cfg_ControllerKp = mkf (15 / 100), cfg_ControllerKi = mkf (2 / 100),
     cfg_ControllerIntegralClampMs = Fin 200, cfg_RecoverRingBufferSize = 32,
     cfg_DiscontinuityThresholdMs = Fin 2000, cfg_DriftCorrectionEnabled = False\<rparr>"

definition makeController :: "SyncConfig \<Rightarrow> DriftController" where
  "makeController cfg =
     (let dc = NewDriftController;
          dc = (if flt (Fin 0) (cfg_ControllerKp cfg) then dc\<lparr>dc_Kp := cfg_ControllerKp cfg\<rparr> else dc);
          dc = (if flt (Fin 0) (cfg_ControllerKi cfg) then dc\<lparr>dc_Ki := cfg_ControllerKi cfg\<rparr> else dc);
          dc = (if flt (Fin 0) (cfg_ControllerIntegralClampMs cfg)
                then dc\<lparr>dc_IntegralClampMs := cfg_ControllerIntegralClampMs cfg\<rparr> else dc);
          dc = (if flt (Fin 0) (cfg_DiscontinuityThresholdMs cfg)
                then dc\<lparr>dc_DiscontinuityThresholdMs := cfg_DiscontinuityThresholdMs cfg\<rparr> else dc)
      in dc)"

definition heartbeatInterval :: "SyncConfig \<Rightarrow> duration" where
  "heartbeatInterval cfg = (if 0 < cfg_HeartbeatInterval cfg then cfg_HeartbeatInterval cfg else second)"

definition snapshotInterval :: "SyncConfig \<Rightarrow> duration" where
  "snapshotInterval cfg = (if 0 < cfg_SnapshotInterval cfg then cfg_SnapshotInterval cfg else 5 * second)"

definition hostTimeout :: "SyncConfig \<Rightarrow> duration" where
  "hostTimeout cfg = (if 0 < cfg_HostTimeout cfg then cfg_HostTimeout cfg else 5 * second)"

definition ringSize :: "SyncConfig \<Rightarrow> int" where
  "ringSize cfg = (if cfg_RecoverRingBufferSize cfg \<le> 0 then 32 else cfg_RecoverRingBufferSize cfg)"

section \<open>Frames\<close>

record SyncStateProto =
  pb_RoomId :: string
  pb_MediaId :: "string option"
  pb_Status :: int
  pb_MediaTimeMs :: int
  pb_WallTimeMs :: int
  pb_PlaybackRate :: f64
  pb_Epoch :: u64
  pb_HostId :: "string option"
  pb_FencingToken :: u64
  pb_EpochStartedAt :: time

record SyncSnapshot =
  sn_State :: SyncStateProto
  sn_DriftEstimateMs :: int
  sn_Confidence :: u32
  sn_ActivePeers :: u32
  sn_MedianRttMs :: int
  sn_CapturedAt :: time

record HostMigration =
  hm_RoomId :: string
  hm_PreviousHostId :: string
  hm_NewHostId :: string
  hm_NewEpoch :: u64
  hm_NewFencingToken :: u64
  hm_At :: time

datatype frame_payload = FUpdate SyncStateProto | FSnapshot SyncSnapshot | FHostMigration HostMigration

record frame =
  fr_SentAt :: time
  fr_Payload :: frame_payload

section \<open>State of a room\<close>

record RoomSync =
  rs_cfg :: SyncConfig
  rs_roomID :: string
  rs_state :: SyncState
  rs_heartbeats :: "string \<rightharpoonup> ClientHeartbeat"
  rs_controller :: DriftController
  rs_ringBuffer :: "(u64 \<times> frame) list"
  rs_subscribers :: "nat \<rightharpoonup> frame list"
  rs_presence :: bool
  rs_pings :: "(string \<times> string) list"
  rs_started :: bool
  rs_cancelled :: bool
  rs_running :: bool

definition NewRoomSync :: "SyncConfig \<Rightarrow> string \<Rightarrow> SyncState \<Rightarrow> bool \<Rightarrow> RoomSync" where
  "NewRoomSync cfg roomID initial presence = \<lparr>rs_cfg = cfg, rs_roomID = roomID, rs_state = initial,
     rs_heartbeats = Map.empty, rs_controller = makeController cfg, rs_ringBuffer = [],
     rs_subscribers = Map.empty, rs_presence = presence, rs_pings = [],
     rs_started = False, rs_cancelled = False, rs_running = False\<rparr>"

text \<open>\<open>Start\<close> launches the loop once; \<open>Shutdown\<close> cancels its context, if there is one.\<close>

definition Start :: "RoomSync \<Rightarrow> RoomSync" where
  "Start rs = (if rs_started rs then rs else rs\<lparr>rs_started := True, rs_running := True\<rparr>)"

definition Shutdown :: "RoomSync \<Rightarrow> RoomSync" where
  "Shutdown rs = (if rs_started rs then rs\<lparr>rs_cancelled := True\<rparr> else rs)"

section \<open>Conversions\<close>

definition clampInt32 :: "(f64 \<Rightarrow> int) \<Rightarrow> f64 \<Rightarrow> int" where
  "clampInt32 cv v =
     (if flt (Fin 2147483647) v then 2147483647
      else if flt v (Fin (- 2147483647)) then - 2147483647
      else f2i cv 32 v)"

definition computeConfidence :: "int \<Rightarrow> f64 list \<Rightarrow> u32" where
  "computeConfidence activePeers rtts =
     (if activePeers = 0 then 0
      else (let c = word_of_int (i64 (activePeers * 20));
                c = (if c > 100 then 100 else c)
            in if length rtts > 1 then
                 (let (sum, sumSq) = foldl (\<lambda>(sum, sumSq) r. (fadd sum r, fadd sumSq (fmul r r))) (Fin 0, Fin 0) rtts;
                      mean = fdiv sum (i2f (int (length rtts)));
                      variance = fsub (fdiv sumSq (i2f (int (length rtts)))) (fmul mean mean)
                  in if flt (Fin 1000) variance then c div 2 else c)
               else c))"

definition stateToProtoLocked :: "RoomSync \<Rightarrow> SyncStateProto" where
  "stateToProtoLocked rs = (let s = rs_state rs in
     \<lparr>pb_RoomId = rs_roomID rs,
      pb_MediaId = (if ss_MediaID s \<noteq> '''' then Some (ss_MediaID s) else None),
      pb_Status = ss_Status s, pb_MediaTimeMs = ss_MediaTimeMs s, pb_WallTimeMs = ss_WallTimeMs s,
      pb_PlaybackRate = ss_PlaybackRate s, pb_Epoch = ss_Epoch s,
      pb_HostId = (if ss_HostID s \<noteq> '''' then Some (ss_HostID s) else None),
      pb_FencingToken = ss_FencingToken s, pb_EpochStartedAt = ss_EpochStarted s\<rparr>)"

section \<open>Broadcasting\<close>

text \<open>The capacity of a subscriber's channel; a frame for a full channel is dropped.\<close>

definition chan_cap :: nat where "chan_cap = 16"

definition broadcastLocked :: "frame \<Rightarrow> RoomSync \<Rightarrow> RoomSync" where
  "broadcastLocked fr rs = rs\<lparr>rs_subscribers :=
     (\<lambda>ch. map_option (\<lambda>q. if length q < chan_cap then q @ [fr] else q) (rs_subscribers rs ch))\<rparr>"

definition addToRingLocked :: "frame \<Rightarrow> RoomSync \<Rightarrow> RoomSync" where
  "addToRingLocked fr rs =
     (let rb = rs_ringBuffer rs @ [(ss_Epoch (rs_state rs), fr)];
          rb = (if int (length rb) > ringSize (rs_cfg rs)
                then drop (nat (int (length rb) - ringSize (rs_cfg rs))) rb else rb)
      in rs\<lparr>rs_ringBuffer := rb\<rparr>)"

definition broadcastUpdateLocked :: "time \<Rightarrow> RoomSync \<Rightarrow> RoomSync" where
  "broadcastUpdateLocked now rs =
     (let fr = \<lparr>fr_SentAt = now, fr_Payload = FUpdate (stateToProtoLocked rs)\<rparr>
      in broadcastLocked fr (addToRingLocked fr rs))"

text \<open>The heartbeats the loop visits, in its order.\<close>

definition visited :: "string list \<Rightarrow> RoomSync \<Rightarrow> (string \<times> ClientHeartbeat) list" where
  "visited it rs = List.map_filter (\<lambda>u. map_option (Pair u) (rs_heartbeats rs u)) it"

definition alive_at :: "time \<Rightarrow> RoomSync \<Rightarrow> ClientHeartbeat \<Rightarrow> bool" where
  "alive_at now rs hb = IsAlive now (hostTimeout (rs_cfg rs)) hb"

definition buildSnapshotLocked :: "(f64 \<Rightarrow> int) \<Rightarrow> string list \<Rightarrow> time \<Rightarrow> RoomSync \<Rightarrow> SyncSnapshot" where
  "buildSnapshotLocked cv it now rs =
     (let act = filter (alive_at now rs) (map snd (visited it rs));
          meas = filter (\<lambda>hb. flt (Fin 0) (hb_SmoothedRTT hb)) act;
          drifts = map hb_DriftMs meas; rtts = map hb_SmoothedRTT meas;
          activeCount = int (length act)
      in \<lparr>sn_State = stateToProtoLocked rs, sn_DriftEstimateMs = clampInt32 cv (MaxAbsFloats drifts),
          sn_Confidence = computeConfidence activeCount rtts, sn_ActivePeers = word_of_int activeCount,
          sn_MedianRttMs = clampInt32 cv (MedianFloats rtts), sn_CapturedAt = now\<rparr>)"

definition broadcastSnapshot :: "(f64 \<Rightarrow> int) \<Rightarrow> string list \<Rightarrow> time \<Rightarrow> time \<Rightarrow> RoomSync \<Rightarrow> RoomSync" where
  "broadcastSnapshot cv it now now' rs =
     (let fr = \<lparr>fr_SentAt = now', fr_Payload = FSnapshot (buildSnapshotLocked cv it now rs)\<rparr>
      in broadcastLocked fr (addToRingLocked fr rs))"

section \<open>Host election\<close>

text \<open>One iteration of the loop of \<open>selectSuccessorLocked\<close> over \<open>(successor, bestTime)\<close>.\<close>

definition select_step ::
  "time \<Rightarrow> string \<Rightarrow> RoomSync \<Rightarrow> string \<times> ClientHeartbeat \<Rightarrow> string \<times> time \<Rightarrow> string \<times> time" where
  "select_step now excludeID rs uh best = (case (uh, best) of ((userID, h), (successor, bestTime)) \<Rightarrow>
     if userID = excludeID then (successor, bestTime)
     else if alive_at now rs h \<and> hb_LastSeen h < bestTime then (userID, hb_LastSeen h)
     else (successor, bestTime))"

definition selectSuccessorLocked :: "string list \<Rightarrow> time \<Rightarrow> string \<Rightarrow> RoomSync \<Rightarrow> string" where
  "selectSuccessorLocked it now excludeID rs =
     fst (fold (select_step now excludeID rs) (visited it rs) ('''', now))"

definition owner_alive :: "time \<Rightarrow> RoomSync \<Rightarrow> bool" where
  "owner_alive now rs =
     (case rs_heartbeats rs (ss_OwnerID (rs_state rs)) of None \<Rightarrow> False | Some hb \<Rightarrow> alive_at now rs hb)"

definition preferredSuccessorLocked :: "string list \<Rightarrow> time \<Rightarrow> string \<Rightarrow> RoomSync \<Rightarrow> string" where
  "preferredSuccessorLocked it now excludeID rs =
     (let owner = ss_OwnerID (rs_state rs) in
      if owner \<noteq> '''' \<and> owner \<noteq> excludeID \<and> owner_alive now rs then owner
      else selectSuccessorLocked it now excludeID rs)"

definition migrateHostLocked :: "string \<Rightarrow> time \<Rightarrow> RoomSync \<Rightarrow> RoomSync" where
  "migrateHostLocked successor now rs =
     (let prevHost = ss_HostID (rs_state rs);
          s = (rs_state rs)\<lparr>ss_HostID := successor, ss_Epoch := ss_Epoch (rs_state rs) + 1,
                 ss_FencingToken := ss_FencingToken (rs_state rs) + 1, ss_EpochStarted := now\<rparr>;
          fr = \<lparr>fr_SentAt = now, fr_Payload = FHostMigration
                 \<lparr>hm_RoomId = rs_roomID rs, hm_PreviousHostId = prevHost, hm_NewHostId = successor,
                  hm_NewEpoch = ss_Epoch s, hm_NewFencingToken = ss_FencingToken s, hm_At = now\<rparr>\<rparr>
      in broadcastLocked fr (rs\<lparr>rs_state := s\<rparr>))"

definition checkHostMigrationLocked :: "string list \<Rightarrow> time \<Rightarrow> time \<Rightarrow> RoomSync \<Rightarrow> RoomSync" where
  "checkHostMigrationLocked it now now' rs =
     (let s = rs_state rs in
      if ss_OwnerID s \<noteq> '''' \<and> ss_HostID s \<noteq> ss_OwnerID s \<and> owner_alive now rs
      then migrateHostLocked (ss_OwnerID s) now rs
      else if ss_HostID s = '''' then
        (let successor = preferredSuccessorLocked it now '''' rs in
         if successor = '''' then rs else migrateHostLocked successor now rs)
      else if (case rs_heartbeats rs (ss_HostID s) of None \<Rightarrow> False | Some hb \<Rightarrow> alive_at now rs hb) then rs
      else
        (let successor = preferredSuccessorLocked it now (ss_HostID s) rs in
         if successor = '''' then
           (if ss_Status s = StatusPlaying then
              broadcastUpdateLocked now' (rs\<lparr>rs_state := s\<lparr>ss_Status := StatusPaused,
                ss_PlaybackRate := Fin 0, ss_Epoch := ss_Epoch s + 1\<rparr>\<rparr>)
            else rs)
         else migrateHostLocked successor now rs))"

text \<open>The drift-correction block of \<open>tick\<close>; the flag says that the block returned from \<open>tick\<close>.\<close>

definition drift_correction ::
  "(f64 \<Rightarrow> int) \<Rightarrow> string list \<Rightarrow> time \<Rightarrow> int \<Rightarrow> time \<Rightarrow> RoomSync \<Rightarrow> bool \<times> RoomSync" where
  "drift_correction cv it now nowMs now' rs =
     (let activeCount = int (length (filter (alive_at now rs) (map snd (visited it rs))));
          s = rs_state rs;
          refID = (if ss_OwnerID s = '''' then ss_HostID s else ss_OwnerID s);
          meas = (if refID \<noteq> '''' then
                    (case rs_heartbeats rs refID of None \<Rightarrow> []
                     | Some hb \<Rightarrow> if alive_at now rs hb \<and> flt (Fin 0) (hb_SmoothedRTT hb) then [hb] else [])
                  else []);
          confidence = computeConfidence activeCount (map hb_SmoothedRTT meas);
          medianDrift = MedianFloats (map hb_DriftMs meas);
          (result, dc) = Correct medianDrift (heartbeatInterval (rs_cfg rs)) activeCount confidence (rs_controller rs);
          rs = rs\<lparr>rs_controller := dc\<rparr>
      in if cr_ForceSnapshot result then
           (True, broadcastUpdateLocked now' (rs\<lparr>rs_controller := Controller_Reset dc\<rparr>))
         else if \<not> feq (cr_CorrectionMs result) (Fin 0) \<and> ss_Status s = StatusPlaying then
           (False, broadcastUpdateLocked now' (rs\<lparr>rs_state :=
              s\<lparr>ss_MediaTimeMs := i64 (ss_MediaTimeMs s - f2i cv 64 (cr_CorrectionMs result)),
                ss_WallTimeMs := nowMs, ss_Epoch := ss_Epoch s + 1\<rparr>\<rparr>))
         else (False, rs))"

definition tick ::
  "(f64 \<Rightarrow> int) \<Rightarrow> string list \<Rightarrow> string list \<Rightarrow> time \<Rightarrow> int \<Rightarrow> time \<Rightarrow> time \<Rightarrow> RoomSync \<Rightarrow> RoomSync" where
  "tick cv it it' now nowMs now1 now2 rs =
     (let (ret, rs) = (if cfg_DriftCorrectionEnabled (rs_cfg rs)
                       then drift_correction cv it now nowMs now1 rs else (False, rs))
      in if ret then rs else checkHostMigrationLocked it' now now2 rs)"

definition AdoptOwnerIfUnset :: "string \<Rightarrow> time \<Rightarrow> time \<Rightarrow> RoomSync \<Rightarrow> bool \<times> RoomSync" where
  "AdoptOwnerIfUnset ownerID now now' rs =
     (if ownerID = '''' then (False, rs)
      else
        (let s = rs_state rs;
             s = (if ss_OwnerID s = '''' then s\<lparr>ss_OwnerID := ownerID\<rparr> else s)
         in if ss_HostID s \<noteq> '''' then (False, rs\<lparr>rs_state := s\<rparr>)
            else (True, broadcastUpdateLocked now' (rs\<lparr>rs_state :=
              s\<lparr>ss_HostID := ownerID, ss_Epoch := ss_Epoch s + 1, ss_EpochStarted := now\<rparr>\<rparr>))))"

section \<open>RPC methods\<close>

record HeartbeatReply =
  hr_serverWallTimeMs :: int
  hr_serverMediaTimeMs :: int
  hr_epoch :: u64
  hr_clientDriftMs :: int
  hr_smoothedRttMs :: int

definition ProcessHeartbeat ::
  "(f64 \<Rightarrow> int) \<Rightarrow> string \<Rightarrow> string \<Rightarrow> int \<Rightarrow> int \<Rightarrow> int \<Rightarrow> time \<Rightarrow> int \<Rightarrow> RoomSync \<Rightarrow> HeartbeatReply \<times> RoomSync" where
  "ProcessHeartbeat cv roomID userID clientMediaTimeMs clientWallTimeMs t2 now t3 rs =
     (let hb = (case rs_heartbeats rs userID of None \<Rightarrow> zero_ClientHeartbeat | Some hb \<Rightarrow> hb);
          hb = Update clientWallTimeMs t2 t3 now hb;
          serverMediaTime = AdvanceMediaTime cv (rs_state rs) t3;
          clientAdjusted = ClientMediaTimeAt clientMediaTimeMs hb;
          hb = hb\<lparr>hb_DriftMs := fsub clientAdjusted (i2f serverMediaTime)\<rparr>;
          rs = rs\<lparr>rs_heartbeats := (rs_heartbeats rs)(userID \<mapsto> hb)\<rparr>;
          rs = (if rs_presence rs then rs\<lparr>rs_pings := rs_pings rs @ [(roomID, userID)]\<rparr> else rs)
      in (\<lparr>hr_serverWallTimeMs = t3, hr_serverMediaTimeMs = serverMediaTime, hr_epoch = ss_Epoch (rs_state rs),
           hr_clientDriftMs = clampInt32 cv (hb_DriftMs hb), hr_smoothedRttMs = clampInt32 cv (hb_SmoothedRTT hb)\<rparr>,
          rs))"

type_synonym command_reply = "u64 \<times> bool \<times> string"

definition applyCommandLocked ::
  "(f64 \<Rightarrow> int) \<Rightarrow> CommandKind \<Rightarrow> int option \<Rightarrow> f64 option \<Rightarrow> string \<Rightarrow> u64 \<Rightarrow> int \<Rightarrow> time \<Rightarrow> time \<Rightarrow> RoomSync
   \<Rightarrow> command_reply \<times> RoomSync" where
  "applyCommandLocked cv kind seekToMs rate mediaID fencingToken nowMs now now' rs =
     (if fencingToken < ss_FencingToken (rs_state rs)
      then ((ss_Epoch (rs_state rs), False, ''STALE_FENCING_TOKEN''), rs)
      else
        (let rs = rs\<lparr>rs_state := ApplyCommand cv (rs_state rs) kind seekToMs rate mediaID nowMs now\<rparr>;
             rs = broadcastUpdateLocked now' rs
         in ((ss_Epoch (rs_state rs), True, ''''), rs)))"

definition ProcessCommand ::
  "(f64 \<Rightarrow> int) \<Rightarrow> string \<Rightarrow> CommandKind \<Rightarrow> int option \<Rightarrow> f64 option \<Rightarrow> string \<Rightarrow> u64 \<Rightarrow> int \<Rightarrow> time \<Rightarrow> time \<Rightarrow> RoomSync
   \<Rightarrow> command_reply \<times> RoomSync" where
  "ProcessCommand cv userID kind seekToMs rate mediaID fencingToken nowMs now now' rs =
     (if fencingToken < ss_FencingToken (rs_state rs)
      then ((ss_Epoch (rs_state rs), False, ''STALE_FENCING_TOKEN''), rs)
      else if userID \<noteq> ss_HostID (rs_state rs)
      then ((ss_Epoch (rs_state rs), False, ''NOT_HOST''), rs)
      else applyCommandLocked cv kind seekToMs rate mediaID fencingToken nowMs now now' rs)"

definition ProcessCommandAuthorized ::
  "(f64 \<Rightarrow> int) \<Rightarrow> CommandKind \<Rightarrow> int option \<Rightarrow> f64 option \<Rightarrow> string \<Rightarrow> u64 \<Rightarrow> int \<Rightarrow> time \<Rightarrow> time \<Rightarrow> RoomSync
   \<Rightarrow> command_reply \<times> RoomSync" where
  "ProcessCommandAuthorized cv kind seekToMs rate mediaID fencingToken nowMs now now' rs =
     applyCommandLocked cv kind seekToMs rate mediaID fencingToken nowMs now now' rs"

definition HostID :: "RoomSync \<Rightarrow> string" where "HostID rs = ss_HostID (rs_state rs)"
definition OwnerID :: "RoomSync \<Rightarrow> string" where "OwnerID rs = ss_OwnerID (rs_state rs)"

definition Recover ::
  "(f64 \<Rightarrow> int) \<Rightarrow> string list \<Rightarrow> u64 \<Rightarrow> time \<Rightarrow> RoomSync \<Rightarrow> SyncSnapshot option \<times> frame list" where
  "Recover cv it sinceEpoch now rs =
     (if ss_Epoch (rs_state rs) - sinceEpoch \<le> i64_to_u64 (ringSize (rs_cfg rs)) \<and> sinceEpoch > 0
      then (None, map snd (filter (\<lambda>fe. fst fe > sinceEpoch) (rs_ringBuffer rs)))
      else (Some (buildSnapshotLocked cv it now rs), []))"

definition Snapshot :: "(f64 \<Rightarrow> int) \<Rightarrow> string list \<Rightarrow> time \<Rightarrow> RoomSync \<Rightarrow> SyncSnapshot" where
  "Snapshot cv it now rs = buildSnapshotLocked cv it now rs"

section \<open>Subscribers\<close>

definition RegisterSubscriber :: "nat \<Rightarrow> RoomSync \<Rightarrow> RoomSync" where
  "RegisterSubscriber ch rs = rs\<lparr>rs_subscribers := (rs_subscribers rs)(ch \<mapsto> [])\<rparr>"

definition UnregisterSubscriber :: "nat \<Rightarrow> RoomSync \<Rightarrow> RoomSync" where
  "UnregisterSubscriber ch rs = rs\<lparr>rs_subscribers := (rs_subscribers rs)(ch := None)\<rparr>"

text \<open>The receive of the stream handler: the oldest buffered frame, if there is one.\<close>

definition receive :: "nat \<Rightarrow> RoomSync \<Rightarrow> frame option \<times> RoomSync" where
  "receive ch rs = (case rs_subscribers rs ch of
     Some (f # q) \<Rightarrow> (Some f, rs\<lparr>rs_subscribers := (rs_subscribers rs)(ch \<mapsto> q)\<rparr>)
   | _ \<Rightarrow> (None, rs))"

section \<open>Periodic outputs\<close>

definition stageOutbox :: "(f64 \<Rightarrow> int) \<Rightarrow> string list \<Rightarrow> time \<Rightarrow> string \<Rightarrow> time \<Rightarrow> RoomSync \<Rightarrow> Event" where
  "stageOutbox cv it now newID now' rs =
     (let snapshot = buildSnapshotLocked cv it now rs; st = sn_State snapshot in
      \<lparr>ev_ID = newID, ev_AggregateID = rs_roomID rs, ev_Topic = ''sync.updated.v1'', ev_Key = rs_roomID rs,
       ev_Payload = json_marshal
         [(''room_id'', JStr (rs_roomID rs)), (''epoch'', JInt (uint (pb_Epoch st))),
          (''status'', JInt (pb_Status st)), (''media_time'', JInt (pb_MediaTimeMs st)),
          (''wall_time'', JInt (pb_WallTimeMs st)), (''rate'', JNum (pb_PlaybackRate st)),
          (''host_id'', JStr (case pb_HostId st of None \<Rightarrow> '''' | Some h \<Rightarrow> h)),
          (''drift_ms'', JInt (sn_DriftEstimateMs snapshot)), (''peers'', JInt (uint (sn_ActivePeers snapshot)))],
       ev_Headers = [], ev_OccurredAt = now', ev_Version = ''v1''\<rparr>)"

definition persistState :: "RoomSync \<Rightarrow> SyncState" where
  "persistState rs = rs_state rs"

lemmas [room_sync_defs] = migrateHostLocked_def checkHostMigrationLocked_def drift_correction_def tick_def
  AdoptOwnerIfUnset_def ProcessHeartbeat_def applyCommandLocked_def ProcessCommand_def
  ProcessCommandAuthorized_def RegisterSubscriber_def UnregisterSubscriber_def receive_def
  broadcastLocked_def addToRingLocked_def broadcastUpdateLocked_def broadcastSnapshot_def
  Start_def Shutdown_def

end
