(* ===== verification/Fencing.thy ===== *)
theory Fencing
  imports Prelude
begin

text \<open>
  The fencing contract. The sync service (\<open>applyCommandLocked\<close>) and the playback service
  (\<open>ApplySyncCommand\<close>) both guard a state with a fencing token: a command that carries a smaller token
  is refused and changes nothing, and no command lowers the token. What follows from these two laws
  is proved once, inside the locale: stale commands have no influence on the outcome of a history.
\<close>

locale fenced =
  fixes token :: "'s \<Rightarrow> u64"
    and apply_cmd :: "'c \<Rightarrow> u64 \<Rightarrow> 's \<Rightarrow> bool \<times> 's"
  assumes stale_refused: "t < token s \<Longrightarrow> apply_cmd c t s = (False, s)"
    and token_mono: "apply_cmd c t s = (b, s') \<Longrightarrow> token s \<le> token s'"
begin

definition run :: "('c \<times> u64) list \<Rightarrow> 's \<Rightarrow> 's" where
  "run cs s = fold (\<lambda>(c, t) s. snd (apply_cmd c t s)) cs s"

lemma run_Nil [simp]: "run [] s = s"
  by (simp add: run_def)

lemma run_Cons [simp]: "run ((c, t) # cs) s = run cs (snd (apply_cmd c t s))"
  by (simp add: run_def)

lemma run_token_mono: "token s \<le> token (run cs s)"
proof (induction cs arbitrary: s)
  case (Cons x cs)
  obtain c t where x: "x = (c, t)" by fastforce
  have "token s \<le> token (snd (apply_cmd c t s))" by (rule token_mono [of c t s "fst (apply_cmd c t s)"]) simp
  then show ?case using Cons [of "snd (apply_cmd c t s)"] x by simp
qed simp

text \<open>Dropping every command with a token below a bound the state has already passed changes nothing.\<close>

lemma run_filter_stale: "x \<le> token s \<Longrightarrow> run cs s = run (filter (\<lambda>(c, t). x \<le> t) cs) s"
proof (induction cs arbitrary: s)
  case (Cons y cs)
  obtain c t where y: "y = (c, t)" by fastforce
  show ?case
  proof (cases "x \<le> t")
    case True
    have "token s \<le> token (snd (apply_cmd c t s))" by (rule token_mono [of c t s "fst (apply_cmd c t s)"]) simp
    then have "x \<le> token (snd (apply_cmd c t s))" using Cons.prems by simp
    from Cons.IH [OF this] show ?thesis using True y by simp
  next
    case False
    then have "apply_cmd c t s = (False, s)" using Cons.prems by (intro stale_refused) simp
    then show ?thesis using Cons.IH [OF Cons.prems] False y by simp
  qed
qed simp

end

end
