(* ===== verification/Vb_History.thy ===== *)
theory Vb_History
  imports Main
begin

text \<open>
  Invariants of step relations. Every service of the development is a relation between states (tables, rooms, locks); the
  contract that each of its steps keeps an invariant is the locale \<open>invariant_system\<close>, with a start that satisfies it the locale
  \<open>history\<close>. Their consequence, the invariant in every history, is proved here once and interpreted on the services.
\<close>

locale invariant_system =
  fixes step :: "'s \<Rightarrow> 's \<Rightarrow> bool" and inv :: "'s \<Rightarrow> bool"
  assumes step_inv: "step s s' \<Longrightarrow> inv s \<Longrightarrow> inv s'"
begin

lemma run_inv: "step\<^sup>*\<^sup>* s s' \<Longrightarrow> inv s \<Longrightarrow> inv s'"
  by (induction rule: rtranclp_induct) (auto intro: step_inv)

end

locale history = invariant_system +
  fixes start :: 's
  assumes start_inv: "inv start"
begin

lemma reachable_inv: "step\<^sup>*\<^sup>* start s \<Longrightarrow> inv s"
  using run_inv start_inv by blast

end

end
