(* ===== verification/Room_Sync_Run.thy ===== *)
theory Room_Sync_Run
  imports Room_Sync Fencing Vb_History
begin

text \<open>
  A room as a state machine: \<open>room_step\<close> is one call of a method of \<open>RoomSync\<close> (or one iteration of its
  loop) under its mutex, \<open>(room_step cv ^^ n)\<close> a history of \<open>n\<close> calls in any interleaving.

  Shown here for every history: the state stays well formed and all buffers stay bounded; epoch and
  fencing token never decrease and the epoch determines the state a client is shown; frames reach a
  subscriber in epoch order; a command that carries a token from before a host migration is refused.
  The counters are \<open>uint64\<close>; the theorems that need it assume that the history is too short to wrap
  them (an epoch grows by at most 2 per step).
\<close>

section \<open>Steps\<close>

definition iteration :: "string list \<Rightarrow> RoomSync \<Rightarrow> bool" where
  "iteration it rs \<longleftrightarrow> distinct it \<and> set it = dom (rs_heartbeats rs)"

inductive room_step :: "(f64 \<Rightarrow> int) \<Rightarrow> RoomSync \<Rightarrow> RoomSync \<Rightarrow> bool" for cv where
  start: "room_step cv rs (Start rs)"
| shutdown: "room_step cv rs (Shutdown rs)"
| loop_exit: "rs_running rs \<Longrightarrow> rs_cancelled rs \<Longrightarrow> room_step cv rs (rs\<lparr>rs_running := False\<rparr>)"
| tick: "rs_running rs \<Longrightarrow> iteration it rs \<Longrightarrow> iteration it' rs \<Longrightarrow> in_i64 nowMs
    \<Longrightarrow> room_step cv rs (tick cv it it' now nowMs now1 now2 rs)"
| snapshot: "rs_running rs \<Longrightarrow> iteration it rs \<Longrightarrow> room_step cv rs (broadcastSnapshot cv it now now' rs)"
| adopt: "room_step cv rs (snd (AdoptOwnerIfUnset ownerID now now' rs))"
| heartbeat: "room_step cv rs (snd (ProcessHeartbeat cv roomID userID mt wt t2 now t3 rs))"
| command: "in_i64 nowMs \<Longrightarrow> \<forall>x. seek = Some x \<longrightarrow> in_i64 x
    \<Longrightarrow> room_step cv rs (snd (ProcessCommand cv userID kind seek rate mediaID tok nowMs now now' rs))"
| command_authorized: "in_i64 nowMs \<Longrightarrow> \<forall>x. seek = Some x \<longrightarrow> in_i64 x
    \<Longrightarrow> room_step cv rs (snd (ProcessCommandAuthorized cv kind seek rate mediaID tok nowMs now now' rs))"
| register: "rs_subscribers rs ch = None \<Longrightarrow> room_step cv rs (RegisterSubscriber ch rs)"
| unregister: "room_step cv rs (UnregisterSubscriber ch rs)"
| receive: "room_step cv rs (snd (receive ch rs))"

inductive_cases room_stepE: "room_step cv rs rs'"

section \<open>What the operations leave alone\<close>

lemma broadcastLocked_frame [simp]:
  "rs_cfg (broadcastLocked fr rs) = rs_cfg rs" "rs_roomID (broadcastLocked fr rs) = rs_roomID rs"
  "rs_state (broadcastLocked fr rs) = rs_state rs" "rs_heartbeats (broadcastLocked fr rs) = rs_heartbeats rs"
  "rs_controller (broadcastLocked fr rs) = rs_controller rs" "rs_ringBuffer (broadcastLocked fr rs) = rs_ringBuffer rs"
  "rs_started (broadcastLocked fr rs) = rs_started rs" "rs_running (broadcastLocked fr rs) = rs_running rs"
  "rs_cancelled (broadcastLocked fr rs) = rs_cancelled rs"
  by (simp_all add: broadcastLocked_def)

lemma addToRingLocked_frame [simp]:
  "rs_cfg (addToRingLocked fr rs) = rs_cfg rs" "rs_roomID (addToRingLocked fr rs) = rs_roomID rs"
  "rs_state (addToRingLocked fr rs) = rs_state rs" "rs_heartbeats (addToRingLocked fr rs) = rs_heartbeats rs"
  "rs_controller (addToRingLocked fr rs) = rs_controller rs" "rs_subscribers (addToRingLocked fr rs) = rs_subscribers rs"
  "rs_started (addToRingLocked fr rs) = rs_started rs" "rs_running (addToRingLocked fr rs) = rs_running rs"
  "rs_cancelled (addToRingLocked fr rs) = rs_cancelled rs"
  by (simp_all add: addToRingLocked_def Let_def)

lemma broadcastUpdateLocked_frame [simp]:
  "rs_cfg (broadcastUpdateLocked now rs) = rs_cfg rs" "rs_roomID (broadcastUpdateLocked now rs) = rs_roomID rs"
  "rs_state (broadcastUpdateLocked now rs) = rs_state rs"
  "rs_heartbeats (broadcastUpdateLocked now rs) = rs_heartbeats rs"
  "rs_controller (broadcastUpdateLocked now rs) = rs_controller rs"
  "rs_started (broadcastUpdateLocked now rs) = rs_started rs"
  "rs_running (broadcastUpdateLocked now rs) = rs_running rs"
  "rs_cancelled (broadcastUpdateLocked now rs) = rs_cancelled rs"
  by (simp_all add: broadcastUpdateLocked_def Let_def)

lemma broadcastSnapshot_frame [simp]:
  "rs_cfg (broadcastSnapshot cv it now now' rs) = rs_cfg rs"
  "rs_roomID (broadcastSnapshot cv it now now' rs) = rs_roomID rs"
  "rs_state (broadcastSnapshot cv it now now' rs) = rs_state rs"
  "rs_heartbeats (broadcastSnapshot cv it now now' rs) = rs_heartbeats rs"
  "rs_started (broadcastSnapshot cv it now now' rs) = rs_started rs"
  "rs_running (broadcastSnapshot cv it now now' rs) = rs_running rs"
  "rs_cancelled (broadcastSnapshot cv it now now' rs) = rs_cancelled rs"
  by (simp_all add: broadcastSnapshot_def Let_def)

lemma stateToProto_cong:
  "rs_state rs = rs_state rs' \<Longrightarrow> rs_roomID rs = rs_roomID rs' \<Longrightarrow> stateToProtoLocked rs = stateToProtoLocked rs'"
  by (simp add: stateToProtoLocked_def)

section \<open>How the state evolves\<close>

text \<open>\<open>evolves k s s'\<close>: the epoch advances by \<open>k\<close>, the fencing token by at most \<open>k\<close> (and by at least
  one if a host is replaced); without an epoch step only the owner may be filled in, and an owner
  once known stays.\<close>

definition evolves :: "nat \<Rightarrow> SyncState \<Rightarrow> SyncState \<Rightarrow> bool" where
  "evolves k s s' \<longleftrightarrow> ss_RoomID s' = ss_RoomID s \<and> ss_Epoch s' = ss_Epoch s + of_nat k \<and>
     (\<exists>j\<le>k. ss_FencingToken s' = ss_FencingToken s + of_nat j \<and>
        (j = 0 \<longrightarrow> ss_HostID s' = ss_HostID s \<or> ss_HostID s = '''')) \<and>
     (k = 0 \<longrightarrow> s' = s\<lparr>ss_OwnerID := ss_OwnerID s'\<rparr>) \<and>
     (ss_OwnerID s \<noteq> '''' \<longrightarrow> ss_OwnerID s' = ss_OwnerID s)"

lemma evolves_refl [simp]: "evolves 0 s s"
  by (simp add: evolves_def)

lemma evolves_trans:
  assumes "evolves k s s'" "evolves l s' s''" shows "evolves (k + l) s s''"
  unfolding evolves_def
proof (intro conjI)
  obtain i j where ij: "i \<le> k" "ss_FencingToken s' = ss_FencingToken s + of_nat i"
      "i = 0 \<longrightarrow> ss_HostID s' = ss_HostID s \<or> ss_HostID s = ''''"
      "j \<le> l" "ss_FencingToken s'' = ss_FencingToken s' + of_nat j"
      "j = 0 \<longrightarrow> ss_HostID s'' = ss_HostID s' \<or> ss_HostID s' = ''''"
    using assms unfolding evolves_def by blast
  then have "i + j \<le> k + l \<and> ss_FencingToken s'' = ss_FencingToken s + of_nat (i + j) \<and>
      (i + j = 0 \<longrightarrow> ss_HostID s'' = ss_HostID s \<or> ss_HostID s = '''')" by auto
  then show "\<exists>j\<le>k + l. ss_FencingToken s'' = ss_FencingToken s + of_nat j \<and>
      (j = 0 \<longrightarrow> ss_HostID s'' = ss_HostID s \<or> ss_HostID s = '''')" by blast
  show "k + l = 0 \<longrightarrow> s'' = s\<lparr>ss_OwnerID := ss_OwnerID s''\<rparr>"
  proof
    assume "k + l = 0"
    then obtain a b where "s' = s\<lparr>ss_OwnerID := a\<rparr>" "s'' = s'\<lparr>ss_OwnerID := b\<rparr>"
      using assms unfolding evolves_def by (metis add_is_0)
    then show "s'' = s\<lparr>ss_OwnerID := ss_OwnerID s''\<rparr>" by simp
  qed
qed (use assms in \<open>simp_all add: evolves_def\<close>)

lemma ApplyCommand_evolves: "evolves 1 s (ApplyCommand cv s kind seek rate mediaID nowMs now)"
  by (auto simp: evolves_def intro: exI [of _ 0])

lemma migrate_evolves: "evolves 1 (rs_state rs) (rs_state (migrateHostLocked u now rs))"
  by (auto simp: evolves_def migrateHostLocked_def Let_def intro: exI [of _ 1])

lemma evolves_le1: "evolves 0 s s' \<or> evolves 1 s s' \<Longrightarrow> \<exists>k\<le>1. evolves k s s'"
  by auto

lemma le1_le2: "\<exists>k\<le>1. P (k::nat) \<Longrightarrow> \<exists>k\<le>2. P k"
  by (meson le_trans one_le_numeral)

lemma pause_evolves: "evolves 1 s (s\<lparr>ss_Status := x, ss_PlaybackRate := y, ss_Epoch := ss_Epoch s + 1\<rparr>)"
  by (auto simp: evolves_def intro: exI [of _ 0])

lemma check_evolves: "\<exists>k\<le>1. evolves k (rs_state rs) (rs_state (checkHostMigrationLocked it now now' rs))"
proof (rule evolves_le1)
  show "evolves 0 (rs_state rs) (rs_state (checkHostMigrationLocked it now now' rs)) \<or>
      evolves 1 (rs_state rs) (rs_state (checkHostMigrationLocked it now now' rs))"
    unfolding checkHostMigrationLocked_def Let_def
    using migrate_evolves [of rs] pause_evolves [of "rs_state rs"] by (simp split: if_split)
qed

lemma drift_evolves: "\<exists>k\<le>1. evolves k (rs_state rs) (rs_state (snd (drift_correction cv it now nowMs now' rs)))"
proof -
  have "evolves 1 s (s\<lparr>ss_MediaTimeMs := m, ss_WallTimeMs := w, ss_Epoch := ss_Epoch s + 1\<rparr>)" for s m w
    by (auto simp: evolves_def intro: exI [of _ 0])
  then show ?thesis
    unfolding drift_correction_def Let_def case_prod_beta
    by (auto intro: exI [of _ "0::nat"] exI [of _ "1::nat"])
qed

lemma tick_evolves: "\<exists>k\<le>2. evolves k (rs_state rs) (rs_state (tick cv it it' now nowMs now1 now2 rs))"
proof -
  obtain k where k: "k \<le> 1" "evolves k (rs_state rs) (rs_state (snd (drift_correction cv it now nowMs now1 rs)))"
    using drift_evolves by blast
  define r where "r = (if cfg_DriftCorrectionEnabled (rs_cfg rs)
    then drift_correction cv it now nowMs now1 rs else (False, rs))"
  have "\<exists>k\<le>1. evolves k (rs_state rs) (rs_state (snd r))"
    using k by (auto simp: r_def intro: exI [of _ "0::nat"])
  then obtain k where k: "k \<le> 1" "evolves k (rs_state rs) (rs_state (snd r))" by blast
  obtain l where l: "l \<le> 1" "evolves l (rs_state (snd r)) (rs_state (checkHostMigrationLocked it' now now2 (snd r)))"
    using check_evolves by blast
  have "tick cv it it' now nowMs now1 now2 rs =
      (if fst r then snd r else checkHostMigrationLocked it' now now2 (snd r))"
    by (simp add: tick_def r_def case_prod_beta)
  then show ?thesis using k l evolves_trans [OF k(2) l(2)]
    by (cases "fst r") (auto intro: exI [of _ "k + l"] exI [of _ k])
qed

lemma adopt_evolves: "\<exists>k\<le>1. evolves k (rs_state rs) (rs_state (snd (AdoptOwnerIfUnset own now now' rs)))"
proof -
  let ?s = "rs_state (snd (AdoptOwnerIfUnset own now now' rs))"
  have "evolves (if own \<noteq> '''' \<and> ss_HostID (rs_state rs) = '''' then 1 else 0) (rs_state rs) ?s"
    by (auto simp: AdoptOwnerIfUnset_def Let_def evolves_def intro: exI [of _ 0])
  then show ?thesis by (metis le_numeral_extra(4) zero_le_one)
qed

lemma command_evolves:
  "\<exists>k\<le>1. evolves k (rs_state rs) (rs_state (snd (applyCommandLocked cv kind seek rate mediaID tok nowMs now now' rs)))"
  using ApplyCommand_evolves [of "rs_state rs" cv kind seek rate mediaID nowMs now]
  by (auto simp: applyCommandLocked_def Let_def intro: exI [of _ "0::nat"])

lemma room_step_evolves: "room_step cv rs rs' \<Longrightarrow> \<exists>k\<le>2. evolves k (rs_state rs) (rs_state rs')"
proof (induction rule: room_step.induct)
  case (tick rs it it' nowMs now now1 now2)
  show ?case by (rule tick_evolves)
next
  case (adopt rs own now now')
  show ?case by (rule le1_le2 [OF adopt_evolves])
next
  case (command nowMs seek rs userID kind rate mediaID tok now now')
  show ?case
    using le1_le2 [OF command_evolves [of rs cv kind seek rate mediaID tok nowMs now now']]
    by (auto simp: ProcessCommand_def intro: exI [of _ "0::nat"])
next
  case (command_authorized nowMs seek rs kind rate mediaID tok now now')
  show ?case unfolding ProcessCommandAuthorized_def by (rule le1_le2 [OF command_evolves])
qed (auto simp: Start_def Shutdown_def ProcessHeartbeat_def RegisterSubscriber_def UnregisterSubscriber_def
    receive_def Let_def split: option.splits list.splits intro!: exI [of _ "0::nat"])

section \<open>Well-formed rooms\<close>

definition room_ok :: "RoomSync \<Rightarrow> bool" where
  "room_ok rs \<longleftrightarrow> state_ok (rs_state rs) \<and>
     (\<forall>u hb. rs_heartbeats rs u = Some hb \<longrightarrow> heartbeat_ok hb) \<and> finite (dom (rs_heartbeats rs)) \<and>
     int (length (rs_ringBuffer rs)) \<le> ringSize (rs_cfg rs) \<and>
     (\<forall>ch q. rs_subscribers rs ch = Some q \<longrightarrow> length q \<le> chan_cap) \<and>
     (rs_running rs \<or> rs_cancelled rs \<longrightarrow> rs_started rs)"

lemma ringSize_pos [simp]: "0 < ringSize cfg" "0 \<le> ringSize cfg"
  by (auto simp: ringSize_def)

lemma room_ok_state:
  "room_ok rs \<Longrightarrow> state_ok s \<Longrightarrow> room_ok (rs\<lparr>rs_state := s\<rparr>)"
  by (simp add: room_ok_def)

lemma room_ok_controller: "room_ok (rs\<lparr>rs_controller := dc\<rparr>) \<longleftrightarrow> room_ok rs"
  by (simp add: room_ok_def)

lemma broadcastLocked_ok: "room_ok rs \<Longrightarrow> room_ok (broadcastLocked fr rs)"
  by (auto simp: room_ok_def broadcastLocked_def)

lemma addToRingLocked_ok: "room_ok rs \<Longrightarrow> room_ok (addToRingLocked fr rs)"
  using keep_last_length [of "ringSize (rs_cfg rs)" "rs_ringBuffer rs @ [(ss_Epoch (rs_state rs), fr)]"]
  by (simp add: room_ok_def addToRingLocked_def Let_def del: length_append length_drop)

lemma broadcastUpdateLocked_ok: "room_ok rs \<Longrightarrow> room_ok (broadcastUpdateLocked now rs)"
  by (simp add: broadcastUpdateLocked_def Let_def broadcastLocked_ok addToRingLocked_ok)

lemma broadcastSnapshot_ok: "room_ok rs \<Longrightarrow> room_ok (broadcastSnapshot cv it now now' rs)"
  by (simp add: broadcastSnapshot_def Let_def broadcastLocked_ok addToRingLocked_ok)

lemma migrateHostLocked_ok: "room_ok rs \<Longrightarrow> room_ok (migrateHostLocked u now rs)"
  unfolding migrateHostLocked_def Let_def
  by (intro broadcastLocked_ok room_ok_state) (auto simp: room_ok_def state_ok_def)

lemma checkHostMigrationLocked_ok:
  assumes "room_ok rs" shows "room_ok (checkHostMigrationLocked it now now' rs)"
proof -
  have "state_ok ((rs_state rs)\<lparr>ss_Status := StatusPaused, ss_PlaybackRate := Fin 0, ss_Epoch := e\<rparr>)" for e
    using assms by (simp add: room_ok_def state_ok_def rate_ok_def)
  then show ?thesis
    unfolding checkHostMigrationLocked_def Let_def
    using assms migrateHostLocked_ok [OF assms]
    by (simp add: broadcastUpdateLocked_ok room_ok_state split: if_split)
qed

lemma drift_correction_ok:
  assumes "room_ok rs" "in_i64 nowMs" shows "room_ok (snd (drift_correction cv it now nowMs now' rs))"
proof -
  have "state_ok ((rs_state rs)\<lparr>ss_MediaTimeMs := i64 m, ss_WallTimeMs := nowMs, ss_Epoch := e\<rparr>)" for m e
    using assms by (simp add: room_ok_def state_ok_def i64_in)
  then show ?thesis
    unfolding drift_correction_def Let_def case_prod_beta
    using assms(1) by (simp add: broadcastUpdateLocked_ok room_ok_state room_ok_controller split: if_split)
qed

lemma tick_ok: "room_ok rs \<Longrightarrow> in_i64 nowMs \<Longrightarrow> room_ok (tick cv it it' now nowMs now1 now2 rs)"
  using drift_correction_ok [of rs nowMs cv it now now1]
  by (simp add: tick_def case_prod_beta checkHostMigrationLocked_ok split: if_split)

lemma AdoptOwnerIfUnset_ok:
  assumes "room_ok rs" shows "room_ok (snd (AdoptOwnerIfUnset own now now' rs))"
proof -
  have "state_ok ((rs_state rs)\<lparr>ss_OwnerID := x\<rparr>)"
    "state_ok ((rs_state rs)\<lparr>ss_OwnerID := x, ss_HostID := y, ss_Epoch := z, ss_EpochStarted := w\<rparr>)"
    "state_ok ((rs_state rs)\<lparr>ss_HostID := y, ss_Epoch := z, ss_EpochStarted := w\<rparr>)" for x y z w
    using assms by (auto simp: room_ok_def state_ok_def)
  then show ?thesis
    using assms by (simp add: AdoptOwnerIfUnset_def Let_def broadcastUpdateLocked_ok room_ok_state split: if_split)
qed

lemma heartbeat_ok_drift [simp]: "heartbeat_ok (hb\<lparr>hb_DriftMs := d\<rparr>) = heartbeat_ok hb"
  by (simp add: heartbeat_ok_def)

lemma heartbeat_ok_zero [simp]: "heartbeat_ok zero_ClientHeartbeat"
  by (simp add: heartbeat_ok_def zero_ClientHeartbeat_def)

lemma ProcessHeartbeat_ok:
  assumes "room_ok rs" shows "room_ok (snd (ProcessHeartbeat cv roomID u mt wt t2 now t3 rs))"
proof -
  have "heartbeat_ok (case rs_heartbeats rs u of None \<Rightarrow> zero_ClientHeartbeat | Some hb \<Rightarrow> hb)"
    using assms by (auto simp: room_ok_def split: option.split)
  then show ?thesis
    using assms Update_ok by (auto simp: ProcessHeartbeat_def Let_def room_ok_def)
qed

lemma applyCommandLocked_ok:
  assumes "room_ok rs" "in_i64 nowMs" "\<forall>x. seek = Some x \<longrightarrow> in_i64 x"
  shows "room_ok (snd (applyCommandLocked cv kind seek rate mediaID tok nowMs now now' rs))"
proof -
  have "state_ok (ApplyCommand cv (rs_state rs) kind seek rate mediaID nowMs now)"
    using assms by (intro ApplyCommand_state_ok) (auto simp: room_ok_def)
  then show ?thesis
    using assms(1) by (simp add: applyCommandLocked_def Let_def broadcastUpdateLocked_ok room_ok_state)
qed

lemma room_step_ok: "room_step cv rs rs' \<Longrightarrow> room_ok rs \<Longrightarrow> room_ok rs'"
proof (induction rule: room_step.induct)
  case (receive rs ch)
  have "length q \<le> chan_cap" if "rs_subscribers rs ch = Some (f # q)" for f q
    using receive that unfolding room_ok_def by (metis Suc_leD length_Cons)
  then show ?case
    using receive by (auto simp: receive_def room_ok_def split: option.splits list.splits)
next
  case (command nowMs seek rs userID kind rate mediaID tok now now')
  then show ?case by (simp add: ProcessCommand_def applyCommandLocked_ok)
next
  case (command_authorized nowMs seek rs kind rate mediaID tok now now')
  then show ?case by (simp add: ProcessCommandAuthorized_def applyCommandLocked_ok)
qed (auto simp: tick_ok broadcastSnapshot_ok AdoptOwnerIfUnset_ok ProcessHeartbeat_ok,
    auto simp: Start_def Shutdown_def room_ok_def RegisterSubscriber_def UnregisterSubscriber_def split: if_splits)

lemma NewRoomSync_ok: "state_ok s \<Longrightarrow> room_ok (NewRoomSync cfg roomID s pres)"
  by (simp add: room_ok_def NewRoomSync_def)

interpretation room_run: invariant_system "room_step cv" room_ok for cv
  by unfold_locales (rule room_step_ok)

lemma run_ok: "(room_step cv)\<^sup>*\<^sup>* rs rs' \<Longrightarrow> room_ok rs \<Longrightarrow> room_ok rs'"
  by (rule room_run.run_inv)

section \<open>Frames in transit\<close>

definition frame_epoch :: "frame \<Rightarrow> u64" where
  "frame_epoch f = (case fr_Payload f of FUpdate p \<Rightarrow> pb_Epoch p | FSnapshot sn \<Rightarrow> pb_Epoch (sn_State sn)
     | FHostMigration h \<Rightarrow> hm_NewEpoch h)"

text \<open>A frame never lies ahead of the room, and a frame of the current epoch shows the current state.\<close>

definition frame_ok :: "RoomSync \<Rightarrow> frame \<Rightarrow> bool" where
  "frame_ok rs f \<longleftrightarrow> frame_epoch f \<le> ss_Epoch (rs_state rs) \<and>
     (frame_epoch f = ss_Epoch (rs_state rs) \<longrightarrow>
        (case fr_Payload f of FUpdate p \<Rightarrow> p = stateToProtoLocked rs
         | FSnapshot sn \<Rightarrow> sn_State sn = stateToProtoLocked rs
         | FHostMigration h \<Rightarrow> hm_NewHostId h = ss_HostID (rs_state rs) \<and>
             hm_NewFencingToken h = ss_FencingToken (rs_state rs)))"

definition queue_ok :: "RoomSync \<Rightarrow> frame list \<Rightarrow> bool" where
  "queue_ok rs q \<longleftrightarrow> (\<forall>f\<in>set q. frame_ok rs f) \<and> sorted_wrt (\<lambda>a b. frame_epoch a \<le> frame_epoch b) q"

definition frames_ok :: "RoomSync \<Rightarrow> bool" where
  "frames_ok rs \<longleftrightarrow> queue_ok rs (map snd (rs_ringBuffer rs)) \<and>
     (\<forall>(e, f)\<in>set (rs_ringBuffer rs). e = frame_epoch f) \<and>
     (\<forall>ch q. rs_subscribers rs ch = Some q \<longrightarrow> queue_ok rs q)"

lemma frame_ok_cong:
  "rs_state rs = rs_state rs' \<Longrightarrow> rs_roomID rs = rs_roomID rs' \<Longrightarrow> frame_ok rs = frame_ok rs'"
  using stateToProto_cong [of rs rs'] by (auto simp: frame_ok_def fun_eq_iff split: frame_payload.splits)

lemma queue_ok_cong:
  "rs_state rs = rs_state rs' \<Longrightarrow> rs_roomID rs = rs_roomID rs' \<Longrightarrow> queue_ok rs = queue_ok rs'"
  using frame_ok_cong [of rs rs'] by (simp add: queue_ok_def fun_eq_iff)

lemma frames_ok_cong:
  assumes "rs_state rs = rs_state rs'" "rs_roomID rs = rs_roomID rs'"
    "rs_ringBuffer rs = rs_ringBuffer rs'" "rs_subscribers rs = rs_subscribers rs'"
  shows "frames_ok rs = frames_ok rs'"
  using queue_ok_cong [OF assms(1,2)] assms(3,4) by (simp add: frames_ok_def)

lemma queue_ok_Nil [simp]: "queue_ok rs []"
  by (simp add: queue_ok_def)

lemma queue_ok_snoc:
  "queue_ok rs q \<Longrightarrow> frame_ok rs f \<Longrightarrow> frame_epoch f = ss_Epoch (rs_state rs) \<Longrightarrow> queue_ok rs (q @ [f])"
  by (auto simp: queue_ok_def sorted_wrt_append frame_ok_def)

lemma queue_ok_drop: "queue_ok rs q \<Longrightarrow> queue_ok rs (drop n q)"
  by (auto simp: queue_ok_def sorted_wrt_drop dest: in_set_dropD)

lemma addToRingLocked_frames:
  assumes "frames_ok rs" "frame_ok rs f" "frame_epoch f = ss_Epoch (rs_state rs)"
  shows "frames_ok (addToRingLocked f rs)"
proof -
  have q: "queue_ok (addToRingLocked f rs) = queue_ok rs" by (rule queue_ok_cong) simp_all
  have "queue_ok rs (map snd (rs_ringBuffer rs @ [(ss_Epoch (rs_state rs), f)]))"
    using assms by (simp add: frames_ok_def queue_ok_snoc)
  then show ?thesis
    using assms unfolding frames_ok_def q
    by (auto simp: addToRingLocked_def Let_def drop_map [symmetric] queue_ok_drop simp del: drop_append
        dest!: in_set_dropD)
qed

lemma broadcastLocked_frames:
  assumes "frames_ok rs" "frame_ok rs f" "frame_epoch f = ss_Epoch (rs_state rs)"
  shows "frames_ok (broadcastLocked f rs)"
proof -
  have q: "queue_ok (broadcastLocked f rs) = queue_ok rs" by (rule queue_ok_cong) simp_all
  show ?thesis
    using assms unfolding frames_ok_def q
    by (auto simp: broadcastLocked_def queue_ok_snoc)
qed

lemma send_frames:
  assumes "frames_ok rs" "frame_ok rs f" "frame_epoch f = ss_Epoch (rs_state rs)"
  shows "frames_ok (broadcastLocked f (addToRingLocked f rs))"
proof -
  have "frame_ok (addToRingLocked f rs) = frame_ok rs" by (rule frame_ok_cong) simp_all
  then show ?thesis using addToRingLocked_frames [OF assms] assms by (intro broadcastLocked_frames) simp_all
qed

lemma broadcastUpdateLocked_frames: "frames_ok rs \<Longrightarrow> frames_ok (broadcastUpdateLocked now rs)"
  unfolding broadcastUpdateLocked_def Let_def
  by (rule send_frames) (simp_all add: frame_ok_def frame_epoch_def stateToProtoLocked_def Let_def)

lemma broadcastSnapshot_frames: "frames_ok rs \<Longrightarrow> frames_ok (broadcastSnapshot cv it now now' rs)"
  unfolding broadcastSnapshot_def Let_def
  by (rule send_frames)
    (simp_all add: frame_ok_def frame_epoch_def buildSnapshotLocked_def stateToProtoLocked_def Let_def)

lemma unat_add_of_nat: "unat (e :: u64) + k < 2 ^ 64 \<Longrightarrow> unat (e + of_nat k) = unat e + k"
  by (simp add: unat_word_ariths unat_of_nat)

lemma frame_ok_evolves:
  assumes "frame_ok rs f" "evolves k (rs_state rs) s'" "unat (ss_Epoch (rs_state rs)) + k < 2 ^ 64"
  shows "frame_ok (rs\<lparr>rs_state := s'\<rparr>) f"
proof (cases "k = 0")
  case True
  then have "s' = (rs_state rs)\<lparr>ss_OwnerID := ss_OwnerID s'\<rparr>" using assms(2) by (simp add: evolves_def)
  then obtain w where "s' = (rs_state rs)\<lparr>ss_OwnerID := w\<rparr>" ..
  then show ?thesis
    using assms(1) by (simp add: frame_ok_def stateToProtoLocked_def Let_def split: frame_payload.splits)
next
  case False
  then have "unat (ss_Epoch s') = unat (ss_Epoch (rs_state rs)) + k"
    using assms(2,3) by (simp add: evolves_def unat_add_of_nat)
  then have "ss_Epoch (rs_state rs) < ss_Epoch s'" using False by (simp add: word_less_nat_alt)
  then show ?thesis using assms(1) by (auto simp: frame_ok_def)
qed

lemma frames_ok_evolves:
  assumes "frames_ok rs" "evolves k (rs_state rs) s'" "unat (ss_Epoch (rs_state rs)) + k < 2 ^ 64"
  shows "frames_ok (rs\<lparr>rs_state := s'\<rparr>)"
  using assms(1) frame_ok_evolves [OF _ assms(2,3)] by (auto simp: frames_ok_def queue_ok_def)

lemma migrateHostLocked_frames:
  assumes "frames_ok rs" "unat (ss_Epoch (rs_state rs)) + 1 < 2 ^ 64"
  shows "frames_ok (migrateHostLocked u now rs)"
proof -
  let ?s = "(rs_state rs)\<lparr>ss_HostID := u, ss_Epoch := ss_Epoch (rs_state rs) + 1,
                 ss_FencingToken := ss_FencingToken (rs_state rs) + 1, ss_EpochStarted := now\<rparr>"
  have "evolves 1 (rs_state rs) ?s" using migrate_evolves [of rs u now] by (simp add: migrateHostLocked_def Let_def)
  then have "frames_ok (rs\<lparr>rs_state := ?s\<rparr>)" using assms by (intro frames_ok_evolves) auto
  then show ?thesis
    unfolding migrateHostLocked_def Let_def
    by (rule broadcastLocked_frames) (simp_all add: frame_ok_def frame_epoch_def)
qed

lemma update_frames:
  assumes "frames_ok rs" "evolves k (rs_state rs) s'" "unat (ss_Epoch (rs_state rs)) + k < 2 ^ 64"
  shows "frames_ok (broadcastUpdateLocked now (rs\<lparr>rs_state := s'\<rparr>))"
  by (rule broadcastUpdateLocked_frames [OF frames_ok_evolves [OF assms]])

lemma checkHostMigrationLocked_frames:
  assumes "frames_ok rs" "unat (ss_Epoch (rs_state rs)) + 1 < 2 ^ 64"
  shows "frames_ok (checkHostMigrationLocked it now now' rs)"
  unfolding checkHostMigrationLocked_def Let_def
  using assms(1) migrateHostLocked_frames [OF assms] update_frames [OF assms(1) pause_evolves assms(2)]
  by (simp split: if_split)

lemma frames_ok_controller [simp]: "frames_ok (rs\<lparr>rs_controller := dc\<rparr>) = frames_ok rs"
  by (rule frames_ok_cong) simp_all

lemma drift_correction_frames:
  assumes "frames_ok rs" "unat (ss_Epoch (rs_state rs)) + 1 < 2 ^ 64"
  shows "frames_ok (snd (drift_correction cv it now nowMs now' rs))"
proof -
  have ev: "evolves 1 s (s\<lparr>ss_MediaTimeMs := m, ss_WallTimeMs := w, ss_Epoch := ss_Epoch s + 1\<rparr>)" for s m w
    by (auto simp: evolves_def intro: exI [of _ 0])
  have "frames_ok (broadcastUpdateLocked now' (rs\<lparr>rs_controller := dc, rs_state := (rs_state rs)
      \<lparr>ss_MediaTimeMs := m, ss_WallTimeMs := w, ss_Epoch := ss_Epoch (rs_state rs) + 1\<rparr>\<rparr>))" for dc m w
    using update_frames [of "rs\<lparr>rs_controller := dc\<rparr>" 1] assms ev by simp
  then show ?thesis
    unfolding drift_correction_def Let_def case_prod_beta
    using assms(1) by (simp add: broadcastUpdateLocked_frames split: if_split)
qed

lemma tick_frames:
  assumes "frames_ok rs" "unat (ss_Epoch (rs_state rs)) + 2 < 2 ^ 64"
  shows "frames_ok (tick cv it it' now nowMs now1 now2 rs)"
proof -
  let ?d = "snd (drift_correction cv it now nowMs now1 rs)"
  obtain k where "k \<le> 1" "evolves k (rs_state rs) (rs_state ?d)" using drift_evolves by blast
  then have "unat (ss_Epoch (rs_state ?d)) + 1 < 2 ^ 64"
    using assms(2) unat_add_of_nat [of "ss_Epoch (rs_state rs)" k] by (simp add: evolves_def)
  moreover have "frames_ok ?d" using assms by (intro drift_correction_frames) auto
  ultimately show ?thesis
    using assms by (simp add: tick_def case_prod_beta checkHostMigrationLocked_frames split: if_split)
qed

lemma AdoptOwnerIfUnset_frames:
  assumes "frames_ok rs" "unat (ss_Epoch (rs_state rs)) + 1 < 2 ^ 64"
  shows "frames_ok (snd (AdoptOwnerIfUnset own now now' rs))"
proof -
  have "evolves 0 (rs_state rs) ((rs_state rs)\<lparr>ss_OwnerID := x\<rparr>)" if "ss_OwnerID (rs_state rs) = ''''" for x
    using that by (simp add: evolves_def)
  then have "frames_ok (rs\<lparr>rs_state := (rs_state rs)\<lparr>ss_OwnerID := x\<rparr>\<rparr>)" if "ss_OwnerID (rs_state rs) = ''''" for x
    using that assms by (intro frames_ok_evolves) auto
  moreover have "evolves 1 (rs_state rs) ((rs_state rs)\<lparr>ss_OwnerID := x, ss_HostID := y, ss_Epoch := ss_Epoch (rs_state rs) + 1, ss_EpochStarted := w\<rparr>)"
    if "ss_OwnerID (rs_state rs) = ''''" "ss_HostID (rs_state rs) = ''''" for x y w
    using that by (auto simp: evolves_def intro: exI [of _ 0])
  moreover have "evolves 1 (rs_state rs) ((rs_state rs)\<lparr>ss_HostID := y, ss_Epoch := ss_Epoch (rs_state rs) + 1, ss_EpochStarted := w\<rparr>)"
    if "ss_HostID (rs_state rs) = ''''" for y w
    using that by (auto simp: evolves_def intro: exI [of _ 0])
  ultimately show ?thesis
    using assms update_frames [OF assms(1) _ assms(2)]
    by (simp add: AdoptOwnerIfUnset_def Let_def split: if_split)
qed

lemma applyCommandLocked_frames:
  assumes "frames_ok rs" "unat (ss_Epoch (rs_state rs)) + 1 < 2 ^ 64"
  shows "frames_ok (snd (applyCommandLocked cv kind seek rate mediaID tok nowMs now now' rs))"
  using assms update_frames [OF assms(1) ApplyCommand_evolves assms(2)]
  by (simp add: applyCommandLocked_def Let_def split: if_split)

lemma room_step_frames:
  "room_step cv rs rs' \<Longrightarrow> frames_ok rs \<Longrightarrow> unat (ss_Epoch (rs_state rs)) + 2 < 2 ^ 64 \<Longrightarrow> frames_ok rs'"
proof (induction rule: room_step.induct)
  case (start rs)
  moreover have "frames_ok (Start rs) = frames_ok rs" by (rule frames_ok_cong) (simp_all add: Start_def)
  ultimately show ?case by simp
next
  case (shutdown rs)
  moreover have "frames_ok (Shutdown rs) = frames_ok rs" by (rule frames_ok_cong) (simp_all add: Shutdown_def)
  ultimately show ?case by simp
next
  case (loop_exit rs)
  moreover have "frames_ok (rs\<lparr>rs_running := False\<rparr>) = frames_ok rs" by (rule frames_ok_cong) simp_all
  ultimately show ?case by simp
next
  case (heartbeat rs roomID u mt wt t2 now t3)
  moreover have "frames_ok (snd (ProcessHeartbeat cv roomID u mt wt t2 now t3 rs)) = frames_ok rs"
    by (rule frames_ok_cong) (simp_all add: ProcessHeartbeat_def Let_def)
  ultimately show ?case by simp
next
  case (command nowMs seek rs userID kind rate mediaID tok now now')
  then show ?case by (simp add: ProcessCommand_def applyCommandLocked_frames)
next
  case (command_authorized nowMs seek rs kind rate mediaID tok now now')
  then show ?case by (simp add: ProcessCommandAuthorized_def applyCommandLocked_frames)
next
  case (receive rs ch)
  have "queue_ok rs q" if "rs_subscribers rs ch = Some (f # q)" for f q
    using that receive by (force simp: frames_ok_def queue_ok_def)
  then show ?case using receive
    by (auto simp: receive_def frames_ok_def queue_ok_cong [of "rs\<lparr>rs_subscribers := _\<rparr>" rs]
        split: option.splits list.splits if_splits)
next
  case (register rs ch)
  then show ?case
    by (auto simp: frames_ok_def RegisterSubscriber_def queue_ok_cong [of "rs\<lparr>rs_subscribers := _\<rparr>" rs])
next
  case (unregister rs ch)
  then show ?case
    by (auto simp: frames_ok_def UnregisterSubscriber_def queue_ok_cong [of "rs\<lparr>rs_subscribers := _\<rparr>" rs]
        split: if_splits)
qed (simp_all add: tick_frames broadcastSnapshot_frames AdoptOwnerIfUnset_frames)

section \<open>Histories\<close>

lemma run_evolves:
  "(room_step cv ^^ n) rs rs' \<Longrightarrow> \<exists>k\<le>2 * n. evolves k (rs_state rs) (rs_state rs')"
proof (induction n arbitrary: rs')
  case (Suc n)
  from Suc.prems obtain rs1 where r: "(room_step cv ^^ n) rs rs1" "room_step cv rs1 rs'" by auto
  obtain k where k: "k \<le> 2 * n" "evolves k (rs_state rs) (rs_state rs1)" using Suc.IH [OF r(1)] by blast
  obtain l where l: "l \<le> 2" "evolves l (rs_state rs1) (rs_state rs')" using room_step_evolves [OF r(2)] by blast
  show ?case using evolves_trans [OF k(2) l(2)] k(1) l(1) by (intro exI [of _ "k + l"]) simp
qed simp

lemma run_frames:
  "(room_step cv ^^ n) rs rs' \<Longrightarrow> frames_ok rs \<Longrightarrow> unat (ss_Epoch (rs_state rs)) + 2 * n < 2 ^ 64 \<Longrightarrow> frames_ok rs'"
proof (induction n arbitrary: rs')
  case (Suc n)
  from Suc.prems(1) obtain rs1 where r: "(room_step cv ^^ n) rs rs1" "room_step cv rs1 rs'" by auto
  obtain k where k: "k \<le> 2 * n" "evolves k (rs_state rs) (rs_state rs1)" using run_evolves [OF r(1)] by blast
  then have "unat (ss_Epoch (rs_state rs1)) + 2 < 2 ^ 64"
    using Suc.prems(3) unat_add_of_nat [of "ss_Epoch (rs_state rs)" k] by (simp add: evolves_def)
  moreover have "frames_ok rs1" using Suc r(1) by simp
  ultimately show ?case using room_step_frames [OF r(2)] by simp
qed auto

lemma migrateHostLocked_ids [simp]:
  "rs_roomID (migrateHostLocked u now rs) = rs_roomID rs" "rs_cfg (migrateHostLocked u now rs) = rs_cfg rs"
  by (simp_all add: migrateHostLocked_def Let_def)

lemma checkHostMigrationLocked_ids [simp]:
  "rs_roomID (checkHostMigrationLocked it now now' rs) = rs_roomID rs"
  "rs_cfg (checkHostMigrationLocked it now now' rs) = rs_cfg rs"
  by (simp_all add: checkHostMigrationLocked_def Let_def)

lemma drift_correction_ids [simp]:
  "rs_roomID (snd (drift_correction cv it now nowMs now' rs)) = rs_roomID rs"
  "rs_cfg (snd (drift_correction cv it now nowMs now' rs)) = rs_cfg rs"
  by (simp_all add: drift_correction_def Let_def case_prod_beta)

lemma applyCommandLocked_ids [simp]:
  "rs_roomID (snd (applyCommandLocked cv kind seek rate mediaID tok nowMs now now' rs)) = rs_roomID rs"
  "rs_cfg (snd (applyCommandLocked cv kind seek rate mediaID tok nowMs now now' rs)) = rs_cfg rs"
  by (simp_all add: applyCommandLocked_def Let_def)

lemma room_step_roomID: "room_step cv rs rs' \<Longrightarrow> rs_roomID rs' = rs_roomID rs \<and> rs_cfg rs' = rs_cfg rs"
proof (induction rule: room_step.induct)
  case (tick rs it it' nowMs now now1 now2)
  show ?case by (simp add: tick_def case_prod_beta)
next
  case (receive rs ch)
  show ?case by (simp add: receive_def split: option.split list.split)
qed (simp_all add: Start_def Shutdown_def AdoptOwnerIfUnset_def ProcessHeartbeat_def ProcessCommand_def
    ProcessCommandAuthorized_def RegisterSubscriber_def UnregisterSubscriber_def Let_def)

lemma run_roomID: "(room_step cv ^^ n) rs rs' \<Longrightarrow> rs_roomID rs' = rs_roomID rs \<and> rs_cfg rs' = rs_cfg rs"
  by (induction n arbitrary: rs') (auto dest!: room_step_roomID)

lemma run_counters:
  assumes "(room_step cv ^^ n) rs rs'"
  obtains k j where "k \<le> 2 * n" "j \<le> k" "evolves k (rs_state rs) (rs_state rs')"
    "ss_Epoch (rs_state rs') = ss_Epoch (rs_state rs) + of_nat k"
    "ss_FencingToken (rs_state rs') = ss_FencingToken (rs_state rs) + of_nat j"
    "j = 0 \<longrightarrow> ss_HostID (rs_state rs') = ss_HostID (rs_state rs) \<or> ss_HostID (rs_state rs) = ''''"
  using run_evolves [OF assms] unfolding evolves_def by blast

lemma NewRoomSync_frames [simp]: "frames_ok (NewRoomSync cfg roomID s pres)"
  by (simp add: frames_ok_def NewRoomSync_def)

lemma NewRoomSync_state [simp]: "rs_state (NewRoomSync cfg roomID s pres) = s"
  by (simp add: NewRoomSync_def)

lemma relpowp_run: "(room_step cv ^^ n) rs rs' \<Longrightarrow> (room_step cv)\<^sup>*\<^sup>* rs rs'"
  by (rule relpowp_imp_rtranclp)

section \<open>Properties\<close>

text \<open>C11: In every history of a room, whatever the interleaving of commands, heartbeats, subscriptions,
  ticks and shutdowns and whatever the clients send, the playback state stays well formed (the rate is
  0 or within 0.25..4, a playing room has a positive rate, the times are int64), the clients' estimates
  stay finite with a round-trip time that is not negative, the recovery ring never exceeds its
  configured size and no subscriber channel exceeds its capacity of 16.\<close>

theorem room_invariant:
  assumes "state_ok s" "(room_step cv)\<^sup>*\<^sup>* (NewRoomSync cfg roomID s pres) rs"
  shows "room_ok rs"
  by (rule run_ok [OF assms(2) NewRoomSync_ok [OF assms(1)]])

text \<open>C1: The epoch of a room identifies what clients are shown. In every history short enough not to
  wrap the counter the epoch never decreases, and if it is the same at two moments, the state sent to
  clients (\<open>stateToProtoLocked\<close>) is the same.\<close>

theorem epoch_identifies_state:
  assumes "(room_step cv ^^ n) rs rs'" "unat (ss_Epoch (rs_state rs)) + 2 * n < 2 ^ 64"
  shows "ss_Epoch (rs_state rs) \<le> ss_Epoch (rs_state rs') \<and>
    (ss_Epoch (rs_state rs') = ss_Epoch (rs_state rs) \<longrightarrow> stateToProtoLocked rs' = stateToProtoLocked rs)"
proof -
  obtain k j where k: "k \<le> 2 * n" "evolves k (rs_state rs) (rs_state rs')"
    "ss_Epoch (rs_state rs') = ss_Epoch (rs_state rs) + of_nat k" using run_counters [OF assms(1)] .
  have u: "unat (ss_Epoch (rs_state rs')) = unat (ss_Epoch (rs_state rs)) + k"
    using k(1,3) assms(2) by (simp add: unat_add_of_nat)
  have "stateToProtoLocked rs' = stateToProtoLocked rs" if "ss_Epoch (rs_state rs') = ss_Epoch (rs_state rs)"
  proof -
    have "k = 0" using u that by simp
    then obtain w where "rs_state rs' = (rs_state rs)\<lparr>ss_OwnerID := w\<rparr>" using k(2) unfolding evolves_def by blast
    then show ?thesis using run_roomID [OF assms(1)] by (simp add: stateToProtoLocked_def Let_def)
  qed
  then show ?thesis using u by (auto simp: word_le_nat_alt)
qed

text \<open>C2: Fencing works. When the host of a room has been replaced during a history (by an election, or by
  the returning owner), every command that carries a fencing token issued up to the start of that
  history is refused as stale, for every sender and also on the path that skips the host check, and
  leaves the room unchanged.\<close>

theorem replaced_host_is_fenced:
  assumes "(room_step cv ^^ n) rs rs'" "unat (ss_FencingToken (rs_state rs)) + 2 * n < 2 ^ 64"
    and "HostID rs \<noteq> ''''" "HostID rs' \<noteq> HostID rs" "tok \<le> ss_FencingToken (rs_state rs)"
  shows "ProcessCommand cv u kind seek rate mediaID tok nowMs now now' rs' =
      ((ss_Epoch (rs_state rs'), False, ''STALE_FENCING_TOKEN''), rs') \<and>
    ProcessCommandAuthorized cv kind seek rate mediaID tok nowMs now now' rs' =
      ((ss_Epoch (rs_state rs'), False, ''STALE_FENCING_TOKEN''), rs')"
proof -
  obtain k j where kj: "k \<le> 2 * n" "j \<le> k"
    "ss_FencingToken (rs_state rs') = ss_FencingToken (rs_state rs) + of_nat j"
    "j = 0 \<longrightarrow> ss_HostID (rs_state rs') = ss_HostID (rs_state rs) \<or> ss_HostID (rs_state rs) = ''''"
    using run_counters [OF assms(1)] .
  then have "j \<noteq> 0" using assms(3,4) by (auto simp: HostID_def)
  moreover have "unat (ss_FencingToken (rs_state rs')) = unat (ss_FencingToken (rs_state rs)) + j"
    using kj(1-3) assms(2) by (simp add: unat_add_of_nat)
  ultimately have "tok < ss_FencingToken (rs_state rs')" using assms(5) by (simp add: word_less_nat_alt word_le_nat_alt)
  then show ?thesis
    by (simp add: ProcessCommand_def ProcessCommandAuthorized_def applyCommandLocked_def)
qed

text \<open>The fencing contract for the commands of the sync service. A command is given by the arguments of
  \<open>ProcessCommandAuthorized\<close> other than the token.\<close>

type_synonym command_args = "CommandKind \<times> int option \<times> f64 option \<times> string \<times> int \<times> time \<times> time"

definition sync_command :: "(f64 \<Rightarrow> int) \<Rightarrow> command_args \<Rightarrow> u64 \<Rightarrow> RoomSync \<Rightarrow> bool \<times> RoomSync" where
  "sync_command cv c tok rs = (case c of (kind, seek, rate, mediaID, nowMs, now, now') \<Rightarrow>
     (case ProcessCommandAuthorized cv kind seek rate mediaID tok nowMs now now' rs of
        ((_, accepted, _), rs') \<Rightarrow> (accepted, rs')))"

interpretation syncc: fenced "\<lambda>rs. ss_FencingToken (rs_state rs)" "sync_command cv" for cv
  by unfold_locales
    (auto simp: sync_command_def ProcessCommandAuthorized_def applyCommandLocked_def Let_def split: prod.splits if_splits)

text \<open>Commands that carry a token below the room's token have no influence on the outcome of any
  sequence of commands: deleting them leaves the final state of the room, its recovery ring and its
  subscribers' channels the same.\<close>

theorem sync_stale_commands_irrelevant:
  "fold (\<lambda>(c, t) rs. snd (sync_command cv c t rs)) cs rs =
   fold (\<lambda>(c, t) rs. snd (sync_command cv c t rs)) (filter (\<lambda>(c, t). ss_FencingToken (rs_state rs) \<le> t) cs) rs"
  using syncc.run_filter_stale [of "ss_FencingToken (rs_state rs)" rs cv cs] by (simp add: syncc.run_def)

text \<open>C13: What a subscriber has in its channel is in epoch order and never ahead of the room, and a frame
  of the room's current epoch shows exactly the current state (for a migration frame: the current host
  and fencing token).\<close>

theorem subscriber_order:
  assumes "(room_step cv ^^ n) (NewRoomSync cfg roomID s pres) rs" "unat (ss_Epoch s) + 2 * n < 2 ^ 64"
    and "rs_subscribers rs ch = Some q"
  shows "sorted_wrt (\<lambda>a b. frame_epoch a \<le> frame_epoch b) q \<and> (\<forall>f\<in>set q. frame_ok rs f)"
proof -
  have "frames_ok rs" using run_frames [OF assms(1)] assms(2) by simp
  then show ?thesis using assms(3) by (simp add: frames_ok_def queue_ok_def)
qed


end
