(* ===== verification/Room_Sync_Host.thy ===== *)
theory Room_Sync_Host
  imports Room_Sync_Run
begin

text \<open>
  Who controls a room: the election of a new host by the 1 Hz tick, and what the tick does to the clock
  of the room. The last section evaluates the properties of \<open>Room_Sync_Run\<close> on a concrete history.
\<close>

section \<open>Election\<close>

text \<open>A user with a live heartbeat, and a peer the election may pick: alive, not the excluded host, and
  last seen strictly before \<open>now\<close>.\<close>

definition present :: "time \<Rightarrow> RoomSync \<Rightarrow> string \<Rightarrow> bool" where
  "present now rs u \<longleftrightarrow> (\<exists>hb. rs_heartbeats rs u = Some hb \<and> alive_at now rs hb)"

definition candidate :: "time \<Rightarrow> string \<Rightarrow> RoomSync \<Rightarrow> string \<Rightarrow> ClientHeartbeat \<Rightarrow> bool" where
  "candidate now excludeID rs u hb \<longleftrightarrow> rs_heartbeats rs u = Some hb \<and> u \<noteq> excludeID \<and> alive_at now rs hb \<and>
     hb_LastSeen hb < now"

lemma set_visited: "set (visited it rs) = {(u, hb). u \<in> set it \<and> rs_heartbeats rs u = Some hb}"
  by (force simp: visited_def List.map_filter_def)

lemma owner_alive_present: "owner_alive now rs \<longleftrightarrow> present now rs (OwnerID rs)"
  by (auto simp: owner_alive_def present_def OwnerID_def split: option.splits)

lemma select_fold:
  assumes "\<forall>(v, h)\<in>set xs. rs_heartbeats rs v = Some h"
    and "fold (select_step now ex rs) xs ('''', now) = (u, t)"
  shows "t \<le> now \<and> (\<forall>(v, h)\<in>set xs. candidate now ex rs v h \<longrightarrow> t \<le> hb_LastSeen h) \<and>
    (u = '''' \<and> t = now \<or> (\<exists>h. (u, h) \<in> set xs \<and> candidate now ex rs u h \<and> hb_LastSeen h = t))"
  using assms
proof (induction xs arbitrary: u t rule: rev_induct)
  case (snoc x xs)
  obtain u1 t1 where f: "fold (select_step now ex rs) xs ('''', now) = (u1, t1)" by fastforce
  obtain v h where x: "x = (v, h)" by fastforce
  have IH: "t1 \<le> now" "\<forall>(v, h)\<in>set xs. candidate now ex rs v h \<longrightarrow> t1 \<le> hb_LastSeen h"
    "u1 = '''' \<and> t1 = now \<or> (\<exists>h. (u1, h) \<in> set xs \<and> candidate now ex rs u1 h \<and> hb_LastSeen h = t1)"
    using snoc.IH [OF _ f] snoc.prems(1) by auto
  have st: "select_step now ex rs (v, h) (u1, t1) = (u, t)" using snoc.prems(2) f x by simp
  have hb: "rs_heartbeats rs v = Some h" using snoc.prems(1) x by simp
  show ?case
  proof (cases "v \<noteq> ex \<and> alive_at now rs h \<and> hb_LastSeen h < t1")
    case True
    then have "u = v" "t = hb_LastSeen h" using st by (auto simp: select_step_def)
    then show ?thesis using True IH hb unfolding x candidate_def by fastforce
  next
    case False
    then have "u = u1" "t = t1" using st by (auto simp: select_step_def split: if_splits)
    then show ?thesis using False IH unfolding x candidate_def by fastforce
  qed
qed simp

lemma selectSuccessor_spec:
  assumes "iteration it rs"
  shows "(\<exists>u h. candidate now ex rs u h) \<Longrightarrow>
      \<exists>h. candidate now ex rs (selectSuccessorLocked it now ex rs) h \<and>
        (\<forall>v h'. candidate now ex rs v h' \<longrightarrow> hb_LastSeen h \<le> hb_LastSeen h')"
    and "\<not> (\<exists>u h. candidate now ex rs u h) \<Longrightarrow> selectSuccessorLocked it now ex rs = ''''"
proof -
  obtain u t where f: "fold (select_step now ex rs) (visited it rs) ('''', now) = (u, t)" by fastforce
  have sel: "selectSuccessorLocked it now ex rs = u" by (simp add: selectSuccessorLocked_def f)
  have vis: "(v, h) \<in> set (visited it rs)" if "candidate now ex rs v h" for v h
    using that assms by (auto simp: set_visited iteration_def candidate_def)
  have spec: "t \<le> now" "\<forall>v h. candidate now ex rs v h \<longrightarrow> t \<le> hb_LastSeen h"
    "u = '''' \<and> t = now \<or> (\<exists>h. candidate now ex rs u h \<and> hb_LastSeen h = t)"
    using select_fold [OF _ f] vis by (auto simp: set_visited)
  show "\<exists>h. candidate now ex rs (selectSuccessorLocked it now ex rs) h \<and>
        (\<forall>v h'. candidate now ex rs v h' \<longrightarrow> hb_LastSeen h \<le> hb_LastSeen h')"
    if "\<exists>u h. candidate now ex rs u h"
  proof -
    have "t \<noteq> now" using that spec(2) by (auto simp: candidate_def) (meson leD)
    then show ?thesis using spec(2,3) sel by metis
  qed
  show "selectSuccessorLocked it now ex rs = ''''" if "\<not> (\<exists>u h. candidate now ex rs u h)"
    using that spec(3) sel by blast
qed

lemma preferredSuccessor_no_owner:
  "\<not> (OwnerID rs \<noteq> '''' \<and> OwnerID rs \<noteq> ex \<and> present now rs (OwnerID rs)) \<Longrightarrow>
   preferredSuccessorLocked it now ex rs = selectSuccessorLocked it now ex rs"
  by (auto simp: preferredSuccessorLocked_def owner_alive_present Let_def OwnerID_def)

lemma HostID_migrate [simp]: "HostID (migrateHostLocked u now rs) = u"
  by (simp add: HostID_def migrateHostLocked_def Let_def)

lemma host_alive_present:
  "(case rs_heartbeats rs (ss_HostID (rs_state rs)) of None \<Rightarrow> False | Some hb \<Rightarrow> alive_at now rs hb)
   \<longleftrightarrow> present now rs (HostID rs)"
  by (auto simp: present_def HostID_def split: option.splits)

lemma check_eq:
  "checkHostMigrationLocked it now now' rs =
    (if OwnerID rs \<noteq> '''' \<and> HostID rs \<noteq> OwnerID rs \<and> present now rs (OwnerID rs)
     then migrateHostLocked (OwnerID rs) now rs
     else if HostID rs = '''' then
       (let u = preferredSuccessorLocked it now '''' rs in if u = '''' then rs else migrateHostLocked u now rs)
     else if present now rs (HostID rs) then rs
     else (let u = preferredSuccessorLocked it now (HostID rs) rs in
       if u = '''' then
         (if ss_Status (rs_state rs) = StatusPlaying
          then broadcastUpdateLocked now' (rs\<lparr>rs_state := (rs_state rs)\<lparr>ss_Status := StatusPaused,
            ss_PlaybackRate := Fin 0, ss_Epoch := ss_Epoch (rs_state rs) + 1\<rparr>\<rparr>)
          else rs)
       else migrateHostLocked u now rs))"
  unfolding checkHostMigrationLocked_def Let_def owner_alive_present host_alive_present
  by (simp add: HostID_def OwnerID_def)

text \<open>The four cases of the liveness check.\<close>

lemma check_owner:
  assumes "OwnerID rs \<noteq> ''''" "present now rs (OwnerID rs)"
  shows "HostID (checkHostMigrationLocked it now now' rs) = OwnerID rs"
  using assms by (simp add: check_eq)

lemma check_host_present:
  assumes "HostID rs \<noteq> ''''" "present now rs (HostID rs)" "\<not> (OwnerID rs \<noteq> '''' \<and> present now rs (OwnerID rs))"
  shows "checkHostMigrationLocked it now now' rs = rs"
  using assms by (auto simp: check_eq)

lemma check_elect:
  assumes "iteration it rs" "HostID rs = '''' \<or> \<not> present now rs (HostID rs)"
    "\<not> (OwnerID rs \<noteq> '''' \<and> present now rs (OwnerID rs))" "'''' \<notin> dom (rs_heartbeats rs)"
    "candidate now (HostID rs) rs u0 h0"
  shows "\<exists>u h. checkHostMigrationLocked it now now' rs = migrateHostLocked u now rs \<and>
    candidate now (HostID rs) rs u h \<and> (\<forall>v h'. candidate now (HostID rs) rs v h' \<longrightarrow> hb_LastSeen h \<le> hb_LastSeen h')"
proof -
  let ?u = "selectSuccessorLocked it now (HostID rs) rs"
  obtain h where h: "candidate now (HostID rs) rs ?u h"
      "\<forall>v h'. candidate now (HostID rs) rs v h' \<longrightarrow> hb_LastSeen h \<le> hb_LastSeen h'"
    using selectSuccessor_spec(1) [OF assms(1), of now "HostID rs"] assms(5) by blast
  have "?u \<noteq> ''''" using h(1) assms(4) by (auto simp: candidate_def)
  moreover have "preferredSuccessorLocked it now (HostID rs) rs = ?u"
    using assms(3) by (intro preferredSuccessor_no_owner) blast
  ultimately have "checkHostMigrationLocked it now now' rs = migrateHostLocked ?u now rs"
    using assms(2,3) unfolding check_eq Let_def by auto
  with h show ?thesis by blast
qed

lemma check_nobody:
  assumes "iteration it rs" "\<not> present now rs (HostID rs)"
    "\<not> (OwnerID rs \<noteq> '''' \<and> present now rs (OwnerID rs))" "\<not> (\<exists>u h. candidate now (HostID rs) rs u h)"
    and "HostID rs \<noteq> ''''"
  shows "HostID (checkHostMigrationLocked it now now' rs) = HostID rs \<and>
    ss_Status (rs_state (checkHostMigrationLocked it now now' rs)) \<noteq> StatusPlaying"
proof -
  have "preferredSuccessorLocked it now (HostID rs) rs = ''''"
    using preferredSuccessor_no_owner [of rs "HostID rs" now it] selectSuccessor_spec(2) [OF assms(1,4)] assms(3)
    by auto
  then show ?thesis using assms(2,3,5) unfolding check_eq Let_def by (auto simp: HostID_def)
qed

lemma tick_no_drift:
  "\<not> cfg_DriftCorrectionEnabled (rs_cfg rs) \<Longrightarrow>
   tick cv it it' now nowMs now1 now2 rs = checkHostMigrationLocked it' now now2 rs"
  by (simp add: tick_def)

lemma migrate_counters:
  "ss_Epoch (rs_state (migrateHostLocked u now rs)) = ss_Epoch (rs_state rs) + 1"
  "ss_FencingToken (rs_state (migrateHostLocked u now rs)) = ss_FencingToken (rs_state rs) + 1"
  by (simp_all add: migrateHostLocked_def Let_def)

section \<open>Properties\<close>


text \<open>The election does not depend on the iteration order of the heartbeat map, provided no two
  eligible peers were last seen at the same instant.\<close>

theorem election_deterministic:
  assumes "iteration it rs" "iteration it' rs"
    and "\<forall>u v h h'. candidate now ex rs u h \<and> candidate now ex rs v h' \<and> hb_LastSeen h = hb_LastSeen h' \<longrightarrow> u = v"
  shows "preferredSuccessorLocked it now ex rs = preferredSuccessorLocked it' now ex rs"
proof -
  have "selectSuccessorLocked it now ex rs = selectSuccessorLocked it' now ex rs"
  proof (cases "\<exists>u h. candidate now ex rs u h")
    case True
    then obtain h h' where "candidate now ex rs (selectSuccessorLocked it now ex rs) h"
      "\<forall>v h'. candidate now ex rs v h' \<longrightarrow> hb_LastSeen h \<le> hb_LastSeen h'"
      "candidate now ex rs (selectSuccessorLocked it' now ex rs) h'"
      "\<forall>v h. candidate now ex rs v h \<longrightarrow> hb_LastSeen h' \<le> hb_LastSeen h"
      using selectSuccessor_spec(1) [OF assms(1)] selectSuccessor_spec(1) [OF assms(2)] by blast
    then show ?thesis using assms(3) by (meson order_antisym)
  next
    case False
    then show ?thesis using selectSuccessor_spec(2) [OF assms(1)] selectSuccessor_spec(2) [OF assms(2)] by simp
  qed
  then show ?thesis by (simp add: preferredSuccessorLocked_def Let_def)
qed

text \<open>With drift correction off, a tick never moves the clock of the room: unless it pauses the room
  for lack of any host, the media position at every wall-clock time is what it was, also across a
  migration. When it does pause, the room falls back to the position of its last sample (the time
  played since the last command is lost).\<close>

theorem tick_clock:
  assumes "\<not> cfg_DriftCorrectionEnabled (rs_cfg rs)" "rs' = tick cv it it' now nowMs now1 now2 rs"
  shows "if ss_Status (rs_state rs') = ss_Status (rs_state rs)
     then \<forall>t. AdvanceMediaTime cv (rs_state rs') t = AdvanceMediaTime cv (rs_state rs) t
     else ss_Status (rs_state rs) = StatusPlaying \<and> ss_Status (rs_state rs') = StatusPaused \<and>
       (\<forall>t. AdvanceMediaTime cv (rs_state rs') t = ss_MediaTimeMs (rs_state rs))"
proof -
  have "AdvanceMediaTime cv (rs_state (migrateHostLocked u now rs)) t = AdvanceMediaTime cv (rs_state rs) t"
    "ss_Status (rs_state (migrateHostLocked u now rs)) = ss_Status (rs_state rs)" for u t
    by (simp_all add: migrateHostLocked_def AdvanceMediaTime_def Let_def)
  moreover have "AdvanceMediaTime cv (s\<lparr>ss_Status := x, ss_PlaybackRate := Fin 0, ss_Epoch := e\<rparr>) t = ss_MediaTimeMs s"
    for s x e t by (simp add: AdvanceMediaTime_def)
  ultimately show ?thesis
    unfolding assms(2) tick_no_drift [OF assms(1)] check_eq Let_def by (simp split: if_split)
qed

text \<open>What a drift correction does to the clock: the room continues at \<open>nowMs\<close> from its last sample
  minus the correction, so that the time elapsed since that sample is taken back.\<close>

theorem drift_correction_position:
  assumes "state_ok (rs_state rs)" "in_i64 nowMs" "drift_correction cv it now nowMs now' rs = (ret, rs')"
    and "ss_Epoch (rs_state rs') \<noteq> ss_Epoch (rs_state rs)"
  shows "\<exists>c. AdvanceMediaTime cv (rs_state rs') nowMs = i64 (ss_MediaTimeMs (rs_state rs) - f2i cv 64 c) \<and>
     \<not> feq c (Fin 0)"
proof -
  have "rs_state (snd (drift_correction cv it now nowMs now' rs)) = rs_state rs \<or>
      (\<exists>c. \<not> feq c (Fin 0) \<and> rs_state (snd (drift_correction cv it now nowMs now' rs)) = (rs_state rs)
         \<lparr>ss_MediaTimeMs := i64 (ss_MediaTimeMs (rs_state rs) - f2i cv 64 c), ss_WallTimeMs := nowMs,
          ss_Epoch := ss_Epoch (rs_state rs) + 1\<rparr>)"
    unfolding drift_correction_def Let_def case_prod_beta by (simp split: if_split) blast
  then obtain c where c: "rs_state rs' = (rs_state rs)\<lparr>ss_MediaTimeMs :=
      i64 (ss_MediaTimeMs (rs_state rs) - f2i cv 64 c), ss_WallTimeMs := nowMs, ss_Epoch := ss_Epoch (rs_state rs) + 1\<rparr>"
    "\<not> feq c (Fin 0)" using assms(3,4) by auto
  have "state_ok (rs_state rs')" using assms(1,2) unfolding c(1) by (simp add: state_ok_def i64_in)
  then have "AdvanceMediaTime cv (rs_state rs') nowMs = ss_MediaTimeMs (rs_state rs')"
    by (rule AdvanceMediaTime_sample) (simp add: c(1))
  then show ?thesis using c by auto
qed

lemma ProcessHeartbeat_state [simp]:
  "rs_state (snd (ProcessHeartbeat cv roomID u mt wt t2 now t3 rs)) = rs_state rs"
  by (simp add: ProcessHeartbeat_def Let_def)

section \<open>A concrete history\<close>

text \<open>The host \<open>ann\<close> has left a playing room; \<open>bob\<close> sends a heartbeat, the loop starts, a subscriber
  registers, and the next tick makes \<open>bob\<close> the host.\<close>

definition no_cv :: "f64 \<Rightarrow> int" where "no_cv v = 0"

definition room0 :: RoomSync where
  "room0 = NewRoomSync default_SyncConfig ''r1'' sample_state True"

definition room1 :: RoomSync where
  "room1 = RegisterSubscriber 7 (Start (snd (ProcessHeartbeat no_cv ''r1'' ''bob'' 1000 100 2000 (2 * second) 2000 room0)))"

definition room2 :: RoomSync where
  "room2 = tick no_cv [''bob''] [''bob''] (3 * second) 3000 (3 * second) (3 * second) room1"

lemma room1_dom: "dom (rs_heartbeats room1) = {''bob''}"
  by (simp add: room1_def room0_def NewRoomSync_def RegisterSubscriber_def Start_def ProcessHeartbeat_def Let_def)

lemma room1_iteration: "iteration [''bob''] room1"
  by (simp add: iteration_def room1_dom)

lemma room1_running: "rs_running room1" "\<not> cfg_DriftCorrectionEnabled (rs_cfg room1)"
  by (simp_all add: room1_def room0_def NewRoomSync_def RegisterSubscriber_def Start_def ProcessHeartbeat_def
      Let_def default_SyncConfig_def)

lemma room1_run: "(room_step no_cv ^^ 3) room0 room1"
proof -
  let ?a = "snd (ProcessHeartbeat no_cv ''r1'' ''bob'' 1000 100 2000 (2 * second) 2000 room0)"
  have "rs_subscribers (Start ?a) 7 = None"
    by (simp add: room0_def NewRoomSync_def Start_def ProcessHeartbeat_def Let_def)
  then have "room_step no_cv (Start ?a) room1" unfolding room1_def by (rule room_step.register)
  moreover have "room_step no_cv room0 ?a" "room_step no_cv ?a (Start ?a)"
    by (rule room_step.heartbeat, rule room_step.start)
  ultimately have "(room_step no_cv ^^ Suc (Suc (Suc 0))) room0 room1"
    by (blast intro: relpowp_Suc_I relpowp_0_I)
  then show ?thesis by (simp add: numeral_3_eq_3)
qed

lemma room2_run: "(room_step no_cv ^^ 4) room0 room2"
proof -
  have "room_step no_cv room1 room2"
    unfolding room2_def by (intro room_step.tick room1_running room1_iteration) (simp add: in_i64_def)
  then have "(room_step no_cv ^^ Suc 3) room0 room2" using room1_run by (blast intro: relpowp_Suc_I)
  then show ?thesis by (simp add: eval_nat_numeral)
qed

lemma room2_facts:
  "HostID room0 = ''ann''" "HostID room2 = ''bob''" "ss_Epoch (rs_state room0) = 0"
  "ss_Epoch (rs_state room2) = 1" "ss_FencingToken (rs_state room0) = 0"
  "ss_FencingToken (rs_state room2) = 1"
  by code_simp+

theorem room_invariant_witness: "room_ok room2 \<and> HostID room2 = ''bob''"
  using room_invariant [OF sample_state_ok, of no_cv default_SyncConfig "''r1''" True room2]
    relpowp_run [OF room2_run] room2_facts(2)
  by (simp add: room0_def)

theorem epoch_identifies_state_witness:
  "ss_Epoch (rs_state room0) \<le> ss_Epoch (rs_state room1) \<and> stateToProtoLocked room1 = stateToProtoLocked room0"
proof -
  have "ss_Epoch (rs_state room1) = ss_Epoch (rs_state room0)" by code_simp
  then show ?thesis using epoch_identifies_state [OF room1_run] room2_facts(3) by simp
qed

theorem replaced_host_is_fenced_witness:
  "ProcessCommand no_cv ''ann'' CmdPlay None None [] 0 4000 (4 * second) (4 * second) room2 =
     ((1, False, ''STALE_FENCING_TOKEN''), room2)"
  using replaced_host_is_fenced [OF room2_run, of 0 "''ann''" CmdPlay None None "[]" 4000 "4 * second" "4 * second"]
    room2_facts by simp

theorem subscriber_order_witness:
  "\<exists>f. rs_subscribers room2 7 = Some [f] \<and> frame_ok room2 f \<and> frame_epoch f = 1"
proof -
  have q: "(case rs_subscribers room2 7 of Some [f] \<Rightarrow> frame_epoch f = 1 | _ \<Rightarrow> False)" by code_simp
  then obtain f where f: "rs_subscribers room2 7 = Some [f]" "frame_epoch f = 1"
    by (auto split: option.splits list.splits)
  then show ?thesis
    using subscriber_order [of 4 no_cv default_SyncConfig "''r1''" sample_state True room2 7 "[f]"] room2_run
    by (simp add: room0_def sample_state_def zero_SyncState_def)
qed

text \<open>A client at the epoch before the migration gets no snapshot and an empty replay: the migration frame
  is not kept in the ring.\<close>

definition room3 :: RoomSync where
  "room3 = snd (ProcessCommandAuthorized no_cv CmdPlay None None [] 0 2500 0 0 room1)"

lemma room3_run: "(room_step no_cv ^^ 4) room0 room3"
proof -
  have "room_step no_cv room1 room3"
    unfolding room3_def by (intro room_step.command_authorized) (simp_all add: in_i64_def)
  then have "(room_step no_cv ^^ Suc 3) room0 room3" using room1_run by (blast intro: relpowp_Suc_I)
  then show ?thesis by (simp add: eval_nat_numeral)
qed


text \<open>A recovering client can miss a host migration: after a command (epoch 1) and a migration by the
  next tick (epoch 2), a client that asks for everything since epoch 1 gets neither a snapshot nor a
  frame, although host, epoch and fencing token have changed.\<close>

theorem Recover_misses_migration:
  "\<exists>rs. (room_step no_cv ^^ 5) room0 rs \<and> HostID rs \<noteq> HostID room3 \<and>
     ss_Epoch (rs_state room3) = 1 \<and> ss_Epoch (rs_state rs) = 2 \<and>
     Recover no_cv [''bob''] 1 (3 * second) rs = (None, [])"
proof -
  let ?rs = "tick no_cv [''bob''] [''bob''] (3 * second) 3000 (3 * second) (3 * second) room3"
  have it: "iteration [''bob''] room3" "rs_running room3"
    using room1_iteration room1_running
    by (simp_all add: iteration_def room3_def ProcessCommandAuthorized_def applyCommandLocked_def Let_def)
  have "room_step no_cv room3 ?rs" by (intro room_step.tick it) (simp add: in_i64_def)
  then have "(room_step no_cv ^^ Suc 4) room0 ?rs" using room3_run by (blast intro: relpowp_Suc_I)
  then have "(room_step no_cv ^^ 5) room0 ?rs" by (simp add: eval_nat_numeral)
  moreover have "HostID ?rs = ''bob''" "HostID room3 = ''ann''" "ss_Epoch (rs_state room3) = 1"
    "ss_Epoch (rs_state ?rs) = 2" by code_simp+
  moreover have "(case Recover no_cv [''bob''] 1 (3 * second) ?rs of (None, []) \<Rightarrow> True | _ \<Rightarrow> False)" by code_simp
  then have "Recover no_cv [''bob''] 1 (3 * second) ?rs = (None, [])"
    by (auto split: prod.splits option.splits list.splits)
  ultimately show ?thesis by (intro exI [of _ ?rs]) simp
qed

lemma room1_present: "\<not> present (3 * second) room1 ''ann''"
  using room1_dom domI [of "rs_heartbeats room1" "''ann''"] by (auto simp: present_def)

lemma room1_state: "rs_state room1 = sample_state"
  by (simp add: room1_def room0_def RegisterSubscriber_def Start_def ProcessHeartbeat_def Let_def)

lemma room1_owner: "OwnerID room1 = ''''" "HostID room1 = ''ann''"
  by (simp_all add: OwnerID_def HostID_def room1_state sample_state_def zero_SyncState_def)


text \<open>A second peer, seen a second later than \<open>bob\<close>.\<close>

definition room4 :: RoomSync where
  "room4 = snd (ProcessHeartbeat no_cv ''r1'' ''cat'' 1000 100 3000 (3 * second) 3000 room1)"

lemma room4_heartbeats:
  "\<exists>b c. rs_heartbeats room4 = [''bob'' \<mapsto> b, ''cat'' \<mapsto> c] \<and> hb_LastSeen b = 2 * second \<and> hb_LastSeen c = 3 * second"
  by (simp add: room4_def room1_def room0_def NewRoomSync_def RegisterSubscriber_def Start_def
      ProcessHeartbeat_def Update_def zero_ClientHeartbeat_def Let_def) (intro exI conjI, rule refl, simp_all)

theorem election_deterministic_witness:
  "preferredSuccessorLocked [''bob'', ''cat''] (4 * second) ''ann'' room4 = ''bob'' \<and>
   preferredSuccessorLocked [''cat'', ''bob''] (4 * second) ''ann'' room4 = ''bob''"
proof -
  obtain b c where hb: "rs_heartbeats room4 = [''bob'' \<mapsto> b, ''cat'' \<mapsto> c]"
    "hb_LastSeen b = 2 * second" "hb_LastSeen c = 3 * second" using room4_heartbeats by blast
  then have "iteration [''bob'', ''cat''] room4" "iteration [''cat'', ''bob''] room4"
    by (auto simp: iteration_def)
  then have "preferredSuccessorLocked [''bob'', ''cat''] (4 * second) ''ann'' room4 =
      preferredSuccessorLocked [''cat'', ''bob''] (4 * second) ''ann'' room4"
    by (rule election_deterministic) (use hb in \<open>auto simp: candidate_def second_def split: if_splits\<close>)
  moreover have "preferredSuccessorLocked [''bob'', ''cat''] (4 * second) ''ann'' room4 = ''bob''" by code_simp
  ultimately show ?thesis by simp
qed

text \<open>Nobody is left when the tick comes too late: the room had reached 5500 ms, the pause puts it back
  to 1000 ms.\<close>

theorem tick_clock_witness:
  "AdvanceMediaTime no_cv (rs_state room1) 5000 = 5500 \<and>
   AdvanceMediaTime no_cv (rs_state (tick no_cv [''bob''] [''bob''] (60 * second) 60000 0 0 room1)) 5000 = 1000"
proof -
  let ?rs = "tick no_cv [''bob''] [''bob''] (60 * second) 60000 0 0 room1"
  have "ss_Status (rs_state ?rs) = 1" "AdvanceMediaTime no_cv (rs_state room1) 5000 = 5500" by code_simp+
  then show ?thesis
    using tick_clock [OF room1_running(2) refl, of no_cv "[''bob'']" "[''bob'']" "60 * second" 60000 0 0]
    by (simp add: room1_state sample_state_def)
qed

text \<open>Drift correction switched on, a host 100 ms ahead: at 4000 the room has reached 4000 ms; the
  correction of 17 ms puts it back to 983 ms.\<close>

definition drift_room :: RoomSync where
  "drift_room = (NewRoomSync (default_SyncConfig\<lparr>cfg_DriftCorrectionEnabled := True\<rparr>) ''r1''
       (sample_state\<lparr>ss_HostID := ''bob''\<rparr>) False)
     \<lparr>rs_heartbeats := [''cat'' \<mapsto> zero_ClientHeartbeat\<lparr>hb_LastSeen := 3 * second\<rparr>,
        ''bob'' \<mapsto> zero_ClientHeartbeat\<lparr>hb_LastSeen := 3 * second, hb_SmoothedRTT := Fin 50, hb_DriftMs := Fin 100\<rparr>]\<rparr>"

theorem drift_correction_position_witness:
  "AdvanceMediaTime no_cv (rs_state drift_room) 4000 = 4000 \<and>
   AdvanceMediaTime no_cv (rs_state (snd (drift_correction no_cv [''bob'', ''cat''] (4 * second) 4000 (4 * second) drift_room))) 4000 = 983 \<and>
   (\<exists>c. AdvanceMediaTime no_cv (rs_state (snd (drift_correction no_cv [''bob'', ''cat''] (4 * second) 4000 (4 * second) drift_room))) 4000 =
      i64 (ss_MediaTimeMs (rs_state drift_room) - f2i no_cv 64 c))"
proof -
  let ?d = "drift_correction no_cv [''bob'', ''cat''] (4 * second) 4000 (4 * second) drift_room"
  have st: "rs_state drift_room = sample_state\<lparr>ss_HostID := ''bob''\<rparr>"
    by (simp add: drift_room_def)
  have "AdvanceMediaTime no_cv (rs_state drift_room) 4000 = 4000"
    "AdvanceMediaTime no_cv (rs_state (snd ?d)) 4000 = 983" "ss_Epoch (rs_state (snd ?d)) = 1" by code_simp+
  moreover have "state_ok (rs_state drift_room)" "ss_Epoch (rs_state drift_room) = 0"
    using sample_state_ok by (simp_all add: st state_ok_def sample_state_def zero_SyncState_def)
  ultimately show ?thesis
    using drift_correction_position [of drift_room 4000 no_cv "[''bob'', ''cat'']" "4 * second" "4 * second" "fst ?d" "snd ?d"]
    by (auto simp: in_i64_def)
qed

end
