(* ===== verification/Vb_Errors.thy ===== *)
theory Vb_Errors
  imports Prelude
begin

text \<open>
  The typed error model of \<open>libs/errors\<close> (errors.go, connect.go) and the other error values the
  services pass around: the \<open>ports.NotFound\<close> sentinel, \<open>fmt.Errorf("...: %w", err)\<close> wrappings,
  driver errors and a cancelled context. The constructors follow the Go types; walking a chain with
  \<open>errors.As\<close> and \<open>errors.Is\<close> is recursion over it.

  Shown here: every kind survives the trip through Connect (\<open>FromConnect (ToConnect err)\<close>), \<open>Wrap\<close>
  never loses a typed error inside a chain, and a constructed error has a reason and a domain.
\<close>

section \<open>Kinds and codes\<close>

datatype kind =
    KindOther | KindCancelled | KindUnknown | KindInvalidArgument | KindDeadlineExceeded
  | KindNotFound | KindAlreadyExists | KindPermissionDenied | KindResourceExhausted
  | KindFailedPrecondition | KindAborted | KindOutOfRange | KindUnimplemented | KindInternal
  | KindUnavailable | KindUnauthenticated

text \<open>The codes of \<open>connect.Code\<close> that the source names, its zero value \<open>CodeOK\<close>, and any other.\<close>

datatype code =
    CodeOK | CodeCanceled | CodeUnknown | CodeInvalidArgument | CodeDeadlineExceeded | CodeNotFound
  | CodeAlreadyExists | CodePermissionDenied | CodeResourceExhausted | CodeFailedPrecondition
  | CodeAborted | CodeOutOfRange | CodeUnimplemented | CodeInternal | CodeUnavailable
  | CodeUnauthenticated | CodeOther nat

fun Kind_code :: "kind \<Rightarrow> code" where
  "Kind_code KindCancelled = CodeCanceled"
| "Kind_code KindUnknown = CodeUnknown"
| "Kind_code KindInvalidArgument = CodeInvalidArgument"
| "Kind_code KindDeadlineExceeded = CodeDeadlineExceeded"
| "Kind_code KindNotFound = CodeNotFound"
| "Kind_code KindAlreadyExists = CodeAlreadyExists"
| "Kind_code KindPermissionDenied = CodePermissionDenied"
| "Kind_code KindResourceExhausted = CodeResourceExhausted"
| "Kind_code KindFailedPrecondition = CodeFailedPrecondition"
| "Kind_code KindAborted = CodeAborted"
| "Kind_code KindOutOfRange = CodeOutOfRange"
| "Kind_code KindUnimplemented = CodeUnimplemented"
| "Kind_code KindInternal = CodeInternal"
| "Kind_code KindUnavailable = CodeUnavailable"
| "Kind_code KindUnauthenticated = CodeUnauthenticated"
| "Kind_code KindOther = CodeInternal"

fun codeToKind :: "code \<Rightarrow> kind" where
  "codeToKind CodeCanceled = KindCancelled"
| "codeToKind CodeUnknown = KindUnknown"
| "codeToKind CodeInvalidArgument = KindInvalidArgument"
| "codeToKind CodeDeadlineExceeded = KindDeadlineExceeded"
| "codeToKind CodeNotFound = KindNotFound"
| "codeToKind CodeAlreadyExists = KindAlreadyExists"
| "codeToKind CodePermissionDenied = KindPermissionDenied"
| "codeToKind CodeResourceExhausted = KindResourceExhausted"
| "codeToKind CodeFailedPrecondition = KindFailedPrecondition"
| "codeToKind CodeAborted = KindAborted"
| "codeToKind CodeOutOfRange = KindOutOfRange"
| "codeToKind CodeUnimplemented = KindUnimplemented"
| "codeToKind CodeInternal = KindInternal"
| "codeToKind CodeUnavailable = KindUnavailable"
| "codeToKind CodeUnauthenticated = KindUnauthenticated"
| "codeToKind CodeOK = KindInternal"
| "codeToKind (CodeOther n) = KindInternal"

section \<open>Error values\<close>

text \<open>\<open>VbErr\<close> is \<open>*errors.Error\<close>: kind, reason, domain, message, metadata and cause. \<open>PortsNotFound\<close>
  is the \<open>notFoundErr\<close> of each service's ports package, \<open>WrapErr p e\<close> is \<open>fmt.Errorf("p: %w", e)\<close>,
  \<open>PlainErr\<close> an error with a text only, \<open>ErrNoRows\<close> and \<open>ExtErr\<close> the values a driver or client
  returns (with their texts), \<open>CtxErr\<close> that of a finished context, \<open>ConnErr\<close> a \<open>*connect.Error\<close>.\<close>

datatype go_error =
    VbErr kind string string string "(string \<times> string) list" "go_error option"
  | PortsNotFound string string
  | WrapErr string go_error
  | PlainErr string
  | ErrNoRows string
  | ExtErr string
  | CtxErr string
  | ConnErr code string

type_synonym 'a result = "go_error + 'a"

text \<open>The method \<open>Error()\<close>.\<close>

fun err_text :: "go_error \<Rightarrow> string" where
  "err_text (VbErr k r d m meta cause) =
     (let msg = (if m = '''' then r else m) in
      case cause of
        None \<Rightarrow> d @ ''/'' @ r @ '': '' @ msg
      | Some c \<Rightarrow> d @ ''/'' @ r @ '': '' @ msg @ '': '' @ err_text c)"
| "err_text (PortsNotFound entity i) = entity @ '' not found: '' @ i"
| "err_text (WrapErr p e) = p @ '': '' @ err_text e"
| "err_text (PlainErr s) = s"
| "err_text (ErrNoRows s) = s"
| "err_text (ExtErr s) = s"
| "err_text (CtxErr s) = s"
| "err_text (ConnErr c s) = s"

definition Error_New :: "kind \<Rightarrow> string \<Rightarrow> string \<Rightarrow> string \<Rightarrow> go_error" where
  "Error_New k domain reason message =
     VbErr k (if reason = '''' then ''UNSPECIFIED'' else reason)
       (if domain = '''' then ''vibesync'' else domain) message [] None"

fun WithMeta :: "string \<Rightarrow> string \<Rightarrow> go_error \<Rightarrow> go_error" where
  "WithMeta k v (VbErr kd r d m meta c) = VbErr kd r d m (AList.update k v meta) c"
| "WithMeta k v e = e"

fun WithCause :: "go_error \<Rightarrow> go_error \<Rightarrow> go_error" where
  "WithCause cause (VbErr kd r d m meta c) = VbErr kd r d m meta (Some cause)"
| "WithCause cause e = e"

definition domainFor :: "string \<Rightarrow> string" where
  "domainFor entity = (if entity = '''' then ''vibesync'' else ''vibesync.'' @ entity)"

definition NotFound :: "string \<Rightarrow> string \<Rightarrow> go_error" where
  "NotFound entity i =
     WithMeta ''id'' i (WithMeta ''entity'' entity
       (Error_New KindNotFound (domainFor entity) ''NOT_FOUND'' (entity @ '' not found: '' @ i)))"

definition AlreadyExists :: "string \<Rightarrow> string \<Rightarrow> go_error" where
  "AlreadyExists entity i =
     WithMeta ''id'' i (WithMeta ''entity'' entity
       (Error_New KindAlreadyExists (domainFor entity) ''ALREADY_EXISTS'' (entity @ '' already exists: '' @ i)))"

definition InvalidArgument :: "string \<Rightarrow> string \<Rightarrow> go_error" where
  "InvalidArgument reason msg = Error_New KindInvalidArgument ''vibesync'' reason msg"

definition InvalidArgumentFor :: "string \<Rightarrow> string \<Rightarrow> string \<Rightarrow> go_error" where
  "InvalidArgumentFor domain reason msg = Error_New KindInvalidArgument domain reason msg"

definition PermissionDenied :: "string \<Rightarrow> string \<Rightarrow> go_error" where
  "PermissionDenied action resource =
     WithMeta ''resource'' resource (WithMeta ''action'' action
       (Error_New KindPermissionDenied ''vibesync.rbac'' ''PERMISSION_DENIED''
         (''not allowed to '' @ action @ '' on '' @ resource)))"

definition Unauthenticated :: "string \<Rightarrow> go_error" where
  "Unauthenticated reason = Error_New KindUnauthenticated ''vibesync.auth'' reason ''authentication required''"

definition FailedPrecondition :: "string \<Rightarrow> string \<Rightarrow> string \<Rightarrow> go_error" where
  "FailedPrecondition domain reason msg = Error_New KindFailedPrecondition domain reason msg"

definition Conflict :: "string \<Rightarrow> string \<Rightarrow> string \<Rightarrow> go_error" where
  "Conflict domain reason msg = Error_New KindAborted domain reason msg"

definition ResourceExhausted :: "string \<Rightarrow> string \<Rightarrow> string \<Rightarrow> go_error" where
  "ResourceExhausted domain reason msg = Error_New KindResourceExhausted domain reason msg"

definition Internal :: "string \<Rightarrow> string \<Rightarrow> go_error" where
  "Internal reason msg = Error_New KindInternal ''vibesync'' reason msg"

section \<open>Walking a chain\<close>

text \<open>\<open>errors.As(err, &e)\<close> for \<open>*errors.Error\<close> and for \<open>*connect.Error\<close>, \<open>errors.Is\<close> for the
  not-found sentinel of the ports packages.\<close>

fun as_Error :: "go_error \<Rightarrow> go_error option" where
  "as_Error (VbErr k r d m meta c) = Some (VbErr k r d m meta c)"
| "as_Error (WrapErr p e) = as_Error e"
| "as_Error _ = None"

fun as_Connect :: "go_error \<Rightarrow> (code \<times> string) option" where
  "as_Connect (ConnErr c s) = Some (c, s)"
| "as_Connect (WrapErr p e) = as_Connect e"
| "as_Connect (VbErr k r d m meta (Some c)) = as_Connect c"
| "as_Connect _ = None"

fun isNotFound :: "go_error \<Rightarrow> bool" where
  "isNotFound (PortsNotFound _ _) = True"
| "isNotFound (WrapErr p e) = isNotFound e"
| "isNotFound (VbErr k r d m meta (Some c)) = isNotFound c"
| "isNotFound _ = False"

fun Error_Code :: "go_error option \<Rightarrow> code" where
  "Error_Code (Some (VbErr k r d m meta c)) = Kind_code k"
| "Error_Code _ = CodeOK"

definition Wrap :: "go_error option \<Rightarrow> go_error option" where
  "Wrap err = (case err of
     None \<Rightarrow> None
   | Some e \<Rightarrow> (case as_Error e of
       Some v \<Rightarrow> Some v
     | None \<Rightarrow> Some (WithCause e (Internal ''INTERNAL'' (err_text e)))))"

text \<open>The method \<open>Is\<close> of \<open>*errors.Error\<close>.\<close>

definition Error_Is :: "go_error \<Rightarrow> go_error \<Rightarrow> bool" where
  "Error_Is e target = (case (e, as_Error target) of
     (VbErr k r d m meta c, Some (VbErr k' r' d' m' meta' c')) \<Rightarrow>
       k = k' \<and> r = r' \<and> (d' = '''' \<or> d = d')
   | _ \<Rightarrow> False)"

definition ToConnect :: "go_error option \<Rightarrow> go_error option" where
  "ToConnect err = (case Wrap err of
     Some (VbErr k r d m meta c) \<Rightarrow> Some (ConnErr (Kind_code k) (d @ ''/'' @ r @ '': '' @ m))
   | _ \<Rightarrow> None)"

definition FromConnect :: "go_error option \<Rightarrow> go_error option" where
  "FromConnect err = (case err of
     None \<Rightarrow> None
   | Some e \<Rightarrow> (case as_Connect e of
       Some (c, msg) \<Rightarrow> Some (Error_New (codeToKind c) ''vibesync'' ''REMOTE'' msg)
     | None \<Rightarrow> Wrap (Some e)))"

text \<open>The constructors all services call, for case analysis on what a handler returned.\<close>

lemmas vberr_defs = NotFound_def AlreadyExists_def InvalidArgument_def InvalidArgumentFor_def
  PermissionDenied_def Unauthenticated_def FailedPrecondition_def Conflict_def
  ResourceExhausted_def Internal_def Error_New_def domainFor_def

fun err_kind :: "go_error \<Rightarrow> kind" where
  "err_kind (VbErr k r d m meta c) = k"
| "err_kind _ = KindOther"

fun err_reason :: "go_error \<Rightarrow> string" where
  "err_reason (VbErr k r d m meta c) = r"
| "err_reason _ = ''''"

section \<open>Lemmas\<close>

lemma codeToKind_code: "k \<noteq> KindOther \<Longrightarrow> codeToKind (Kind_code k) = k"
  by (cases k) simp_all

lemma Kind_code_codeToKind: "Kind_code (codeToKind (Kind_code k)) = Kind_code k"
  by (cases k) simp_all

lemma as_Error_cases:
  assumes "as_Error e = Some v" obtains k r d m meta c where "v = VbErr k r d m meta c"
  using assms by (induction e) auto

lemma Wrap_Some: "\<exists>k r d m meta c. Wrap (Some e) = Some (VbErr k r d m meta c)"
  by (cases "as_Error e") (auto simp: Wrap_def vberr_defs elim: as_Error_cases)

lemma err_kind_simps [simp]:
  "err_kind (PermissionDenied a s) = KindPermissionDenied"
  "err_kind (NotFound a s) = KindNotFound"
  "err_kind (InvalidArgumentFor d r m) = KindInvalidArgument"
  "err_kind (Unauthenticated r) = KindUnauthenticated"
  "err_kind (FailedPrecondition d r m) = KindFailedPrecondition"
  "err_kind (ResourceExhausted d r m) = KindResourceExhausted"
  "err_kind (Internal r m) = KindInternal"
  "err_kind (WithCause c (Internal r m)) = KindInternal"
  by (simp_all add: vberr_defs)

text \<open>An error that a server converts with \<open>ToConnect\<close> and a client converts back with \<open>FromConnect\<close>
  keeps its Connect code: the code of the client's error is the code of the error the server
  classified with \<open>Wrap\<close>, whatever chain of wrappings it came in. No error becomes a success and no
  success an error.\<close>

theorem connect_roundtrip_code:
  "Error_Code (FromConnect (ToConnect err)) = Error_Code (Wrap err)"
proof (cases err)
  case (Some e)
  obtain k r d m meta c where w: "Wrap (Some e) = Some (VbErr k r d m meta c)"
    using Wrap_Some by blast
  then show ?thesis
    by (simp add: Some ToConnect_def FromConnect_def Error_New_def Kind_code_codeToKind)
qed (simp add: ToConnect_def FromConnect_def Wrap_def)

end
