(* ===== verification/Vb_Tx.thy ===== *)
theory Vb_Tx
  imports Prelude Vb_Errors
begin

text \<open>
  Transactions. Every service runs its SQL statements inside \<open>pool.BeginTx ... tx.Commit\<close> with a
  deferred \<open>tx.Rollback\<close>. A computation inside a transaction is a function of the tables; what can go
  wrong outside the program (lost connection, deadlock, timeout) is the argument \<open>fl\<close>: \<open>fl n\<close> is the
  text of the driver's error for the \<open>n\<close>-th statement of the request, or \<open>None\<close> if that statement is
  executed. All theorems
  hold for every \<open>fl\<close>. A \<open>Commit\<close> that reports an error is taken to have rolled back.

  The rules for \<open>tx_post\<close> show, for a transaction built from the combinators, that it preserves an
  invariant of the tables when it succeeds; \<open>run_tx\<close> turns this into preservation on every outcome.
\<close>

type_synonym faults = "nat \<Rightarrow> string option"
type_synonym ('db, 'a) tx = "faults \<Rightarrow> nat \<Rightarrow> 'db \<Rightarrow> 'a result \<times> nat \<times> 'db"

definition no_faults :: faults where "no_faults n = None"

lemma no_faults [simp]: "no_faults n = None"
  by (simp add: no_faults_def)

section \<open>Combinators\<close>

definition tx_return :: "'a \<Rightarrow> ('db, 'a) tx" where
  "tx_return v fl n db = (Inr v, n, db)"

definition tx_fail :: "go_error \<Rightarrow> ('db, 'a) tx" where
  "tx_fail e fl n db = (Inl e, n, db)"

definition tx_bind :: "('db, 'a) tx \<Rightarrow> ('a \<Rightarrow> ('db, 'b) tx) \<Rightarrow> ('db, 'b) tx" where
  "tx_bind m f fl n db = (case m fl n db of
     (Inl e, n', db') \<Rightarrow> (Inl e, n', db')
   | (Inr v, n', db') \<Rightarrow> f v fl n' db')"

text \<open>\<open>tx_then m k\<close>: two statements in sequence; \<open>tx_when b e\<close>: an early return with the error \<open>e\<close>.\<close>

definition tx_then :: "('db, unit) tx \<Rightarrow> ('db, 'b) tx \<Rightarrow> ('db, 'b) tx" where
  "tx_then m k = tx_bind m (\<lambda>_. k)"

definition tx_when :: "bool \<Rightarrow> go_error \<Rightarrow> ('db, unit) tx" where
  "tx_when b e = (if b then tx_fail e else tx_return ())"

text \<open>One SQL statement: it fails from outside, or yields a result and the new tables, or the database
  rejects it.\<close>

definition tx_stmt :: "('db \<Rightarrow> 'a result \<times> 'db) \<Rightarrow> ('db, 'a) tx" where
  "tx_stmt f fl n db = (case fl n of
     Some e \<Rightarrow> (Inl (ExtErr e), n + 1, db)
   | None \<Rightarrow> (case f db of (r, db') \<Rightarrow> (r, n + 1, db')))"

definition tx_query :: "('db \<Rightarrow> 'a) \<Rightarrow> ('db, 'a) tx" where
  "tx_query q = tx_stmt (\<lambda>db. (Inr (q db), db))"

text \<open>\<open>if err != nil { return g(err) }\<close>, and the error as a value.\<close>

definition tx_err :: "(go_error \<Rightarrow> go_error) \<Rightarrow> ('db, 'a) tx \<Rightarrow> ('db, 'a) tx" where
  "tx_err g m fl n db = (case m fl n db of
     (Inl e, n', db') \<Rightarrow> (Inl (g e), n', db') | r \<Rightarrow> r)"

definition tx_try :: "('db, 'a) tx \<Rightarrow> ('db, 'a result) tx" where
  "tx_try m fl n db = (case m fl n db of (r, n', db') \<Rightarrow> (Inr r, n', db'))"

text \<open>A statement on a part of the tables.\<close>

definition tx_on :: "('db \<Rightarrow> 'c) \<Rightarrow> ('c \<Rightarrow> 'db \<Rightarrow> 'db) \<Rightarrow> ('c, 'a) tx \<Rightarrow> ('db, 'a) tx" where
  "tx_on get put m fl n db = (case m fl n (get db) of (r, n', c) \<Rightarrow> (r, n', put c db))"

fun tx_iter :: "('a \<Rightarrow> ('db, unit) tx) \<Rightarrow> 'a list \<Rightarrow> ('db, unit) tx" where
  "tx_iter f [] = tx_return ()"
| "tx_iter f (x # xs) = tx_then (f x) (tx_iter f xs)"

text \<open>Begin, body, commit; on any error the tables are as before.\<close>

definition run_tx :: "('db, 'a) tx \<Rightarrow> faults \<Rightarrow> 'db \<Rightarrow> 'a result \<times> 'db" where
  "run_tx m fl db = (case fl 0 of
     Some e \<Rightarrow> (Inl (ExtErr e), db)
   | None \<Rightarrow> (case m fl 1 db of
       (Inl e, n, db') \<Rightarrow> (Inl e, db)
     | (Inr v, n, db') \<Rightarrow> (case fl n of Some e \<Rightarrow> (Inl (ExtErr e), db) | None \<Rightarrow> (Inr v, db'))))"

lemmas tx_defs = tx_return_def tx_fail_def tx_bind_def tx_then_def tx_when_def tx_stmt_def tx_query_def
  tx_err_def tx_try_def tx_on_def

section \<open>Successful runs\<close>

text \<open>What a run that succeeded did, one equivalence per combinator; the statements of the
  repositories add theirs to the collection.\<close>

named_theorems tx_inr \<open>characterisation of successful runs\<close>

lemma tx_inr_return [tx_inr]:
  "tx_return w fl n db = (Inr v, n', db') \<longleftrightarrow> v = w \<and> n' = n \<and> db' = db"
  by (auto simp: tx_defs split: prod.splits sum.splits option.splits)

lemma tx_inr_fail [tx_inr]:
  "tx_fail e fl n db = (Inr v, n', db') \<longleftrightarrow> False"
  by (auto simp: tx_defs split: prod.splits sum.splits option.splits)

lemma tx_inr_when [tx_inr]:
  "tx_when b e fl n db = (Inr u, n', db') \<longleftrightarrow> \<not> b \<and> n' = n \<and> db' = db"
  by (auto simp: tx_defs split: prod.splits sum.splits option.splits)

lemma tx_inr_bind [tx_inr]:
  "tx_bind m f fl n db = (Inr v, n', db') \<longleftrightarrow>
   (\<exists>w n1 db1. m fl n db = (Inr w, n1, db1) \<and> f w fl n1 db1 = (Inr v, n', db'))"
  by (auto simp: tx_defs split: prod.splits sum.splits option.splits)

lemma tx_inr_err [tx_inr]:
  "tx_err g m fl n db = (Inr v, n', db') \<longleftrightarrow> m fl n db = (Inr v, n', db')"
  by (auto simp: tx_defs split: prod.splits sum.splits option.splits)

lemma tx_inr_try [tx_inr]:
  "tx_try m fl n db = (Inr r, n', db') \<longleftrightarrow> m fl n db = (r, n', db')"
  by (auto simp: tx_defs split: prod.splits sum.splits option.splits)

lemma tx_inr_stmt [tx_inr]:
  "tx_stmt h fl n db = (Inr v, n', db') \<longleftrightarrow> fl n = None \<and> n' = n + 1 \<and> h db = (Inr v, db')"
  by (auto simp: tx_defs split: prod.splits sum.splits option.splits)

lemma tx_inr_query [tx_inr]:
  "tx_query q fl n db = (Inr v, n', db') \<longleftrightarrow> fl n = None \<and> n' = n + 1 \<and> v = q db \<and> db' = db"
  by (auto simp: tx_defs split: prod.splits sum.splits option.splits)

lemma tx_inr_then [tx_inr]:
  "tx_then k m fl n db = (Inr v, n', db') \<longleftrightarrow>
     (\<exists>n1 db1. k fl n db = (Inr (), n1, db1) \<and> m fl n1 db1 = (Inr v, n', db'))"
  by (simp add: tx_then_def tx_inr)

lemma tx_inr_on [tx_inr]:
  "tx_on get put m fl n db = (Inr v, n', db') \<longleftrightarrow>
     (\<exists>c. m fl n (get db) = (Inr v, n', c) \<and> db' = put c db)"
  by (auto simp: tx_on_def split: prod.splits)

lemma run_tx_inr:
  "run_tx m fl db = (Inr v, db') \<longleftrightarrow> fl 0 = None \<and> (\<exists>n. m fl 1 db = (Inr v, n, db') \<and> fl n = None)"
  by (auto simp: run_tx_def split: option.splits prod.splits sum.splits)

section \<open>Rules\<close>

text \<open>\<open>tx_post P m Q\<close>: if \<open>m\<close> starts in tables satisfying \<open>P\<close> and succeeds with \<open>v\<close>, the tables then
  satisfy \<open>Q v\<close>.\<close>

definition tx_post :: "('db \<Rightarrow> bool) \<Rightarrow> ('db, 'a) tx \<Rightarrow> ('a \<Rightarrow> 'db \<Rightarrow> bool) \<Rightarrow> bool" where
  "tx_post P m Q \<longleftrightarrow> (\<forall>fl n db v n' db'. P db \<longrightarrow> m fl n db = (Inr v, n', db') \<longrightarrow> Q v db')"

lemma tx_post_return [intro]: "(\<And>db. P db \<Longrightarrow> Q v db) \<Longrightarrow> tx_post P (tx_return v) Q"
  by (auto simp: tx_post_def tx_return_def)

lemma tx_post_fail [simp, intro]: "tx_post P (tx_fail e) Q"
  by (simp add: tx_post_def tx_fail_def)

lemma tx_post_bind:
  assumes "tx_post P m R" "\<And>v. tx_post (R v) (f v) Q" shows "tx_post P (tx_bind m f) Q"
  using assms unfolding tx_post_def tx_bind_def
  by (auto split: prod.splits sum.splits) blast

lemma tx_post_then:
  assumes "tx_post P m (\<lambda>_. R)" "tx_post R k Q" shows "tx_post P (tx_then m k) Q"
  unfolding tx_then_def using assms by (auto intro: tx_post_bind)

lemma tx_post_when:
  assumes "\<And>db. P db \<Longrightarrow> \<not> b \<Longrightarrow> Q db" shows "tx_post P (tx_when b e) (\<lambda>_. Q)"
  using assms by (auto simp: tx_when_def)

lemma tx_post_stmt:
  assumes "\<And>db v db'. P db \<Longrightarrow> f db = (Inr v, db') \<Longrightarrow> Q v db'" shows "tx_post P (tx_stmt f) Q"
  using assms unfolding tx_post_def tx_stmt_def by (auto split: option.splits prod.splits)

lemma tx_post_query: "(\<And>db. P db \<Longrightarrow> Q (q db) db) \<Longrightarrow> tx_post P (tx_query q) Q"
  unfolding tx_query_def by (rule tx_post_stmt) auto

lemma tx_post_err: "tx_post P m Q \<Longrightarrow> tx_post P (tx_err g m) Q"
  unfolding tx_post_def tx_err_def by (auto split: prod.splits sum.splits)

lemma tx_post_conseq:
  "tx_post P m Q \<Longrightarrow> (\<And>db. P' db \<Longrightarrow> P db) \<Longrightarrow> (\<And>v db. Q v db \<Longrightarrow> Q' v db) \<Longrightarrow> tx_post P' m Q'"
  unfolding tx_post_def by blast

lemma run_tx_error: "run_tx m fl db = (Inl e, db') \<Longrightarrow> db' = db"
  by (auto simp: run_tx_def split: option.splits prod.splits sum.splits)

lemma run_tx_success:
  assumes "tx_post P m Q" "P db" "run_tx m fl db = (Inr v, db')" shows "Q v db'"
  using assms unfolding run_tx_def tx_post_def by (auto split: option.splits prod.splits sum.splits)

text \<open>Preservation of an invariant by a whole request, whatever fails.\<close>

lemma run_tx_invariant:
  assumes "tx_post I m (\<lambda>_. I)" "I db" "run_tx m fl db = (r, db')" shows "I db'"
  using assms run_tx_error [of m fl db _ db'] run_tx_success [OF assms(1,2), of fl _ db'] by (cases r) auto

end
