(* ===== verification/Vb_Sql.thy ===== *)
theory Vb_Sql
  imports Vb_Tx
begin

text \<open>
  What the repositories of all services share: the values that PostgreSQL columns accept, and the
  mapping of a missing row to the not-found error (\<open>infra/postgres/scan.go\<close>).
\<close>

section \<open>Columns\<close>

text \<open>Values for \<open>CHAR(n)\<close> (blank padded) and \<open>VARCHAR(n)\<close>; a longer value is rejected unless the
  excess is blanks. Lengths count bytes: the identifiers are ASCII.\<close>

definition varchar_col :: "nat \<Rightarrow> string \<Rightarrow> string option" where
  "varchar_col n s = (if list_all (\<lambda>c. c = CHR '' '') (drop n s) then Some (take n s) else None)"

definition char_col :: "nat \<Rightarrow> string \<Rightarrow> string option" where
  "char_col n s = map_option (\<lambda>t. t @ replicate (n - length t) (CHR '' '')) (varchar_col n s)"

text \<open>\<open>TIMESTAMPTZ\<close> keeps microseconds.\<close>

definition pg_time :: "time \<Rightarrow> time" where "pg_time t = (t div 1000) * 1000"

definition pad :: "nat \<Rightarrow> string \<Rightarrow> string" where
  "pad n s = s @ replicate (n - length s) (CHR '' '')"

lemma varchar_col_le [simp]: "length s \<le> n \<Longrightarrow> varchar_col n s = Some s"
  by (simp add: varchar_col_def)

lemma char_col_le [simp]: "length s \<le> n \<Longrightarrow> char_col n s = Some (pad n s)"
  by (simp add: char_col_def pad_def)

lemma pad_exact [simp]: "length s = n \<Longrightarrow> pad n s = s"
  by (simp add: pad_def)

text \<open>\<open>VARCHAR(n)\<close> for user text counts code points, not bytes; text may not contain NUL.\<close>

definition rune_count :: "string \<Rightarrow> nat" where
  "rune_count s = length (filter (\<lambda>c. (of_char c :: nat) < 128 \<or> 192 \<le> (of_char c :: nat)) s)"

definition text_col :: "string \<Rightarrow> string option" where
  "text_col s = (if CHR 0x00 \<in> set s then None else Some s)"

definition text_varchar_col :: "nat \<Rightarrow> string \<Rightarrow> string option" where
  "text_varchar_col n s =
     (if CHR 0x00 \<in> set s then None
      else (let k = rune_count s - n; keep = length s - k in
        if list_all (\<lambda>c. c = CHR '' '') (drop keep s) then Some (take keep s) else None))"

section \<open>Errors\<close>

fun is_no_rows :: "go_error \<Rightarrow> bool" where
  "is_no_rows (ErrNoRows s) = True"
| "is_no_rows (WrapErr p e) = is_no_rows e"
| "is_no_rows (VbErr k r d m meta (Some c)) = is_no_rows c"
| "is_no_rows _ = False"

definition mapErr :: "string \<Rightarrow> string \<Rightarrow> go_error \<Rightarrow> go_error" where
  "mapErr entity i err = (if is_no_rows err then PortsNotFound entity i else WrapErr entity err)"

definition no_rows :: go_error where "no_rows = ErrNoRows ''no rows in result set''"

text \<open>\<open>isNotFoundErr\<close> compares with \<open>==\<close>, without unwrapping.\<close>

definition isNotFoundErr :: "go_error \<Rightarrow> bool" where "isNotFoundErr err \<longleftrightarrow> err = no_rows"

section \<open>Lemmas\<close>

lemma char_col_length: "char_col n s = Some t \<Longrightarrow> length t = n"
  by (auto simp: char_col_def varchar_col_def split: if_splits)

lemma char_col_idem: "char_col n s = Some t \<Longrightarrow> char_col n t = Some t"
  by (frule char_col_length) simp

lemma no_rows_simps [simp]: "is_no_rows no_rows" "isNotFoundErr no_rows" "is_no_rows (ExtErr s) = False"
  "mapErr en i no_rows = PortsNotFound en i" "mapErr en i (ExtErr s) = WrapErr en (ExtErr s)"
  "isNotFoundErr (ExtErr s) = False"
  by (simp_all add: no_rows_def isNotFoundErr_def mapErr_def)

text \<open>An identifier as a \<open>CHAR(26)\<close> column returns it.\<close>

definition key26 :: "string \<Rightarrow> string" where
  "key26 s = (case char_col 26 s of None \<Rightarrow> s | Some k \<Rightarrow> k)"

lemma key26_char_col: "char_col 26 r = Some k \<Longrightarrow> key26 r = k"
  by (simp add: key26_def)

end
