(* ===== verification/Outbox.thy ===== *)
theory Outbox
  imports Vb_Sql Vb_Outbox Vb_History
begin

text \<open>
  The transactional outbox: \<open>infra/postgres/outbox_writer.go\<close> (the table) and \<open>infra/events/events.go\<close>
  (the relay that drains it to Kafka), as the sync service has them; the other services carry copies.

  The table is the list of its rows in scan order. A message handed to Kafka stays there when the
  transaction of the relay rolls back, so the log of Kafka is state of its own. Shown here: staging is
  all or nothing with the request's transaction; a row is marked only when its message is in Kafka,
  whatever fails (at least once); without faults repeated drains publish every row.
\<close>

section \<open>The table\<close>

record outbox_row =
  ob_id :: string
  ob_aggregate_id :: string
  ob_topic :: string
  ob_key :: string
  ob_payload :: payload
  ob_headers :: "(string \<times> string) list"
  ob_occurred_at :: time
  ob_version :: string
  ob_published :: bool
  ob_published_at :: "time option"

text \<open>The row of an event, \<open>None\<close> if a column rejects its value (a nil payload is NULL).\<close>

definition outbox_row_of :: "Event \<Rightarrow> string \<Rightarrow> outbox_row option" where
  "outbox_row_of e key =
     (case (char_col 26 (ev_ID e), char_col 26 (ev_AggregateID e), varchar_col 128 (ev_Topic e),
            varchar_col 128 key, ev_Payload e, varchar_col 16 (ev_Version e)) of
        (Some i, Some a, Some t, Some k, Some p, Some v) \<Rightarrow>
          Some \<lparr>ob_id = i, ob_aggregate_id = a, ob_topic = t, ob_key = k, ob_payload = p,
                ob_headers = ev_Headers e, ob_occurred_at = pg_time (ev_OccurredAt e), ob_version = v,
                ob_published = False, ob_published_at = None\<rparr>
      | _ \<Rightarrow> None)"

definition insert_outbox :: "Event \<Rightarrow> string \<Rightarrow> outbox_row list \<Rightarrow> unit result \<times> outbox_row list" where
  "insert_outbox e key rows = (case outbox_row_of e key of
     None \<Rightarrow> (Inl (ExtErr ''invalid value''), rows)
   | Some r \<Rightarrow> if ob_id r \<in> ob_id ` set rows then (Inl (ExtErr ''duplicate key''), rows)
               else (Inr (), rows @ [r]))"

definition append_one :: "Event \<Rightarrow> (outbox_row list, unit) tx" where
  "append_one e =
     tx_then (tx_when (ev_Topic e = '''') (PlainErr ''outbox: event missing topic''))
       (let key = (if ev_Key e = '''' then ev_AggregateID e else ev_Key e) in
        tx_err (WrapErr ''outbox: insert event'') (tx_stmt (insert_outbox e key)))"

definition Append :: "Event list \<Rightarrow> (outbox_row list, unit) tx" where
  "Append events = tx_iter append_one events"

text \<open>\<open>SELECT ... WHERE published = FALSE ORDER BY occurred_at LIMIT n FOR UPDATE SKIP LOCKED\<close>; \<open>locked\<close>
  are the rows another relay holds.\<close>

definition FetchUnpublished :: "string set \<Rightarrow> int \<Rightarrow> outbox_row list \<Rightarrow> outbox_row list" where
  "FetchUnpublished locked limit rows =
     take (nat limit) (sort_key ob_occurred_at (filter (\<lambda>r. \<not> ob_published r \<and> ob_id r \<notin> locked) rows))"

definition MarkPublished :: "string \<Rightarrow> time \<Rightarrow> outbox_row list \<Rightarrow> outbox_row list" where
  "MarkPublished i t rows =
     map (\<lambda>r. if ob_id r = i then r\<lparr>ob_published := True, ob_published_at := Some (pg_time t)\<rparr> else r) rows"

section \<open>The relay\<close>

record Message =
  msg_Topic :: string
  msg_Partition :: int
  msg_Offset :: int
  msg_Key :: string
  msg_Value :: "payload option"
  msg_Headers :: "(string \<times> string) list"
  msg_Timestamp :: time

text \<open>\<open>eventHeaders\<close>: the three standard headers, overridden by the event's own.\<close>

definition eventHeaders :: "Event \<Rightarrow> (string \<times> string) list" where
  "eventHeaders e = foldl (\<lambda>h (k, v). AList.update k v h)
     [(''schema-version'', ev_Version e), (''event-id'', ev_ID e), (''aggregate-id'', ev_AggregateID e)] (ev_Headers e)"

definition Publish :: "time \<Rightarrow> Event \<Rightarrow> Message" where
  "Publish now e =
     (let key = (if ev_Key e = '''' then ev_AggregateID e else ev_Key e);
          t = (if ev_OccurredAt e = zero_time then now else ev_OccurredAt e)
      in \<lparr>msg_Topic = ev_Topic e, msg_Partition = 0, msg_Offset = 0, msg_Key = key, msg_Value = ev_Payload e, msg_Headers = eventHeaders e,
          msg_Timestamp = t\<rparr>)"

definition PublishOne :: "time \<Rightarrow> outbox_row \<Rightarrow> Message" where
  "PublishOne now r = Publish now \<lparr>ev_ID = ob_id r, ev_AggregateID = ob_aggregate_id r, ev_Topic = ob_topic r,
     ev_Key = ob_key r, ev_Payload = Some (ob_payload r), ev_Headers = ob_headers r,
     ev_OccurredAt = ob_occurred_at r, ev_Version = ob_version r\<rparr>"

text \<open>The loop of \<open>drainOnce\<close> over the fetched rows: publish, then mark, each of which may fail.\<close>

fun drain_loop ::
  "faults \<Rightarrow> time \<Rightarrow> nat \<Rightarrow> outbox_row list \<Rightarrow> outbox_row list \<times> Message list
   \<Rightarrow> go_error option \<times> nat \<times> outbox_row list \<times> Message list" where
  "drain_loop fl now n [] (rows, klog) = (None, n, rows, klog)"
| "drain_loop fl now n (pe # pes) (rows, klog) =
     (case fl n of
        Some e \<Rightarrow> (Some (WrapErr (''relay: publish '' @ ob_id pe) (ExtErr e)), n, rows, klog)
      | None \<Rightarrow>
          (let klog = klog @ [PublishOne now pe] in
           case fl (n + 1) of
             Some e \<Rightarrow> (Some (WrapErr (''relay: mark '' @ ob_id pe) (ExtErr e)), n, rows, klog)
           | None \<Rightarrow> drain_loop fl now (n + 2) pes (MarkPublished (ob_id pe) now rows, klog)))"

definition drainOnce ::
  "faults \<Rightarrow> string set \<Rightarrow> int \<Rightarrow> time \<Rightarrow> outbox_row list \<times> Message list
   \<Rightarrow> int result \<times> outbox_row list \<times> Message list" where
  "drainOnce fl locked batchSize now st = (case st of (rows, klog) \<Rightarrow>
     case fl 0 of
       Some e \<Rightarrow> (Inl (ExtErr e), rows, klog)
     | None \<Rightarrow> (case fl 1 of
         Some e \<Rightarrow> (Inl (WrapErr ''outbox: fetch'' (ExtErr e)), rows, klog)
       | None \<Rightarrow>
           (let pending = FetchUnpublished locked batchSize rows in
            if pending = [] then (Inr 0, rows, klog)
            else (case drain_loop fl now 2 pending (rows, klog) of
                (Some e, n, rows', klog') \<Rightarrow> (Inl e, rows, klog')
              | (None, n, rows', klog') \<Rightarrow>
                  (case fl n of
                     Some e \<Rightarrow> (Inl (ExtErr e), rows, klog')
                   | None \<Rightarrow> (Inr (int (length pending)), rows', klog'))))))"

text \<open>\<open>NewRelay\<close> replaces a batch size that is not positive.\<close>

definition relay_batch :: "int \<Rightarrow> int" where
  "relay_batch b = (if b \<le> 0 then 100 else b)"

section \<open>Staging\<close>

lemma append_one_grows:
  "append_one e fl n rows = (Inr (), n', rows') \<Longrightarrow>
   \<exists>r. rows' = rows @ [r] \<and> outbox_row_of e (if ev_Key e = '''' then ev_AggregateID e else ev_Key e) = Some r \<and>
     ob_id r \<notin> ob_id ` set rows"
  by (auto simp: append_one_def tx_defs insert_outbox_def Let_def split: option.splits if_splits)

lemma Append_grows:
  "Append es fl n rows = (Inr (), n', rows') \<Longrightarrow>
   \<exists>new. rows' = rows @ new \<and>
     list_all2 (\<lambda>e r. outbox_row_of e (if ev_Key e = '''' then ev_AggregateID e else ev_Key e) = Some r) es new"
proof (induction es arbitrary: n rows)
  case Nil
  then show ?case by (auto simp: Append_def tx_defs)
next
  case (Cons e es)
  from Cons.prems obtain n1 rows1 where s: "append_one e fl n rows = (Inr (), n1, rows1)"
    "Append es fl n1 rows1 = (Inr (), n', rows')"
    by (auto simp: Append_def tx_then_def tx_bind_def split: prod.splits sum.splits)
  obtain r where r: "rows1 = rows @ [r]"
      "outbox_row_of e (if ev_Key e = '''' then ev_AggregateID e else ev_Key e) = Some r"
    using append_one_grows [OF s(1)] by blast
  obtain new where "rows' = rows1 @ new"
      "list_all2 (\<lambda>e r. outbox_row_of e (if ev_Key e = '''' then ev_AggregateID e else ev_Key e) = Some r) es new"
    using Cons.IH [OF s(2)] by blast
  then show ?case using r by (intro exI [of _ "r # new"]) simp
qed

definition outbox_ok :: "outbox_row list \<Rightarrow> bool" where
  "outbox_ok rows \<longleftrightarrow> distinct (map ob_id rows)"

lemma append_one_ok: "tx_post outbox_ok (append_one e) (\<lambda>_. outbox_ok)"
  using append_one_grows by (fastforce simp: tx_post_def outbox_ok_def)

lemma Append_ok: "tx_post outbox_ok (Append es) (\<lambda>_. outbox_ok)"
  unfolding Append_def by (induction es) (auto intro!: tx_post_then [OF append_one_ok] tx_post_return)

section \<open>Draining\<close>

lemma MarkPublished_ids [simp]: "map ob_id (MarkPublished i t rows) = map ob_id rows"
  by (induction rows) (auto simp: MarkPublished_def)

definition mark_all :: "time \<Rightarrow> string list \<Rightarrow> outbox_row list \<Rightarrow> outbox_row list" where
  "mark_all t ids rows = fold (\<lambda>i. MarkPublished i t) ids rows"

lemma mark_all_row:
  "mark_all t ids rows = map (\<lambda>r. if ob_id r \<in> set ids
     then r\<lparr>ob_published := True, ob_published_at := Some (pg_time t)\<rparr> else r) rows"
proof (induction ids arbitrary: rows)
  case (Cons i ids)
  then show ?case by (auto simp: mark_all_def MarkPublished_def)
qed (simp add: mark_all_def)

lemma drain_loop_log:
  "drain_loop fl now n pes (rows, klog) = (r, n', rows', klog') \<Longrightarrow>
   \<exists>k\<le>length pes. klog' = klog @ map (PublishOne now) (take k pes) \<and>
     (r = None \<longrightarrow> k = length pes \<and> rows' = mark_all now (map ob_id pes) rows)"
proof (induction pes arbitrary: n rows klog)
  case (Cons pe pes)
  consider e where "fl n = Some e" | e where "fl n = None" "fl (n + 1) = Some e"
    | "fl n = None" "fl (n + 1) = None" by (cases "fl n"; cases "fl (n + 1)") auto
  then show ?case
  proof cases
    case 1
    then show ?thesis using Cons.prems by (intro exI [of _ 0]) auto
  next
    case 2
    then show ?thesis using Cons.prems by (intro exI [of _ 1]) auto
  next
    case 3
    then have "drain_loop fl now (n + 2) pes (MarkPublished (ob_id pe) now rows, klog @ [PublishOne now pe])
        = (r, n', rows', klog')" using Cons.prems by (simp add: Let_def)
    from Cons.IH [OF this] obtain k where "k \<le> length pes"
      "klog' = klog @ PublishOne now pe # map (PublishOne now) (take k pes)"
      "r = None \<longrightarrow> k = length pes \<and> rows' = mark_all now (map ob_id pes) (MarkPublished (ob_id pe) now rows)"
      by auto
    then show ?thesis by (intro exI [of _ "Suc k"]) (auto simp: mark_all_def)
  qed
qed (auto simp: mark_all_def)

lemma drain_loop_no_faults:
  "drain_loop no_faults now n pes (rows, klog) =
   (None, n + 2 * length pes, mark_all now (map ob_id pes) rows, klog @ map (PublishOne now) pes)"
  by (induction pes arbitrary: n rows klog) (auto simp: mark_all_def Let_def)

text \<open>The outcome of one drain: a prefix of the fetched rows is published; the table changes only when
  all of them were.\<close>

lemma drainOnce_cases:
  assumes "drainOnce fl locked b now (rows, klog) = (r, rows', klog')"
  shows "\<exists>k. klog' = klog @ map (PublishOne now) (take k (FetchUnpublished locked b rows)) \<and>
    (rows' = rows \<or> k = length (FetchUnpublished locked b rows) \<and>
       rows' = mark_all now (map ob_id (FetchUnpublished locked b rows)) rows) \<and>
    (\<forall>e. r = Inl e \<longrightarrow> rows' = rows)"
proof -
  let ?p = "FetchUnpublished locked b rows"
  obtain e n rows1 klog1 where d: "drain_loop fl now 2 ?p (rows, klog) = (e, n, rows1, klog1)"
    by (metis prod_cases4)
  obtain k where k: "k \<le> length ?p" "klog1 = klog @ map (PublishOne now) (take k ?p)"
      "e = None \<longrightarrow> k = length ?p \<and> rows1 = mark_all now (map ob_id ?p) rows"
    using drain_loop_log [OF d] by blast
  consider (same) "rows' = rows" "klog' = klog" | (part) "rows' = rows" "klog' = klog1"
    | (all) "e = None" "rows' = rows1" "klog' = klog1" "\<exists>v. r = Inr v"
    using assms d by (auto simp: drainOnce_def Let_def split: option.splits if_splits)
  then show ?thesis
  proof cases
    case same
    then show ?thesis by (intro exI [of _ 0]) simp
  next
    case part
    then show ?thesis using k by (intro exI [of _ k]) simp
  next
    case all
    then show ?thesis using k by (intro exI [of _ k]) auto
  qed
qed

section \<open>At least once\<close>

lemma PublishOne_flags [simp]:
  "PublishOne t (r\<lparr>ob_published := x, ob_published_at := y\<rparr>) = PublishOne t r"
  by (simp add: PublishOne_def)

text \<open>Every row marked published has had its message handed to Kafka.\<close>

definition relay_ok :: "outbox_row list \<times> Message list \<Rightarrow> bool" where
  "relay_ok st = (case st of (rows, klog) \<Rightarrow> outbox_ok rows \<and>
     (\<forall>r\<in>set rows. ob_published r \<longrightarrow> (\<exists>t. PublishOne t r \<in> set klog)))"

lemma set_FetchUnpublished:
  "set (FetchUnpublished locked b rows) \<subseteq> {r \<in> set rows. \<not> ob_published r \<and> ob_id r \<notin> locked}"
  by (auto simp: FetchUnpublished_def dest!: in_set_takeD)

lemma outbox_ok_mark_all: "outbox_ok (mark_all t ids rows) = outbox_ok rows"
  by (simp add: outbox_ok_def mark_all_row o_def if_distrib cong: if_cong)

lemma outbox_ok_inj: "outbox_ok rows \<Longrightarrow> r \<in> set rows \<Longrightarrow> r' \<in> set rows \<Longrightarrow> ob_id r = ob_id r' \<Longrightarrow> r = r'"
  unfolding outbox_ok_def distinct_map by (auto dest: inj_onD)

lemma mark_all_relay_ok:
  assumes "relay_ok (rows, klog)" "set ps \<subseteq> set rows"
  shows "relay_ok (mark_all t (map ob_id ps) rows, klog @ map (PublishOne t) ps)"
proof -
  have "\<exists>u. PublishOne u r \<in> set (klog @ map (PublishOne t) ps)"
    if r: "r \<in> set rows" "ob_id r \<in> ob_id ` set ps \<or> ob_published r" for r
  proof (cases "ob_id r \<in> ob_id ` set ps")
    case True
    then obtain p where p: "p \<in> set ps" "ob_id r = ob_id p" by blast
    have "r = p"
      by (rule outbox_ok_inj [of rows]) (use assms r p in \<open>auto simp: relay_ok_def\<close>)
    with p show ?thesis by auto
  next
    case False
    with r assms(1) obtain u where "PublishOne u r \<in> set klog" by (auto simp: relay_ok_def)
    then show ?thesis by auto
  qed
  then show ?thesis
    using assms(1) unfolding relay_ok_def
    by (simp add: outbox_ok_mark_all) (auto simp: mark_all_row split: if_splits)
qed

lemma relay_ok_mono: "relay_ok (rows, klog) \<Longrightarrow> relay_ok (rows, klog @ new)"
  by (auto simp: relay_ok_def)

lemma drainOnce_relay_ok:
  assumes "relay_ok (rows, klog)" "drainOnce fl locked b now (rows, klog) = (r, rows', klog')"
  shows "relay_ok (rows', klog')"
proof -
  let ?p = "FetchUnpublished locked b rows"
  obtain k where k: "klog' = klog @ map (PublishOne now) (take k ?p)"
    "rows' = rows \<or> k = length ?p \<and> rows' = mark_all now (map ob_id ?p) rows"
    using drainOnce_cases [OF assms(2)] by blast
  from k(2) show ?thesis
  proof
    assume "rows' = rows"
    then show ?thesis using relay_ok_mono [OF assms(1)] k(1) by simp
  next
    assume "k = length ?p \<and> rows' = mark_all now (map ob_id ?p) rows"
    then show ?thesis
      using mark_all_relay_ok [OF assms(1), of ?p now] set_FetchUnpublished [of locked b rows] k(1) by auto
  qed
qed

text \<open>The outbox as a state machine: requests stage events, relays drain, in any order and with any
  faults.\<close>

inductive outbox_step :: "outbox_row list \<times> Message list \<Rightarrow> outbox_row list \<times> Message list \<Rightarrow> bool" where
  stage: "run_tx (Append es) fl rows = (r, rows') \<Longrightarrow> outbox_step (rows, klog) (rows', klog)"
| drain: "drainOnce fl locked b now (rows, klog) = (r, rows', klog') \<Longrightarrow> outbox_step (rows, klog) (rows', klog')"

lemma Append_unpublished:
  "run_tx (Append es) fl rows = (r, rows') \<Longrightarrow> \<exists>new. rows' = rows @ new \<and> (\<forall>x\<in>set new. \<not> ob_published x)"
proof (cases r)
  case (Inl e)
  assume "run_tx (Append es) fl rows = (r, rows')"
  then show ?thesis using run_tx_error Inl by fastforce
next
  case (Inr u)
  assume "run_tx (Append es) fl rows = (r, rows')"
  then obtain n n' where "Append es fl n rows = (Inr (), n', rows')"
    using Inr by (auto simp: run_tx_def split: option.splits prod.splits sum.splits)
  from Append_grows [OF this] obtain new where new: "rows' = rows @ new"
    "list_all2 (\<lambda>e r. outbox_row_of e (if ev_Key e = '''' then ev_AggregateID e else ev_Key e) = Some r) es new"
    by blast
  have "\<not> ob_published x" if x: "x \<in> set new" for x
  proof -
    obtain e k where "outbox_row_of e k = Some x"
      using new(2) x unfolding list_all2_conv_all_nth by (metis in_set_conv_nth)
    then show ?thesis by (auto simp: outbox_row_of_def split: option.splits)
  qed
  with new(1) show ?thesis by blast
qed

lemma outbox_step_ok: "outbox_step st st' \<Longrightarrow> relay_ok st \<Longrightarrow> relay_ok st'"
proof (induction rule: outbox_step.induct)
  case (stage es fl rows r rows' klog)
  obtain new where "rows' = rows @ new" "\<forall>x\<in>set new. \<not> ob_published x"
    using Append_unpublished [OF stage(1)] by blast
  moreover have "outbox_ok rows'"
    using run_tx_invariant [OF Append_ok _ stage(1)] stage(2) by (simp add: relay_ok_def)
  ultimately show ?case using stage(2) by (auto simp: relay_ok_def)
next
  case (drain fl locked b now rows klog r rows' klog')
  then show ?case using drainOnce_relay_ok by blast
qed

interpretation outbox_history: history outbox_step relay_ok "([], [])"
  by unfold_locales (erule outbox_step_ok, assumption, simp add: relay_ok_def outbox_ok_def)

lemmas outbox_run_ok = outbox_history.reachable_inv

section \<open>Progress\<close>

definition unpublished :: "outbox_row list \<Rightarrow> outbox_row list" where
  "unpublished rows = filter (\<lambda>r. \<not> ob_published r) rows"

lemma FetchUnpublished_all:
  "set (FetchUnpublished {} b rows) \<subseteq> set (unpublished rows)"
  "length (FetchUnpublished {} b rows) = min (nat b) (length (unpublished rows))"
  using set_FetchUnpublished [of "{}" b rows] by (auto simp: unpublished_def FetchUnpublished_def)

lemma distinct_FetchUnpublished: "outbox_ok rows \<Longrightarrow> distinct (FetchUnpublished locked b rows)"
  by (auto simp: FetchUnpublished_def outbox_ok_def distinct_map intro!: distinct_take)

lemma filter_marked:
  "\<forall>r\<in>set rows. ob_id r \<in> I \<longleftrightarrow> r \<in> P \<Longrightarrow>
   unpublished (map (\<lambda>r. if ob_id r \<in> I then r\<lparr>ob_published := True, ob_published_at := x\<rparr> else r) rows) =
   filter (\<lambda>r. r \<notin> P) (unpublished rows)"
  by (induction rows) (auto simp: unpublished_def)

lemma unpublished_mark_all:
  assumes "outbox_ok rows" "set ps \<subseteq> set (unpublished rows)" "distinct ps"
  shows "length (unpublished (mark_all t (map ob_id ps) rows)) = length (unpublished rows) - length ps"
proof -
  have mem: "ob_id r \<in> ob_id ` set ps \<longleftrightarrow> r \<in> set ps" if "r \<in> set rows" for r
    using that assms(2) outbox_ok_inj [OF assms(1) that] by (auto simp: unpublished_def)
  have "unpublished (mark_all t (map ob_id ps) rows) = filter (\<lambda>r. r \<notin> set ps) (unpublished rows)"
    unfolding mark_all_row using mem by (intro filter_marked) simp
  moreover have "distinct (unpublished rows)"
    using assms(1) by (auto simp: outbox_ok_def unpublished_def distinct_map)
  ultimately have "length (unpublished (mark_all t (map ob_id ps) rows)) = card (set (unpublished rows) - set ps)"
    by (metis distinct_card distinct_filter set_diff_eq set_filter)
  also have "\<dots> = length (unpublished rows) - length ps"
    using assms(2,3) \<open>distinct (unpublished rows)\<close> by (simp add: card_Diff_subset distinct_card)
  finally show ?thesis .
qed

lemma drainOnce_no_faults:
  "drainOnce no_faults {} b now (rows, klog) =
   (Inr (int (length (FetchUnpublished {} b rows))), mark_all now (map ob_id (FetchUnpublished {} b rows)) rows,
    klog @ map (PublishOne now) (FetchUnpublished {} b rows))"
  by (auto simp: drainOnce_def drain_loop_no_faults Let_def mark_all_def)

definition drain_state :: "int \<Rightarrow> time \<Rightarrow> outbox_row list \<times> Message list \<Rightarrow> outbox_row list \<times> Message list" where
  "drain_state b now st = snd (drainOnce no_faults {} b now st)"

lemma drain_state_step:
  assumes "outbox_ok (fst st)"
  shows "outbox_ok (fst (drain_state b now st))"
    and "length (unpublished (fst (drain_state b now st))) = length (unpublished (fst st)) - nat b"
  using assms unpublished_mark_all [OF assms FetchUnpublished_all(1) distinct_FetchUnpublished [OF assms], of now b]
    FetchUnpublished_all(2) [of b "fst st"]
  by (cases st; simp add: drain_state_def drainOnce_no_faults outbox_ok_mark_all; linarith)+

lemma drain_state_iter:
  assumes "outbox_ok (fst st)"
  shows "outbox_ok (fst ((drain_state b now ^^ k) st)) \<and>
    length (unpublished (fst ((drain_state b now ^^ k) st))) = length (unpublished (fst st)) - k * nat b"
  by (induction k) (use assms drain_state_step in auto)

section \<open>Properties\<close>

text \<open>C9: At-least-once delivery. Whatever fails and however staging requests and relays interleave: a
  row is marked published only if its message was handed to Kafka, and staged rows keep distinct
  identifiers. One drain only appends to Kafka, only messages of rows that were unpublished and not
  locked by another relay, and leaves the table unchanged if it reports an error, so that those rows
  are retried.\<close>

theorem relay_at_least_once:
  assumes "outbox_step\<^sup>*\<^sup>* ([], []) (rows, klog)"
    and "drainOnce fl locked b now (rows, klog) = (r, rows', klog')"
  shows "relay_ok (rows, klog) \<and> relay_ok (rows', klog') \<and>
    (\<exists>new. klog' = klog @ new \<and>
       set new \<subseteq> PublishOne now ` {x \<in> set rows. \<not> ob_published x \<and> ob_id x \<notin> locked}) \<and>
    (\<forall>e. r = Inl e \<longrightarrow> rows' = rows)"
proof -
  have ok: "relay_ok (rows, klog)" by (rule outbox_run_ok [OF assms(1)])
  obtain k where k: "klog' = klog @ map (PublishOne now) (take k (FetchUnpublished locked b rows))"
    "\<forall>e. r = Inl e \<longrightarrow> rows' = rows" using drainOnce_cases [OF assms(2)] by blast
  have "set (map (PublishOne now) (take k (FetchUnpublished locked b rows))) \<subseteq>
      PublishOne now ` {x \<in> set rows. \<not> ob_published x \<and> ob_id x \<notin> locked}"
    using set_FetchUnpublished [of locked b rows] set_take_subset [of k "FetchUnpublished locked b rows"] by auto
  then show ?thesis using ok drainOnce_relay_ok [OF ok assms(2)] k by blast
qed

text \<open>Progress. Without faults and competing relays, as many drains as the batch size requires leave
  no unpublished row.\<close>

theorem relay_drains_everything:
  assumes "outbox_ok rows" "length (unpublished rows) \<le> k * nat (relay_batch b)"
  shows "unpublished (fst ((drain_state (relay_batch b) now ^^ k) (rows, klog))) = []"
  using drain_state_iter [where st = "(rows, klog)" and b = "relay_batch b" and now = now and k = k] assms by simp

text \<open>One staged event and a relay whose mark fails: the message is in Kafka, the row is still pending,
  and the next drain publishes it again and marks it.\<close>

definition sample_event :: Event where
  "sample_event = \<lparr>ev_ID = ''01'', ev_AggregateID = ''r1'', ev_Topic = ''t'', ev_Key = [],
     ev_Payload = Some [], ev_Headers = [], ev_OccurredAt = 5000, ev_Version = ''v1''\<rparr>"

definition sample_rows :: "outbox_row list" where
  "sample_rows = snd (run_tx (Append [sample_event]) no_faults [])"

definition mark_fault :: faults where
  "mark_fault n = (if n = 3 then Some ''conn'' else None)"

theorem relay_at_least_once_witness:
  "fst (snd (drainOnce mark_fault {} 100 0 (sample_rows, []))) = sample_rows \<and>
   length (snd (snd (drainOnce mark_fault {} 100 0 (sample_rows, [])))) = 1 \<and>
   relay_ok (snd (drainOnce mark_fault {} 100 0 (sample_rows, [])))"
proof -
  let ?d = "drainOnce mark_fault {} 100 0 (sample_rows, [])"
  have "outbox_step ([], []) (sample_rows, [])"
    unfolding sample_rows_def by (rule outbox_step.stage [of "[sample_event]" no_faults "[]" "fst (run_tx (Append [sample_event]) no_faults [])"]) simp
  then have run: "outbox_step\<^sup>*\<^sup>* ([], []) (sample_rows, [])" by blast
  have "(case fst ?d of Inl e \<Rightarrow> True | Inr n \<Rightarrow> False) \<and> length (snd (snd ?d)) = 1" by code_simp
  then obtain e where "fst ?d = Inl e" "length (snd (snd ?d)) = 1" by (auto split: sum.splits)
  moreover have "?d = (fst ?d, fst (snd ?d), snd (snd ?d))" by simp
  note relay_at_least_once [OF run this]
  ultimately show ?thesis by simp
qed

theorem relay_drains_everything_witness:
  "unpublished (fst ((drain_state (relay_batch 0) 0 ^^ 1) (sample_rows, []))) = [] \<and> length (unpublished sample_rows) = 1"
proof -
  have "length (unpublished sample_rows) = 1 \<and> distinct (map ob_id sample_rows)" by code_simp
  then show ?thesis
    using relay_drains_everything [of sample_rows 1 0 0 "[]"] by (simp add: outbox_ok_def relay_batch_def)
qed

end
