(* ===== verification/Kafka_Consumer.thy ===== *)
theory Kafka_Consumer
  imports Outbox
begin

text \<open>
  Consuming events: \<open>libs/kafka/idempotency.go\<close> and \<open>Chain\<close> of \<open>libs/kafka/kafka.go\<close> (middleware), and
  \<open>Consumer.Run\<close> of \<open>infra/events/events.go\<close> (the loop; the playback service has a copy).

  A handler is a function of the message and the state it works on; it returns an error or nil. The
  key-value store behind the middleware is a parameter \<open>setNX\<close>, and what \<open>FetchMessage\<close> and
  \<open>CommitMessages\<close> of the Kafka client return are arguments of the loop.
\<close>

type_synonym 's handler = "Message \<Rightarrow> 's \<Rightarrow> go_error option \<times> 's"

section \<open>Middleware\<close>

definition header :: "Message \<Rightarrow> string \<Rightarrow> string" where
  "header msg k = (case map_of (msg_Headers msg) k of None \<Rightarrow> '''' | Some v \<Rightarrow> v)"

definition eventID :: "Message \<Rightarrow> string" where
  "eventID msg = (let i = header msg ''event-id'' in if i \<noteq> '''' then i else msg_Key msg)"

definition idempotencyKey :: "string \<Rightarrow> string \<Rightarrow> string" where
  "idempotencyKey topic i = ''idem:'' @ topic @ '':'' @ i"

definition IdempotencyMiddleware :: "(string \<Rightarrow> 'k \<Rightarrow> bool result \<times> 'k) \<Rightarrow> 's handler \<Rightarrow> ('k \<times> 's) handler" where
  "IdempotencyMiddleware setNX next msg st = (case st of (k, s) \<Rightarrow>
     let i = eventID msg; run = (\<lambda>k. case next msg s of (e, s') \<Rightarrow> (e, (k, s'))) in
     if i = '''' then run k
     else (case setNX (idempotencyKey (msg_Topic msg) i) k of
         (Inl err, k') \<Rightarrow> run k'
       | (Inr False, k') \<Rightarrow> (None, (k', s))
       | (Inr True, k') \<Rightarrow> run k'))"

definition Chain :: "('s handler \<Rightarrow> 's handler) list \<Rightarrow> 's handler \<Rightarrow> 's handler" where
  "Chain mw h = foldr (\<lambda>m h. m h) mw h"

section \<open>The consumer loop\<close>

text \<open>What one call of \<open>FetchMessage\<close> returned, with whether the commit after it succeeds. The loop
  returns the messages it committed, in order, and the handler's state; a cancelled fetch ends it.\<close>

datatype fetched = Fetched Message bool | FetchError go_error | FetchCanceled

fun consumer_run :: "'s handler \<Rightarrow> fetched list \<Rightarrow> 's \<Rightarrow> Message list \<times> 's" where
  "consumer_run h [] s = ([], s)"
| "consumer_run h (FetchCanceled # fs) s = ([], s)"
| "consumer_run h (FetchError e # fs) s = consumer_run h fs s"
| "consumer_run h (Fetched m commit_ok # fs) s =
     (case h m s of
        (Some e, s') \<Rightarrow> consumer_run h fs s'
      | (None, s') \<Rightarrow> (case consumer_run h fs s' of (cs, s'') \<Rightarrow> (if commit_ok then m # cs else cs, s'')))"

section \<open>Properties\<close>

lemma Chain_append: "Chain (a @ b) h = Chain a (Chain b h)"
  by (simp add: Chain_def)

text \<open>What the middleware relies on: \<open>setNX\<close> answers true exactly for a key that is absent, and sets it.\<close>

definition setNX_law :: "(string \<Rightarrow> 'k \<Rightarrow> bool result \<times> 'k) \<Rightarrow> ('k \<Rightarrow> string \<Rightarrow> bool) \<Rightarrow> bool" where
  "setNX_law setNX has \<longleftrightarrow> (\<forall>key k b k'. setNX key k = (Inr b, k') \<longrightarrow>
     b = (\<not> has k key) \<and> (\<forall>x. has k' x \<longleftrightarrow> has k x \<or> x = key))"

text \<open>Exactly one execution per event: while the store answers, a second delivery of an event that
  was handled (same topic and event id) reports success and does not run the handler again.\<close>

theorem middleware_dedupes:
  assumes "setNX_law setNX has"
    and "IdempotencyMiddleware setNX next msg (k, s) = (None, (k1, s1))"
    and "\<exists>b k2. setNX (idempotencyKey (msg_Topic msg) (eventID msg)) k = (Inr b, k2)"
    and "\<exists>b k2. setNX (idempotencyKey (msg_Topic msg') (eventID msg')) k1 = (Inr b, k2)"
    and "eventID msg \<noteq> ''''" "eventID msg' = eventID msg" "msg_Topic msg' = msg_Topic msg"
  shows "fst (IdempotencyMiddleware setNX next msg' (k1, s1)) = None \<and>
    snd (snd (IdempotencyMiddleware setNX next msg' (k1, s1))) = s1"
proof -
  let ?key = "idempotencyKey (msg_Topic msg) (eventID msg)"
  obtain b k2 where f: "setNX ?key k = (Inr b, k2)" using assms(3) by blast
  have "k1 = k2"
    using assms(2,5) f by (cases b) (auto simp: IdempotencyMiddleware_def Let_def split: prod.splits)
  then have "has k1 ?key" using assms(1) f by (auto simp: setNX_law_def)
  moreover obtain b' k3 where "setNX ?key k1 = (Inr b', k3)" using assms(4,6,7) by auto
  ultimately have "setNX ?key k1 = (Inr False, k3)" using assms(1) by (auto simp: setNX_law_def)
  then show ?thesis using assms(5-7) by (simp add: IdempotencyMiddleware_def Let_def)
qed

text \<open>The mark is set before the handler runs: when the handler fails on the first delivery, the
  redelivery of the same message is answered with success without running the handler, so the event
  is dropped.\<close>

theorem middleware_drops_failed_event:
  assumes "setNX_law setNX has" "\<not> has k (idempotencyKey (msg_Topic msg) (eventID msg))"
    and "IdempotencyMiddleware setNX next msg (k, s) = (Some err, (k1, s1))" "eventID msg \<noteq> ''''"
    and "\<exists>b k2. setNX (idempotencyKey (msg_Topic msg) (eventID msg)) k = (Inr b, k2)"
    and "\<exists>b k2. setNX (idempotencyKey (msg_Topic msg) (eventID msg)) k1 = (Inr b, k2)"
  shows "fst (IdempotencyMiddleware setNX next msg (k1, s1)) = None \<and>
    snd (snd (IdempotencyMiddleware setNX next msg (k1, s1))) = s1"
proof -
  let ?key = "idempotencyKey (msg_Topic msg) (eventID msg)"
  obtain b k2 where f: "setNX ?key k = (Inr b, k2)" using assms(5) by blast
  then have "b" using assms(1,2) by (auto simp: setNX_law_def)
  then have "k1 = k2"
    using assms(3,4) f by (auto simp: IdempotencyMiddleware_def Let_def split: prod.splits)
  then have "has k1 ?key" using assms(1) f by (auto simp: setNX_law_def)
  moreover obtain b' k3 where "setNX ?key k1 = (Inr b', k3)" using assms(6) by auto
  ultimately have "setNX ?key k1 = (Inr False, k3)" using assms(1) by (auto simp: setNX_law_def)
  then show ?thesis using assms(4) by (simp add: IdempotencyMiddleware_def Let_def)
qed

text \<open>The messages the loop hands to the handler are those fetched, once each and in order.\<close>

fun fetched_messages :: "fetched list \<Rightarrow> Message list" where
  "fetched_messages [] = []"
| "fetched_messages (FetchCanceled # fs) = []"
| "fetched_messages (FetchError e # fs) = fetched_messages fs"
| "fetched_messages (Fetched m c # fs) = m # fetched_messages fs"

lemma consumer_run_state:
  "snd (consumer_run h fs s) = fold (\<lambda>m s. snd (h m s)) (fetched_messages fs) s"
  by (induction h fs s rule: consumer_run.induct) (auto split: prod.splits option.splits)

text \<open>The consumer loop hands every fetched message to the handler exactly once, in order, and
  commits only messages the handler accepted. A message the handler rejected is not offered again
  within the session; the loop goes on to the next one and commits that.\<close>

theorem consumer_one_attempt:
  "snd (consumer_run h fs s) = fold (\<lambda>m s. snd (h m s)) (fetched_messages fs) s \<and>
   set (fst (consumer_run h fs s)) \<subseteq> {m \<in> set (fetched_messages fs). \<exists>s. fst (h m s) = None}"
proof (intro conjI consumer_run_state)
  show "set (fst (consumer_run h fs s)) \<subseteq> {m \<in> set (fetched_messages fs). \<exists>s. fst (h m s) = None}"
  proof (induction h fs s rule: consumer_run.induct)
    case (4 h m c fs s)
    obtain e s' where r: "h m s = (e, s')" by fastforce
    have "\<exists>s. fst (h m s) = None" if "e = None" using r that by (metis fst_conv)
    then show ?case
      using 4 [OF r [symmetric]] r by (cases e) (auto split: prod.splits if_splits)
  qed auto
qed

section \<open>Witnesses\<close>

definition mem_setNX :: "string \<Rightarrow> string list \<Rightarrow> bool result \<times> string list" where
  "mem_setNX key k = (if key \<in> set k then (Inr False, k) else (Inr True, key # k))"

lemma mem_setNX_law: "setNX_law mem_setNX (\<lambda>k x. x \<in> set k)"
  by (auto simp: setNX_law_def mem_setNX_def split: if_splits)

lemma mem_setNX_total: "\<exists>b k2. mem_setNX key k = (Inr b, k2)"
  unfolding mem_setNX_def by metis

definition sample_msg :: Message where
  "sample_msg = Publish 0 sample_event"

lemma sample_msg_id [simp]: "eventID sample_msg = ''01''" "msg_Topic sample_msg = ''t''"
  by (simp_all add: sample_msg_def Publish_def sample_event_def eventID_def header_def eventHeaders_def Let_def)

theorem middleware_dedupes_witness:
  "fst (IdempotencyMiddleware mem_setNX (\<lambda>m n. (None, n + 1)) sample_msg ([''idem:t:01''], 1 :: int)) = None \<and>
   snd (snd (IdempotencyMiddleware mem_setNX (\<lambda>m n. (None, n + 1)) sample_msg ([''idem:t:01''], 1 :: int))) = 1"
proof -
  have "IdempotencyMiddleware mem_setNX (\<lambda>m n. (None, n + 1)) sample_msg ([], 0 :: int) = (None, ([''idem:t:01''], 1))"
    by (simp add: IdempotencyMiddleware_def mem_setNX_def idempotencyKey_def Let_def)
  from middleware_dedupes [OF mem_setNX_law this mem_setNX_total mem_setNX_total] show ?thesis by simp
qed

theorem middleware_drops_failed_event_witness:
  "fst (IdempotencyMiddleware mem_setNX (\<lambda>m n. (Some (ExtErr ''db''), n)) sample_msg ([''idem:t:01''], 0 :: int)) = None"
proof -
  have "IdempotencyMiddleware mem_setNX (\<lambda>m n. (Some (ExtErr ''db''), n)) sample_msg ([], 0 :: int) =
      (Some (ExtErr ''db''), ([''idem:t:01''], 0))"
    by (simp add: IdempotencyMiddleware_def mem_setNX_def idempotencyKey_def Let_def)
  from middleware_drops_failed_event [OF mem_setNX_law _ this _ mem_setNX_total mem_setNX_total] show ?thesis by simp
qed

end
