(* ===== verification/Go_Base64.thy ===== *)
theory Go_Base64
  imports Prelude
begin

text \<open>
  The package \<open>encoding/base64\<close> without padding, as the services use it: \<open>RawURLEncoding\<close> for invite codes,
  selectors, validators, OAuth states and key ids, \<open>RawStdEncoding\<close> for password hashes. Three bytes are four
  sextets. Decoding skips line breaks, refuses characters outside the alphabet and a single left-over
  character, and ignores the unused bits of the last character. Shown here: decoding inverts encoding, hence
  encoding is injective; an encoded text uses the alphabet only.
\<close>

definition url_alphabet :: string where
  "url_alphabet = ''ABCDEFGHIJKLMNOPQRSTUVWXYZabcdefghijklmnopqrstuvwxyz0123456789-_''"

definition std_alphabet :: string where
  "std_alphabet = ''ABCDEFGHIJKLMNOPQRSTUVWXYZabcdefghijklmnopqrstuvwxyz0123456789+/''"

fun b64_sextets :: "nat list \<Rightarrow> nat list" where
  "b64_sextets (a # b # c # bs) =
     [a div 4, (a mod 4) * 16 + b div 16, (b mod 16) * 4 + c div 64, c mod 64] @ b64_sextets bs"
| "b64_sextets [a, b] = [a div 4, (a mod 4) * 16 + b div 16, (b mod 16) * 4]"
| "b64_sextets [a] = [a div 4, (a mod 4) * 16]"
| "b64_sextets [] = []"

definition b64_encode :: "string \<Rightarrow> 8 word list \<Rightarrow> string" where
  "b64_encode alphabet bs = map (\<lambda>i. alphabet ! i) (b64_sextets (map unat bs))"

fun b64_bytes :: "nat list \<Rightarrow> nat list option" where
  "b64_bytes (x # y # z # w # xs) =
     map_option (\<lambda>bs. [x * 4 + y div 16, (y mod 16) * 16 + z div 4, (z mod 4) * 64 + w] @ bs) (b64_bytes xs)"
| "b64_bytes [x, y, z] = Some [x * 4 + y div 16, (y mod 16) * 16 + z div 4]"
| "b64_bytes [x, y] = Some [x * 4 + y div 16]"
| "b64_bytes [x] = None"
| "b64_bytes [] = Some []"

fun b64_index :: "string \<Rightarrow> char \<Rightarrow> nat option" where
  "b64_index [] c = None"
| "b64_index (a # as) c = (if a = c then Some 0 else map_option Suc (b64_index as c))"

fun b64_indices :: "string \<Rightarrow> string \<Rightarrow> nat list option" where
  "b64_indices alphabet [] = Some []"
| "b64_indices alphabet (c # cs) =
     (case b64_index alphabet c of None \<Rightarrow> None | Some i \<Rightarrow> map_option (Cons i) (b64_indices alphabet cs))"

definition line_break :: "char \<Rightarrow> bool" where "line_break c \<longleftrightarrow> c = CHR 0x0A \<or> c = CHR 0x0D"

definition b64_decode :: "string \<Rightarrow> string \<Rightarrow> 8 word list option" where
  "b64_decode alphabet s =
     (case b64_indices alphabet (filter (\<lambda>c. \<not> line_break c) s) of
        None \<Rightarrow> None | Some is \<Rightarrow> map_option (map word_of_nat) (b64_bytes is))"

definition RawURLEncoding :: "8 word list \<Rightarrow> string" where
  "RawURLEncoding bs = b64_encode url_alphabet bs"

definition RawStdEncoding :: "8 word list \<Rightarrow> string" where
  "RawStdEncoding bs = b64_encode std_alphabet bs"

definition RawStdDecoding :: "string \<Rightarrow> 8 word list option" where
  "RawStdDecoding s = b64_decode std_alphabet s"

section \<open>Round trip\<close>

definition alphabet_ok :: "string \<Rightarrow> bool" where
  "alphabet_ok alphabet \<longleftrightarrow> distinct alphabet \<and> length alphabet = 64 \<and> list_all (\<lambda>c. \<not> line_break c) alphabet"

lemma alphabets_ok: "alphabet_ok url_alphabet" "alphabet_ok std_alphabet"
  by code_simp code_simp

lemma length_b64_sextets: "length (b64_sextets bs) = (4 * length bs + 2) div 3"
  by (induction bs rule: b64_sextets.induct) auto

lemma b64_sextets_range: "\<forall>b\<in>set bs. b < 256 \<Longrightarrow> \<forall>i\<in>set (b64_sextets bs). i < 64"
  by (induction bs rule: b64_sextets.induct) auto

lemma join_bytes:
  "b < 256 \<Longrightarrow> (a :: nat) div 4 * 4 + (a mod 4 * 16 + b div 16) div 16 = a"
  "c < 256 \<Longrightarrow> (a mod 4 * 16 + b div 16) mod 16 = b div 16 mod (16 :: nat)"
  "c < 256 \<Longrightarrow> b < 256 \<Longrightarrow> (b :: nat) div 16 mod 16 * 16 + (b mod 16 * 4 + c div 64) div 4 = b"
  "c < (256 :: nat) \<Longrightarrow> (b mod 16 * 4 + c div 64) mod 4 * 64 + c mod 64 = c"
proof -
  assume "b < 256"
  then have "b div 16 < 16" by simp
  then have "(a mod 4 * 16 + b div 16) div 16 = a mod 4" by simp
  then show "a div 4 * 4 + (a mod 4 * 16 + b div 16) div 16 = a" by simp
next
  show "(a mod 4 * 16 + b div 16) mod 16 = b div 16 mod (16 :: nat)" by simp
next
  assume "c < 256" "b < 256"
  then have "c div 64 < 4" "b div 16 < 16" by simp_all
  then have "(b mod 16 * 4 + c div 64) div 4 = b mod 16" "b div 16 mod 16 = b div 16" by simp_all
  then show "b div 16 mod 16 * 16 + (b mod 16 * 4 + c div 64) div 4 = b" by simp
next
  assume "c < 256"
  then have "c div 64 < 4" by simp
  then have "(b mod 16 * 4 + c div 64) mod 4 = c div 64" by simp
  then show "(b mod 16 * 4 + c div 64) mod 4 * 64 + c mod 64 = c" by simp
qed

lemma b64_bytes_sextets: "\<forall>b\<in>set bs. b < 256 \<Longrightarrow> b64_bytes (b64_sextets bs) = Some bs"
proof (induction bs rule: b64_sextets.induct)
  case (1 a b c bs)
  then show ?case using join_bytes [of b a] join_bytes [of c] by simp
next
  case (2 a b)
  then show ?case using join_bytes(1) [of b a] join_bytes(3) [of 0 b] by simp
next
  case (3 a)
  then show ?case using join_bytes(1) [of 0 a] by simp
qed simp

lemma b64_index_nth: "distinct as \<Longrightarrow> i < length as \<Longrightarrow> b64_index as (as ! i) = Some i"
  by (induction as arbitrary: i) (auto simp: nth_Cons split: nat.splits)

lemma b64_indices_map:
  "distinct alphabet \<Longrightarrow> \<forall>i\<in>set is. i < length alphabet \<Longrightarrow> b64_indices alphabet (map (\<lambda>i. alphabet ! i) is) = Some is"
  by (induction "is") (auto simp: b64_index_nth)

lemma unat_bytes: "\<forall>b\<in>set (map unat (bs :: 8 word list)). b < 256"
  using unsigned_less [where 'b = 8 and 'a = nat] by auto

lemma set_b64_encode: "alphabet_ok alphabet \<Longrightarrow> set (b64_encode alphabet bs) \<subseteq> set alphabet"
  using b64_sextets_range [OF unat_bytes [of bs]] by (auto simp: b64_encode_def alphabet_ok_def)

lemma length_b64_encode [simp]: "length (b64_encode alphabet bs) = (4 * length bs + 2) div 3"
  by (simp add: b64_encode_def length_b64_sextets)

lemma b64_decode_encode: "alphabet_ok alphabet \<Longrightarrow> b64_decode alphabet (b64_encode alphabet bs) = Some bs"
proof -
  assume ok: "alphabet_ok alphabet"
  have "filter (\<lambda>c. \<not> line_break c) (b64_encode alphabet bs) = b64_encode alphabet bs"
    using set_b64_encode [OF ok, of bs] ok by (auto simp: filter_id_conv alphabet_ok_def list_all_iff)
  moreover have "b64_indices alphabet (b64_encode alphabet bs) = Some (b64_sextets (map unat bs))"
    unfolding b64_encode_def using ok b64_sextets_range [OF unat_bytes [of bs]]
    by (intro b64_indices_map) (auto simp: alphabet_ok_def)
  ultimately show ?thesis
    using b64_bytes_sextets [OF unat_bytes [of bs]] by (simp add: b64_decode_def o_def map_idI)
qed

lemma RawStd_roundtrip [simp]: "RawStdDecoding (RawStdEncoding bs) = Some bs"
  by (simp add: RawStdDecoding_def RawStdEncoding_def b64_decode_encode alphabets_ok)

lemma RawURLEncoding_inj: "RawURLEncoding bs = RawURLEncoding bs' \<longleftrightarrow> bs = bs'"
  unfolding RawURLEncoding_def using b64_decode_encode [OF alphabets_ok(1)] by (metis option.inject)

lemma length_RawURLEncoding [simp]: "length (RawURLEncoding bs) = (4 * length bs + 2) div 3"
  by (simp add: RawURLEncoding_def)

lemma set_RawURLEncoding: "set (RawURLEncoding bs) \<subseteq> set url_alphabet"
  by (simp add: RawURLEncoding_def set_b64_encode alphabets_ok)

text \<open>Separators are outside the alphabets.\<close>

lemma no_separator: "CHR ''.'' \<notin> set (RawURLEncoding bs)" "CHR ''$'' \<notin> set (RawStdEncoding bs)"
proof -
  have "CHR ''.'' \<notin> set url_alphabet" "CHR ''$'' \<notin> set std_alphabet" by (code_simp, code_simp)
  then show "CHR ''.'' \<notin> set (RawURLEncoding bs)" "CHR ''$'' \<notin> set (RawStdEncoding bs)"
    using set_RawURLEncoding set_b64_encode [OF alphabets_ok(2)] by (auto simp: RawStdEncoding_def)
qed

end
