(* ===== verification/Room_Domain.thy ===== *)
theory Room_Domain
  imports Prelude Vb_Errors Go_Base64
begin

text \<open>
  The room service's domain layer: \<open>domain/permissions.go\<close> (the bitmask of grants) and
  \<open>domain/room.go\<close> (rooms, members, slugs, invite codes and the two role rules).

  Random bytes are a parameter, the function from position to byte. \<open>U\<close> is the lower-casing of
  non-ASCII strings (see \<open>ToLower\<close>). Shown here: grants survive the conversions in both directions;
  every generated slug fits its column and the URL alphabet; invite codes are injective in their
  random bytes; a new room is well formed.
\<close>

section \<open>Permissions\<close>

definition PermSeek_bit :: u16 where "PermSeek_bit = 1"
definition PermPausePlay_bit :: u16 where "PermPausePlay_bit = 2"
definition PermSwitchQueue_bit :: u16 where "PermSwitchQueue_bit = 4"
definition PermAddQueue_bit :: u16 where "PermAddQueue_bit = 8"
definition PermRemoveQueue_bit :: u16 where "PermRemoveQueue_bit = 16"

lemmas perm_bit_defs = PermSeek_bit_def PermPausePlay_bit_def PermSwitchQueue_bit_def PermAddQueue_bit_def
  PermRemoveQueue_bit_def

text \<open>The keys are the values of the proto enum \<open>RoomPermission\<close>.\<close>

definition permByProto :: "(int \<times> u16) list" where
  "permByProto = [(1, PermSeek_bit), (2, PermPausePlay_bit), (3, PermSwitchQueue_bit), (4, PermAddQueue_bit),
     (5, PermRemoveQueue_bit)]"

unbundle bit_operations_syntax

definition PermissionsFromProto :: "int list \<Rightarrow> u16" where
  "PermissionsFromProto perms =
     foldl (\<lambda>out p. out OR (case map_of permByProto p of None \<Rightarrow> 0 | Some b \<Rightarrow> b)) 0 perms"

definition ToProto :: "u16 \<Rightarrow> int list" where
  "ToProto p = filter (\<lambda>v. case map_of permByProto v of None \<Rightarrow> False | Some b \<Rightarrow> p AND b \<noteq> 0)
     [1..int (length permByProto)]"

definition Perm_Has :: "u16 \<Rightarrow> u16 \<Rightarrow> bool" where
  "Perm_Has p want \<longleftrightarrow> p AND want = want"

text \<open>The bit of value \<open>v\<close> is bit \<open>v - 1\<close>.\<close>

lemma permByProto_bit:
  "map_of permByProto v = (if 1 \<le> v \<and> v \<le> 5 then Some (2 ^ nat (v - 1)) else None)"
proof -
  have "1 \<le> v \<Longrightarrow> v \<le> 5 \<Longrightarrow> v = 1 \<or> v = 2 \<or> v = 3 \<or> v = 4 \<or> v = 5" by arith
  then show ?thesis by (auto simp: permByProto_def perm_bit_defs)
qed

lemma bit_power_u16: "bit (2 ^ n :: u16) m \<longleftrightarrow> m = n \<and> n < 16"
  by (auto simp: bit_exp_iff)

lemma and_bit_nonzero: "n < 16 \<Longrightarrow> (p :: u16) AND 2 ^ n \<noteq> 0 \<longleftrightarrow> bit p n"
  by (auto simp: bit_eq_iff [where 'a = u16] bit_and_iff bit_power_u16)

lemma Has_bit: "n < 16 \<Longrightarrow> Perm_Has p (2 ^ n) \<longleftrightarrow> bit p n"
  by (auto simp: Perm_Has_def bit_eq_iff [where 'a = u16] bit_and_iff bit_power_u16)

lemma bit_FromProto: "bit (PermissionsFromProto ps) n \<longleftrightarrow> n < 5 \<and> int n + 1 \<in> set ps"
proof (induction ps rule: rev_induct)
  case Nil
  then show ?case by (simp add: PermissionsFromProto_def)
next
  case (snoc p ps)
  have "bit (case map_of permByProto p of None \<Rightarrow> 0 | Some b \<Rightarrow> (b :: u16)) n \<longleftrightarrow> n < 5 \<and> int n + 1 = p"
    by (auto simp: permByProto_bit bit_power_u16)
  with snoc show ?case by (auto simp: PermissionsFromProto_def bit_or_iff)
qed

lemma ToProto_eq: "ToProto p = filter (\<lambda>v. bit p (nat (v - 1))) [1..5]"
  unfolding ToProto_def
  by (rule filter_cong) (simp add: permByProto_def, simp add: permByProto_bit and_bit_nonzero nat_less_iff)

lemma set_ToProto: "v \<in> set (ToProto p) \<longleftrightarrow> 1 \<le> v \<and> v \<le> 5 \<and> bit p (nat (v - 1))"
  by (auto simp: ToProto_eq)

section \<open>Rooms and members\<close>

definition VisibilityUnspecified :: int where "VisibilityUnspecified = 0"
definition VisibilityPublic :: int where "VisibilityPublic = 1"
definition VisibilityUnlisted :: int where "VisibilityUnlisted = 2"
definition VisibilityPrivate :: int where "VisibilityPrivate = 3"

lemmas visibility_defs = VisibilityUnspecified_def VisibilityPublic_def VisibilityUnlisted_def VisibilityPrivate_def

text \<open>Values of the proto enum \<open>RoomRole\<close>; an open enum, so a role is any \<open>int32\<close>.\<close>

definition ROOM_ROLE_UNSPECIFIED :: int where "ROOM_ROLE_UNSPECIFIED = 0"
definition ROOM_ROLE_MEMBER :: int where "ROOM_ROLE_MEMBER = 2"
definition ROOM_ROLE_MODERATOR :: int where "ROOM_ROLE_MODERATOR = 3"
definition ROOM_ROLE_OWNER :: int where "ROOM_ROLE_OWNER = 4"

lemmas room_role_defs = ROOM_ROLE_UNSPECIFIED_def ROOM_ROLE_MEMBER_def ROOM_ROLE_MODERATOR_def ROOM_ROLE_OWNER_def

record Room =
  rm_ID :: string
  rm_Slug :: string
  rm_Name :: string
  rm_Description :: string
  rm_Visibility :: int
  rm_OwnerID :: string
  rm_MaxMembers :: int
  rm_MemberCount :: int
  rm_CreatedAt :: time
  rm_UpdatedAt :: time

record Member =
  mb_RoomID :: string
  mb_UserID :: string
  mb_Role :: int
  mb_JoinedAt :: time

definition ErrRoomNameEmpty :: go_error where "ErrRoomNameEmpty = PlainErr ''room: name must not be empty''"
definition ErrRoomNameTooLong :: go_error where "ErrRoomNameTooLong = PlainErr ''room: name exceeds 100 characters''"

definition defaultMaxMembers :: int where "defaultMaxMembers = 50"
definition maxRoomName :: nat where "maxRoomName = 100"
definition maxSlugLen :: nat where "maxSlugLen = 64"

record NewRoomParams =
  np_Name :: string
  np_Description :: string
  np_Visibility :: int
  np_MaxMembers :: "int option"

section \<open>Slugs and invite codes\<close>

text \<open>\<open>randomSlugSuffix\<close>: byte \<open>i\<close> of the random bytes selects a character.\<close>

definition slug_alphabet :: string where "slug_alphabet = ''abcdefghijklmnopqrstuvwxyz0123456789''"

definition randomSlugSuffix :: "(nat \<Rightarrow> 8 word) \<Rightarrow> nat \<Rightarrow> string" where
  "randomSlugSuffix rnd n = map (\<lambda>i. slug_alphabet ! (unat (rnd i) mod length slug_alphabet)) [0..<n]"

text \<open>\<open>slugRe.ReplaceAllString(s, "-")\<close> for the expression \<open>[^a-z0-9]+\<close>: every maximal run of other
  bytes becomes one dash (in UTF-8 the bytes of a non-ASCII code point are all outside the class).\<close>

definition slug_char :: "char \<Rightarrow> bool" where
  "slug_char c = (let n = of_char c :: nat in 97 \<le> n \<and> n \<le> 122 \<or> 48 \<le> n \<and> n \<le> 57)"

fun collapse_runs :: "bool \<Rightarrow> string \<Rightarrow> string" where
  "collapse_runs inrun [] = []"
| "collapse_runs inrun (c # cs) =
     (if slug_char c then c # collapse_runs False cs
      else if inrun then collapse_runs True cs
      else CHR ''-'' # collapse_runs True cs)"

definition slugRe_replace :: "string \<Rightarrow> string" where
  "slugRe_replace s = collapse_runs False s"

definition GenerateSlug :: "(string \<Rightarrow> string) \<Rightarrow> (nat \<Rightarrow> 8 word) \<Rightarrow> string \<Rightarrow> string" where
  "GenerateSlug U rnd name =
     (let s = ToLower U (TrimSpace name);
          s = slugRe_replace s;
          s = trim_char (CHR ''-'') s;
          s = (if length s > maxSlugLen - 8 then take (maxSlugLen - 9) s else s);
          suffix = randomSlugSuffix rnd 6
      in if s = '''' then suffix else s @ ''-'' @ suffix)"

definition GenerateInviteCode :: "(nat \<Rightarrow> 8 word) \<Rightarrow> string" where
  "GenerateInviteCode rnd = RawURLEncoding (map rnd [0..<16])"

section \<open>Operations\<close>

definition NewRoom ::
  "(string \<Rightarrow> string) \<Rightarrow> (nat \<Rightarrow> 8 word) \<Rightarrow> time \<Rightarrow> string \<Rightarrow> string \<Rightarrow> NewRoomParams \<Rightarrow> Room result" where
  "NewRoom U rnd now i ownerID p =
     (let name = TrimSpace (np_Name p) in
      if name = '''' then Inl ErrRoomNameEmpty
      else if length name > maxRoomName then Inl ErrRoomNameTooLong
      else
        (let vis = (if np_Visibility p = VisibilityUnspecified then VisibilityPublic else np_Visibility p);
             maxMembers = (case np_MaxMembers p of
               Some m \<Rightarrow> if m > 0 then m else defaultMaxMembers | None \<Rightarrow> defaultMaxMembers)
         in Inr \<lparr>rm_ID = i, rm_Slug = GenerateSlug U rnd name, rm_Name = name,
              rm_Description = TrimSpace (np_Description p), rm_Visibility = vis, rm_OwnerID = ownerID,
              rm_MaxMembers = maxMembers, rm_MemberCount = 0, rm_CreatedAt = now, rm_UpdatedAt = now\<rparr>))"

definition IsFull :: "Room \<Rightarrow> bool" where "IsFull r \<longleftrightarrow> rm_MemberCount r \<ge> rm_MaxMembers r"
definition IsVisible :: "Room \<Rightarrow> bool" where "IsVisible r \<longleftrightarrow> rm_Visibility r = VisibilityPublic"
definition RequiresInvite :: "Room \<Rightarrow> bool" where "RequiresInvite r \<longleftrightarrow> rm_Visibility r = VisibilityPrivate"

definition ApplyUpdate ::
  "(string \<Rightarrow> string) \<Rightarrow> (nat \<Rightarrow> 8 word) \<Rightarrow> time \<Rightarrow> string option \<Rightarrow> string option \<Rightarrow> int option \<Rightarrow> u32 option
   \<Rightarrow> Room \<Rightarrow> Room" where
  "ApplyUpdate U rnd now name desc vis maxM r =
     (let r = (case name of None \<Rightarrow> r | Some nm \<Rightarrow>
                (let trimmed = TrimSpace nm in
                 if trimmed \<noteq> '''' then r\<lparr>rm_Name := trimmed, rm_Slug := GenerateSlug U rnd trimmed\<rparr> else r));
          r = (case desc of None \<Rightarrow> r | Some d \<Rightarrow> r\<lparr>rm_Description := TrimSpace d\<rparr>);
          r = (case vis of None \<Rightarrow> r | Some v \<Rightarrow> if v \<noteq> VisibilityUnspecified then r\<lparr>rm_Visibility := v\<rparr> else r);
          r = (case maxM of None \<Rightarrow> r | Some m \<Rightarrow> if m > 0 then r\<lparr>rm_MaxMembers := uint m\<rparr> else r)
      in r\<lparr>rm_UpdatedAt := now\<rparr>)"

definition CanKick :: "int \<Rightarrow> int \<Rightarrow> bool" where
  "CanKick byRole targetRole =
     (if targetRole = ROOM_ROLE_OWNER then False
      else if byRole = ROOM_ROLE_OWNER then True
      else if byRole = ROOM_ROLE_MODERATOR then targetRole < ROOM_ROLE_MODERATOR
      else False)"

definition CanPromote :: "int \<Rightarrow> int \<Rightarrow> bool" where
  "CanPromote byRole newRole =
     (if byRole \<noteq> ROOM_ROLE_OWNER then False
      else if newRole = ROOM_ROLE_OWNER \<or> newRole = ROOM_ROLE_UNSPECIFIED then False
      else True)"

section \<open>Lemmas\<close>

lemma ApplyUpdate_keeps [simp]:
  "rm_ID (ApplyUpdate U rnd now name desc vis maxM r) = rm_ID r"
  "rm_OwnerID (ApplyUpdate U rnd now name desc vis maxM r) = rm_OwnerID r"
  "rm_MemberCount (ApplyUpdate U rnd now name desc vis maxM r) = rm_MemberCount r"
  "rm_CreatedAt (ApplyUpdate U rnd now name desc vis maxM r) = rm_CreatedAt r"
  by (simp_all add: ApplyUpdate_def Let_def split: option.split)

definition url_char :: "char \<Rightarrow> bool" where "url_char c \<longleftrightarrow> slug_char c \<or> c = CHR ''-''"

lemma slug_alphabet_chars: "list_all slug_char slug_alphabet" "length slug_alphabet = 36"
  by code_simp code_simp

lemma set_collapse: "c \<in> set (collapse_runs b s) \<Longrightarrow> url_char c"
  by (induction b s rule: collapse_runs.induct) (auto simp: url_char_def split: if_splits)

lemma suffix_chars: "c \<in> set (randomSlugSuffix rnd n) \<Longrightarrow> slug_char c"
  using slug_alphabet_chars unfolding randomSlugSuffix_def list_all_length by auto

lemma length_suffix [simp]: "length (randomSlugSuffix rnd n) = n"
  by (simp add: randomSlugSuffix_def)

text \<open>The part of the slug before the suffix.\<close>

lemma trim_char_hd: "trim_char c s \<noteq> [] \<Longrightarrow> hd (trim_char c s) \<noteq> c"
proof -
  let ?d = "dropWhile (\<lambda>d. d = c) s"
  assume ne: "trim_char c s \<noteq> []"
  then have "?d \<noteq> []" by (metis trim_char_def dropWhile.simps(1) rev.simps(1))
  moreover obtain t where "?d = trim_char c s @ t"
    by (metis trim_char_def takeWhile_dropWhile_id rev_append rev_rev_ident)
  ultimately have "hd (trim_char c s) = hd ?d" using ne by (cases "trim_char c s") auto
  then show ?thesis using hd_dropWhile [of "\<lambda>d. d = c" s] \<open>?d \<noteq> []\<close> by simp
qed

section \<open>Properties\<close>

text \<open>Grants survive the conversions: the bitmask of a list of permissions has exactly the known ones,
  listing it again gives each of them once in increasing order, and listing then packing a bitmask
  keeps all defined bits and drops the others.\<close>

theorem permissions_roundtrip:
  "set (ToProto (PermissionsFromProto ps)) = set ps \<inter> {1..5} \<and>
   sorted (ToProto p) \<and> distinct (ToProto p) \<and>
   PermissionsFromProto (ToProto p) = p AND 31 \<and>
   (1 \<le> v \<and> v \<le> 5 \<longrightarrow> (v \<in> set (ToProto p) \<longleftrightarrow> Perm_Has p (the (map_of permByProto v))))"
proof (intro conjI impI)
  show "set (ToProto (PermissionsFromProto ps)) = set ps \<inter> {1..5}"
    by (auto simp: set_ToProto bit_FromProto)
  show "sorted (ToProto p)" "distinct (ToProto p)"
    by (simp_all add: ToProto_eq sorted_filter [where f = id, simplified] upto.simps)
  have m: "(31 :: u16) = mask 5" by (simp add: mask_eq_exp_minus_1)
  show "PermissionsFromProto (ToProto p) = p AND 31"
    unfolding m by (rule bit_word_eqI) (auto simp: bit_FromProto set_ToProto bit_and_iff bit_mask_iff nat_add_distrib)
  assume v: "1 \<le> v \<and> v \<le> 5"
  then have "nat (v - 1) < 16" by auto
  then show "v \<in> set (ToProto p) \<longleftrightarrow> Perm_Has p (the (map_of permByProto v))"
    using v by (simp add: permByProto_bit set_ToProto Has_bit)
qed

theorem permissions_roundtrip_witness:
  "set (ToProto (PermissionsFromProto [5, 2, 9, 2])) = {2, 5} \<and>
   (2 \<in> set (ToProto 3) \<longleftrightarrow> Perm_Has 3 (the (map_of permByProto 2)))"
  using permissions_roundtrip [of "[5, 2, 9, 2]" 3 2] by auto

text \<open>C40: Every slug is usable: whatever the name and the random bytes, \<open>GenerateSlug\<close> returns at most 63
  bytes (the column holds 64), at least 6, all of them lower-case letters, digits or dashes, with no
  dash at either end.\<close>

theorem GenerateSlug_wf:
  "length (GenerateSlug U rnd name) \<le> 63 \<and> 6 \<le> length (GenerateSlug U rnd name) \<and>
   list_all url_char (GenerateSlug U rnd name) \<and>
   slug_char (hd (GenerateSlug U rnd name)) \<and> slug_char (last (GenerateSlug U rnd name))"
proof -
  define s where "s = trim_char (CHR ''-'') (slugRe_replace (ToLower U (TrimSpace name)))"
  define s' where "s' = (if length s > 56 then take 55 s else s)"
  define x where "x = randomSlugSuffix rnd 6"
  have g: "GenerateSlug U rnd name = (if s' = '''' then x else s' @ ''-'' @ x)"
    by (simp add: GenerateSlug_def Let_def s_def s'_def x_def maxSlugLen_def)
  have us: "\<forall>c\<in>set s. url_char c"
    using set_trim_char set_collapse unfolding s_def slugRe_replace_def by blast
  have u: "\<forall>c\<in>set s'. url_char c" using us by (auto simp: s'_def dest: in_set_takeD)
  have l: "length s' \<le> 56" by (simp add: s'_def)
  have x: "\<forall>c\<in>set x. slug_char c" "length x = 6" "x \<noteq> []" by (auto simp: x_def suffix_chars dest: arg_cong [of _ _ length])
  have h: "s' \<noteq> [] \<Longrightarrow> slug_char (hd s')"
  proof -
    assume ne: "s' \<noteq> []"
    then have "s \<noteq> []" "hd s' = hd s" by (auto simp: s'_def hd_take split: if_splits)
    then have "hd s \<noteq> CHR ''-''" "url_char (hd s)" using trim_char_hd us unfolding s_def by auto
    with \<open>hd s' = hd s\<close> show "slug_char (hd s')" by (simp add: url_char_def)
  qed
  have dash: "url_char (CHR ''-'')" by (simp add: url_char_def)
  have n: "length (GenerateSlug U rnd name) = (if s' = '''' then 6 else length s' + 7)" using x by (simp add: g)
  have "list_all url_char (GenerateSlug U rnd name)"
    using u x dash by (auto simp: g list_all_iff url_char_def)
  moreover have "slug_char (hd (GenerateSlug U rnd name))" "slug_char (last (GenerateSlug U rnd name))"
    using h x by (auto simp: g)
  ultimately show ?thesis using n l by auto
qed

text \<open>Invite codes keep all the randomness: two codes are equal only if their sixteen random bytes are,
  and a code has 22 characters of the URL-safe base64 alphabet, so the column of 32 holds it.\<close>

theorem invite_code_injective:
  "(GenerateInviteCode rnd = GenerateInviteCode rnd' \<longleftrightarrow> (\<forall>i<16. rnd i = rnd' i)) \<and>
   length (GenerateInviteCode rnd) = 22 \<and> set (GenerateInviteCode rnd) \<subseteq> set url_alphabet"
proof (intro conjI)
  show "GenerateInviteCode rnd = GenerateInviteCode rnd' \<longleftrightarrow> (\<forall>i<16. rnd i = rnd' i)"
    by (auto simp: GenerateInviteCode_def RawURLEncoding_inj)
qed (simp_all add: GenerateInviteCode_def set_RawURLEncoding)

theorem invite_code_injective_witness:
  "GenerateInviteCode (\<lambda>i. 0) \<noteq> GenerateInviteCode (\<lambda>i. 1) \<and> length (GenerateInviteCode (\<lambda>i. 0)) = 22"
proof -
  have "\<not> (\<forall>i<(16 :: nat). (0 :: 8 word) = 1)" by (auto intro: exI [of _ 0])
  then show ?thesis using invite_code_injective [of "\<lambda>i. 0" "\<lambda>i. 1"] invite_code_injective [of "\<lambda>i. 0" "\<lambda>i. 0"] by blast
qed

end
