(* ===== verification/Room_Repo.thy ===== *)
theory Room_Repo
  imports Room_Domain Outbox "HOL-Library.List_Lexorder" "HOL-Library.Char_ord"
begin

text \<open>
  The room service's tables (\<open>migrations/*.up.sql\<close>) and the repositories over them:
  \<open>infra/postgres/{room_repo,member_repo,invite_repo,permission_repo,scan}.go\<close>.

  A table is the association list from primary keys to rows, in scan order. Constraints that the
  migrations declare are part of the statements: primary keys, the unique slug, foreign keys to
  \<open>rooms\<close> and their \<open>ON DELETE CASCADE\<close>, column lengths and integer ranges. Each statement first asks the
  fault argument of \<open>Vb_Tx\<close>.
\<close>

section \<open>Tables\<close>

text \<open>A row of \<open>rooms\<close> has the columns of the struct, of \<open>room_members\<close> those of \<open>Member\<close>; an invite maps
  its code to the room and the expiry; a permission row holds the bitmask and the time of the grant.\<close>

record room_db =
  db_rooms :: "(string \<times> Room) list"
  db_members :: "((string \<times> string) \<times> Member) list"
  db_invites :: "(string \<times> string \<times> time option) list"
  db_perms :: "((string \<times> string) \<times> int \<times> time) list"
  db_outbox :: "outbox_row list"

definition empty_room_db :: room_db where
  "empty_room_db = \<lparr>db_rooms = [], db_members = [], db_invites = [], db_perms = [], db_outbox = []\<rparr>"

section \<open>Rooms\<close>

text \<open>The row that an insert or update writes, \<open>None\<close> if a column rejects its value.\<close>

definition room_row_of :: "Room \<Rightarrow> Room option" where
  "room_row_of r =
     (case (char_col 26 (rm_ID r), varchar_col 64 (rm_Slug r), text_varchar_col 100 (rm_Name r),
            text_col (rm_Description r), char_col 26 (rm_OwnerID r)) of
        (Some i, Some sl, Some nm, Some d, Some w) \<Rightarrow>
          if in_i32 (rm_MaxMembers r) \<and> in_i32 (rm_MemberCount r)
          then Some (r\<lparr>rm_ID := i, rm_Slug := sl, rm_Name := nm, rm_Description := d,
                 rm_Visibility := i16 (rm_Visibility r), rm_OwnerID := w,
                 rm_CreatedAt := pg_time (rm_CreatedAt r), rm_UpdatedAt := pg_time (rm_UpdatedAt r)\<rparr>)
          else None
      | _ \<Rightarrow> None)"

definition slug_taken :: "string \<Rightarrow> string \<Rightarrow> room_db \<Rightarrow> bool" where
  "slug_taken i slug db = list_ex (\<lambda>(k, r). k \<noteq> i \<and> rm_Slug r = slug) (db_rooms db)"

definition RoomRepo_Create :: "Room \<Rightarrow> (room_db, unit) tx" where
  "RoomRepo_Create r = tx_err (WrapErr ''room_repo: create'') (tx_stmt (\<lambda>db.
     case room_row_of r of
       None \<Rightarrow> (Inl (ExtErr ''invalid value''), db)
     | Some w \<Rightarrow>
         if map_of (db_rooms db) (rm_ID w) \<noteq> None \<or> slug_taken (rm_ID w) (rm_Slug w) db
         then (Inl (ExtErr ''duplicate key''), db)
         else (Inr (), db\<lparr>db_rooms := db_rooms db @ [(rm_ID w, w)]\<rparr>)))"

text \<open>\<open>scanRoom\<close> converts the visibility to \<open>int8\<close>.\<close>

definition scanRoom :: "Room \<Rightarrow> Room" where
  "scanRoom w = w\<lparr>rm_Visibility := i8 (rm_Visibility w)\<rparr>"

text \<open>Comparing a \<open>CHAR(26)\<close> column with a parameter ignores trailing blanks.\<close>

definition find_room :: "string \<Rightarrow> room_db \<Rightarrow> Room option" where
  "find_room i db = (case char_col 26 i of None \<Rightarrow> None | Some k \<Rightarrow> map_of (db_rooms db) k)"

definition GetByID :: "string \<Rightarrow> (room_db, Room) tx" where
  "GetByID i = tx_err (mapErr ''room'' i) (tx_stmt (\<lambda>db. case find_room i db of
     None \<Rightarrow> (Inl no_rows, db) | Some w \<Rightarrow> (Inr (scanRoom w), db)))"

definition GetBySlug :: "string \<Rightarrow> (room_db, Room) tx" where
  "GetBySlug slug = tx_err (mapErr ''room'' slug) (tx_stmt (\<lambda>db.
     case filter (\<lambda>(k, r). rm_Slug r = slug) (db_rooms db) of
       [] \<Rightarrow> (Inl no_rows, db) | (k, w) # _ \<Rightarrow> (Inr (scanRoom w), db)))"

text \<open>\<open>Update\<close> writes all columns but the id, the owner and the creation time; no row is not an error.\<close>

definition RoomRepo_Update :: "Room \<Rightarrow> (room_db, unit) tx" where
  "RoomRepo_Update r = tx_err (WrapErr ''room_repo: update'') (tx_stmt (\<lambda>db.
     case (char_col 26 (rm_ID r), find_room (rm_ID r) db) of
       (Some k, Some old) \<Rightarrow>
         (case room_row_of (r\<lparr>rm_ID := k, rm_OwnerID := rm_OwnerID old, rm_CreatedAt := rm_CreatedAt old\<rparr>) of
            None \<Rightarrow> (Inl (ExtErr ''invalid value''), db)
          | Some w \<Rightarrow>
              if slug_taken k (rm_Slug w) db then (Inl (ExtErr ''duplicate key''), db)
              else (Inr (), db\<lparr>db_rooms := AList.update k w (db_rooms db)\<rparr>))
     | _ \<Rightarrow> (Inr (), db)))"

definition RoomRepo_Delete :: "string \<Rightarrow> (room_db, unit) tx" where
  "RoomRepo_Delete i = tx_err (WrapErr ''room_repo: delete'') (tx_stmt (\<lambda>db.
     case char_col 26 i of
       None \<Rightarrow> (Inr (), db)
     | Some k \<Rightarrow> (Inr (), db\<lparr>db_rooms := AList.delete k (db_rooms db),
         db_members := filter (\<lambda>e. fst (fst e) \<noteq> k) (db_members db),
         db_invites := filter (\<lambda>e. fst (snd e) \<noteq> k) (db_invites db),
         db_perms := filter (\<lambda>e. fst (fst e) \<noteq> k) (db_perms db)\<rparr>)))"

text \<open>\<open>List\<close>: \<open>matches pattern name\<close> is SQL's \<open>LOWER(name) ILIKE pattern\<close>; identifiers compare byte by
  byte. One row more than the limit is fetched to see whether there is a next page.\<close>

definition list_where ::
  "(string \<Rightarrow> string \<Rightarrow> bool) \<Rightarrow> (string \<Rightarrow> string) \<Rightarrow> string \<Rightarrow> string \<Rightarrow> int list \<Rightarrow> Room \<Rightarrow> bool" where
  "list_where matches U cursor search visibilities r \<longleftrightarrow>
     (search = '''' \<or> matches (''%'' @ ToLower U search @ ''%'') (rm_Name r)) \<and>
     (visibilities = [] \<or> rm_Visibility r \<in> i16 ` set visibilities) \<and>
     (cursor = '''' \<or> rm_ID r < cursor)"

definition list_limit :: "int \<Rightarrow> int" where
  "list_limit limit = (if limit \<le> 0 \<or> limit > 200 then 50 else limit)"

definition RoomRepo_List ::
  "(string \<Rightarrow> string \<Rightarrow> bool) \<Rightarrow> (string \<Rightarrow> string) \<Rightarrow> string \<Rightarrow> int \<Rightarrow> string \<Rightarrow> int list
   \<Rightarrow> (room_db, Room list \<times> string) tx" where
  "RoomRepo_List matches U cursor limit search visibilities =
     (let limit = nat (list_limit limit) in
      tx_err (WrapErr ''room_repo: list'') (tx_query (\<lambda>db.
        let rows = filter (list_where matches U cursor search visibilities) (map snd (db_rooms db));
            rooms = map scanRoom (take (limit + 1) (sort_key (\<lambda>r. - rm_CreatedAt r) rows))
        in if length rooms > limit then (take limit rooms, rm_ID (rooms ! limit)) else (rooms, ''''))))"

section \<open>Members\<close>

definition member_key :: "string \<Rightarrow> string \<Rightarrow> (string \<times> string) option" where
  "member_key roomID userID = (case (char_col 26 roomID, char_col 26 userID) of
     (Some r, Some u) \<Rightarrow> Some (r, u) | _ \<Rightarrow> None)"

definition Member_Upsert :: "Member \<Rightarrow> (room_db, unit) tx" where
  "Member_Upsert m = tx_err (WrapErr ''member_repo: upsert'') (tx_stmt (\<lambda>db.
     case member_key (mb_RoomID m) (mb_UserID m) of
       None \<Rightarrow> (Inl (ExtErr ''value too long''), db)
     | Some (r, u) \<Rightarrow>
         if map_of (db_rooms db) r = None then (Inl (ExtErr ''foreign key violation''), db)
         else (let row = (case map_of (db_members db) (r, u) of
                 None \<Rightarrow> \<lparr>mb_RoomID = r, mb_UserID = u, mb_Role = i16 (mb_Role m), mb_JoinedAt = pg_time (mb_JoinedAt m)\<rparr>
               | Some old \<Rightarrow> old\<lparr>mb_Role := i16 (mb_Role m)\<rparr>)
               in (Inr (), db\<lparr>db_members := AList.update (r, u) row (db_members db)\<rparr>))))"

definition find_member :: "string \<Rightarrow> string \<Rightarrow> room_db \<Rightarrow> Member option" where
  "find_member roomID userID db = (case member_key roomID userID of
     None \<Rightarrow> None | Some k \<Rightarrow> map_of (db_members db) k)"

definition Member_Get :: "string \<Rightarrow> string \<Rightarrow> (room_db, Member) tx" where
  "Member_Get roomID userID = tx_err (mapErr ''member'' userID) (tx_stmt (\<lambda>db.
     case find_member roomID userID db of None \<Rightarrow> (Inl no_rows, db) | Some m \<Rightarrow> (Inr m, db)))"

definition Member_List :: "string \<Rightarrow> (room_db, Member list) tx" where
  "Member_List roomID = tx_err (WrapErr ''member_repo: list'') (tx_query (\<lambda>db.
     sort_key mb_JoinedAt (filter (\<lambda>m. char_col 26 roomID = Some (mb_RoomID m)) (map snd (db_members db)))))"

definition Member_Delete :: "string \<Rightarrow> string \<Rightarrow> (room_db, unit) tx" where
  "Member_Delete roomID userID = tx_err (WrapErr ''member_repo: delete'') (tx_stmt (\<lambda>db.
     case member_key roomID userID of
       None \<Rightarrow> (Inr (), db)
     | Some k \<Rightarrow> (Inr (), db\<lparr>db_members := AList.delete k (db_members db)\<rparr>)))"

definition Member_UpdateRole :: "string \<Rightarrow> string \<Rightarrow> int \<Rightarrow> (room_db, unit) tx" where
  "Member_UpdateRole roomID userID role = tx_err (WrapErr ''member_repo: update_role'') (tx_stmt (\<lambda>db.
     case member_key roomID userID of
       None \<Rightarrow> (Inr (), db)
     | Some k \<Rightarrow> (Inr (), db\<lparr>db_members := AList.map_entry k (\<lambda>m. m\<lparr>mb_Role := i16 role\<rparr>) (db_members db)\<rparr>)))"

definition IncrementRoomMemberCount :: "string \<Rightarrow> int \<Rightarrow> (room_db, unit) tx" where
  "IncrementRoomMemberCount roomID delta = tx_err (WrapErr ''member_repo: increment_count'') (tx_stmt (\<lambda>db.
     case (char_col 26 roomID, find_room roomID db) of
       (Some k, Some r) \<Rightarrow>
         if in_i32 (rm_MemberCount r + delta)
         then (Inr (), db\<lparr>db_rooms := AList.update k (r\<lparr>rm_MemberCount := rm_MemberCount r + delta\<rparr>) (db_rooms db)\<rparr>)
         else (Inl (ExtErr ''integer out of range''), db)
     | _ \<Rightarrow> (Inr (), db)))"

section \<open>Invites\<close>

definition Invite_Create :: "string \<Rightarrow> string \<Rightarrow> time option \<Rightarrow> (room_db, unit) tx" where
  "Invite_Create code roomID expiresAt = tx_err (WrapErr ''invite_repo: create'') (tx_stmt (\<lambda>db.
     case (varchar_col 32 code, char_col 26 roomID) of
       (Some c, Some r) \<Rightarrow>
         if map_of (db_invites db) c \<noteq> None then (Inl (ExtErr ''duplicate key''), db)
         else if map_of (db_rooms db) r = None then (Inl (ExtErr ''foreign key violation''), db)
         else (Inr (), db\<lparr>db_invites := db_invites db @ [(c, r, map_option pg_time expiresAt)]\<rparr>)
     | _ \<Rightarrow> (Inl (ExtErr ''value too long''), db)))"

text \<open>\<open>dbnow\<close> is the database's \<open>now()\<close>.\<close>

definition Invite_Get :: "time \<Rightarrow> string \<Rightarrow> (room_db, string) tx" where
  "Invite_Get dbnow code = tx_err (mapErr ''invite_code'' code) (tx_stmt (\<lambda>db.
     case map_of (db_invites db) code of
       None \<Rightarrow> (Inl no_rows, db)
     | Some (r, expires) \<Rightarrow>
         if (case expires of None \<Rightarrow> True | Some t \<Rightarrow> t > dbnow) then (Inr r, db) else (Inl no_rows, db)))"

definition Invite_Delete :: "string \<Rightarrow> (room_db, unit) tx" where
  "Invite_Delete code = tx_err (WrapErr ''invite_repo: delete'') (tx_stmt (\<lambda>db.
     (Inr (), db\<lparr>db_invites := AList.delete code (db_invites db)\<rparr>)))"

section \<open>Permissions\<close>

text \<open>\<open>int16(perms)\<close> and back, between \<open>uint16\<close> and \<open>SMALLINT\<close>.\<close>

definition perm_to_i16 :: "u16 \<Rightarrow> int" where "perm_to_i16 p = sint p"
definition perm_of_i16 :: "int \<Rightarrow> u16" where "perm_of_i16 n = word_of_int n"

definition Permission_Set :: "time \<Rightarrow> string \<Rightarrow> string \<Rightarrow> u16 \<Rightarrow> (room_db, unit) tx" where
  "Permission_Set dbnow roomID userID perms = tx_err (WrapErr ''permission_repo: set'') (tx_stmt (\<lambda>db.
     case member_key roomID userID of
       None \<Rightarrow> (Inl (ExtErr ''value too long''), db)
     | Some (r, u) \<Rightarrow>
         if map_of (db_rooms db) r = None then (Inl (ExtErr ''foreign key violation''), db)
         else (Inr (), db\<lparr>db_perms := AList.update (r, u) (perm_to_i16 perms, dbnow) (db_perms db)\<rparr>)))"

definition find_perm :: "string \<Rightarrow> string \<Rightarrow> room_db \<Rightarrow> int option" where
  "find_perm roomID userID db = (case member_key roomID userID of
     None \<Rightarrow> None | Some k \<Rightarrow> map_option fst (map_of (db_perms db) k))"

definition perm_row_query :: "string \<Rightarrow> string \<Rightarrow> (room_db, int) tx" where
  "perm_row_query roomID userID = tx_stmt (\<lambda>db. case find_perm roomID userID db of
     None \<Rightarrow> (Inl no_rows, db) | Some n \<Rightarrow> (Inr n, db))"

definition Permission_Get :: "string \<Rightarrow> string \<Rightarrow> (room_db, u16) tx" where
  "Permission_Get roomID userID = tx_bind (tx_try (perm_row_query roomID userID)) (\<lambda>r. case r of
     Inl err \<Rightarrow> if isNotFoundErr err then tx_return 0 else tx_fail (WrapErr ''permission_repo: get'' err)
   | Inr perms \<Rightarrow> tx_return (perm_of_i16 perms))"

definition Permission_ListByRoom :: "string \<Rightarrow> (room_db, string \<rightharpoonup> u16) tx" where
  "Permission_ListByRoom roomID = tx_err (WrapErr ''permission_repo: list'') (tx_query (\<lambda>db.
     foldl (\<lambda>out ((r, u), n, t). if char_col 26 roomID = Some r then out(u \<mapsto> perm_of_i16 n) else out)
       Map.empty (db_perms db)))"

definition Permission_Delete :: "string \<Rightarrow> string \<Rightarrow> (room_db, unit) tx" where
  "Permission_Delete roomID userID = tx_err (WrapErr ''permission_repo: delete'') (tx_stmt (\<lambda>db.
     case member_key roomID userID of
       None \<Rightarrow> (Inr (), db)
     | Some k \<Rightarrow> (Inr (), db\<lparr>db_perms := AList.delete k (db_perms db)\<rparr>)))"

end
