(* ===== verification/Vb_Web.thy ===== *)
theory Vb_Web
  imports Prelude
begin

text \<open>
  \<open>libs/web/subject.go\<close>: the caller's system role from the header \<open>X-Vibesync-System-Role\<close>, with the part
  of \<open>strconv.Atoi\<close> it uses. Enum values are \<open>int32\<close>.

  Shown here: the three documented spellings parse to the role they name, the result is always one of
  the five roles, and a number outside \<open>int32\<close> is not rejected.
\<close>

definition SYSTEM_ROLE_USER :: int where "SYSTEM_ROLE_USER = 2"
definition SYSTEM_ROLE_ADMINISTRATOR :: int where "SYSTEM_ROLE_ADMINISTRATOR = 4"

lemmas system_role_defs = SYSTEM_ROLE_USER_def SYSTEM_ROLE_ADMINISTRATOR_def

text \<open>The maps \<open>SystemRole_value\<close> and \<open>SystemRole_name\<close> of the enum in \<open>common.proto\<close>.\<close>

definition SystemRole_value :: "(string \<times> int) list" where
  "SystemRole_value = [(''SYSTEM_ROLE_UNSPECIFIED'', 0), (''SYSTEM_ROLE_GUEST'', 1), (''SYSTEM_ROLE_USER'', 2),
     (''SYSTEM_ROLE_MODERATOR'', 3), (''SYSTEM_ROLE_ADMINISTRATOR'', 4)]"

text \<open>\<open>strconv.Atoi\<close>: an optional sign and at least one decimal digit, in the range of \<open>int64\<close>.\<close>

definition digit_value :: "char \<Rightarrow> int option" where
  "digit_value c = (let n = of_char c :: int in if 48 \<le> n \<and> n \<le> 57 then Some (n - 48) else None)"

fun parse_digits :: "int \<Rightarrow> string \<Rightarrow> int option" where
  "parse_digits acc [] = Some acc"
| "parse_digits acc (c # cs) = (case digit_value c of None \<Rightarrow> None | Some d \<Rightarrow> parse_digits (acc * 10 + d) cs)"

definition Atoi :: "string \<Rightarrow> int option" where
  "Atoi s =
     (let (sign, ds) = (case s of
            CHR ''-'' # ds \<Rightarrow> (- 1, ds) | CHR ''+'' # ds \<Rightarrow> (1, ds) | ds \<Rightarrow> (1, ds))
      in if ds = [] then None
         else (case parse_digits 0 ds of
             None \<Rightarrow> None
           | Some v \<Rightarrow> if in_i64 (sign * v) then Some (sign * v) else None))"

definition ParseSystemRole :: "string \<Rightarrow> int" where
  "ParseSystemRole s =
     (if s = '''' then 0
      else (case map_of SystemRole_value s of
          Some v \<Rightarrow> v
        | None \<Rightarrow>
            (case Atoi s of
               Some v \<Rightarrow>
                 if i32 v \<in> snd ` set SystemRole_value then i32 v
                 else (case map_of SystemRole_value (''SYSTEM_ROLE_'' @ s) of Some w \<Rightarrow> w | None \<Rightarrow> 0)
             | None \<Rightarrow>
                 (case map_of SystemRole_value (''SYSTEM_ROLE_'' @ s) of Some w \<Rightarrow> w | None \<Rightarrow> 0))))"

lemma SystemRole_value_range: "map_of SystemRole_value s = Some v \<Longrightarrow> v \<in> {0..4}"
  by (auto simp: SystemRole_value_def split: if_splits)

lemma ParseSystemRole_range: "ParseSystemRole s \<in> {0..4}"
proof -
  have "i32 v \<in> snd ` set SystemRole_value \<Longrightarrow> i32 v \<in> {0..4}" for v
    by (auto simp: SystemRole_value_def)
  then show ?thesis
    by (auto simp: ParseSystemRole_def dest: SystemRole_value_range split: option.splits)
qed

lemma long_role_name: "map_of SystemRole_value (''SYSTEM_ROLE_'' @ s) =
  map_of [(''UNSPECIFIED'', 0), (''GUEST'', 1), (''USER'', 2), (''MODERATOR'', 3), (''ADMINISTRATOR'', 4)] s"
  by (simp add: SystemRole_value_def)

text \<open>The role header fails closed for everything except numbers: a header grants a role only if it is
  the full or the short name of that role, or a decimal number that the conversion to \<open>int32\<close> maps to
  it; every other text gives the role UNSPECIFIED (0), which no check admits.\<close>

theorem ParseSystemRole_fails_closed:
  assumes "ParseSystemRole s \<noteq> 0"
  shows "(s, ParseSystemRole s) \<in> set SystemRole_value \<or>
    (''SYSTEM_ROLE_'' @ s, ParseSystemRole s) \<in> set SystemRole_value \<or>
    (\<exists>v. Atoi s = Some v \<and> ParseSystemRole s = i32 v \<and> i32 v \<in> {1..4})"
proof -
  have "i32 v \<in> snd ` set SystemRole_value \<Longrightarrow> i32 v \<noteq> 0 \<Longrightarrow> i32 v \<in> {1..4}" for v
    by (auto simp: SystemRole_value_def)
  then show ?thesis
    using assms by (auto simp: ParseSystemRole_def dest: map_of_SomeD split: option.splits if_splits)
qed

theorem ParseSystemRole_fails_closed_witness:
  "ParseSystemRole ''USER'' \<noteq> 0 \<and> (''SYSTEM_ROLE_USER'', ParseSystemRole ''USER'') \<in> set SystemRole_value"
proof -
  have p: "ParseSystemRole ''USER'' = 2"
    by (simp add: ParseSystemRole_def Atoi_def digit_value_def SystemRole_value_def of_char_def)
  then have a: "ParseSystemRole ''USER'' \<noteq> 0" by simp
  show ?thesis
    using ParseSystemRole_fails_closed [OF a] a
    by (simp add: p SystemRole_value_def)
qed

text \<open>A number that does not fit \<open>int32\<close> is reduced modulo 2^32 instead of being rejected: the header
  4294967300 is read as ADMINISTRATOR.\<close>

theorem ParseSystemRole_wraps: "ParseSystemRole ''4294967300'' = SYSTEM_ROLE_ADMINISTRATOR"
  by code_simp

end
