(* ===== verification/Vb_Call.thy ===== *)
theory Vb_Call
  imports Vb_Tx Vb_Web
begin

text \<open>
  What the handlers of the services share (\<open>app/service.go\<close> of each service carries a copy): the caller's
  identity from the headers, the check of the context, the conversion of a transaction's error, and
  lookups whose not-found error is handled.
\<close>

section \<open>Calls\<close>

text \<open>What a call brings with it: the error of its context, the two headers, the database's faults and
  clock, the readings of the clock, of the id generator and of the random source in the order in which
  the handler asks for them, and the lower-casing of non-ASCII text.\<close>

record call =
  rq_ctxErr :: "go_error option"
  rq_userHeader :: string
  rq_roleHeader :: string
  rq_faults :: faults
  rq_dbnow :: time
  rq_now :: "nat \<Rightarrow> time"
  rq_newID :: "nat \<Rightarrow> string"
  rq_rand :: "nat \<Rightarrow> nat \<Rightarrow> 8 word"
  rq_lower :: "string \<Rightarrow> string"

record requestSubject =
  sj_UserID :: string
  sj_SystemRole :: int

definition subjectFromHeader :: "call \<Rightarrow> requestSubject" where
  "subjectFromHeader c = \<lparr>sj_UserID = rq_userHeader c, sj_SystemRole = ParseSystemRole (rq_roleHeader c)\<rparr>"

text \<open>\<open>ctxDone\<close> at the start of a handler.\<close>

definition ctxDone :: "call \<Rightarrow> 'db \<Rightarrow> 'a result \<times> 'db \<Rightarrow> 'a result \<times> 'db" where
  "ctxDone c db rest = (case rq_ctxErr c of Some e \<Rightarrow> (Inl e, db) | None \<Rightarrow> rest)"

text \<open>The error of \<open>withTx\<close>, converted before it is returned.\<close>

definition map_error :: "(go_error \<Rightarrow> go_error) \<Rightarrow> 'a result \<times> 'db \<Rightarrow> 'a result \<times> 'db" where
  "map_error g r = (case r of (Inl e, db) \<Rightarrow> (Inl (g e), db) | (Inr v, db) \<Rightarrow> (Inr v, db))"

definition internal :: "string \<Rightarrow> go_error \<Rightarrow> go_error" where
  "internal reason err = WithCause err (Internal reason (err_text err))"

text \<open>A lookup whose not-found error is handled: \<open>absent\<close> then, \<open>present x\<close> on success; other errors are
  returned.\<close>

definition tx_lookup :: "('db, 'a) tx \<Rightarrow> ('db, 'b) tx \<Rightarrow> ('a \<Rightarrow> ('db, 'b) tx) \<Rightarrow> ('db, 'b) tx" where
  "tx_lookup m absent present = tx_bind (tx_try m) (\<lambda>r. case r of
     Inl err \<Rightarrow> if isNotFound err then absent else tx_fail err
   | Inr x \<Rightarrow> present x)"

text \<open>The error of the call, if any, and the tables after it.\<close>

definition outcome :: "'a result \<times> 'db \<Rightarrow> go_error option \<times> 'db" where
  "outcome r = (case r of (Inl e, db) \<Rightarrow> (Some e, db) | (Inr v, db) \<Rightarrow> (None, db))"

definition is_Inr :: "'a result \<Rightarrow> bool" where "is_Inr r = (case r of Inl e \<Rightarrow> False | Inr v \<Rightarrow> True)"

lemma is_InrD: "is_Inr (fst x) \<Longrightarrow> \<exists>v. x = (Inr v, snd x)"
  by (cases x) (auto simp: is_Inr_def split: sum.splits)

lemma subject_simps [simp]:
  "sj_UserID (subjectFromHeader c) = rq_userHeader c"
  "sj_SystemRole (subjectFromHeader c) = ParseSystemRole (rq_roleHeader c)"
  by (simp_all add: subjectFromHeader_def)

lemma snd_outcome: "snd (outcome r) = snd r"
  by (auto simp: outcome_def split: prod.splits sum.splits)

lemma outcome_run_tx:
  "outcome (case run_tx m fl db of (Inl err, db') \<Rightarrow> (Inl err, db') | (Inr v, db') \<Rightarrow> (Inr (g v), db')) = outcome (run_tx m fl db)"
  by (auto simp: outcome_def split: prod.splits sum.splits)

lemma outcome_ctxDone: "outcome (ctxDone c db r) = (case rq_ctxErr c of Some e \<Rightarrow> (Some e, db) | None \<Rightarrow> outcome r)"
  by (simp add: ctxDone_def outcome_def split: option.split)

text \<open>A transaction: success with new tables, or an error and the old ones.\<close>

lemma outcome_tx:
  "outcome (run_tx m fl db) = (r, db') \<Longrightarrow>
     (case r of Some e \<Rightarrow> db' = db | None \<Rightarrow> \<exists>v n. m fl 1 db = (Inr v, n, db'))"
  by (auto simp: outcome_def run_tx_inr split: prod.splits sum.splits option.splits dest: run_tx_error)

lemma outcome_map_error: "outcome (map_error g r) = (map_option g (fst (outcome r)), snd (outcome r))"
  by (auto simp: outcome_def map_error_def split: prod.splits sum.splits)

text \<open>A call by a signed-in user, for examples.\<close>

definition sample_call :: "string \<Rightarrow> string \<Rightarrow> call" where
  "sample_call u i = \<lparr>rq_ctxErr = None, rq_userHeader = u, rq_roleHeader = ''USER'', rq_faults = no_faults, rq_dbnow = 0,
     rq_now = (\<lambda>n. 0), rq_newID = (\<lambda>n. if n = 0 then i else CHR ''e'' # i), rq_rand = (\<lambda>k n. word_of_nat n), rq_lower = id\<rparr>"

lemma role_user: "ParseSystemRole ''USER'' = 2" by code_simp

end
