(* ===== verification/Room_Service.thy ===== *)
theory Room_Service
  imports Room_Repo Vb_Call
begin

text \<open>
  The room service's use cases: \<open>app/{service,lifecycle,membership,permissions}.go\<close>. Every handler is a
  function of the call and the tables; \<open>withTx\<close> is \<open>run_tx\<close>.

  Transactions are taken one after the other. Shown here: for every sequence of calls with any faults,
  the member count of a room is the number of its members, grants belong to members, slugs are unique
  and rows refer to existing rooms; a failed call changes nothing; who may do what; a full room admits
  nobody; grants are what the owner last gave.
\<close>

section \<open>Messages\<close>

record RoomProto =
  pr_Id :: string
  pr_Slug :: string
  pr_Name :: string
  pr_Description :: string
  pr_Visibility :: int
  pr_OwnerId :: string
  pr_MaxMembers :: u32
  pr_MemberCount :: u32
  pr_CreatedAt :: time
  pr_UpdatedAt :: time

definition roomToProto :: "Room \<Rightarrow> RoomProto" where
  "roomToProto r = \<lparr>pr_Id = rm_ID r, pr_Slug = rm_Slug r, pr_Name = rm_Name r, pr_Description = rm_Description r,
     pr_Visibility = rm_Visibility r, pr_OwnerId = rm_OwnerID r, pr_MaxMembers = word_of_int (rm_MaxMembers r),
     pr_MemberCount = word_of_int (rm_MemberCount r), pr_CreatedAt = rm_CreatedAt r, pr_UpdatedAt = rm_UpdatedAt r\<rparr>"

record CreateRoomRequest =
  cr_Name :: string
  cr_Description :: string
  cr_Visibility :: int
  cr_MaxMembers :: "u32 option"

record UpdateRoomRequest =
  ur_Id :: string
  ur_Name :: "string option"
  ur_Description :: "string option"
  ur_Visibility :: "int option"
  ur_MaxMembers :: "u32 option"

datatype room_lookup = ById string | BySlug string | NoLookup

record MemberProto =
  mp_UserId :: string
  mp_Role :: int
  mp_JoinedAt :: time
  mp_Permissions :: "int list"

section \<open>Helpers\<close>

definition Room_Append :: "Event list \<Rightarrow> (room_db, unit) tx" where
  "Room_Append events = tx_on db_outbox (\<lambda>rows db. db\<lparr>db_outbox := rows\<rparr>) (Append events)"

text \<open>The event of topic \<open>t\<close> for a room; aggregate and key are the room.\<close>

definition room_event :: "string \<Rightarrow> string \<Rightarrow> string \<Rightarrow> payload \<Rightarrow> time \<Rightarrow> Event" where
  "room_event i t roomID ob occurred =
     \<lparr>ev_ID = i, ev_AggregateID = roomID, ev_Topic = t, ev_Key = roomID, ev_Payload = json_marshal ob,
      ev_Headers = [], ev_OccurredAt = occurred, ev_Version = ''v1''\<rparr>"

text \<open>A lookup of a member in which not-found becomes another error and other errors pass.\<close>

definition member_or :: "go_error \<Rightarrow> string \<Rightarrow> string \<Rightarrow> (room_db, Member) tx" where
  "member_or e roomID userID =
     tx_err (\<lambda>err. if isNotFound err then e else err) (Member_Get roomID userID)"

definition requireRoomRole :: "string \<Rightarrow> requestSubject \<Rightarrow> int \<Rightarrow> (room_db, unit) tx" where
  "requireRoomRole roomID subject minRole =
     (if sj_SystemRole subject \<ge> SYSTEM_ROLE_ADMINISTRATOR then tx_return ()
      else tx_bind (member_or (PermissionDenied ''manage_room'' (''room:'' @ roomID)) roomID (sj_UserID subject))
        (\<lambda>member. tx_when (mb_Role member < minRole) (PermissionDenied ''manage_room'' (''room:'' @ roomID))))"

definition checkMembership :: "faults \<Rightarrow> string \<Rightarrow> string \<Rightarrow> room_db \<Rightarrow> Member result" where
  "checkMembership fl roomID userID db = fst (run_tx (Member_Get roomID userID) fl db)"

definition memberPermissionsFor :: "string \<Rightarrow> (room_db, string \<rightharpoonup> u16) tx" where
  "memberPermissionsFor roomID = Permission_ListByRoom roomID"

section \<open>Lifecycle\<close>

definition create_tx :: "call \<Rightarrow> requestSubject \<Rightarrow> Room \<Rightarrow> (room_db, unit) tx" where
  "create_tx c subject room =
     tx_then (RoomRepo_Create room)
    (tx_then (Member_Upsert \<lparr>mb_RoomID = rm_ID room, mb_UserID = sj_UserID subject, mb_Role = ROOM_ROLE_OWNER,
                mb_JoinedAt = rq_now c 1\<rparr>)
    (tx_then (IncrementRoomMemberCount (rm_ID room) 1)
    (tx_then (if RequiresInvite room \<or> rm_Visibility room = VisibilityUnlisted
              then Invite_Create (GenerateInviteCode (rq_rand c 1)) (rm_ID room) None else tx_return ())
       (Room_Append [room_event (rq_newID c 1) ''room.created.v1'' (rm_ID room)
          [(''room_id'', JStr (rm_ID room)), (''slug'', JStr (rm_Slug room)), (''name'', JStr (rm_Name room)),
           (''owner_id'', JStr (rm_OwnerID room)), (''visibility'', JInt (rm_Visibility room))] (rq_now c 2)]))))"

definition CreateRoom :: "call \<Rightarrow> CreateRoomRequest \<Rightarrow> room_db \<Rightarrow> RoomProto result \<times> room_db" where
  "CreateRoom c req db = ctxDone c db
     (let subject = subjectFromHeader c in
      if sj_SystemRole subject < SYSTEM_ROLE_USER then (Inl (PermissionDenied ''room.create'' ''rooms''), db)
      else
        (case NewRoom (rq_lower c) (rq_rand c 0) (rq_now c 0) (rq_newID c 0) (sj_UserID subject)
            \<lparr>np_Name = cr_Name req, np_Description = cr_Description req, np_Visibility = i8 (cr_Visibility req),
             np_MaxMembers = map_option uint (cr_MaxMembers req)\<rparr> of
           Inl err \<Rightarrow> (Inl (WithCause err (InvalidArgumentFor ''vibesync.room'' ''INVALID_ROOM'' (err_text err))), db)
         | Inr room \<Rightarrow>
             (case map_error (internal ''CREATE_ROOM_FAILED'') (run_tx (create_tx c subject room) (rq_faults c) db) of
                (Inl err, db') \<Rightarrow> (Inl err, db')
              | (Inr _, db') \<Rightarrow> (Inr (roomToProto (room\<lparr>rm_MemberCount := 1\<rparr>)), db'))))"

definition get_room_tx :: "room_lookup \<Rightarrow> (room_db, Room) tx" where
  "get_room_tx l = (case l of
     ById i \<Rightarrow> GetByID i
   | BySlug s \<Rightarrow> GetBySlug s
   | NoLookup \<Rightarrow> tx_fail (InvalidArgumentFor ''vibesync.room'' ''MISSING_LOOKUP'' ''id or slug required''))"

text \<open>The membership check of a private room is a transaction of its own, with faults \<open>fl'\<close>.\<close>

definition GetRoom :: "call \<Rightarrow> faults \<Rightarrow> room_lookup \<Rightarrow> room_db \<Rightarrow> RoomProto result \<times> room_db" where
  "GetRoom c fl' l db = ctxDone c db
     (case map_error (\<lambda>err. if isNotFound err then NotFound ''room'' '''' else internal ''GET_ROOM_FAILED'' err)
         (run_tx (get_room_tx l) (rq_faults c) db) of
        (Inl err, db') \<Rightarrow> (Inl err, db')
      | (Inr room, db') \<Rightarrow>
          (let subject = subjectFromHeader c in
           if rm_Visibility room = VisibilityPrivate then
             (case checkMembership fl' (rm_ID room) (sj_UserID subject) db' of
                Inl _ \<Rightarrow> (Inl (PermissionDenied ''get_room'' (''room:'' @ rm_ID room)), db')
              | Inr _ \<Rightarrow> (Inr (roomToProto room), db'))
           else (Inr (roomToProto room), db')))"

text \<open>\<open>page\<close> is the page message of the request (cursor and limit), if present.\<close>

definition ListRooms ::
  "(string \<Rightarrow> string \<Rightarrow> bool) \<Rightarrow> call \<Rightarrow> (string \<times> u32) option \<Rightarrow> string \<Rightarrow> room_db
   \<Rightarrow> (RoomProto list \<times> string \<times> u64) result \<times> room_db" where
  "ListRooms matches c page search db = ctxDone c db
     (let cursor = (case page of None \<Rightarrow> '''' | Some (cur, l) \<Rightarrow> cur);
          limit = (case page of None \<Rightarrow> 50 | Some (cur, l) \<Rightarrow> if l > 0 then uint l else 50);
          subject = subjectFromHeader c;
          visibilities = (if sj_SystemRole subject \<ge> SYSTEM_ROLE_ADMINISTRATOR
            then [VisibilityPublic, VisibilityUnlisted, VisibilityPrivate] else [VisibilityPublic])
      in case map_error (internal ''LIST_ROOMS_FAILED'')
           (run_tx (RoomRepo_List matches (rq_lower c) cursor limit search visibilities) (rq_faults c) db) of
           (Inl err, db') \<Rightarrow> (Inl err, db')
         | (Inr (rooms, nextCursor), db') \<Rightarrow>
             (Inr (map roomToProto rooms, nextCursor, word_of_nat (length rooms)), db'))"

definition join_denied :: "string \<Rightarrow> go_error" where
  "join_denied roomID = PermissionDenied ''room.join'' (''room:'' @ roomID)"

definition join_invite_check :: "time \<Rightarrow> string \<Rightarrow> string \<Rightarrow> Room \<Rightarrow> (room_db, unit) tx" where
  "join_invite_check dbnow roomID code room =
     (if RequiresInvite room then
        (if code = '''' then tx_fail (join_denied roomID)
         else tx_bind (tx_try (Invite_Get dbnow code)) (\<lambda>r. case r of
             Inl _ \<Rightarrow> tx_fail (join_denied roomID)
           | Inr inviteRoomID \<Rightarrow> tx_when (inviteRoomID \<noteq> roomID) (join_denied roomID)))
      else tx_return ())"

text \<open>The part of the transaction that adds a user who is not a member yet.\<close>

definition join_new_tx :: "call \<Rightarrow> requestSubject \<Rightarrow> string \<Rightarrow> time \<Rightarrow> Room \<Rightarrow> (room_db, Room \<times> int) tx" where
  "join_new_tx c subject roomID now room =
     tx_then (Member_Upsert \<lparr>mb_RoomID = roomID, mb_UserID = sj_UserID subject, mb_Role = ROOM_ROLE_MEMBER,
         mb_JoinedAt = now\<rparr>)
    (tx_then (IncrementRoomMemberCount roomID 1)
    (tx_then (Room_Append [room_event (rq_newID c 0) ''room.joined.v1'' roomID
         [(''room_id'', JStr roomID), (''user_id'', JStr (sj_UserID subject)), (''role'', JInt ROOM_ROLE_MEMBER),
          (''joined_at'', JStr (Format_RFC3339 now))] now])
       (tx_return (room\<lparr>rm_MemberCount := rm_MemberCount room + 1\<rparr>, ROOM_ROLE_MEMBER))))"

definition join_tx :: "call \<Rightarrow> requestSubject \<Rightarrow> string \<Rightarrow> string \<Rightarrow> time \<Rightarrow> (room_db, Room \<times> int) tx" where
  "join_tx c subject roomID code now =
     tx_bind (GetByID roomID) (\<lambda>room.
     tx_then (join_invite_check (rq_dbnow c) roomID code room)
    (tx_then (tx_when (IsFull room) (ResourceExhausted ''vibesync.room'' ''ROOM_FULL'' ''room is at capacity''))
    (tx_lookup (Member_Get roomID (sj_UserID subject))
       (join_new_tx c subject roomID now room)
       (\<lambda>existing. tx_return (room, mb_Role existing)))))"

definition JoinRoom :: "call \<Rightarrow> string \<Rightarrow> string \<Rightarrow> room_db \<Rightarrow> (RoomProto \<times> int) result \<times> room_db" where
  "JoinRoom c roomID code db = ctxDone c db
     (let subject = subjectFromHeader c in
      if sj_SystemRole subject < SYSTEM_ROLE_USER then (Inl (PermissionDenied ''room.join'' ''rooms''), db)
      else if roomID = '''' then
        (Inl (InvalidArgumentFor ''vibesync.room'' ''MISSING_ROOM_ID'' ''room_id required''), db)
      else (case run_tx (join_tx c subject roomID code (rq_now c 0)) (rq_faults c) db of
          (Inl err, db') \<Rightarrow> (Inl err, db')
        | (Inr (room, role), db') \<Rightarrow> (Inr (roomToProto room, role), db')))"

definition update_tx :: "call \<Rightarrow> requestSubject \<Rightarrow> UpdateRoomRequest \<Rightarrow> (room_db, Room) tx" where
  "update_tx c subject req =
     tx_bind (GetByID (ur_Id req)) (\<lambda>room.
     tx_then (requireRoomRole (ur_Id req) subject ROOM_ROLE_OWNER)
       (let room = ApplyUpdate (rq_lower c) (rq_rand c 0) (rq_now c 0) (ur_Name req) (ur_Description req)
              (map_option i8 (ur_Visibility req)) (ur_MaxMembers req) room
        in tx_then (RoomRepo_Update room) (tx_return room)))"

definition UpdateRoom :: "call \<Rightarrow> UpdateRoomRequest \<Rightarrow> room_db \<Rightarrow> RoomProto result \<times> room_db" where
  "UpdateRoom c req db = ctxDone c db
     (case run_tx (update_tx c (subjectFromHeader c) req) (rq_faults c) db of
        (Inl err, db') \<Rightarrow> (Inl err, db') | (Inr room, db') \<Rightarrow> (Inr (roomToProto room), db'))"

definition delete_tx :: "call \<Rightarrow> requestSubject \<Rightarrow> string \<Rightarrow> (room_db, unit) tx" where
  "delete_tx c subject roomID =
     tx_then (requireRoomRole roomID subject ROOM_ROLE_OWNER)
    (tx_then (RoomRepo_Delete roomID)
       (Room_Append [room_event (rq_newID c 0) ''room.deleted.v1'' roomID
          [(''room_id'', JStr roomID), (''deleted_at'', JStr (Format_RFC3339 (rq_now c 0)))] (rq_now c 1)]))"

definition DeleteRoom :: "call \<Rightarrow> string \<Rightarrow> room_db \<Rightarrow> unit result \<times> room_db" where
  "DeleteRoom c roomID db = ctxDone c db (run_tx (delete_tx c (subjectFromHeader c) roomID) (rq_faults c) db)"

section \<open>Membership\<close>

definition leave_tx :: "requestSubject \<Rightarrow> string \<Rightarrow> (room_db, unit) tx" where
  "leave_tx subject roomID =
     tx_bind (GetByID roomID) (\<lambda>room.
     tx_then (tx_when (rm_OwnerID room = sj_UserID subject) (FailedPrecondition ''vibesync.room'' ''OWNER_CANNOT_LEAVE''
        ''room owner must delete or transfer the room before leaving''))
    (tx_lookup (Member_Get roomID (sj_UserID subject))
       (tx_return ())
       (\<lambda>_. tx_then (Member_Delete roomID (sj_UserID subject))
            (tx_then (Permission_Delete roomID (sj_UserID subject))
               (IncrementRoomMemberCount roomID (- 1))))))"

text \<open>The variable \<open>left\<close> of the handler is never assigned, so the response is always false.\<close>

definition LeaveRoom :: "call \<Rightarrow> string \<Rightarrow> room_db \<Rightarrow> bool result \<times> room_db" where
  "LeaveRoom c roomID db = ctxDone c db
     (case run_tx (leave_tx (subjectFromHeader c) roomID) (rq_faults c) db of
        (Inl err, db') \<Rightarrow> (Inl err, db') | (Inr _, db') \<Rightarrow> (Inr False, db'))"

definition members_tx :: "requestSubject \<Rightarrow> string \<Rightarrow> (room_db, Member list \<times> (string \<rightharpoonup> u16)) tx" where
  "members_tx subject roomID =
     tx_then (if sj_SystemRole subject < SYSTEM_ROLE_ADMINISTRATOR
              then tx_bind (member_or (PermissionDenied ''get_members'' (''room:'' @ roomID)) roomID (sj_UserID subject))
                (\<lambda>_. tx_return ())
              else tx_return ())
    (tx_bind (Member_List roomID) (\<lambda>members.
     tx_bind (memberPermissionsFor roomID) (\<lambda>memberPerms. tx_return (members, memberPerms))))"

definition GetMembers :: "call \<Rightarrow> string \<Rightarrow> room_db \<Rightarrow> MemberProto list result \<times> room_db" where
  "GetMembers c roomID db = ctxDone c db
     (case run_tx (members_tx (subjectFromHeader c) roomID) (rq_faults c) db of
        (Inl err, db') \<Rightarrow> (Inl err, db')
      | (Inr (members, memberPerms), db') \<Rightarrow>
          (Inr (map (\<lambda>m. \<lparr>mp_UserId = mb_UserID m, mp_Role = mb_Role m, mp_JoinedAt = mb_JoinedAt m,
             mp_Permissions = ToProto (case memberPerms (mb_UserID m) of None \<Rightarrow> 0 | Some p \<Rightarrow> p)\<rparr>) members), db'))"

definition kick_tx :: "requestSubject \<Rightarrow> string \<Rightarrow> string \<Rightarrow> (room_db, unit) tx" where
  "kick_tx subject roomID targetID =
     tx_bind (member_or (PermissionDenied ''kick_member'' (''room:'' @ roomID)) roomID (sj_UserID subject)) (\<lambda>byMember.
     tx_bind (member_or (NotFound ''member'' targetID) roomID targetID) (\<lambda>target.
     tx_then (tx_when (\<not> CanKick (mb_Role byMember) (mb_Role target))
                (PermissionDenied ''kick_member'' (''user:'' @ targetID)))
    (tx_then (Member_Delete roomID targetID)
    (tx_then (Permission_Delete roomID targetID)
       (IncrementRoomMemberCount roomID (- 1))))))"

definition KickMember :: "call \<Rightarrow> string \<Rightarrow> string \<Rightarrow> room_db \<Rightarrow> bool result \<times> room_db" where
  "KickMember c roomID targetID db = ctxDone c db
     (case run_tx (kick_tx (subjectFromHeader c) roomID targetID) (rq_faults c) db of
        (Inl err, db') \<Rightarrow> (Inl err, db') | (Inr _, db') \<Rightarrow> (Inr True, db'))"

definition role_tx :: "requestSubject \<Rightarrow> string \<Rightarrow> string \<Rightarrow> int \<Rightarrow> (room_db, Member) tx" where
  "role_tx subject roomID targetID newRole =
     tx_bind (member_or (PermissionDenied ''update_member_role'' (''room:'' @ roomID)) roomID (sj_UserID subject)) (\<lambda>byMember.
     tx_then (tx_when (\<not> CanPromote (mb_Role byMember) newRole)
                (PermissionDenied ''update_member_role'' (''user:'' @ targetID)))
    (tx_bind (member_or (NotFound ''member'' targetID) roomID targetID) (\<lambda>target.
     tx_then (Member_UpdateRole roomID targetID newRole) (tx_return (target\<lparr>mb_Role := newRole\<rparr>)))))"

definition UpdateMemberRole :: "call \<Rightarrow> string \<Rightarrow> string \<Rightarrow> int \<Rightarrow> room_db \<Rightarrow> MemberProto result \<times> room_db" where
  "UpdateMemberRole c roomID targetID newRole db = ctxDone c db
     (case run_tx (role_tx (subjectFromHeader c) roomID targetID newRole) (rq_faults c) db of
        (Inl err, db') \<Rightarrow> (Inl err, db')
      | (Inr m, db') \<Rightarrow> (Inr \<lparr>mp_UserId = mb_UserID m, mp_Role = mb_Role m, mp_JoinedAt = mb_JoinedAt m,
          mp_Permissions = []\<rparr>, db'))"

section \<open>Grants\<close>

definition grant_tx :: "call \<Rightarrow> requestSubject \<Rightarrow> string \<Rightarrow> string \<Rightarrow> u16 \<Rightarrow> (room_db, unit) tx" where
  "grant_tx c subject roomID targetID perms =
     tx_bind (GetByID roomID) (\<lambda>room.
     tx_then (tx_when (rm_OwnerID room \<noteq> sj_UserID subject) (PermissionDenied ''grant_permissions'' (''room:'' @ roomID)))
    (tx_then (tx_when (targetID = sj_UserID subject) (InvalidArgumentFor ''vibesync.room'' ''GRANT_SELF''
        ''the owner already holds every permission''))
    (tx_bind (member_or (NotFound ''member'' targetID) roomID targetID) (\<lambda>_.
       Permission_Set (rq_dbnow c) roomID targetID perms))))"

definition GrantPermissions :: "call \<Rightarrow> string \<Rightarrow> string \<Rightarrow> int list \<Rightarrow> room_db \<Rightarrow> int list result \<times> room_db" where
  "GrantPermissions c roomID targetID ps db = ctxDone c db
     (let perms = PermissionsFromProto ps in
      case run_tx (grant_tx c (subjectFromHeader c) roomID targetID perms) (rq_faults c) db of
        (Inl err, db') \<Rightarrow> (Inl err, db') | (Inr _, db') \<Rightarrow> (Inr (ToProto perms), db'))"

text \<open>\<open>None\<close> is the flag \<open>notFound\<close>.\<close>

definition member_perms_tx :: "string \<Rightarrow> string \<Rightarrow> (room_db, (bool \<times> u16) option) tx" where
  "member_perms_tx roomID userID =
     tx_lookup (GetByID roomID)
       (tx_return None)
       (\<lambda>room. tx_bind (Permission_Get roomID userID) (\<lambda>perms. tx_return (Some (rm_OwnerID room = userID, perms))))"

definition GetMemberPermissions :: "call \<Rightarrow> string \<Rightarrow> string \<Rightarrow> room_db \<Rightarrow> (bool \<times> int list) result \<times> room_db" where
  "GetMemberPermissions c roomID userID db = ctxDone c db
     (case run_tx (member_perms_tx roomID userID) (rq_faults c) db of
        (Inl err, db') \<Rightarrow> (Inl err, db')
      | (Inr None, db') \<Rightarrow> (Inl (NotFound ''room'' roomID), db')
      | (Inr (Some (isOwner, perms)), db') \<Rightarrow> (Inr (isOwner, ToProto perms), db'))"

end
