(* ===== verification/Room_Invariant.thy ===== *)
theory Room_Invariant
  imports Room_Service
begin

text \<open>
  What the transactions of the room service do to the tables when they succeed: each is one of a few
  pure table operations, and each of those keeps the invariant \<open>room_inv\<close>.
\<close>

section \<open>Statements that succeed\<close>

lemma member_key_Some:
  "member_key r u = Some (k, v) \<longleftrightarrow> char_col 26 r = Some k \<and> char_col 26 u = Some v"
  by (auto simp: member_key_def split: option.splits)

lemma GetByID_inr [tx_inr]:
  "GetByID i fl n db = (Inr r, n', db') \<longleftrightarrow>
     fl n = None \<and> n' = n + 1 \<and> db' = db \<and> (\<exists>w. find_room i db = Some w \<and> r = scanRoom w)"
  by (auto simp: GetByID_def tx_inr split: option.splits)

lemma GetByID_inl:
  "GetByID i fl n db = (Inl e, n', db') \<Longrightarrow>
     db' = db \<and> n' = n + 1 \<and> (isNotFound e \<longleftrightarrow> fl n = None \<and> find_room i db = None)"
  by (auto simp: GetByID_def tx_defs split: option.splits)

lemma Member_Get_inr [tx_inr]:
  "Member_Get r u fl n db = (Inr m, n', db') \<longleftrightarrow>
     fl n = None \<and> n' = n + 1 \<and> db' = db \<and> find_member r u db = Some m"
  by (auto simp: Member_Get_def tx_inr split: option.splits)

lemma Member_Get_inl:
  "Member_Get r u fl n db = (Inl e, n', db') \<Longrightarrow>
     db' = db \<and> n' = n + 1 \<and> (isNotFound e \<longleftrightarrow> fl n = None \<and> find_member r u db = None)"
  by (auto simp: Member_Get_def tx_defs split: option.splits)

lemma Member_lookup_inr [tx_inr]:
  "tx_lookup (Member_Get r u) A B fl n db = (Inr v, n', db') \<longleftrightarrow> fl n = None \<and>
     (case find_member r u db of None \<Rightarrow> A fl (n + 1) db = (Inr v, n', db') | Some m \<Rightarrow> B m fl (n + 1) db = (Inr v, n', db'))"
  by (auto simp: tx_lookup_def Member_Get_def tx_defs split: option.splits)

lemma GetByID_lookup_inr [tx_inr]:
  "tx_lookup (GetByID i) A B fl n db = (Inr v, n', db') \<longleftrightarrow> fl n = None \<and>
     (case find_room i db of None \<Rightarrow> A fl (n + 1) db = (Inr v, n', db') | Some w \<Rightarrow> B (scanRoom w) fl (n + 1) db = (Inr v, n', db'))"
  by (auto simp: tx_lookup_def GetByID_def tx_defs split: option.splits)

lemma member_or_inr [tx_inr]:
  "member_or e r u fl n db = (Inr m, n', db') \<longleftrightarrow>
     fl n = None \<and> n' = n + 1 \<and> db' = db \<and> find_member r u db = Some m"
  by (simp add: member_or_def tx_inr)

lemma Invite_Get_same: "Invite_Get t code fl n db = (r, n', db') \<Longrightarrow> db' = db"
  by (auto simp: Invite_Get_def tx_defs split: option.splits prod.splits if_splits)

lemma requireRoomRole_inr [tx_inr]:
  "requireRoomRole r s role fl n db = (Inr v, n', db') \<longleftrightarrow>
     (if sj_SystemRole s \<ge> SYSTEM_ROLE_ADMINISTRATOR then n' = n \<and> db' = db
      else fl n = None \<and> n' = n + 1 \<and> db' = db \<and>
        (\<exists>m. find_member r (sj_UserID s) db = Some m \<and> mb_Role m \<ge> role))"
  by (auto simp: requireRoomRole_def tx_inr not_less)

section \<open>Table operations\<close>

definition bump_count :: "string \<Rightarrow> int \<Rightarrow> room_db \<Rightarrow> room_db" where
  "bump_count k d db = (case map_of (db_rooms db) k of
     None \<Rightarrow> db
   | Some r \<Rightarrow> db\<lparr>db_rooms := AList.update k (r\<lparr>rm_MemberCount := rm_MemberCount r + d\<rparr>) (db_rooms db)\<rparr>)"

definition add_member :: "string \<Rightarrow> string \<Rightarrow> int \<Rightarrow> time \<Rightarrow> room_db \<Rightarrow> room_db" where
  "add_member k u role t db = bump_count k 1 (db\<lparr>db_members :=
     AList.update (k, u) \<lparr>mb_RoomID = k, mb_UserID = u, mb_Role = role, mb_JoinedAt = t\<rparr> (db_members db)\<rparr>)"

definition remove_member :: "string \<Rightarrow> string \<Rightarrow> room_db \<Rightarrow> room_db" where
  "remove_member k u db = bump_count k (- 1) (db\<lparr>db_members := AList.delete (k, u) (db_members db),
     db_perms := AList.delete (k, u) (db_perms db)\<rparr>)"

definition remove_room :: "string \<Rightarrow> room_db \<Rightarrow> room_db" where
  "remove_room k db = db\<lparr>db_rooms := AList.delete k (db_rooms db),
     db_members := filter (\<lambda>e. fst (fst e) \<noteq> k) (db_members db),
     db_invites := filter (\<lambda>e. fst (snd e) \<noteq> k) (db_invites db),
     db_perms := filter (\<lambda>e. fst (fst e) \<noteq> k) (db_perms db)\<rparr>"

lemma IncrementRoomMemberCount_inr [tx_inr]:
  "IncrementRoomMemberCount r d fl n db = (Inr v, n', db') \<longleftrightarrow>
     fl n = None \<and> n' = n + 1 \<and>
     (case char_col 26 r of None \<Rightarrow> db' = db
      | Some k \<Rightarrow> db' = bump_count k d db \<and> (\<forall>w. map_of (db_rooms db) k = Some w \<longrightarrow> in_i32 (rm_MemberCount w + d)))"
  by (auto simp: IncrementRoomMemberCount_def tx_inr find_room_def bump_count_def split: option.splits)

lemma Member_Delete_inr [tx_inr]:
  "Member_Delete r u fl n db = (Inr v, n', db') \<longleftrightarrow> fl n = None \<and> n' = n + 1 \<and>
     (case member_key r u of None \<Rightarrow> db' = db | Some k \<Rightarrow> db' = db\<lparr>db_members := AList.delete k (db_members db)\<rparr>)"
  by (auto simp: Member_Delete_def tx_inr split: option.splits)

lemma Permission_Delete_inr [tx_inr]:
  "Permission_Delete r u fl n db = (Inr v, n', db') \<longleftrightarrow> fl n = None \<and> n' = n + 1 \<and>
     (case member_key r u of None \<Rightarrow> db' = db | Some k \<Rightarrow> db' = db\<lparr>db_perms := AList.delete k (db_perms db)\<rparr>)"
  by (auto simp: Permission_Delete_def tx_inr split: option.splits)

lemma Member_Upsert_inr:
  assumes "Member_Upsert m fl n db = (Inr v, n', db')" "find_member (mb_RoomID m) (mb_UserID m) db = None"
  obtains k u where "member_key (mb_RoomID m) (mb_UserID m) = Some (k, u)" "map_of (db_rooms db) k \<noteq> None"
    "db' = db\<lparr>db_members := AList.update (k, u) \<lparr>mb_RoomID = k, mb_UserID = u, mb_Role = i16 (mb_Role m),
       mb_JoinedAt = pg_time (mb_JoinedAt m)\<rparr> (db_members db)\<rparr>"
  using assms by (auto simp: Member_Upsert_def tx_inr find_member_def split: option.splits if_splits)

lemma Room_Append_inr:
  "Room_Append [e] fl n db = (Inr v, n', db') \<Longrightarrow>
   \<exists>rw. db' = db\<lparr>db_outbox := db_outbox db @ [rw]\<rparr> \<and> ob_id rw \<notin> ob_id ` set (db_outbox db) \<and>
     outbox_row_of e (if ev_Key e = '''' then ev_AggregateID e else ev_Key e) = Some rw"
  by (auto simp: Room_Append_def tx_inr Append_def dest!: append_one_grows)

section \<open>Transactions that succeed\<close>

lemma member_keyE:
  assumes "find_member r u db = Some m"
  obtains k v where "member_key r u = Some (k, v)" "char_col 26 r = Some k" "char_col 26 u = Some v"
    "map_of (db_members db) (k, v) = Some m"
  using assms by (auto simp: find_member_def member_key_Some split: option.splits)

lemma remove_member_tx:
  assumes "tx_then (Member_Delete r u) (tx_then (Permission_Delete r u) (IncrementRoomMemberCount r (- 1))) fl n db = (Inr v, n', db')"
    "member_key r u = Some (k, w)"
  shows "db' = remove_member k w db"
  using assms by (auto simp: tx_inr member_key_Some remove_member_def bump_count_def)

lemma kick_tx_success:
  assumes "kick_tx s r t fl n db = (Inr v, n', db')"
  obtains k a w by_m tg where "member_key r (sj_UserID s) = Some (k, a)" "map_of (db_members db) (k, a) = Some by_m"
    "member_key r t = Some (k, w)" "map_of (db_members db) (k, w) = Some tg"
    "CanKick (mb_Role by_m) (mb_Role tg)" "db' = remove_member k w db"
proof -
  from assms obtain n1 by_m tg where f: "find_member r (sj_UserID s) db = Some by_m" "find_member r t db = Some tg"
      "CanKick (mb_Role by_m) (mb_Role tg)"
    and rest: "tx_then (Member_Delete r t) (tx_then (Permission_Delete r t) (IncrementRoomMemberCount r (- 1))) fl n1 db = (Inr v, n', db')"
    unfolding kick_tx_def by (auto simp: tx_inr_bind tx_inr_when member_or_inr tx_inr_then [of "tx_when b e" for b e])
  obtain k a where k: "member_key r (sj_UserID s) = Some (k, a)" "char_col 26 r = Some k" "map_of (db_members db) (k, a) = Some by_m"
    using f(1) by (rule member_keyE)
  obtain k' w where k': "member_key r t = Some (k', w)" "char_col 26 r = Some k'" "map_of (db_members db) (k', w) = Some tg"
    using f(2) by (rule member_keyE)
  have "k' = k" using k(2) k'(2) by simp
  with remove_member_tx [OF rest k'(1)] that k k' f(3) show thesis by blast
qed

lemma leave_tx_success:
  assumes "leave_tx s r fl n db = (Inr v, n', db')"
  obtains (absent) "find_member r (sj_UserID s) db = None" "db' = db"
  | (member) k w m room where "member_key r (sj_UserID s) = Some (k, w)" "map_of (db_members db) (k, w) = Some m"
      "find_room r db = Some room" "rm_OwnerID room \<noteq> sj_UserID s" "db' = remove_member k w db"
proof -
  from assms obtain n1 room where f: "find_room r db = Some room" "rm_OwnerID room \<noteq> sj_UserID s"
    and rest: "case find_member r (sj_UserID s) db of None \<Rightarrow> db' = db
      | Some m \<Rightarrow> tx_then (Member_Delete r (sj_UserID s)) (tx_then (Permission_Delete r (sj_UserID s))
          (IncrementRoomMemberCount r (- 1))) fl n1 db = (Inr v, n', db')"
    unfolding leave_tx_def
    by (auto simp: tx_inr_bind tx_inr_when tx_inr_return GetByID_inr Member_lookup_inr scanRoom_def
        tx_inr_then [of "tx_when b e" for b e] split: option.splits)
  show thesis
  proof (cases "find_member r (sj_UserID s) db")
    case None
    with rest show thesis by (simp add: absent)
  next
    case (Some m)
    then obtain k w where "member_key r (sj_UserID s) = Some (k, w)" "map_of (db_members db) (k, w) = Some m"
      by (rule member_keyE)
    with rest Some show thesis using member f remove_member_tx by auto
  qed
qed

lemma add_member_outbox [simp]: "db_outbox (add_member k u role t db) = db_outbox db"
  by (simp add: add_member_def bump_count_def split: option.split)

text \<open>Adding a member who is not there yet, and counting it.\<close>

lemma enroll_success:
  assumes "Member_Upsert m fl n db = (Inr (), n1, db1)" "IncrementRoomMemberCount (mb_RoomID m) 1 fl n1 db1 = (Inr (), n2, db2)"
    "find_member (mb_RoomID m) (mb_UserID m) db = None"
  shows "\<exists>k u. member_key (mb_RoomID m) (mb_UserID m) = Some (k, u) \<and> map_of (db_rooms db) k \<noteq> None \<and>
    db2 = add_member k u (i16 (mb_Role m)) (pg_time (mb_JoinedAt m)) db"
proof -
  obtain k u where k: "member_key (mb_RoomID m) (mb_UserID m) = Some (k, u)" "map_of (db_rooms db) k \<noteq> None"
    "db1 = db\<lparr>db_members := AList.update (k, u) \<lparr>mb_RoomID = k, mb_UserID = u, mb_Role = i16 (mb_Role m),
       mb_JoinedAt = pg_time (mb_JoinedAt m)\<rparr> (db_members db)\<rparr>"
    using Member_Upsert_inr [OF assms(1,3)] .
  have "char_col 26 (mb_RoomID m) = Some k" using k(1) by (simp add: member_key_Some)
  then have "db2 = add_member k u (i16 (mb_Role m)) (pg_time (mb_JoinedAt m)) db"
    using assms(2) k(3) by (simp add: IncrementRoomMemberCount_inr add_member_def)
  with k show ?thesis by blast
qed

lemma join_new_tx_success:
  assumes "join_new_tx c s r now room fl n db = (Inr v, n', db')" "find_member r (sj_UserID s) db = None"
  obtains k u rw where "member_key r (sj_UserID s) = Some (k, u)" "map_of (db_rooms db) k \<noteq> None"
    "ob_id rw \<notin> ob_id ` set (db_outbox db)"
    "db' = (add_member k u ROOM_ROLE_MEMBER (pg_time now) db)\<lparr>db_outbox := db_outbox db @ [rw]\<rparr>"
    "v = (room\<lparr>rm_MemberCount := rm_MemberCount room + 1\<rparr>, ROOM_ROLE_MEMBER)"
proof -
  let ?m = "\<lparr>mb_RoomID = r, mb_UserID = sj_UserID s, mb_Role = ROOM_ROLE_MEMBER, mb_JoinedAt = now\<rparr>"
  from assms(1) obtain n1 n2 n3 db1 db2 e where
    s1: "Member_Upsert ?m fl n db = (Inr (), n1, db1)" and s2: "IncrementRoomMemberCount r 1 fl n1 db1 = (Inr (), n2, db2)"
    and s3: "Room_Append [e] fl n2 db2 = (Inr (), n3, db')"
    and v: "v = (room\<lparr>rm_MemberCount := rm_MemberCount room + 1\<rparr>, ROOM_ROLE_MEMBER)"
    unfolding join_new_tx_def tx_inr_then tx_inr_return by auto
  obtain k u where k: "member_key r (sj_UserID s) = Some (k, u)" "map_of (db_rooms db) k \<noteq> None"
     "db2 = add_member k u ROOM_ROLE_MEMBER (pg_time now) db"
    using enroll_success [of ?m fl n db n1 db1 n2 db2] s1 s2 assms(2) by (auto simp: i16_id room_role_defs)
  obtain rw where "db' = db2\<lparr>db_outbox := db_outbox db2 @ [rw]\<rparr>" "ob_id rw \<notin> ob_id ` set (db_outbox db2)"
    using Room_Append_inr [OF s3] by blast
  with k v that show thesis by simp
qed

lemma join_invite_check_same: "join_invite_check t r code room fl n db = (Inr v, n', db') \<Longrightarrow> db' = db"
  by (cases "fst (Invite_Get t code fl n db)"; cases "Invite_Get t code fl n db")
    (auto simp: join_invite_check_def tx_inr dest: Invite_Get_same split: if_splits)

lemma join_tx_success:
  assumes "join_tx c s r code now fl n db = (Inr v, n', db')"
  obtains (existing) m w where "find_member r (sj_UserID s) db = Some m" "db' = db"
      "find_room r db = Some w" "v = (scanRoom w, mb_Role m)"
  | (joined) k u w rw where "find_member r (sj_UserID s) db = None" "member_key r (sj_UserID s) = Some (k, u)"
      "map_of (db_rooms db) k = Some w" "rm_MemberCount w < rm_MaxMembers w"
      "ob_id rw \<notin> ob_id ` set (db_outbox db)"
      "db' = (add_member k u ROOM_ROLE_MEMBER (pg_time now) db)\<lparr>db_outbox := db_outbox db @ [rw]\<rparr>"
      "v = ((scanRoom w)\<lparr>rm_MemberCount := rm_MemberCount w + 1\<rparr>, ROOM_ROLE_MEMBER)"
proof -
  from assms obtain n1 w where w: "find_room r db = Some w" "\<not> IsFull (scanRoom w)"
    and rest: "case find_member r (sj_UserID s) db of
        None \<Rightarrow> join_new_tx c s r now (scanRoom w) fl n1 db = (Inr v, n', db')
      | Some m \<Rightarrow> v = (scanRoom w, mb_Role m) \<and> db' = db"
    unfolding join_tx_def
    by (cases "find_member r (sj_UserID s) db")
      (auto simp: tx_inr_bind tx_inr_then tx_inr_when tx_inr_return GetByID_inr Member_lookup_inr
        dest!: join_invite_check_same)
  have cnt: "rm_MemberCount w < rm_MaxMembers w" "rm_MemberCount (scanRoom w) = rm_MemberCount w"
    using w(2) by (simp_all add: IsFull_def scanRoom_def)
  show thesis
  proof (cases "find_member r (sj_UserID s) db")
    case None
    with rest have j: "join_new_tx c s r now (scanRoom w) fl n1 db = (Inr v, n', db')" by simp
    obtain k u rw where k: "member_key r (sj_UserID s) = Some (k, u)" "map_of (db_rooms db) k \<noteq> None"
      "ob_id rw \<notin> ob_id ` set (db_outbox db)"
      "db' = (add_member k u ROOM_ROLE_MEMBER (pg_time now) db)\<lparr>db_outbox := db_outbox db @ [rw]\<rparr>"
      "v = ((scanRoom w)\<lparr>rm_MemberCount := rm_MemberCount (scanRoom w) + 1\<rparr>, ROOM_ROLE_MEMBER)"
      using join_new_tx_success [OF j None] .
    have "map_of (db_rooms db) k = Some w" using w(1) k(1) by (simp add: find_room_def member_key_Some)
    then show thesis using joined None k cnt by simp
  next
    case (Some m)
    then show thesis using rest w(1) by (simp add: existing)
  qed
qed

lemma delete_tx_success:
  assumes "delete_tx c s r fl n db = (Inr v, n', db')"
  obtains k rw where "char_col 26 r = Some k" "ob_id rw \<notin> ob_id ` set (db_outbox db)"
    "db' = (remove_room k db)\<lparr>db_outbox := db_outbox db @ [rw]\<rparr>"
    "sj_SystemRole s \<ge> SYSTEM_ROLE_ADMINISTRATOR \<or>
       (\<exists>m. find_member r (sj_UserID s) db = Some m \<and> mb_Role m \<ge> ROOM_ROLE_OWNER)"
proof -
  from assms obtain n1 n2 n3 n4 db1 db2 e where auth: "sj_SystemRole s \<ge> SYSTEM_ROLE_ADMINISTRATOR \<or>
       (\<exists>m. find_member r (sj_UserID s) db = Some m \<and> mb_Role m \<ge> ROOM_ROLE_OWNER)"
    and s1: "RoomRepo_Delete r fl n1 db = (Inr (), n2, db1)" and s2: "Room_Append [e] fl n2 db1 = (Inr v, n', db')"
    and e: "ev_AggregateID e = r"
    unfolding delete_tx_def by (auto simp: tx_inr_then requireRoomRole_inr room_event_def split: if_splits)
  obtain rw where rw: "db' = db1\<lparr>db_outbox := db_outbox db1 @ [rw]\<rparr>" "ob_id rw \<notin> ob_id ` set (db_outbox db1)"
      and row: "outbox_row_of e (if ev_Key e = '''' then ev_AggregateID e else ev_Key e) = Some rw"
    using Room_Append_inr [OF s2] by blast
  from row e obtain k where k: "char_col 26 r = Some k" by (auto simp: outbox_row_of_def split: option.splits)
  then have "db1 = remove_room k db" using s1 by (simp add: RoomRepo_Delete_def tx_inr remove_room_def)
  moreover have "db_outbox (remove_room k db) = db_outbox db" by (simp add: remove_room_def)
  ultimately show thesis using that k rw auth by simp
qed

lemma update_tx_success:
  assumes "update_tx c s req fl n db = (Inr room, n', db')"
  obtains k old w where "char_col 26 (ur_Id req) = Some k" "map_of (db_rooms db) k = Some old"
    "sj_SystemRole s \<ge> SYSTEM_ROLE_ADMINISTRATOR \<or>
       (\<exists>m. find_member (ur_Id req) (sj_UserID s) db = Some m \<and> mb_Role m \<ge> ROOM_ROLE_OWNER)"
    "room = ApplyUpdate (rq_lower c) (rq_rand c 0) (rq_now c 0) (ur_Name req) (ur_Description req)
              (map_option i8 (ur_Visibility req)) (ur_MaxMembers req) (scanRoom old)"
    "rm_ID old = k \<longrightarrow> room_row_of (room\<lparr>rm_ID := k, rm_OwnerID := rm_OwnerID old, rm_CreatedAt := rm_CreatedAt old\<rparr>) = Some w \<and>
       \<not> slug_taken k (rm_Slug w) db \<and> db' = db\<lparr>db_rooms := AList.update k w (db_rooms db)\<rparr>"
proof -
  from assms obtain n1 n2 old where f: "find_room (ur_Id req) db = Some old"
    and auth: "sj_SystemRole s \<ge> SYSTEM_ROLE_ADMINISTRATOR \<or>
       (\<exists>m. find_member (ur_Id req) (sj_UserID s) db = Some m \<and> mb_Role m \<ge> ROOM_ROLE_OWNER)"
    and room: "room = ApplyUpdate (rq_lower c) (rq_rand c 0) (rq_now c 0) (ur_Name req) (ur_Description req)
              (map_option i8 (ur_Visibility req)) (ur_MaxMembers req) (scanRoom old)"
    and upd: "RoomRepo_Update room fl n1 db = (Inr (), n2, db')"
    unfolding update_tx_def
    by (auto simp: tx_inr_bind tx_inr_then tx_inr_return GetByID_inr requireRoomRole_inr Let_def split: if_splits)
  obtain k where k: "char_col 26 (ur_Id req) = Some k" "map_of (db_rooms db) k = Some old"
    using f by (auto simp: find_room_def split: option.splits)
  have "\<exists>w. rm_ID old = k \<longrightarrow> room_row_of (room\<lparr>rm_ID := k, rm_OwnerID := rm_OwnerID old, rm_CreatedAt := rm_CreatedAt old\<rparr>) = Some w \<and>
       \<not> slug_taken k (rm_Slug w) db \<and> db' = db\<lparr>db_rooms := AList.update k w (db_rooms db)\<rparr>"
  proof (cases "rm_ID old = k")
    case True
    then have "rm_ID room = k" by (simp add: room scanRoom_def)
    moreover have "char_col 26 k = Some k" using k(1) by (rule char_col_idem)
    ultimately show ?thesis using upd k(2)
      by (auto simp: RoomRepo_Update_def tx_inr find_room_def split: option.splits if_splits)
  qed auto
  with that k auth room show thesis by blast
qed

definition insert_room :: "string \<Rightarrow> Room \<Rightarrow> room_db \<Rightarrow> room_db" where
  "insert_room k w db = db\<lparr>db_rooms := db_rooms db @ [(k, w)]\<rparr>"

lemma RoomRepo_Create_inr:
  "RoomRepo_Create r fl n db = (Inr v, n', db') \<Longrightarrow>
   \<exists>w. room_row_of r = Some w \<and> map_of (db_rooms db) (rm_ID w) = None \<and> \<not> slug_taken (rm_ID w) (rm_Slug w) db \<and>
     db' = insert_room (rm_ID w) w db"
  by (auto simp: RoomRepo_Create_def tx_inr insert_room_def split: option.splits if_splits)

lemma Invite_Create_inr:
  "Invite_Create code r None fl n db = (Inr v, n', db') \<Longrightarrow>
   \<exists>c k. char_col 26 r = Some k \<and> varchar_col 32 code = Some c \<and> map_of (db_invites db) c = None \<and>
     map_of (db_rooms db) k \<noteq> None \<and> db' = db\<lparr>db_invites := db_invites db @ [(c, k, None)]\<rparr>"
  by (auto simp: Invite_Create_def tx_inr split: option.splits if_splits prod.splits) (metis option.exhaust surj_pair)

lemma room_row_of_ID: "room_row_of r = Some w \<Longrightarrow> char_col 26 (rm_ID r) = Some (rm_ID w) \<and> rm_MemberCount w = rm_MemberCount r \<and>
    char_col 26 (rm_OwnerID r) = Some (rm_OwnerID w)"
  by (auto simp: room_row_of_def split: option.splits if_splits)

text \<open>Members, permissions and invites refer to rooms that exist.\<close>

definition refs_ok :: "room_db \<Rightarrow> bool" where
  "refs_ok db \<longleftrightarrow>
     (\<forall>k u m. map_of (db_members db) (k, u) = Some m \<longrightarrow> mb_RoomID m = k \<and> mb_UserID m = u \<and> map_of (db_rooms db) k \<noteq> None) \<and>
     (\<forall>k u p. map_of (db_perms db) (k, u) = Some p \<longrightarrow> map_of (db_members db) (k, u) \<noteq> None) \<and>
     (\<forall>c k t. map_of (db_invites db) c = Some (k, t) \<longrightarrow> map_of (db_rooms db) k \<noteq> None)"

lemma create_tx_success:
  assumes "create_tx c s room fl n db = (Inr v, n', db')" "refs_ok db"
  obtains k u w rw inv where "room_row_of room = Some w" "k = rm_ID w" "map_of (db_rooms db) k = None"
    "\<not> slug_taken k (rm_Slug w) db" "member_key (rm_ID room) (sj_UserID s) = Some (k, u)"
    "inv = [] \<or> (\<exists>code. inv = [(code, k, None)] \<and> map_of (db_invites db) code = None)"
    "ob_id rw \<notin> ob_id ` set (db_outbox db)"
    "outbox_row_of (room_event (rq_newID c 1) ''room.created.v1'' (rm_ID room)
          [(''room_id'', JStr (rm_ID room)), (''slug'', JStr (rm_Slug room)), (''name'', JStr (rm_Name room)),
           (''owner_id'', JStr (rm_OwnerID room)), (''visibility'', JInt (rm_Visibility room))] (rq_now c 2)) (rm_ID room) = Some rw"
    "db' = (add_member k u ROOM_ROLE_OWNER (pg_time (rq_now c 1)) (insert_room k w db))
       \<lparr>db_invites := db_invites db @ inv, db_outbox := db_outbox db @ [rw]\<rparr>"
proof -
  let ?m = "\<lparr>mb_RoomID = rm_ID room, mb_UserID = sj_UserID s, mb_Role = ROOM_ROLE_OWNER, mb_JoinedAt = rq_now c 1\<rparr>"
  let ?e = "room_event (rq_newID c 1) ''room.created.v1'' (rm_ID room)
          [(''room_id'', JStr (rm_ID room)), (''slug'', JStr (rm_Slug room)), (''name'', JStr (rm_Name room)),
           (''owner_id'', JStr (rm_OwnerID room)), (''visibility'', JInt (rm_Visibility room))] (rq_now c 2)"
  let ?i = "if RequiresInvite room \<or> rm_Visibility room = VisibilityUnlisted
              then Invite_Create (GenerateInviteCode (rq_rand c 1)) (rm_ID room) None else tx_return ()"
  from assms(1) obtain n1 n2 n3 n4 db1 db2 db3 db4 where
    s1: "RoomRepo_Create room fl n db = (Inr (), n1, db1)" and s2: "Member_Upsert ?m fl n1 db1 = (Inr (), n2, db2)"
    and s3: "IncrementRoomMemberCount (rm_ID room) 1 fl n2 db2 = (Inr (), n3, db3)"
    and s4: "?i fl n3 db3 = (Inr (), n4, db4)" and s5: "Room_Append [?e] fl n4 db4 = (Inr v, n', db')"
    unfolding create_tx_def tx_inr_then by blast
  obtain w where w: "room_row_of room = Some w" "map_of (db_rooms db) (rm_ID w) = None"
      "\<not> slug_taken (rm_ID w) (rm_Slug w) db" "db1 = insert_room (rm_ID w) w db"
    using RoomRepo_Create_inr [OF s1] by blast
  let ?k = "rm_ID w"
  have ck: "char_col 26 (rm_ID room) = Some ?k" using room_row_of_ID [OF w(1)] by simp
  have nm: "map_of (db_members db) (?k, u) = None" for u
    using assms(2) w(2) unfolding refs_ok_def by (metis option.exhaust)
  have "find_member (rm_ID room) (sj_UserID s) db1 = None"
    using nm ck by (auto simp: find_member_def member_key_def w(4) insert_room_def split: option.splits)
  with enroll_success [of ?m fl n1 db1 n2 db2 n3 db3] s2 s3 obtain k u where
    k: "member_key (rm_ID room) (sj_UserID s) = Some (k, u)"
      "db3 = add_member k u (i16 ROOM_ROLE_OWNER) (pg_time (rq_now c 1)) db1"
      and "map_of (db_rooms db1) k \<noteq> None" by auto
  have kk: "k = ?k" using k(1) ck by (simp add: member_key_Some)
  have inv3: "db_invites db3 = db_invites db" "db_outbox db3 = db_outbox db"
    by (simp_all add: k(2) w(4) add_member_def bump_count_def insert_room_def split: option.split)
  have "(\<exists>code. db4 = db3\<lparr>db_invites := db_invites db @ [(code, ?k, None)]\<rparr> \<and> map_of (db_invites db) code = None) \<or>
      db4 = db3\<lparr>db_invites := db_invites db @ []\<rparr>"
    using s4 ck inv3 by (auto simp: tx_inr_return dest!: Invite_Create_inr split: if_splits)
  then obtain inv where inv: "inv = [] \<or> (\<exists>code. inv = [(code, ?k, None)] \<and> map_of (db_invites db) code = None)"
      "db4 = db3\<lparr>db_invites := db_invites db @ inv\<rparr>" by blast
  obtain rw where "db' = db4\<lparr>db_outbox := db_outbox db4 @ [rw]\<rparr>" "ob_id rw \<notin> ob_id ` set (db_outbox db4)"
      "outbox_row_of ?e (if ev_Key ?e = '''' then ev_AggregateID ?e else ev_Key ?e) = Some rw"
    using Room_Append_inr [OF s5] by blast
  moreover have "(if ev_Key ?e = '''' then ev_AggregateID ?e else ev_Key ?e) = rm_ID room"
    by (simp add: room_event_def)
  moreover have "i16 ROOM_ROLE_OWNER = ROOM_ROLE_OWNER" by (simp add: room_role_defs i16_id)
  ultimately show thesis using that [OF w(1) refl w(2,3) _ inv(1)] k kk inv(2) inv3 w(4) by auto
qed

lemma role_tx_success:
  assumes "role_tx s r t newRole fl n db = (Inr v, n', db')"
  obtains k a w by_m tg where "member_key r (sj_UserID s) = Some (k, a)" "map_of (db_members db) (k, a) = Some by_m"
    "CanPromote (mb_Role by_m) newRole" "member_key r t = Some (k, w)" "map_of (db_members db) (k, w) = Some tg"
    "v = tg\<lparr>mb_Role := newRole\<rparr>"
    "db' = db\<lparr>db_members := AList.map_entry (k, w) (\<lambda>m. m\<lparr>mb_Role := i16 newRole\<rparr>) (db_members db)\<rparr>"
proof -
  from assms obtain n1 n2 by_m tg where f: "find_member r (sj_UserID s) db = Some by_m" "find_member r t db = Some tg"
      "CanPromote (mb_Role by_m) newRole" "v = tg\<lparr>mb_Role := newRole\<rparr>"
    and rest: "Member_UpdateRole r t newRole fl n1 db = (Inr (), n2, db')"
    unfolding role_tx_def by (auto simp: tx_inr_bind tx_inr_then tx_inr_when tx_inr_return member_or_inr)
  obtain k a where k: "member_key r (sj_UserID s) = Some (k, a)" "char_col 26 r = Some k" "map_of (db_members db) (k, a) = Some by_m"
    using f(1) by (rule member_keyE)
  obtain k' w where k': "member_key r t = Some (k', w)" "char_col 26 r = Some k'" "map_of (db_members db) (k', w) = Some tg"
    using f(2) by (rule member_keyE)
  have "db' = db\<lparr>db_members := AList.map_entry (k', w) (\<lambda>m. m\<lparr>mb_Role := i16 newRole\<rparr>) (db_members db)\<rparr>"
    using rest k'(1) by (simp add: Member_UpdateRole_def tx_inr)
  with that k k' f(3,4) show thesis by simp
qed

lemma grant_tx_success:
  assumes "grant_tx c s r t perms fl n db = (Inr v, n', db')"
  obtains k w room tg where "find_room r db = Some room" "rm_OwnerID room = sj_UserID s" "t \<noteq> sj_UserID s"
    "member_key r t = Some (k, w)" "map_of (db_members db) (k, w) = Some tg"
    "db' = db\<lparr>db_perms := AList.update (k, w) (perm_to_i16 perms, rq_dbnow c) (db_perms db)\<rparr>"
proof -
  from assms obtain n1 n2 room tg where f: "find_room r db = Some room" "rm_OwnerID room = sj_UserID s" "t \<noteq> sj_UserID s"
      "find_member r t db = Some tg"
    and rest: "Permission_Set (rq_dbnow c) r t perms fl n1 db = (Inr (), n2, db')"
    unfolding grant_tx_def by (auto simp: tx_inr_bind tx_inr_then tx_inr_when GetByID_inr member_or_inr scanRoom_def)
  obtain k w where k: "member_key r t = Some (k, w)" "map_of (db_members db) (k, w) = Some tg"
    using f(4) by (rule member_keyE)
  have "db' = db\<lparr>db_perms := AList.update (k, w) (perm_to_i16 perms, rq_dbnow c) (db_perms db)\<rparr>"
    using rest k(1) by (auto simp: Permission_Set_def tx_inr split: if_splits)
  with that f k show thesis by simp
qed

section \<open>The invariant\<close>

definition members_of :: "string \<Rightarrow> room_db \<Rightarrow> string set" where
  "members_of k db = {u. map_of (db_members db) (k, u) \<noteq> None}"

definition keys_ok :: "room_db \<Rightarrow> bool" where
  "keys_ok db \<longleftrightarrow> distinct (map fst (db_rooms db)) \<and> distinct (map fst (db_members db)) \<and>
     distinct (map fst (db_invites db)) \<and> distinct (map fst (db_perms db))"

text \<open>Rows are filed under their padded identifier; the denormalised count is the number of members.\<close>

definition counts_ok :: "room_db \<Rightarrow> bool" where
  "counts_ok db \<longleftrightarrow> (\<forall>k r. map_of (db_rooms db) k = Some r \<longrightarrow>
     rm_ID r = k \<and> length (rm_OwnerID r) = 26 \<and> rm_MemberCount r = int (card (members_of k db)))"

definition slugs_ok :: "room_db \<Rightarrow> bool" where
  "slugs_ok db \<longleftrightarrow> (\<forall>k k' r r'. map_of (db_rooms db) k = Some r \<longrightarrow> map_of (db_rooms db) k' = Some r' \<longrightarrow>
     rm_Slug r = rm_Slug r' \<longrightarrow> k = k')"

definition room_inv :: "room_db \<Rightarrow> bool" where
  "room_inv db \<longleftrightarrow> keys_ok db \<and> counts_ok db \<and> slugs_ok db \<and> refs_ok db \<and> outbox_ok (db_outbox db)"

lemma room_inv_empty: "room_inv empty_room_db"
  by (simp add: room_inv_def empty_room_db_def keys_ok_def counts_ok_def slugs_ok_def refs_ok_def outbox_ok_def)

lemma finite_members_of [simp]: "finite (members_of k db)"
proof -
  have "members_of k db \<subseteq> snd ` dom (map_of (db_members db))"
    by (force simp: members_of_def)
  then show ?thesis using finite_dom_map_of finite_surj by blast
qed

text \<open>The tables as maps: how each operation changes them.\<close>

lemma bump_count_simps [simp]:
  "map_of (db_rooms (bump_count k d db)) =
     (case map_of (db_rooms db) k of None \<Rightarrow> map_of (db_rooms db)
      | Some r \<Rightarrow> (map_of (db_rooms db))(k \<mapsto> r\<lparr>rm_MemberCount := rm_MemberCount r + d\<rparr>))"
  "db_members (bump_count k d db) = db_members db" "db_perms (bump_count k d db) = db_perms db"
  "db_invites (bump_count k d db) = db_invites db" "db_outbox (bump_count k d db) = db_outbox db"
  "distinct (map fst (db_rooms db)) \<Longrightarrow> distinct (map fst (db_rooms (bump_count k d db)))"
  by (auto simp: bump_count_def update_conv' distinct_update split: option.split)

lemma slug_takenD: "\<not> slug_taken k sl db \<Longrightarrow> map_of (db_rooms db) k' = Some r \<Longrightarrow> k' \<noteq> k \<Longrightarrow> rm_Slug r \<noteq> sl"
  by (auto simp: slug_taken_def list_ex_iff dest: map_of_SomeD)

lemmas table_simps = update_conv' delete_conv' map_of_filter_key map_of_map_entry

lemma add_member_inv:
  assumes "room_inv db" "map_of (db_rooms db) k \<noteq> None" "map_of (db_members db) (k, u) = None"
  shows "room_inv (add_member k u role t db)"
proof -
  from assms(2) obtain w where w: "map_of (db_rooms db) k = Some w" by blast
  have mem: "members_of j (add_member k u role t db) = (if j = k then insert u (members_of k db) else members_of j db)" for j
    by (auto simp: members_of_def add_member_def update_conv')
  have "u \<notin> members_of k db" using assms(3) by (simp add: members_of_def)
  then have "counts_ok (add_member k u role t db)"
    using assms(1) w by (auto simp: counts_ok_def room_inv_def mem) (auto simp: add_member_def split: if_splits)
  moreover have "keys_ok (add_member k u role t db)" using assms(1)
    by (simp add: keys_ok_def room_inv_def add_member_def distinct_update)
  moreover have "slugs_ok (add_member k u role t db)" using assms(1) w
    by (auto simp: slugs_ok_def room_inv_def add_member_def split: if_splits)
  moreover have "refs_ok (add_member k u role t db)" using assms(1) w
    unfolding refs_ok_def room_inv_def by (auto simp: add_member_def update_conv' split: if_splits)
  ultimately show ?thesis using assms(1) by (simp add: room_inv_def)
qed

lemma remove_member_inv:
  assumes "room_inv db" "map_of (db_members db) (k, u) \<noteq> None"
  shows "room_inv (remove_member k u db)"
proof -
  from assms obtain w where w: "map_of (db_rooms db) k = Some w"
    unfolding room_inv_def refs_ok_def by blast
  have mem: "members_of j (remove_member k u db) = (if j = k then members_of k db - {u} else members_of j db)" for j
    by (auto simp: members_of_def remove_member_def delete_conv')
  have "u \<in> members_of k db" using assms(2) by (simp add: members_of_def)
  then have "int (card (members_of k db - {u})) = int (card (members_of k db)) - 1"
    by (simp add: card_Diff_singleton card_gt_0_iff of_nat_diff Suc_leI) (metis One_nat_def Suc_leI card_gt_0_iff empty_iff finite_members_of of_nat_1 of_nat_diff)
  then have "counts_ok (remove_member k u db)"
    using assms(1) w by (auto simp: counts_ok_def room_inv_def mem) (auto simp: remove_member_def split: if_splits)
  moreover have "keys_ok (remove_member k u db)" using assms(1)
    by (simp add: keys_ok_def room_inv_def remove_member_def distinct_delete)
  moreover have "slugs_ok (remove_member k u db)" using assms(1) w
    by (auto simp: slugs_ok_def room_inv_def remove_member_def split: if_splits)
  moreover have "refs_ok (remove_member k u db)" using assms(1) w
    unfolding refs_ok_def room_inv_def by (auto simp: remove_member_def delete_conv' split: if_splits)
  ultimately show ?thesis using assms(1) by (simp add: room_inv_def remove_member_def)
qed

lemma remove_room_inv:
  assumes "room_inv db" shows "room_inv (remove_room k db)"
proof -
  have m: "map_of (db_members (remove_room k db)) (j, u) = (if j = k then None else map_of (db_members db) (j, u))" for j u
    using map_of_filter_key [of "\<lambda>x. fst x \<noteq> k" "db_members db" "(j, u)"] by (simp add: remove_room_def)
  have p: "map_of (db_perms (remove_room k db)) (j, u) = (if j = k then None else map_of (db_perms db) (j, u))" for j u
    using map_of_filter_key [of "\<lambda>x. fst x \<noteq> k" "db_perms db" "(j, u)"] by (simp add: remove_room_def)
  have r: "map_of (db_rooms (remove_room k db)) = (map_of (db_rooms db))(k := None)"
    by (simp add: remove_room_def delete_conv')
  have i: "map_of (db_invites (remove_room k db)) c = Some (j, t) \<Longrightarrow> map_of (db_invites db) c = Some (j, t) \<and> j \<noteq> k" for c j t
    using assms unfolding room_inv_def keys_ok_def remove_room_def
    by (auto dest!: map_of_SomeD)
  have mem: "j \<noteq> k \<Longrightarrow> members_of j (remove_room k db) = members_of j db" for j by (simp add: members_of_def m)
  have "keys_ok (remove_room k db)" using assms
    by (simp add: keys_ok_def room_inv_def remove_room_def distinct_delete distinct_filter_key)
  moreover have "counts_ok (remove_room k db)" using assms
    by (auto simp: counts_ok_def room_inv_def r mem split: if_splits)
  moreover have "slugs_ok (remove_room k db)" using assms
    by (auto simp: slugs_ok_def room_inv_def r split: if_splits)
  moreover have "refs_ok (remove_room k db)" using assms
    unfolding refs_ok_def room_inv_def by (auto simp: r m p dest!: i split: if_splits) blast
  ultimately show ?thesis using assms by (simp add: room_inv_def remove_room_def)
qed

lemma insert_room_inv:
  assumes "room_inv db" "map_of (db_rooms db) (rm_ID w) = None" "\<not> slug_taken (rm_ID w) (rm_Slug w) db" "rm_MemberCount w = 0"
    "length (rm_OwnerID w) = 26"
  shows "room_inv (insert_room (rm_ID w) w db)"
proof -
  let ?k = "rm_ID w"
  have r: "map_of (db_rooms (insert_room ?k w db)) = (map_of (db_rooms db))(?k \<mapsto> w)"
    using assms(2) by (auto simp: insert_room_def map_add_def fun_eq_iff split: option.split)
  have "map_of (db_members db) (?k, u) = None" for u
    using assms(1,2) unfolding room_inv_def refs_ok_def by (metis option.exhaust)
  then have "members_of ?k (insert_room ?k w db) = {}" by (simp add: members_of_def insert_room_def)
  moreover have "members_of j (insert_room ?k w db) = members_of j db" for j by (simp add: members_of_def insert_room_def)
  ultimately have "counts_ok (insert_room ?k w db)" using assms(1,4,5)
    by (auto simp: counts_ok_def room_inv_def r split: if_splits)
  moreover have "keys_ok (insert_room ?k w db)" using assms(1,2)
    by (auto simp: keys_ok_def room_inv_def insert_room_def map_of_eq_None_iff)
  moreover have "slugs_ok (insert_room ?k w db)" using assms(1) slug_takenD [OF assms(3)]
    unfolding slugs_ok_def room_inv_def r by (metis fun_upd_apply option.inject)
  moreover have "refs_ok (insert_room ?k w db)" using assms(1)
    unfolding refs_ok_def room_inv_def r by (auto simp: insert_room_def)
  ultimately show ?thesis using assms(1) by (simp add: room_inv_def insert_room_def)
qed

lemma update_room_inv:
  assumes "room_inv db" "map_of (db_rooms db) k = Some old" "\<not> slug_taken k (rm_Slug w) db"
    "rm_MemberCount w = rm_MemberCount old" "rm_ID w = k" "length (rm_OwnerID w) = 26"
  shows "room_inv (db\<lparr>db_rooms := AList.update k w (db_rooms db)\<rparr>)" (is "room_inv ?db")
proof -
  have "members_of j ?db = members_of j db" for j by (simp add: members_of_def)
  then have "counts_ok ?db" using assms(1,2,4,5,6) by (auto simp: counts_ok_def room_inv_def update_conv')
  moreover have "keys_ok ?db" using assms(1) by (simp add: keys_ok_def room_inv_def distinct_update)
  moreover have "slugs_ok ?db" using assms(1) slug_takenD [OF assms(3)]
    unfolding slugs_ok_def room_inv_def by (simp add: update_conv') metis
  moreover have "refs_ok ?db" using assms(1) unfolding refs_ok_def room_inv_def by (auto simp: update_conv')
  ultimately show ?thesis using assms(1) by (simp add: room_inv_def)
qed

lemma set_role_inv:
  assumes "room_inv db"
  shows "room_inv (db\<lparr>db_members := AList.map_entry (k, u) (\<lambda>m. m\<lparr>mb_Role := role\<rparr>) (db_members db)\<rparr>)" (is "room_inv ?db")
proof -
  have m: "map_of (db_members ?db) x = (if x = (k, u) then map_option (\<lambda>m. m\<lparr>mb_Role := role\<rparr>) (map_of (db_members db) x)
      else map_of (db_members db) x)" for x
    by (auto simp: map_of_map_entry split: option.split)
  have mem: "members_of j ?db = members_of j db" for j unfolding members_of_def m by auto
  have "keys_ok ?db" using assms by (simp add: keys_ok_def room_inv_def distinct_map_entry)
  moreover have "counts_ok ?db" using assms by (simp add: counts_ok_def room_inv_def mem)
  moreover have "slugs_ok ?db" using assms by (simp add: slugs_ok_def room_inv_def)
  moreover have "refs_ok ?db" using assms unfolding refs_ok_def room_inv_def m by (auto split: if_splits)
  ultimately show ?thesis using assms by (simp add: room_inv_def)
qed

lemma irrelevant_tables [simp]:
  "members_of k (db\<lparr>db_outbox := x\<rparr>) = members_of k db" "keys_ok (db\<lparr>db_outbox := x\<rparr>) = keys_ok db"
  "counts_ok (db\<lparr>db_outbox := x\<rparr>) = counts_ok db" "slugs_ok (db\<lparr>db_outbox := x\<rparr>) = slugs_ok db"
  "refs_ok (db\<lparr>db_outbox := x\<rparr>) = refs_ok db"
  "counts_ok (db\<lparr>db_perms := p\<rparr>) = counts_ok db" "slugs_ok (db\<lparr>db_perms := p\<rparr>) = slugs_ok db"
  "counts_ok (db\<lparr>db_invites := i\<rparr>) = counts_ok db" "slugs_ok (db\<lparr>db_invites := i\<rparr>) = slugs_ok db"
  by (simp_all add: keys_ok_def counts_ok_def slugs_ok_def refs_ok_def members_of_def)

lemma set_perm_inv:
  assumes "room_inv db" "map_of (db_members db) (k, u) \<noteq> None"
  shows "room_inv (db\<lparr>db_perms := AList.update (k, u) p (db_perms db)\<rparr>)" (is "room_inv ?db")
proof -
  have "refs_ok db \<Longrightarrow> refs_ok ?db" using assms(2) unfolding refs_ok_def by (auto simp: update_conv' split: if_splits)
  moreover have "keys_ok db \<Longrightarrow> keys_ok ?db" by (simp add: keys_ok_def distinct_update)
  ultimately show ?thesis using assms(1) by (simp add: room_inv_def)
qed

lemma outbox_inv:
  assumes "room_inv db" "ob_id rw \<notin> ob_id ` set (db_outbox db)"
  shows "room_inv (db\<lparr>db_outbox := db_outbox db @ [rw]\<rparr>)"
  using assms by (simp add: room_inv_def outbox_ok_def)

lemma invites_inv:
  assumes "room_inv db" "new = [] \<or> (\<exists>code. new = [(code, k, None)] \<and> map_of (db_invites db) code = None)"
    "map_of (db_rooms db) k \<noteq> None"
  shows "room_inv (db\<lparr>db_invites := db_invites db @ new\<rparr>)"
proof -
  have "refs_ok db \<Longrightarrow> refs_ok (db\<lparr>db_invites := db_invites db @ new\<rparr>)"
    using assms(2,3) unfolding refs_ok_def by (auto simp: map_add_def split: if_splits option.splits)
  moreover have "keys_ok db \<Longrightarrow> keys_ok (db\<lparr>db_invites := db_invites db @ new\<rparr>)"
    using assms(2) by (auto simp: keys_ok_def map_of_eq_None_iff rev_image_eqI)
  ultimately show ?thesis using assms(1) by (simp add: room_inv_def)
qed

end
