(* ===== verification/Room_Properties.thy ===== *)
theory Room_Properties
  imports Room_Invariant Vb_History
begin

text \<open>
  The room service as a whole: all calls as one datatype of requests, histories of calls and relay
  runs, and the invariant in every history.
\<close>

section \<open>Requests\<close>

datatype room_request =
    ReqCreateRoom CreateRoomRequest
  | ReqGetRoom faults room_lookup
  | ReqListRooms "string \<Rightarrow> string \<Rightarrow> bool" "(string \<times> u32) option" string
  | ReqJoinRoom string string
  | ReqUpdateRoom UpdateRoomRequest
  | ReqDeleteRoom string
  | ReqLeaveRoom string
  | ReqGetMembers string
  | ReqKickMember string string
  | ReqUpdateMemberRole string string int
  | ReqGrantPermissions string string "int list"
  | ReqGetMemberPermissions string string

fun room_exec :: "call \<Rightarrow> room_request \<Rightarrow> room_db \<Rightarrow> go_error option \<times> room_db" where
  "room_exec c (ReqCreateRoom req) db = outcome (CreateRoom c req db)"
| "room_exec c (ReqGetRoom fl l) db = outcome (GetRoom c fl l db)"
| "room_exec c (ReqListRooms matches page search) db = outcome (ListRooms matches c page search db)"
| "room_exec c (ReqJoinRoom r code) db = outcome (JoinRoom c r code db)"
| "room_exec c (ReqUpdateRoom req) db = outcome (UpdateRoom c req db)"
| "room_exec c (ReqDeleteRoom r) db = outcome (DeleteRoom c r db)"
| "room_exec c (ReqLeaveRoom r) db = outcome (LeaveRoom c r db)"
| "room_exec c (ReqGetMembers r) db = outcome (GetMembers c r db)"
| "room_exec c (ReqKickMember r u) db = outcome (KickMember c r u db)"
| "room_exec c (ReqUpdateMemberRole r u role) db = outcome (UpdateMemberRole c r u role db)"
| "room_exec c (ReqGrantPermissions r u ps) db = outcome (GrantPermissions c r u ps db)"
| "room_exec c (ReqGetMemberPermissions r u) db = outcome (GetMemberPermissions c r u db)"

section \<open>What a successful call did\<close>

text \<open>One case per request that can change the tables; the others leave them alone.\<close>

lemma GetRoom_same: "snd (GetRoom c fl l db) = db"
proof -
  have "get_room_tx l f n db = (Inr v, n', db') \<Longrightarrow> db' = db" for f n v n' db'
    by (auto simp: get_room_tx_def GetBySlug_def tx_inr split: room_lookup.splits list.splits)
  then have "run_tx (get_room_tx l) f db = (r, db') \<Longrightarrow> db' = db" for f r db'
    by (cases r) (auto simp: run_tx_inr dest: run_tx_error)
  then show ?thesis
    by (auto simp: GetRoom_def ctxDone_def map_error_def Let_def split: option.splits prod.splits sum.splits if_splits)
qed

lemma ListRooms_same: "snd (ListRooms matches c page search db) = db"
proof -
  have "run_tx (RoomRepo_List matches U cur l search vs) f db = (r, db') \<Longrightarrow> db' = db" for U cur l vs f r db'
    by (cases r) (auto simp: run_tx_inr RoomRepo_List_def Let_def tx_inr dest: run_tx_error)
  then have same: "snd (run_tx (RoomRepo_List matches U cur l search vs) f db) = db" for U cur l vs f
    by (metis prod.collapse)
  have unwrap: "snd (case map_error g x of (Inl err, d) \<Rightarrow> (Inl err, d) | (Inr (a, b), d) \<Rightarrow> (Inr (h a b), d)) = snd x"
    for g x and h :: "'a \<Rightarrow> 'b \<Rightarrow> 'c"
    by (auto simp: map_error_def split: prod.splits sum.splits)
  show ?thesis
    unfolding ListRooms_def Let_def ctxDone_def
    by (cases "rq_ctxErr c") (simp_all only: option.case unwrap same snd_conv)
qed

lemma Member_List_inr [tx_inr]:
  "Member_List r fl n db = (Inr ms, n', db') \<longleftrightarrow> fl n = None \<and> n' = n + 1 \<and> db' = db \<and>
     ms = sort_key mb_JoinedAt (filter (\<lambda>m. char_col 26 r = Some (mb_RoomID m)) (map snd (db_members db)))"
  by (auto simp: Member_List_def tx_inr)

lemma memberPermissionsFor_same: "memberPermissionsFor r fl n db = (Inr ps, n', db') \<Longrightarrow> db' = db"
  by (simp add: memberPermissionsFor_def Permission_ListByRoom_def tx_inr)

lemma members_tx_inr:
  assumes "members_tx s r fl n db = (Inr v, n', db')"
  shows "db' = db \<and> (sj_SystemRole s \<ge> SYSTEM_ROLE_ADMINISTRATOR \<or> find_member r (sj_UserID s) db \<noteq> None)"
  using assms unfolding members_tx_def
  by (auto simp: tx_inr dest!: memberPermissionsFor_same split: if_splits)

lemma GetMembers_same: "snd (GetMembers c r db) = db"
proof -
  have "run_tx (members_tx s r) f db = (v, db') \<Longrightarrow> db' = db" for s f v db'
    by (cases v) (auto simp: run_tx_inr dest: run_tx_error members_tx_inr)
  then show ?thesis
    by (auto simp: GetMembers_def ctxDone_def split: option.splits prod.splits sum.splits)
qed

lemma Permission_Get_inr [tx_inr]:
  "Permission_Get r u fl n db = (Inr p, n', db') \<longleftrightarrow> fl n = None \<and> n' = n + 1 \<and> db' = db \<and>
     p = (case find_perm r u db of None \<Rightarrow> 0 | Some k \<Rightarrow> perm_of_i16 k)"
  by (auto simp: Permission_Get_def perm_row_query_def tx_defs split: option.splits)

lemma GetMemberPermissions_same: "snd (GetMemberPermissions c r u db) = db"
proof -
  have "run_tx (member_perms_tx r u) f db = (v, db') \<Longrightarrow> db' = db" for f v db'
    by (cases v) (auto simp: run_tx_inr member_perms_tx_def tx_inr dest: run_tx_error split: option.splits)
  then show ?thesis
    by (auto simp: GetMemberPermissions_def ctxDone_def split: option.splits prod.splits sum.splits)
qed

lemmas same_tables = GetRoom_same ListRooms_same GetMembers_same GetMemberPermissions_same

text \<open>Every call runs one transaction, \<open>request_tx\<close>, or none.\<close>

fun request_tx :: "call \<Rightarrow> room_request \<Rightarrow> (room_db, unit) tx" where
  "request_tx c (ReqCreateRoom req) =
     (case NewRoom (rq_lower c) (rq_rand c 0) (rq_now c 0) (rq_newID c 0) (rq_userHeader c)
         \<lparr>np_Name = cr_Name req, np_Description = cr_Description req, np_Visibility = i8 (cr_Visibility req),
          np_MaxMembers = map_option uint (cr_MaxMembers req)\<rparr> of
        Inl e \<Rightarrow> tx_fail e | Inr room \<Rightarrow> create_tx c (subjectFromHeader c) room)"
| "request_tx c (ReqJoinRoom r code) = tx_bind (join_tx c (subjectFromHeader c) r code (rq_now c 0)) (\<lambda>_. tx_return ())"
| "request_tx c (ReqUpdateRoom req) = tx_bind (update_tx c (subjectFromHeader c) req) (\<lambda>_. tx_return ())"
| "request_tx c (ReqDeleteRoom r) = delete_tx c (subjectFromHeader c) r"
| "request_tx c (ReqLeaveRoom r) = leave_tx (subjectFromHeader c) r"
| "request_tx c (ReqKickMember r u) = kick_tx (subjectFromHeader c) r u"
| "request_tx c (ReqUpdateMemberRole r u role) = tx_bind (role_tx (subjectFromHeader c) r u role) (\<lambda>_. tx_return ())"
| "request_tx c (ReqGrantPermissions r u ps) = grant_tx c (subjectFromHeader c) r u (PermissionsFromProto ps)"
| "request_tx c _ = tx_return ()"

lemma room_exec_cases:
  assumes "room_exec c req db = (r, db')"
  shows "case r of Some e \<Rightarrow> db' = db | None \<Rightarrow> \<exists>n. request_tx c req (rq_faults c) 1 db = (Inr (), n, db')"
proof (cases req)
  case (ReqCreateRoom q)
  then show ?thesis using assms
    by (auto simp: CreateRoom_def ctxDone_def Let_def map_error_def outcome_def run_tx_inr
        split: option.splits if_splits sum.splits prod.splits dest: run_tx_error)
next
  case (ReqGetRoom fl l)
  with assms have "db' = db" using same_tables(1) [of c fl l db] by (simp add: snd_outcome prod_eq_iff)
  then show ?thesis by (auto simp: ReqGetRoom tx_inr split: option.split)
next
  case (ReqListRooms m p s)
  with assms have "db' = db" using same_tables(2) [of m c p s db] by (simp add: snd_outcome prod_eq_iff)
  then show ?thesis by (auto simp: ReqListRooms tx_inr split: option.split)
next
  case (ReqGetMembers x)
  with assms have "db' = db" using same_tables(3) [of c x db] by (simp add: snd_outcome prod_eq_iff)
  then show ?thesis by (auto simp: ReqGetMembers tx_inr split: option.split)
next
  case (ReqGetMemberPermissions x y)
  with assms have "db' = db" using same_tables(4) [of c x y db] by (simp add: snd_outcome prod_eq_iff)
  then show ?thesis by (auto simp: ReqGetMemberPermissions tx_inr split: option.split)
qed (use assms in \<open>force simp: JoinRoom_def UpdateRoom_def DeleteRoom_def LeaveRoom_def KickMember_def UpdateMemberRole_def
    GrantPermissions_def ctxDone_def Let_def outcome_def run_tx_inr tx_inr_bind tx_inr_return
    split: option.splits if_splits sum.splits prod.splits dest: run_tx_error\<close>)+

section \<open>Histories\<close>

text \<open>Calls with any input, and runs of the outbox relay; each call is one transaction.\<close>

inductive room_svc_step :: "room_db \<Rightarrow> room_db \<Rightarrow> bool" where
  call: "room_exec c req db = (r, db') \<Longrightarrow> room_svc_step db db'"
| relay: "drainOnce fl locked b now (db_outbox db, klog) = (r, rows, klog') \<Longrightarrow>
    room_svc_step db (db\<lparr>db_outbox := rows\<rparr>)"

inductive_cases room_svc_stepE: "room_svc_step db db'"

lemma NewRoom_count: "NewRoom U rnd now i w p = Inr room \<Longrightarrow> rm_MemberCount room = 0 \<and> rm_ID room = i \<and> rm_OwnerID room = w"
  by (auto simp: NewRoom_def Let_def split: if_splits)

lemma create_tx_inv:
  assumes "create_tx c s room fl n db = (Inr v, n', db')" "room_inv db" "rm_MemberCount room = 0"
  shows "room_inv db'"
proof -
  from assms(2) have "refs_ok db" by (simp add: room_inv_def)
  with assms(1) show ?thesis
  proof (rule create_tx_success)
    fix k u w rw inv'
    assume w: "room_row_of room = Some w" "k = rm_ID w" "map_of (db_rooms db) k = None" "\<not> slug_taken k (rm_Slug w) db"
      and inv': "inv' = [] \<or> (\<exists>code. inv' = [(code, k, None)] \<and> map_of (db_invites db) code = None)"
      and rw: "ob_id rw \<notin> ob_id ` set (db_outbox db)"
      and db': "db' = (add_member k u ROOM_ROLE_OWNER (pg_time (rq_now c 1)) (insert_room k w db))
        \<lparr>db_invites := db_invites db @ inv', db_outbox := db_outbox db @ [rw]\<rparr>"
    let ?d = "add_member k u ROOM_ROLE_OWNER (pg_time (rq_now c 1)) (insert_room k w db)"
    have i: "room_inv (insert_room k w db)"
      using insert_room_inv [of db w] w assms(2,3) room_row_of_ID [OF w(1)] char_col_length [of 26 "rm_OwnerID room" "rm_OwnerID w"] by simp
    have "map_of (db_rooms (insert_room k w db)) k \<noteq> None" by (simp add: insert_room_def)
    moreover have "map_of (db_members (insert_room k w db)) (k, u) = None"
      using \<open>refs_ok db\<close> w(3) unfolding refs_ok_def insert_room_def by (simp, metis option.exhaust option.distinct(1))
    ultimately have d: "room_inv ?d" using add_member_inv [OF i] by blast
    have same: "db_invites ?d = db_invites db" "db_outbox ?d = db_outbox db" "map_of (db_rooms ?d) k \<noteq> None"
      by (simp_all add: add_member_def insert_room_def split: option.split)
    have "room_inv (?d\<lparr>db_invites := db_invites ?d @ inv'\<rparr>)"
      by (rule invites_inv [OF d _ same(3)]) (use inv' same in simp)
    from outbox_inv [OF this, of rw] show ?thesis using rw same db' by simp
  qed
qed

lemma join_inv:
  assumes "request_tx c (ReqJoinRoom r code) fl n db = (Inr (), n', db')" "room_inv db"
  shows "room_inv db'"
proof -
  from assms(1) obtain v n1 where "join_tx c (subjectFromHeader c) r code (rq_now c 0) fl n db = (Inr v, n1, db')"
    by (auto simp: tx_inr_bind tx_inr_return)
  then show ?thesis
  proof (cases rule: join_tx_success)
    case (joined k u w rw)
    have "room_inv (add_member k u ROOM_ROLE_MEMBER (pg_time (rq_now c 0)) db)"
      by (rule add_member_inv [OF assms(2)]) (use joined in \<open>simp_all add: find_member_def\<close>)
    from outbox_inv [OF this, of rw] show ?thesis using joined by simp
  qed (use assms(2) in simp)
qed

lemma update_inv:
  assumes "request_tx c (ReqUpdateRoom q) fl n db = (Inr (), n', db')" "room_inv db"
  shows "room_inv db'"
proof -
  from assms(1) obtain room n1 where "update_tx c (subjectFromHeader c) q fl n db = (Inr room, n1, db')"
    by (auto simp: tx_inr_bind tx_inr_return)
  then show ?thesis
  proof (rule update_tx_success)
    fix k old w
    assume k: "map_of (db_rooms db) k = Some old"
      and room: "room = ApplyUpdate (rq_lower c) (rq_rand c 0) (rq_now c 0) (ur_Name q) (ur_Description q)
              (map_option i8 (ur_Visibility q)) (ur_MaxMembers q) (scanRoom old)"
      and upd: "rm_ID old = k \<longrightarrow> room_row_of (room\<lparr>rm_ID := k, rm_OwnerID := rm_OwnerID old, rm_CreatedAt := rm_CreatedAt old\<rparr>) = Some w \<and>
       \<not> slug_taken k (rm_Slug w) db \<and> db' = db\<lparr>db_rooms := AList.update k w (db_rooms db)\<rparr>"
      and key: "char_col 26 (ur_Id q) = Some k"
    have id: "rm_ID old = k" using assms(2) k by (auto simp: room_inv_def counts_ok_def)
    from upd id have row: "room_row_of (room\<lparr>rm_ID := k, rm_OwnerID := rm_OwnerID old, rm_CreatedAt := rm_CreatedAt old\<rparr>) = Some w"
      and fresh: "\<not> slug_taken k (rm_Slug w) db" and db': "db' = db\<lparr>db_rooms := AList.update k w (db_rooms db)\<rparr>" by auto
    have "rm_MemberCount room = rm_MemberCount old" by (simp add: room scanRoom_def)
    then have "rm_MemberCount w = rm_MemberCount old" "rm_ID w = k" "length (rm_OwnerID w) = 26"
      using room_row_of_ID [OF row] char_col_idem [OF key] by (auto dest: char_col_length)
    from update_room_inv [OF assms(2) k fresh this] show ?thesis by (simp add: db')
  qed
qed

lemma request_tx_inv:
  assumes "request_tx c req fl n db = (Inr (), n', db')" "room_inv db"
  shows "room_inv db'"
proof (cases req)
  case (ReqCreateRoom q)
  with assms show ?thesis
    by (auto split: sum.splits simp: tx_inr dest: NewRoom_count create_tx_inv)
next
  case (ReqJoinRoom r code)
  then show ?thesis using join_inv assms by simp
next
  case (ReqUpdateRoom q)
  then show ?thesis using update_inv assms by simp
next
  case (ReqDeleteRoom r)
  with assms(1) have "delete_tx c (subjectFromHeader c) r fl n db = (Inr (), n', db')" by simp
  then show ?thesis
  proof (rule delete_tx_success)
    fix k rw assume "ob_id rw \<notin> ob_id ` set (db_outbox db)" "db' = (remove_room k db)\<lparr>db_outbox := db_outbox db @ [rw]\<rparr>"
    then show ?thesis using outbox_inv [OF remove_room_inv [OF assms(2), of k], of rw] by (simp add: remove_room_def)
  qed
next
  case (ReqLeaveRoom r)
  with assms(1) have "leave_tx (subjectFromHeader c) r fl n db = (Inr (), n', db')" by simp
  then show ?thesis using assms(2) by (cases rule: leave_tx_success) (auto intro: remove_member_inv)
next
  case (ReqKickMember r u)
  with assms(1) have "kick_tx (subjectFromHeader c) r u fl n db = (Inr (), n', db')" by simp
  then show ?thesis by (rule kick_tx_success) (auto intro: remove_member_inv [OF assms(2)])
next
  case (ReqUpdateMemberRole r u role)
  with assms(1) obtain m n1 where "role_tx (subjectFromHeader c) r u role fl n db = (Inr m, n1, db')"
    by (auto simp: tx_inr_bind tx_inr_return)
  then show ?thesis by (rule role_tx_success) (simp add: set_role_inv [OF assms(2)])
next
  case (ReqGrantPermissions r u ps)
  with assms(1) have "grant_tx c (subjectFromHeader c) r u (PermissionsFromProto ps) fl n db = (Inr (), n', db')" by simp
  then show ?thesis by (rule grant_tx_success) (simp add: set_perm_inv [OF assms(2)])
qed (use assms in \<open>simp_all add: tx_inr\<close>)

lemma room_exec_inv: "room_exec c req db = (r, db') \<Longrightarrow> room_inv db \<Longrightarrow> room_inv db'"
  using room_exec_cases [of c req db r db'] request_tx_inv by (auto split: option.splits)

lemma drainOnce_outbox_ok:
  "drainOnce fl locked b now (rows, klog) = (r, rows', klog') \<Longrightarrow> outbox_ok rows \<Longrightarrow> outbox_ok rows'"
  by (auto dest!: drainOnce_cases simp: outbox_ok_mark_all)

lemma room_svc_step_inv: "room_svc_step db db' \<Longrightarrow> room_inv db \<Longrightarrow> room_inv db'"
  by (elim room_svc_stepE) (auto simp: room_exec_inv, auto simp: room_inv_def dest: drainOnce_outbox_ok)

section \<open>A sample history\<close>

definition sample_create :: CreateRoomRequest where
  "sample_create = \<lparr>cr_Name = ''Film'', cr_Description = '''', cr_Visibility = 1, cr_MaxMembers = Some 2\<rparr>"

definition sample_room :: Room where
  "sample_room = \<lparr>rm_ID = ''r1'', rm_Slug = ''film-abcdef'', rm_Name = ''Film'', rm_Description = '''', rm_Visibility = 1,
     rm_OwnerID = ''ann'', rm_MaxMembers = 2, rm_MemberCount = 0, rm_CreatedAt = 0, rm_UpdatedAt = 0\<rparr>"

definition sample_db :: room_db where
  "sample_db = snd (run_tx (create_tx (sample_call ''ann'' ''r1'') \<lparr>sj_UserID = ''ann'', sj_SystemRole = 2\<rparr> sample_room)
     no_faults empty_room_db)"

lemma trim_film: "TrimSpace ''Film'' = ''Film''" by (simp add: TrimSpace_id printable_def)
lemma trim_empty: "TrimSpace [] = []" by (rule TrimSpace_Nil)
lemma slug_film: "GenerateSlug id (\<lambda>n. word_of_nat n) ''Film'' = ''film-abcdef''" by code_simp
lemmas sample_text = trim_film trim_empty role_user slug_film

lemma sample_NewRoom:
  "NewRoom id (\<lambda>n. word_of_nat n) 0 ''r1'' ''ann'' \<lparr>np_Name = ''Film'', np_Description = '''', np_Visibility = 1,
     np_MaxMembers = Some 2\<rparr> = Inr sample_room"
  by (simp add: NewRoom_def sample_text sample_room_def maxRoomName_def visibility_defs)

lemma sample_create_ok:
  "fst (run_tx (create_tx (sample_call ''ann'' ''r1'') \<lparr>sj_UserID = ''ann'', sj_SystemRole = 2\<rparr> sample_room)
     no_faults empty_room_db) = Inr ()"
  by code_simp

lemma sample_exec: "room_exec (sample_call ''ann'' ''r1'') (ReqCreateRoom sample_create) empty_room_db = (None, sample_db)"
proof -
  have c: "rq_lower (sample_call u i) = id" "rq_rand (sample_call u i) 0 = (\<lambda>n. word_of_nat n)" "rq_ctxErr (sample_call u i) = None"
    "rq_now (sample_call u i) n = 0" "rq_newID (sample_call u i) 0 = i" "rq_faults (sample_call u i) = no_faults"
    "subjectFromHeader (sample_call u i) = \<lparr>sj_UserID = u, sj_SystemRole = 2\<rparr>" for u i n
    by (simp_all add: sample_call_def subjectFromHeader_def sample_text)
  have "run_tx (create_tx (sample_call ''ann'' ''r1'') \<lparr>sj_UserID = ''ann'', sj_SystemRole = 2\<rparr> sample_room)
     no_faults empty_room_db = (Inr (), sample_db)"
    using sample_create_ok by (simp add: sample_db_def prod_eq_iff)
  then show ?thesis
    by (simp add: CreateRoom_def ctxDone_def c sample_create_def i8_id sample_NewRoom map_error_def outcome_def system_role_defs)
qed

lemma sample_facts:
  "length (db_rooms sample_db) = 1 \<and> length (db_members sample_db) = 1 \<and> length (db_outbox sample_db) = 1"
  by code_simp

section \<open>Invariant\<close>

interpretation room_history: history room_svc_step room_inv empty_room_db
  by unfold_locales (auto simp: room_inv_empty room_svc_step_inv)

text \<open>C3: In every history of the room service, from empty tables, with any callers, inputs, random bytes and
  database faults and the relay running in between, the stored member count of a room is the number of
  its member rows, slugs are unique, every member, grant and invite belongs to a room that exists,
  every grant belongs to a current member, and outbox identifiers are distinct.\<close>

theorem room_service_invariant:
  assumes "room_svc_step\<^sup>*\<^sup>* empty_room_db db"
  shows "room_inv db"
  by (rule room_history.reachable_inv [OF assms])

theorem room_service_invariant_witness:
  "room_inv sample_db \<and> length (db_rooms sample_db) = 1 \<and> length (db_members sample_db) = 1"
proof -
  have "room_svc_step empty_room_db sample_db" using sample_exec by (rule room_svc_step.call)
  then have run: "room_svc_step\<^sup>*\<^sup>* empty_room_db sample_db" by blast
  show ?thesis using room_service_invariant [OF run] sample_facts by simp
qed

end
