(* ===== verification/Room_Spec.thy ===== *)
theory Room_Spec
  imports Room_Properties
begin

text \<open>
  An abstract specification of rooms (owner, members with roles, grants) and the refinement: every
  successful call of the room service acts on the view of the tables as the operation it stands for,
  every failed call leaves the view alone.
\<close>

section \<open>Abstract specification\<close>

text \<open>What a room is to its users: its owner, its members with their roles, and the permissions granted.\<close>

record room_view =
  rv_owner :: string
  rv_members :: "string \<rightharpoonup> int"
  rv_grants :: "string \<Rightarrow> int set"

type_synonym room_spec = "string \<rightharpoonup> room_view"

datatype room_op =
    OpOpen string string
  | OpClose string
  | OpJoin string string
  | OpLeave string string
  | OpRole string string int
  | OpGrant string string "int set"
  | OpNone

definition on_room :: "string \<Rightarrow> (room_view \<Rightarrow> room_view) \<Rightarrow> room_spec \<Rightarrow> room_spec" where
  "on_room k f S = (case S k of None \<Rightarrow> S | Some v \<Rightarrow> S(k \<mapsto> f v))"

fun spec_step :: "room_op \<Rightarrow> room_spec \<Rightarrow> room_spec" where
  "spec_step (OpOpen k u) S = S(k \<mapsto> \<lparr>rv_owner = u, rv_members = [u \<mapsto> ROOM_ROLE_OWNER], rv_grants = (\<lambda>_. {})\<rparr>)"
| "spec_step (OpClose k) S = S(k := None)"
| "spec_step (OpJoin k u) S = on_room k (\<lambda>v. if u \<in> dom (rv_members v) then v
     else v\<lparr>rv_members := (rv_members v)(u \<mapsto> ROOM_ROLE_MEMBER)\<rparr>) S"
| "spec_step (OpLeave k u) S = on_room k (\<lambda>v. v\<lparr>rv_members := (rv_members v)(u := None),
     rv_grants := (rv_grants v)(u := {})\<rparr>) S"
| "spec_step (OpRole k u role) S = on_room k (\<lambda>v. v\<lparr>rv_members := (rv_members v)(u \<mapsto> role)\<rparr>) S"
| "spec_step (OpGrant k u ps) S = on_room k (\<lambda>v. v\<lparr>rv_grants := (rv_grants v)(u := ps)\<rparr>) S"
| "spec_step OpNone S = S"

text \<open>The view of the tables.\<close>

definition grants_of :: "string \<Rightarrow> room_db \<Rightarrow> string \<Rightarrow> int set" where
  "grants_of k db u = (case map_of (db_perms db) (k, u) of None \<Rightarrow> {} | Some (n, t) \<Rightarrow> set (ToProto (perm_of_i16 n)))"

definition roles_of :: "string \<Rightarrow> room_db \<Rightarrow> string \<rightharpoonup> int" where
  "roles_of k db u = map_option mb_Role (map_of (db_members db) (k, u))"

definition room_abs :: "room_db \<Rightarrow> room_spec" where
  "room_abs db k = map_option (\<lambda>r. \<lparr>rv_owner = rm_OwnerID r, rv_members = roles_of k db, rv_grants = grants_of k db\<rparr>)
     (map_of (db_rooms db) k)"

text \<open>The operation that a request stands for; identifiers as the tables hold them.\<close>

fun op_of :: "call \<Rightarrow> room_request \<Rightarrow> room_op" where
  "op_of c (ReqCreateRoom req) = OpOpen (key26 (rq_newID c 0)) (key26 (rq_userHeader c))"
| "op_of c (ReqDeleteRoom r) = OpClose (key26 r)"
| "op_of c (ReqJoinRoom r code) = OpJoin (key26 r) (key26 (rq_userHeader c))"
| "op_of c (ReqLeaveRoom r) =
     (case char_col 26 (rq_userHeader c) of None \<Rightarrow> OpNone | Some u \<Rightarrow> OpLeave (key26 r) u)"
| "op_of c (ReqKickMember r u) = OpLeave (key26 r) (key26 u)"
| "op_of c (ReqUpdateMemberRole r u role) = OpRole (key26 r) (key26 u) (i16 role)"
| "op_of c (ReqGrantPermissions r u ps) = OpGrant (key26 r) (key26 u) (set ps \<inter> {1..5})"
| "op_of c _ = OpNone"

lemma key26_key: "member_key r u = Some (k, w) \<Longrightarrow> key26 r = k \<and> key26 u = w"
  by (simp add: member_key_Some key26_def)

lemma perm_i16_roundtrip [simp]: "perm_of_i16 (perm_to_i16 p) = p"
  by (simp add: perm_of_i16_def perm_to_i16_def)

text \<open>Two tables with the same owners, roles and grants have the same view.\<close>

lemma room_abs_eqI:
  assumes "map_option rm_OwnerID (map_of (db_rooms db) j) = map_option rm_OwnerID (map_of (db_rooms db') j)"
    "\<And>u. roles_of j db u = roles_of j db' u" "\<And>u. grants_of j db u = grants_of j db' u"
  shows "room_abs db j = room_abs db' j"
proof -
  have "roles_of j db = roles_of j db'" "grants_of j db = grants_of j db'" using assms(2,3) by auto
  then show ?thesis using assms(1)
    by (cases "map_of (db_rooms db) j"; cases "map_of (db_rooms db') j") (auto simp: room_abs_def)
qed

lemma room_abs_outbox [simp]: "room_abs (db\<lparr>db_outbox := x\<rparr>) = room_abs db" "room_abs (db\<lparr>db_invites := i\<rparr>) = room_abs db"
  by (auto intro!: room_abs_eqI simp: roles_of_def grants_of_def)

lemma bump_count_view [simp]:
  "roles_of j (bump_count k d db) = roles_of j db" "grants_of j (bump_count k d db) = grants_of j db"
  "map_option rm_OwnerID (map_of (db_rooms (bump_count k d db)) j) = map_option rm_OwnerID (map_of (db_rooms db) j)"
  by (auto simp: roles_of_def grants_of_def fun_eq_iff split: option.split)

lemma room_abs_bump [simp]: "room_abs (bump_count k d db) = room_abs db"
  by (rule ext, rule room_abs_eqI) (simp_all split: option.split)

lemma view_members [simp]:
  "grants_of j (db\<lparr>db_members := ms\<rparr>) = grants_of j db" "roles_of j (db\<lparr>db_perms := ps\<rparr>) = roles_of j db"
  by (auto simp: grants_of_def roles_of_def fun_eq_iff)

lemma roles_of_update:
  "roles_of j (db\<lparr>db_members := AList.update (k, u) m ms\<rparr>) = (if j = k then (roles_of k (db\<lparr>db_members := ms\<rparr>))(u \<mapsto> mb_Role m)
     else roles_of j (db\<lparr>db_members := ms\<rparr>))"
  "roles_of j (db\<lparr>db_members := AList.delete (k, u) ms\<rparr>) = (if j = k then (roles_of k (db\<lparr>db_members := ms\<rparr>))(u := None)
     else roles_of j (db\<lparr>db_members := ms\<rparr>))"
  by (auto simp: roles_of_def update_conv' delete_conv' fun_eq_iff)

lemma grants_of_update:
  "grants_of j (db\<lparr>db_perms := AList.update (k, u) (n, t) ps\<rparr>) =
     (if j = k then (grants_of k (db\<lparr>db_perms := ps\<rparr>))(u := set (ToProto (perm_of_i16 n))) else grants_of j (db\<lparr>db_perms := ps\<rparr>))"
  "grants_of j (db\<lparr>db_perms := AList.delete (k, u) ps\<rparr>) =
     (if j = k then (grants_of k (db\<lparr>db_perms := ps\<rparr>))(u := {}) else grants_of j (db\<lparr>db_perms := ps\<rparr>))"
  by (auto simp: grants_of_def update_conv' delete_conv' fun_eq_iff)

lemma self_update [simp]: "db\<lparr>db_members := db_members db\<rparr> = db" "db\<lparr>db_perms := db_perms db\<rparr> = db"
  by simp_all

lemma on_room_abs:
  "(on_room k f (room_abs db)) j = (if j = k then map_option f (room_abs db k) else room_abs db j)"
  by (simp add: on_room_def split: option.split)

lemmas view_simps = room_abs_def on_room_abs roles_of_update grants_of_update

lemma room_abs_add_member:
  assumes "map_of (db_members db) (k, u) = None"
  shows "room_abs (add_member k u ROOM_ROLE_MEMBER t db) = spec_step (OpJoin k u) (room_abs db)"
proof (rule ext)
  fix j have "roles_of k db u = None" using assms by (simp add: roles_of_def)
  then have "u \<notin> dom (roles_of k db)" by auto
  then show "room_abs (add_member k u ROOM_ROLE_MEMBER t db) j = spec_step (OpJoin k u) (room_abs db) j"
    by (cases "map_of (db_rooms db) j") (auto simp: add_member_def view_simps)
qed

lemma room_abs_remove_member:
  "room_abs (remove_member k u db) = spec_step (OpLeave k u) (room_abs db)"
proof (rule ext)
  fix j show "room_abs (remove_member k u db) j = spec_step (OpLeave k u) (room_abs db) j"
    by (cases "map_of (db_rooms db) j") (auto simp: remove_member_def view_simps)
qed

lemma room_abs_insert:
  assumes "room_inv db" "map_of (db_rooms db) k = None"
  shows "room_abs (add_member k u ROOM_ROLE_OWNER t (insert_room k w db)) =
    (room_abs db)(k \<mapsto> \<lparr>rv_owner = rm_OwnerID w, rv_members = [u \<mapsto> ROOM_ROLE_OWNER], rv_grants = (\<lambda>_. {})\<rparr>)"
proof (rule ext)
  fix j
  have m: "map_of (db_members db) (k, v) = None" for v
    using assms unfolding room_inv_def refs_ok_def by (metis option.exhaust)
  have p: "map_of (db_perms db) (k, v) = None" for v
    using assms(1) m unfolding room_inv_def refs_ok_def by (metis option.exhaust)
  have "roles_of k (insert_room k w db) = Map.empty" "grants_of k (insert_room k w db) = (\<lambda>_. {})"
    by (auto simp: roles_of_def grants_of_def insert_room_def m p)
  moreover have "roles_of j (insert_room k w db) = roles_of j db" "grants_of j (insert_room k w db) = grants_of j db" for j
    by (auto simp: roles_of_def grants_of_def insert_room_def)
  moreover have "map_of (db_rooms (insert_room k w db)) = (map_of (db_rooms db))(k \<mapsto> w)"
    using assms(2) by (auto simp: insert_room_def map_add_def fun_eq_iff split: option.split)
  ultimately show "room_abs (add_member k u ROOM_ROLE_OWNER t (insert_room k w db)) j =
    ((room_abs db)(k \<mapsto> \<lparr>rv_owner = rm_OwnerID w, rv_members = [u \<mapsto> ROOM_ROLE_OWNER], rv_grants = (\<lambda>_. {})\<rparr>)) j"
    by (cases "map_of (db_rooms db) j") (auto simp: add_member_def view_simps)
qed

lemma room_abs_remove_room: "room_abs (remove_room k db) = (room_abs db)(k := None)"
proof (rule ext)
  fix j
  have "j \<noteq> k \<Longrightarrow> map_of (db_members (remove_room k db)) (j, u) = map_of (db_members db) (j, u)" for u
    using map_of_filter_key [of "\<lambda>x. fst x \<noteq> k" "db_members db" "(j, u)"] by (simp add: remove_room_def)
  moreover have "j \<noteq> k \<Longrightarrow> map_of (db_perms (remove_room k db)) (j, u) = map_of (db_perms db) (j, u)" for u
    using map_of_filter_key [of "\<lambda>x. fst x \<noteq> k" "db_perms db" "(j, u)"] by (simp add: remove_room_def)
  ultimately have "j \<noteq> k \<Longrightarrow> roles_of j (remove_room k db) = roles_of j db \<and> grants_of j (remove_room k db) = grants_of j db"
    by (simp add: roles_of_def grants_of_def fun_eq_iff)
  then show "room_abs (remove_room k db) j = ((room_abs db)(k := None)) j"
    by (auto simp: room_abs_def) (auto simp: remove_room_def delete_conv')
qed

lemma room_abs_set_role:
  assumes "map_of (db_members db) (k, u) = Some m"
  shows "room_abs (db\<lparr>db_members := AList.map_entry (k, u) (\<lambda>m. m\<lparr>mb_Role := role\<rparr>) (db_members db)\<rparr>) =
    spec_step (OpRole k u role) (room_abs db)"
proof (rule ext)
  fix j
  have "roles_of j (db\<lparr>db_members := AList.map_entry (k, u) (\<lambda>m. m\<lparr>mb_Role := role\<rparr>) (db_members db)\<rparr>) =
    (if j = k then (roles_of k db)(u \<mapsto> role) else roles_of j db)"
    using assms by (auto simp: roles_of_def map_of_map_entry fun_eq_iff)
  then show "room_abs (db\<lparr>db_members := AList.map_entry (k, u) (\<lambda>m. m\<lparr>mb_Role := role\<rparr>) (db_members db)\<rparr>) j =
      spec_step (OpRole k u role) (room_abs db) j"
    by (cases "map_of (db_rooms db) j") (auto simp: view_simps)
qed

lemma room_abs_grant:
  "room_abs (db\<lparr>db_perms := AList.update (k, u) (perm_to_i16 (PermissionsFromProto ps), t) (db_perms db)\<rparr>) =
    spec_step (OpGrant k u (set ps \<inter> {1..5})) (room_abs db)"
proof (rule ext)
  fix j
  have "set (ToProto (PermissionsFromProto ps)) = set ps \<inter> {1..5}" by (auto simp: set_ToProto bit_FromProto)
  then show "room_abs (db\<lparr>db_perms := AList.update (k, u) (perm_to_i16 (PermissionsFromProto ps), t) (db_perms db)\<rparr>) j =
    spec_step (OpGrant k u (set ps \<inter> {1..5})) (room_abs db) j"
    by (cases "map_of (db_rooms db) j") (auto simp: view_simps)
qed

lemma room_abs_update_room:
  assumes "map_of (db_rooms db) k = Some old" "rm_OwnerID w = rm_OwnerID old"
  shows "room_abs (db\<lparr>db_rooms := AList.update k w (db_rooms db)\<rparr>) = room_abs db"
  using assms by (intro ext room_abs_eqI) (auto simp: roles_of_def grants_of_def update_conv')

section \<open>Refinement\<close>

text \<open>A user who is not a member leaves no trace when leaving.\<close>

lemma room_abs_leave_absent:
  assumes "room_inv db" "find_member r u db = None" "find_room r db = Some w" "char_col 26 u \<noteq> None"
  shows "spec_step (OpLeave (key26 r) (key26 u)) (room_abs db) = room_abs db"
proof (rule ext)
  fix j
  obtain k v where k: "char_col 26 r = Some k" "char_col 26 u = Some v"
    using assms(3,4) by (auto simp: find_room_def split: option.splits)
  then have m: "map_of (db_members db) (k, v) = None"
    using assms(2) by (simp add: find_member_def member_key_def)
  then have "map_of (db_perms db) (k, v) = None"
    using assms(1) unfolding room_inv_def refs_ok_def by (metis option.exhaust)
  then have "grants_of k db v = {}" "roles_of k db v = None" using m by (simp_all add: grants_of_def roles_of_def)
  then have "(roles_of k db)(v := None) = roles_of k db" "(grants_of k db)(v := {}) = grants_of k db" by (auto simp: fun_eq_iff)
  then show "spec_step (OpLeave (key26 r) (key26 u)) (room_abs db) j = room_abs db j"
    using k by (cases "map_of (db_rooms db) j") (auto simp: key26_def view_simps)
qed

lemma create_refines:
  assumes "request_tx c (ReqCreateRoom q) fl n db = (Inr (), n', db')" "room_inv db"
  shows "room_abs db' = spec_step (op_of c (ReqCreateRoom q)) (room_abs db)"
proof -
  from assms(1) obtain room where room: "create_tx c (subjectFromHeader c) room fl n db = (Inr (), n', db')"
      "rm_ID room = rq_newID c 0" "rm_OwnerID room = rq_userHeader c"
    by (auto split: sum.splits simp: tx_inr dest: NewRoom_count)
  from room(1) assms(2) have "refs_ok db" by (simp add: room_inv_def)
  with room(1) show ?thesis
  proof (rule create_tx_success)
    fix k u w rw inv'
    assume w: "room_row_of room = Some w" "k = rm_ID w" "map_of (db_rooms db) k = None"
      and key: "member_key (rm_ID room) (sj_UserID (subjectFromHeader c)) = Some (k, u)"
      and db': "db' = (add_member k u ROOM_ROLE_OWNER (pg_time (rq_now c 1)) (insert_room k w db))
        \<lparr>db_invites := db_invites db @ inv', db_outbox := db_outbox db @ [rw]\<rparr>"
    have "rm_OwnerID w = u" using room_row_of_ID [OF w(1)] key room(3) by (simp add: member_key_Some)
    moreover have "key26 (rq_newID c 0) = k" "key26 (rq_userHeader c) = u"
      using key26_key [OF key] room(2) by simp_all
    ultimately show ?thesis using room_abs_insert [OF assms(2) w(3)] by (simp add: db')
  qed
qed

lemma join_refines:
  assumes "request_tx c (ReqJoinRoom r code) fl n db = (Inr (), n', db')" "room_inv db"
  shows "room_abs db' = spec_step (op_of c (ReqJoinRoom r code)) (room_abs db)"
proof -
  from assms(1) obtain v n1 where "join_tx c (subjectFromHeader c) r code (rq_now c 0) fl n db = (Inr v, n1, db')"
    by (auto simp: tx_inr_bind tx_inr_return)
  then show ?thesis
  proof (cases rule: join_tx_success)
    case (existing m w)
    then obtain k u where k: "member_key r (rq_userHeader c) = Some (k, u)" "map_of (db_members db) (k, u) = Some m"
      by (auto elim: member_keyE)
    have "roles_of k db u = Some (mb_Role m)" by (simp add: roles_of_def k(2))
    then have "u \<in> dom (roles_of k db)" by auto
    then have "spec_step (OpJoin k u) (room_abs db) j = room_abs db j" for j
      by (cases "map_of (db_rooms db) j") (auto simp: view_simps)
    then show ?thesis using key26_key [OF k(1)] existing by auto
  next
    case (joined k u w rw)
    then have "map_of (db_members db) (k, u) = None" by (simp add: find_member_def)
    from room_abs_add_member [OF this, of "pg_time (rq_now c 0)"] show ?thesis
      using key26_key [OF joined(2)] joined by simp
  qed
qed

lemma update_refines:
  assumes "request_tx c (ReqUpdateRoom q) fl n db = (Inr (), n', db')" "room_inv db"
  shows "room_abs db' = spec_step (op_of c (ReqUpdateRoom q)) (room_abs db)"
proof -
  from assms(1) obtain room n1 where "update_tx c (subjectFromHeader c) q fl n db = (Inr room, n1, db')"
    by (auto simp: tx_inr_bind tx_inr_return)
  then show ?thesis
  proof (rule update_tx_success)
    fix k old w
    assume k: "map_of (db_rooms db) k = Some old"
      and upd: "rm_ID old = k \<longrightarrow> room_row_of (room\<lparr>rm_ID := k, rm_OwnerID := rm_OwnerID old, rm_CreatedAt := rm_CreatedAt old\<rparr>) = Some w \<and>
       \<not> slug_taken k (rm_Slug w) db \<and> db' = db\<lparr>db_rooms := AList.update k w (db_rooms db)\<rparr>"
    have id: "rm_ID old = k" "length (rm_OwnerID old) = 26" using assms(2) k by (auto simp: room_inv_def counts_ok_def)
    with upd have row: "room_row_of (room\<lparr>rm_ID := k, rm_OwnerID := rm_OwnerID old, rm_CreatedAt := rm_CreatedAt old\<rparr>) = Some w"
      and db': "db' = db\<lparr>db_rooms := AList.update k w (db_rooms db)\<rparr>" by auto
    have "rm_OwnerID w = rm_OwnerID old" using room_row_of_ID [OF row] id(2) by simp
    then show ?thesis using room_abs_update_room [OF k] by (simp add: db')
  qed
qed

lemma leave_refines:
  assumes "request_tx c (ReqLeaveRoom r) fl n db = (Inr (), n', db')" "room_inv db"
  shows "room_abs db' = spec_step (op_of c (ReqLeaveRoom r)) (room_abs db)"
proof -
  from assms(1) have "leave_tx (subjectFromHeader c) r fl n db = (Inr (), n', db')" by simp
  then show ?thesis
  proof (cases rule: leave_tx_success)
    case absent
    then obtain w where "find_room r db = Some w"
      using \<open>leave_tx (subjectFromHeader c) r fl n db = (Inr (), n', db')\<close> by (auto simp: leave_tx_def tx_inr)
    then show ?thesis
      using absent room_abs_leave_absent [OF assms(2), of r "rq_userHeader c" w]
      by (cases "char_col 26 (rq_userHeader c)") (auto simp: key26_char_col)
  next
    case (member k w m room)
    then have "char_col 26 (rq_userHeader c) = Some w" by (simp add: member_key_Some)
    then show ?thesis using member key26_key [OF member(1)] by (simp add: room_abs_remove_member)
  qed
qed

lemma request_tx_refines:
  assumes "request_tx c req fl n db = (Inr (), n', db')" "room_inv db"
  shows "room_abs db' = spec_step (op_of c req) (room_abs db)"
proof (cases req)
  case (ReqCreateRoom q)
  then show ?thesis using create_refines assms by simp
next
  case (ReqJoinRoom r code)
  then show ?thesis using join_refines assms by simp
next
  case (ReqUpdateRoom q)
  then show ?thesis using update_refines assms by simp
next
  case (ReqDeleteRoom r)
  with assms(1) have "delete_tx c (subjectFromHeader c) r fl n db = (Inr (), n', db')" by simp
  then show ?thesis
    by (rule delete_tx_success) (simp add: ReqDeleteRoom room_abs_remove_room key26_char_col)
next
  case (ReqLeaveRoom r)
  then show ?thesis using leave_refines assms by simp
next
  case (ReqKickMember r u)
  with assms(1) have "kick_tx (subjectFromHeader c) r u fl n db = (Inr (), n', db')" by simp
  then show ?thesis
    by (rule kick_tx_success) (auto simp: ReqKickMember room_abs_remove_member dest: key26_key)
next
  case (ReqUpdateMemberRole r u role)
  with assms(1) obtain m n1 where "role_tx (subjectFromHeader c) r u role fl n db = (Inr m, n1, db')"
    by (auto simp: tx_inr_bind tx_inr_return)
  then show ?thesis
    by (rule role_tx_success) (auto simp: ReqUpdateMemberRole dest: key26_key room_abs_set_role simp del: spec_step.simps)
next
  case (ReqGrantPermissions r u ps)
  with assms(1) have "grant_tx c (subjectFromHeader c) r u (PermissionsFromProto ps) fl n db = (Inr (), n', db')" by simp
  then show ?thesis
    by (rule grant_tx_success) (auto simp: ReqGrantPermissions room_abs_grant dest: key26_key simp del: spec_step.simps)
qed (use assms in \<open>simp_all add: tx_inr\<close>)

text \<open>C6: The room service implements the abstract specification: in every reachable state of its tables, a
  call that succeeds changes the view (owner, members with roles, grants of each room) exactly as the
  operation it stands for, and a call that fails, for whatever reason, leaves the tables unchanged.\<close>

theorem room_service_refines:
  assumes "room_svc_step\<^sup>*\<^sup>* empty_room_db db" "room_exec c req db = (r, db')"
  shows "case r of Some e \<Rightarrow> db' = db | None \<Rightarrow> room_abs db' = spec_step (op_of c req) (room_abs db)"
proof -
  have "room_inv db" by (rule room_history.reachable_inv [OF assms(1)])
  then show ?thesis using room_exec_cases [OF assms(2)] request_tx_refines by (auto split: option.splits)
qed

theorem room_service_refines_witness:
  "room_abs sample_db = [key26 ''r1'' \<mapsto> \<lparr>rv_owner = key26 ''ann'', rv_members = [key26 ''ann'' \<mapsto> ROOM_ROLE_OWNER],
     rv_grants = (\<lambda>_. {})\<rparr>]"
proof -
  have "room_abs empty_room_db = Map.empty" by (auto simp: room_abs_def empty_room_db_def)
  then show ?thesis
    using room_service_refines [OF rtranclp.rtrancl_refl sample_exec] by (simp add: sample_call_def)
qed

end
