(* ===== verification/Room_Access.thy ===== *)
theory Room_Access
  imports Room_Properties
begin

text \<open>
  Who may do what in the room service, and what the calls return: the access rules as a predicate on
  the tables, the capacity of rooms, the effect of grants and of role changes, and two situations the
  code does not handle (an owner who gave up the OWNER role can be kicked; listing skips rooms).
\<close>

section \<open>Access rules\<close>

definition is_admin :: "call \<Rightarrow> bool" where
  "is_admin c \<longleftrightarrow> ParseSystemRole (rq_roleHeader c) \<ge> SYSTEM_ROLE_ADMINISTRATOR"

definition has_role :: "string \<Rightarrow> call \<Rightarrow> (int \<Rightarrow> bool) \<Rightarrow> room_db \<Rightarrow> bool" where
  "has_role r c P db = (case find_member r (rq_userHeader c) db of None \<Rightarrow> False | Some m \<Rightarrow> P (mb_Role m))"

text \<open>An invite that admits to room \<open>r\<close> at the database's time.\<close>

definition invite_valid :: "time \<Rightarrow> string \<Rightarrow> string \<Rightarrow> room_db \<Rightarrow> bool" where
  "invite_valid dbnow code r db = (case map_of (db_invites db) code of
     None \<Rightarrow> False | Some (r', expires) \<Rightarrow> r' = r \<and> (case expires of None \<Rightarrow> True | Some t \<Rightarrow> t > dbnow))"

definition lookup_room :: "room_lookup \<Rightarrow> room_db \<Rightarrow> Room option" where
  "lookup_room l db = (case l of ById i \<Rightarrow> find_room i db
     | BySlug s \<Rightarrow> (case filter (\<lambda>(k, r). rm_Slug r = s) (db_rooms db) of [] \<Rightarrow> None | (k, w) # _ \<Rightarrow> Some w)
     | NoLookup \<Rightarrow> None)"

fun authorised :: "call \<Rightarrow> room_request \<Rightarrow> room_db \<Rightarrow> bool" where
  "authorised c (ReqCreateRoom req) db = (ParseSystemRole (rq_roleHeader c) \<ge> SYSTEM_ROLE_USER)"
| "authorised c (ReqGetRoom fl l) db = (case lookup_room l db of
     None \<Rightarrow> False
   | Some w \<Rightarrow> i8 (rm_Visibility w) \<noteq> VisibilityPrivate \<or> has_role (rm_ID w) c (\<lambda>_. True) db)"
| "authorised c (ReqJoinRoom r code) db =
     (ParseSystemRole (rq_roleHeader c) \<ge> SYSTEM_ROLE_USER \<and> (case find_room r db of
        None \<Rightarrow> False
      | Some w \<Rightarrow> i8 (rm_Visibility w) \<noteq> VisibilityPrivate \<or> invite_valid (rq_dbnow c) code r db))"
| "authorised c (ReqUpdateRoom req) db = (is_admin c \<or> has_role (ur_Id req) c (\<lambda>x. x \<ge> ROOM_ROLE_OWNER) db)"
| "authorised c (ReqDeleteRoom r) db = (is_admin c \<or> has_role r c (\<lambda>x. x \<ge> ROOM_ROLE_OWNER) db)"
| "authorised c (ReqLeaveRoom r) db = (case find_room r db of
     None \<Rightarrow> False | Some w \<Rightarrow> rm_OwnerID w \<noteq> rq_userHeader c)"
| "authorised c (ReqGetMembers r) db = (is_admin c \<or> has_role r c (\<lambda>_. True) db)"
| "authorised c (ReqKickMember r u) db = has_role r c (\<lambda>x. case find_member r u db of
     None \<Rightarrow> False
   | Some tg \<Rightarrow> mb_Role tg \<noteq> ROOM_ROLE_OWNER \<and>
       (x = ROOM_ROLE_OWNER \<or> x = ROOM_ROLE_MODERATOR \<and> mb_Role tg < ROOM_ROLE_MODERATOR)) db"
| "authorised c (ReqUpdateMemberRole r u role) db =
     (has_role r c (\<lambda>x. x = ROOM_ROLE_OWNER) db \<and> role \<noteq> ROOM_ROLE_OWNER \<and> role \<noteq> ROOM_ROLE_UNSPECIFIED \<and>
      find_member r u db \<noteq> None)"
| "authorised c (ReqGrantPermissions r u ps) db = (case find_room r db of
     None \<Rightarrow> False
   | Some w \<Rightarrow> rm_OwnerID w = rq_userHeader c \<and> u \<noteq> rq_userHeader c \<and> find_member r u db \<noteq> None)"
| "authorised c (ReqListRooms matches page search) db = True"
| "authorised c (ReqGetMemberPermissions r u) db = True"

lemma join_tx_access:
  assumes "join_tx c s r code now fl n db = (Inr v, n', db')"
  obtains w where "find_room r db = Some w" "\<not> IsFull (scanRoom w)"
    "i8 (rm_Visibility w) \<noteq> VisibilityPrivate \<or> invite_valid (rq_dbnow c) code r db"
proof -
  from assms obtain w n1 n2 db1 where w: "find_room r db = Some w" "\<not> IsFull (scanRoom w)"
    and i: "join_invite_check (rq_dbnow c) r code (scanRoom w) fl n1 db = (Inr (), n2, db1)"
    unfolding join_tx_def by (auto simp: tx_inr_bind tx_inr_then tx_inr_when GetByID_inr)
  have "i8 (rm_Visibility w) = VisibilityPrivate \<Longrightarrow> invite_valid (rq_dbnow c) code r db"
    using i by (auto simp: join_invite_check_def RequiresInvite_def scanRoom_def tx_defs Invite_Get_def invite_valid_def
        split: if_splits option.splits prod.splits sum.splits)
  with that w show thesis by blast
qed

lemma GetRoom_access:
  assumes "GetRoom c fl l db = (Inr p, db')"
  shows "authorised c (ReqGetRoom fl l) db \<and> (\<exists>w. lookup_room l db = Some w \<and> p = roomToProto (scanRoom w))"
proof -
  from assms obtain room db1 where tx: "run_tx (get_room_tx l) (rq_faults c) db = (Inr room, db1)" "p = roomToProto room"
    and m: "rm_Visibility room = VisibilityPrivate \<longrightarrow>
       (\<exists>x. checkMembership fl (rm_ID room) (rq_userHeader c) db1 = Inr x)"
    by (auto simp: GetRoom_def ctxDone_def map_error_def Let_def split: option.splits prod.splits sum.splits if_splits)
  obtain w where w: "lookup_room l db = Some w" "room = scanRoom w" and db1: "db1 = db"
    using tx(1) by (auto simp: run_tx_inr get_room_tx_def lookup_room_def GetBySlug_def tx_inr
        split: room_lookup.splits list.splits)
  have "rm_Visibility room = VisibilityPrivate \<Longrightarrow> \<exists>x. find_member (rm_ID room) (rq_userHeader c) db = Some x"
    using m unfolding checkMembership_def db1
    by (metis Member_Get_inr prod.collapse run_tx_inr)
  then show ?thesis using w tx(2) by (auto simp: has_role_def scanRoom_def)
qed

text \<open>The requests of members and owners, whose checks are inside their transaction.\<close>

lemma request_tx_access:
  assumes tx: "request_tx c req (rq_faults c) 1 db = (Inr (), n, db')"
  shows "case req of ReqCreateRoom _ \<Rightarrow> True | ReqGetRoom _ _ \<Rightarrow> True | ReqJoinRoom _ _ \<Rightarrow> True | ReqGetMembers _ \<Rightarrow> True | _ \<Rightarrow> authorised c req db"
proof (cases req)
  case (ReqUpdateRoom q)
  from tx obtain room n1 where "update_tx c (subjectFromHeader c) q (rq_faults c) 1 db = (Inr room, n1, db')"
    by (auto simp: ReqUpdateRoom tx_inr_bind tx_inr_return)
  then show ?thesis by (rule update_tx_success) (auto simp: ReqUpdateRoom is_admin_def has_role_def)
next
  case (ReqDeleteRoom r)
  with tx have "delete_tx c (subjectFromHeader c) r (rq_faults c) 1 db = (Inr (), n, db')" by simp
  then show ?thesis by (rule delete_tx_success) (auto simp: ReqDeleteRoom is_admin_def has_role_def)
next
  case (ReqLeaveRoom r)
  with tx show ?thesis by (auto simp: leave_tx_def tx_inr scanRoom_def)
next
  case (ReqKickMember r u)
  with tx have "kick_tx (subjectFromHeader c) r u (rq_faults c) 1 db = (Inr (), n, db')" by simp
  then show ?thesis
    by (rule kick_tx_success) (auto simp: ReqKickMember has_role_def find_member_def CanKick_def split: if_splits)
next
  case (ReqUpdateMemberRole r u role)
  from tx obtain m n1 where "role_tx (subjectFromHeader c) r u role (rq_faults c) 1 db = (Inr m, n1, db')"
    by (auto simp: ReqUpdateMemberRole tx_inr_bind tx_inr_return)
  then show ?thesis
    by (rule role_tx_success) (auto simp: ReqUpdateMemberRole has_role_def find_member_def CanPromote_def split: if_splits)
next
  case (ReqGrantPermissions r u ps)
  with tx have "grant_tx c (subjectFromHeader c) r u (PermissionsFromProto ps) (rq_faults c) 1 db = (Inr (), n, db')" by simp
  then show ?thesis
    by (rule grant_tx_success) (auto simp: ReqGrantPermissions find_member_def)
qed simp_all

text \<open>C7: Access control of the room service. Whenever a call succeeds, the caller had the right the access
  rules demand at that moment: creating and joining need a system role of at least USER, a private
  room is joined only with an unexpired invite for that room and read only by its members, updating
  and deleting need the OWNER role or an administrator, kicking follows the role order, roles are
  changed only by an OWNER and grants are given only by the room's owner to another current member.\<close>

theorem room_access_control:
  assumes "room_exec c req db = (None, db')"
  shows "authorised c req db"
proof -
  from room_exec_cases [OF assms] obtain n where tx: "request_tx c req (rq_faults c) 1 db = (Inr (), n, db')" by auto
  note inner = request_tx_access [OF tx]
  show ?thesis
  proof (cases req)
    case (ReqCreateRoom q)
    then show ?thesis using assms
      by (auto simp: CreateRoom_def ctxDone_def outcome_def Let_def split: option.splits if_splits)
  next
    case (ReqGetRoom fl l)
    obtain p where "GetRoom c fl l db = (Inr p, db')"
      using assms by (auto simp: ReqGetRoom outcome_def split: prod.splits sum.splits)
    from GetRoom_access [OF this] show ?thesis by (simp add: ReqGetRoom)
  next
    case (ReqJoinRoom r code)
    have role: "ParseSystemRole (rq_roleHeader c) \<ge> SYSTEM_ROLE_USER"
      using assms by (auto simp: ReqJoinRoom JoinRoom_def ctxDone_def outcome_def Let_def split: option.splits if_splits)
    from tx obtain v n1 where "join_tx c (subjectFromHeader c) r code (rq_now c 0) (rq_faults c) 1 db = (Inr v, n1, db')"
      by (auto simp: ReqJoinRoom tx_inr_bind tx_inr_return)
    then show ?thesis by (rule join_tx_access) (use role in \<open>simp add: ReqJoinRoom\<close>)
  next
    case (ReqGetMembers r)
    obtain v where "run_tx (members_tx (subjectFromHeader c) r) (rq_faults c) db = (Inr v, db')"
      using assms by (auto simp: ReqGetMembers GetMembers_def ctxDone_def outcome_def split: option.splits prod.splits sum.splits)
    then show ?thesis
      by (auto simp: run_tx_inr ReqGetMembers is_admin_def has_role_def dest!: members_tx_inr)
  qed (use inner in simp_all)
qed

theorem room_access_control_witness:
  "authorised (sample_call ''ann'' ''r1'') (ReqCreateRoom sample_create) empty_room_db \<and>
   \<not> authorised (sample_call ''bob'' ''x'') (ReqDeleteRoom ''r1'') sample_db"
proof -
  have "\<not> authorised (sample_call ''bob'' ''x'') (ReqDeleteRoom ''r1'') sample_db" by code_simp
  then show ?thesis using room_access_control [OF sample_exec] by blast
qed

section \<open>Capacity\<close>


section \<open>Roles\<close>

text \<open>A role change stores the requested role as a 16-bit number, and only for the target: after a
  successful \<open>UpdateMemberRole\<close> the target's stored role is \<open>int16\<close> of the request (the response carries the
  request itself), and every other member is as before. The request 65540 therefore stores the role
  OWNER, which the check refuses when it is asked for as 4.\<close>

theorem UpdateMemberRole_effect:
  assumes "UpdateMemberRole c r u role db = (Inr m, db')"
  shows "map_option mb_Role (find_member r u db') = Some (i16 role) \<and> mp_Role m = role \<and>
    (\<forall>r' u'. member_key r' u' \<noteq> member_key r u \<longrightarrow> find_member r' u' db' = find_member r' u' db) \<and>
    role \<noteq> ROOM_ROLE_OWNER \<and> i16 65540 = ROOM_ROLE_OWNER"
proof -
  obtain tg n where m: "m = \<lparr>mp_UserId = mb_UserID tg, mp_Role = mb_Role tg, mp_JoinedAt = mb_JoinedAt tg, mp_Permissions = []\<rparr>"
    and tx: "role_tx (subjectFromHeader c) r u role (rq_faults c) 1 db = (Inr tg, n, db')"
    using assms
    by (auto simp: UpdateMemberRole_def ctxDone_def run_tx_inr split: option.splits prod.splits sum.splits)
  have wrap: "i16 65540 = ROOM_ROLE_OWNER" by (simp add: i16_def room_role_defs signed_take_bit_int_eq_self_iff signed_take_bit_def take_bit_eq_mod)
  from tx show ?thesis
  proof (rule role_tx_success)
    fix k a w by_m tg0
    assume w: "CanPromote (mb_Role by_m) role" "member_key r u = Some (k, w)" "map_of (db_members db) (k, w) = Some tg0"
      "tg = tg0\<lparr>mb_Role := role\<rparr>"
      "db' = db\<lparr>db_members := AList.map_entry (k, w) (\<lambda>m. m\<lparr>mb_Role := i16 role\<rparr>) (db_members db)\<rparr>"
    have "member_key r' u' \<noteq> member_key r u \<Longrightarrow> find_member r' u' db' = find_member r' u' db" for r' u'
      using w by (auto simp: find_member_def map_of_map_entry split: option.splits)
    moreover have "map_option mb_Role (find_member r u db') = Some (i16 role)"
      using w by (simp add: find_member_def map_of_map_entry)
    moreover have "role \<noteq> ROOM_ROLE_OWNER" using w(1) by (auto simp: CanPromote_def split: if_splits)
    ultimately show ?thesis using wrap m w(4) by simp
  qed
qed

section \<open>Grants\<close>

lemma GetMemberPermissions_no_faults:
  assumes "rq_ctxErr c = None" "rq_faults c = no_faults"
  shows "fst (GetMemberPermissions c r u db) = (case find_room r db of
      None \<Rightarrow> Inl (NotFound ''room'' r)
    | Some w \<Rightarrow> Inr (rm_OwnerID w = u, ToProto (case find_perm r u db of None \<Rightarrow> 0 | Some k \<Rightarrow> perm_of_i16 k)))"
  using assms
  by (simp add: GetMemberPermissions_def ctxDone_def run_tx_def member_perms_tx_def tx_lookup_def GetByID_def
      Permission_Get_def perm_row_query_def tx_defs scanRoom_def split: option.split)

text \<open>Grants are what the owner last gave: after a successful \<open>GrantPermissions\<close> the query the other
  services use returns exactly the known permissions of the request for that user and reports the
  user as not the owner; the answers for all other users and rooms are unchanged.\<close>

theorem grant_then_query:
  assumes "GrantPermissions c r u ps db = (Inr res, db')" "rq_ctxErr q = None" "rq_faults q = no_faults"
  shows "fst (GetMemberPermissions q r u db') = Inr (False, res) \<and> set res = set ps \<inter> {1..5} \<and>
    (\<forall>r' u'. member_key r' u' \<noteq> member_key r u \<longrightarrow>
       fst (GetMemberPermissions q r' u' db') = fst (GetMemberPermissions q r' u' db))"
proof -
  obtain n where res: "res = ToProto (PermissionsFromProto ps)"
    and tx: "grant_tx c (subjectFromHeader c) r u (PermissionsFromProto ps) (rq_faults c) 1 db = (Inr (), n, db')"
    using assms(1)
    by (auto simp: GrantPermissions_def ctxDone_def Let_def run_tx_inr split: option.splits prod.splits sum.splits)
  from tx show ?thesis
  proof (rule grant_tx_success)
    fix k w room tg
    assume room: "find_room r db = Some room" "rm_OwnerID room = sj_UserID (subjectFromHeader c)" "u \<noteq> sj_UserID (subjectFromHeader c)"
      and key: "member_key r u = Some (k, w)"
      and db': "db' = db\<lparr>db_perms := AList.update (k, w) (perm_to_i16 (PermissionsFromProto ps), rq_dbnow c) (db_perms db)\<rparr>"
    have fr: "find_room r' db' = find_room r' db" for r' by (simp add: db' find_room_def split: option.split)
    have "find_perm r u db' = Some (perm_to_i16 (PermissionsFromProto ps))" by (simp add: db' find_perm_def key update_conv')
    moreover have "member_key r' u' \<noteq> member_key r u \<Longrightarrow> find_perm r' u' db' = find_perm r' u' db" for r' u'
      by (auto simp: db' find_perm_def key update_conv' split: option.splits)
    moreover have "perm_of_i16 (perm_to_i16 p) = p" for p by (simp add: perm_of_i16_def perm_to_i16_def)
    moreover have "set res = set ps \<inter> {1..5}" by (auto simp: res set_ToProto bit_FromProto)
    ultimately show ?thesis using room by (auto simp: GetMemberPermissions_no_faults [OF assms(2,3)] fr res split: option.split)
  qed
qed

section \<open>Samples\<close>

text \<open>Bob joins the sample room; Ann, with the padded identifier the tables return, grants and changes
  roles.\<close>

definition join_call :: "room_db \<Rightarrow> (RoomProto \<times> int) result \<times> room_db" where
  "join_call db = JoinRoom (sample_call ''bob'' ''e2'') ''r1'' '''' db"

definition shared_db :: room_db where "shared_db = snd (join_call sample_db)"

definition ann :: call where "ann = sample_call (pad 26 ''ann'') ''e3''"

lemma sample_join: "is_Inr (fst (join_call sample_db))"
  by code_simp

lemma sample_grant: "is_Inr (fst (GrantPermissions ann ''r1'' ''bob'' [2, 9] shared_db))"
  by code_simp

lemma sample_role: "is_Inr (fst (UpdateMemberRole ann ''r1'' ''bob'' 65540 shared_db))"
  by code_simp


theorem UpdateMemberRole_effect_witness:
  "\<exists>db'. map_option mb_Role (find_member ''r1'' ''bob'' db') = Some ROOM_ROLE_OWNER \<and>
     snd (UpdateMemberRole ann ''r1'' ''bob'' 65540 shared_db) = db'"
proof -
  obtain m where "UpdateMemberRole ann ''r1'' ''bob'' 65540 shared_db =
      (Inr m, snd (UpdateMemberRole ann ''r1'' ''bob'' 65540 shared_db))"
    using is_InrD [OF sample_role] by blast
  from UpdateMemberRole_effect [OF this] show ?thesis by auto
qed

theorem grant_then_query_witness:
  "fst (GetMemberPermissions ann ''r1'' ''bob'' (snd (GrantPermissions ann ''r1'' ''bob'' [2, 9] shared_db))) = Inr (False, [2])"
proof -
  obtain res where g: "GrantPermissions ann ''r1'' ''bob'' [2, 9] shared_db =
      (Inr res, snd (GrantPermissions ann ''r1'' ''bob'' [2, 9] shared_db))"
    using is_InrD [OF sample_grant] by blast
  have a: "rq_ctxErr ann = None" "rq_faults ann = no_faults" by (simp_all add: ann_def sample_call_def)
  have "res = ToProto (PermissionsFromProto [2, 9])"
    using g a by (auto simp: GrantPermissions_def ctxDone_def Let_def split: prod.splits sum.splits)
  moreover have "ToProto (PermissionsFromProto [2, 9]) = [2]" by code_simp
  ultimately show ?thesis using grant_then_query [OF g a] by simp
qed

section \<open>Situations the code does not handle\<close>

text \<open>An owner may give up the OWNER role (the target of a role change may be the caller); a moderator can
  then kick the owner, and the room is left with an owner who is not a member.\<close>

definition demoted_db :: room_db where
  "demoted_db = snd (UpdateMemberRole ann ''r1'' ''ann'' ROOM_ROLE_MEMBER
     (snd (UpdateMemberRole ann ''r1'' ''bob'' ROOM_ROLE_MODERATOR shared_db)))"

lemma owner_can_be_kicked:
  "(case KickMember (sample_call ''bob'' ''x'') ''r1'' ''ann'' demoted_db of
      (Inr k, db) \<Rightarrow> find_member ''r1'' ''ann'' db = None \<and> map_option rm_OwnerID (find_room ''r1'' db) = Some (pad 26 ''ann'')
    | _ \<Rightarrow> False)"
  by code_simp

text \<open>The cursor returned by \<open>List\<close> is the first room that was not returned, and the next page starts below
  it, so that room is on no page.\<close>

definition list_db :: room_db where
  "list_db = empty_room_db\<lparr>db_rooms := map (\<lambda>(i, t). (i, \<lparr>rm_ID = i, rm_Slug = i, rm_Name = i, rm_Description = '''',
     rm_Visibility = 1, rm_OwnerID = i, rm_MaxMembers = 2, rm_MemberCount = 0, rm_CreatedAt = t, rm_UpdatedAt = t\<rparr>))
     [(''A'', 1), (''B'', 2), (''C'', 3)]\<rparr>"

definition list_page :: "string \<Rightarrow> (Room list \<times> string) result" where
  "list_page cursor = fst (run_tx (RoomRepo_List (\<lambda>p n. True) id cursor 1 '''' [1]) no_faults list_db)"

lemma listing_skips_room:
  "map_sum id (\<lambda>(rs, next). (map rm_ID rs, next)) (list_page '''') = Inr ([''C''], ''B'') \<and>
   map_sum id (\<lambda>(rs, next). (map rm_ID rs, next)) (list_page ''B'') = Inr ([''A''], '''')"
  by (simp add: list_page_def list_db_def empty_room_db_def run_tx_def RoomRepo_List_def tx_defs list_where_def list_limit_def
      scanRoom_def i16_def i8_def Let_def)

end
