(* ===== verification/Media_Service.thy ===== *)
theory Media_Service
  imports Vb_Sql Vb_Call "HOL-Library.List_Lexorder" "HOL-Library.Char_ord"
begin

text \<open>
  The media service: \<open>domain/media.go\<close> (catalog items), \<open>infra/postgres/{media_repo,queue_repo}.go\<close> (the
  catalog and the queue of each room) and \<open>app/handlers.go\<close> (the RPCs).

  A queue entry is a row with a position. The abstraction of a room's rows is the list of their media
  ids in position order. Shown in \<open>Media_Queue\<close>: positions are always 0, 1, ..., n - 1; adding appends
  to the list and removing deletes one element.
\<close>

section \<open>Domain\<close>

definition KindAudio :: int where "KindAudio = 1"
definition SourceProvider :: int where "SourceProvider = 1"

record Media =
  md_ID :: string
  md_Kind :: int
  md_Source :: int
  md_ExternalRef :: string
  md_Title :: string
  md_Artist :: string
  md_DurationMs :: int
  md_CoverURL :: string
  md_CreatedAt :: time

record QueueItem =
  qi_RoomID :: string
  qi_Position :: int
  qi_MediaID :: string
  qi_AddedAt :: time

definition ErrMediaTitleEmpty :: go_error where "ErrMediaTitleEmpty = PlainErr ''media: title must not be empty''"

record NewMediaParams =
  nm_Kind :: int
  nm_Source :: int
  nm_ExternalRef :: string
  nm_Title :: string
  nm_Artist :: string
  nm_DurationMs :: int
  nm_CoverURL :: string

definition NewMedia :: "time \<Rightarrow> string \<Rightarrow> NewMediaParams \<Rightarrow> Media result" where
  "NewMedia now i p =
     (let title = TrimSpace (nm_Title p) in
      if title = '''' then Inl ErrMediaTitleEmpty
      else Inr \<lparr>md_ID = i, md_Kind = (if nm_Kind p = 0 then KindAudio else nm_Kind p),
        md_Source = (if nm_Source p = 0 then SourceProvider else nm_Source p),
        md_ExternalRef = TrimSpace (nm_ExternalRef p), md_Title = title, md_Artist = TrimSpace (nm_Artist p),
        md_DurationMs = nm_DurationMs p, md_CoverURL = TrimSpace (nm_CoverURL p), md_CreatedAt = now\<rparr>)"

section \<open>Tables\<close>

record media_db =
  db_media :: "(string \<times> Media) list"
  db_queue :: "QueueItem list"

definition empty_media_db :: media_db where "empty_media_db = \<lparr>db_media = [], db_queue = []\<rparr>"

definition media_row_of :: "Media \<Rightarrow> Media option" where
  "media_row_of m =
     (case (char_col 26 (md_ID m), text_varchar_col 255 (md_ExternalRef m), text_varchar_col 255 (md_Title m),
            text_varchar_col 255 (md_Artist m), text_col (md_CoverURL m)) of
        (Some i, Some e, Some t, Some a, Some u) \<Rightarrow>
          Some (m\<lparr>md_ID := i, md_Kind := i16 (md_Kind m), md_Source := i16 (md_Source m), md_ExternalRef := e,
                 md_Title := t, md_Artist := a, md_CoverURL := u, md_CreatedAt := pg_time (md_CreatedAt m)\<rparr>)
      | _ \<Rightarrow> None)"

definition Media_Create :: "Media \<Rightarrow> (media_db, unit) tx" where
  "Media_Create m = tx_err (WrapErr ''media_repo: create'') (tx_stmt (\<lambda>db.
     case media_row_of m of
       None \<Rightarrow> (Inl (ExtErr ''invalid value''), db)
     | Some w \<Rightarrow>
         if map_of (db_media db) (md_ID w) \<noteq> None then (Inl (ExtErr ''duplicate key''), db)
         else (Inr (), db\<lparr>db_media := db_media db @ [(md_ID w, w)]\<rparr>)))"

definition scanMedia :: "Media \<Rightarrow> Media" where
  "scanMedia w = w\<lparr>md_Kind := i8 (md_Kind w), md_Source := i8 (md_Source w)\<rparr>"

definition find_media :: "string \<Rightarrow> media_db \<Rightarrow> Media option" where
  "find_media i db = (case char_col 26 i of None \<Rightarrow> None | Some k \<Rightarrow> map_of (db_media db) k)"

definition Media_GetByID :: "string \<Rightarrow> (media_db, Media) tx" where
  "Media_GetByID i = tx_err (mapErr ''media'' i) (tx_stmt (\<lambda>db. case find_media i db of
     None \<Rightarrow> (Inl no_rows, db) | Some w \<Rightarrow> (Inr (scanMedia w), db)))"

text \<open>\<open>matches pattern title\<close> is SQL's \<open>LOWER(title) ILIKE pattern\<close>.\<close>

definition Media_List ::
  "(string \<Rightarrow> string \<Rightarrow> bool) \<Rightarrow> (string \<Rightarrow> string) \<Rightarrow> string \<Rightarrow> int \<Rightarrow> string \<Rightarrow> (media_db, Media list \<times> string) tx" where
  "Media_List matches U cursor limit search =
     (let limit = nat (if limit \<le> 0 \<or> limit > 200 then 50 else limit) in
      tx_err (WrapErr ''media_repo: list'') (tx_query (\<lambda>db.
        let rows = filter (\<lambda>m. (search = '''' \<or> matches (''%'' @ ToLower U search @ ''%'') (md_Title m)) \<and>
                     (cursor = '''' \<or> md_ID m < cursor)) (map snd (db_media db));
            items = map scanMedia (take (limit + 1) (sort_key (\<lambda>m. - md_CreatedAt m) rows))
        in if length items > limit then (take limit items, md_ID (items ! limit)) else (items, ''''))))"

text \<open>The rows of one room, and \<open>COALESCE(MAX(position), -1) + 1\<close>.\<close>

definition room_rows :: "string \<Rightarrow> QueueItem list \<Rightarrow> QueueItem list" where
  "room_rows k q = filter (\<lambda>x. qi_RoomID x = k) q"

definition next_position :: "string \<Rightarrow> QueueItem list \<Rightarrow> int" where
  "next_position k q = fold max (map qi_Position (room_rows k q)) (- 1) + 1"

definition Queue_Add :: "time \<Rightarrow> string \<Rightarrow> string \<Rightarrow> (media_db, QueueItem) tx" where
  "Queue_Add dbnow roomID mediaID = tx_err (WrapErr ''queue_repo: add'') (tx_stmt (\<lambda>db.
     case (char_col 26 roomID, char_col 26 mediaID) of
       (Some r, Some m) \<Rightarrow>
         (let item = \<lparr>qi_RoomID = r, qi_Position = next_position r (db_queue db), qi_MediaID = m, qi_AddedAt = dbnow\<rparr> in
          if \<not> in_i32 (qi_Position item) then (Inl (ExtErr ''integer out of range''), db)
          else if map_of (db_media db) m = None then (Inl (ExtErr ''foreign key violation''), db)
          else (Inr item, db\<lparr>db_queue := db_queue db @ [item]\<rparr>))
     | _ \<Rightarrow> (Inl (ExtErr ''value too long''), db)))"

definition Queue_List :: "string \<Rightarrow> (media_db, QueueItem list) tx" where
  "Queue_List roomID = tx_err (WrapErr ''queue_repo: list'') (tx_query (\<lambda>db.
     case char_col 26 roomID of None \<Rightarrow> [] | Some r \<Rightarrow> sort_key qi_Position (room_rows r (db_queue db))))"

text \<open>The renumbering \<open>UPDATE\<close> visits the rows in the order of its scan; the primary key is checked after
  each row, against the rows already renumbered and those still to come.\<close>

fun renumber :: "string \<Rightarrow> int \<Rightarrow> QueueItem list \<Rightarrow> QueueItem list \<Rightarrow> QueueItem list option" where
  "renumber k p seen [] = Some seen"
| "renumber k p seen (x # xs) =
     (if qi_RoomID x = k \<and> qi_Position x > p then
        (let y = x\<lparr>qi_Position := qi_Position x - 1\<rparr> in
         if list_ex (\<lambda>z. qi_RoomID z = k \<and> qi_Position z = qi_Position y) (seen @ xs) then None
         else renumber k p (seen @ [y]) xs)
      else renumber k p (seen @ [x]) xs)"

text \<open>\<open>scan\<close> is the order in which the update finds the rows.\<close>

definition Queue_Remove :: "(QueueItem list \<Rightarrow> QueueItem list) \<Rightarrow> string \<Rightarrow> int \<Rightarrow> (media_db, unit) tx" where
  "Queue_Remove scan roomID position =
     tx_bind (tx_err (WrapErr ''queue_repo: delete'') (tx_stmt (\<lambda>db.
       if \<not> in_i32 position then (Inl (ExtErr ''value out of range''), db)
       else (let hit = (\<lambda>x. char_col 26 roomID = Some (qi_RoomID x) \<and> qi_Position x = position)
             in (Inr (length (filter hit (db_queue db))), db\<lparr>db_queue := filter (\<lambda>x. \<not> hit x) (db_queue db)\<rparr>)))))
     (\<lambda>affected.
       tx_then (tx_when (affected = 0) (PortsNotFound ''queue'' (roomID @ ''/'' @ dec_int position)))
      (tx_err (WrapErr ''queue_repo: renumber'') (tx_stmt (\<lambda>db.
         case char_col 26 roomID of
           None \<Rightarrow> (Inr (), db)
         | Some k \<Rightarrow> (case renumber k position [] (scan (db_queue db)) of
             None \<Rightarrow> (Inl (ExtErr ''duplicate key''), db)
           | Some q \<Rightarrow> (Inr (), db\<lparr>db_queue := q\<rparr>))))))"

section \<open>Handlers\<close>

record MediaProto =
  mx_Id :: string
  mx_Kind :: int
  mx_Source :: int
  mx_ExternalRef :: string
  mx_Title :: string
  mx_Artist :: string
  mx_Duration :: duration
  mx_CoverUrl :: string
  mx_CreatedAt :: time

definition mediaToProto :: "Media \<Rightarrow> MediaProto" where
  "mediaToProto m = \<lparr>mx_Id = md_ID m, mx_Kind = md_Kind m, mx_Source = md_Source m, mx_ExternalRef = md_ExternalRef m,
     mx_Title = md_Title m, mx_Artist = md_Artist m, mx_Duration = i64 (md_DurationMs m * 1000000),
     mx_CoverUrl = md_CoverURL m, mx_CreatedAt = md_CreatedAt m\<rparr>"

record QueueItemProto =
  qp_MediaId :: string
  qp_Position :: u32
  qp_AddedAt :: time

definition queueItemToProto :: "QueueItem \<Rightarrow> QueueItemProto" where
  "queueItemToProto q = \<lparr>qp_MediaId = qi_MediaID q, qp_Position = word_of_int (qi_Position q), qp_AddedAt = qi_AddedAt q\<rparr>"

record CreateMediaRequest =
  cm_Kind :: int
  cm_Source :: int
  cm_ExternalRef :: string
  cm_Title :: string
  cm_Artist :: string
  cm_DurationMs :: u64
  cm_CoverUrl :: string

definition GetMedia :: "call \<Rightarrow> string \<Rightarrow> media_db \<Rightarrow> MediaProto result \<times> media_db" where
  "GetMedia c i db = ctxDone c db
     (case map_error (\<lambda>err. if isNotFound err then NotFound ''media'' i else internal ''GET_MEDIA_FAILED'' err)
         (run_tx (Media_GetByID i) (rq_faults c) db) of
        (Inl err, db') \<Rightarrow> (Inl err, db') | (Inr m, db') \<Rightarrow> (Inr (mediaToProto m), db'))"

definition CreateMedia :: "call \<Rightarrow> CreateMediaRequest \<Rightarrow> media_db \<Rightarrow> MediaProto result \<times> media_db" where
  "CreateMedia c req db = ctxDone c db
     (if sj_SystemRole (subjectFromHeader c) < SYSTEM_ROLE_USER then (Inl (PermissionDenied ''media.create'' ''media''), db)
      else (case NewMedia (rq_now c 0) (rq_newID c 0)
          \<lparr>nm_Kind = i8 (cm_Kind req), nm_Source = i8 (cm_Source req), nm_ExternalRef = cm_ExternalRef req, nm_Title = cm_Title req,
           nm_Artist = cm_Artist req, nm_DurationMs = u64_to_i64 (cm_DurationMs req), nm_CoverURL = cm_CoverUrl req\<rparr> of
         Inl err \<Rightarrow> (Inl (WithCause err (InvalidArgumentFor ''vibesync.media'' ''INVALID_MEDIA'' (err_text err))), db)
       | Inr media \<Rightarrow>
           (case map_error (internal ''CREATE_MEDIA_FAILED'') (run_tx (Media_Create media) (rq_faults c) db) of
              (Inl err, db') \<Rightarrow> (Inl err, db') | (Inr _, db') \<Rightarrow> (Inr (mediaToProto media), db'))))"

definition ListMedia ::
  "(string \<Rightarrow> string \<Rightarrow> bool) \<Rightarrow> call \<Rightarrow> (string \<times> u32) option \<Rightarrow> string \<Rightarrow> media_db
   \<Rightarrow> (MediaProto list \<times> string \<times> u64) result \<times> media_db" where
  "ListMedia matches c page search db = ctxDone c db
     (let cursor = (case page of None \<Rightarrow> '''' | Some (cur, l) \<Rightarrow> cur);
          limit = (case page of None \<Rightarrow> 50 | Some (cur, l) \<Rightarrow> if l > 0 then uint l else 50)
      in case map_error (internal ''LIST_MEDIA_FAILED'')
           (run_tx (Media_List matches (rq_lower c) cursor limit search) (rq_faults c) db) of
           (Inl err, db') \<Rightarrow> (Inl err, db')
         | (Inr (items, nextCursor), db') \<Rightarrow>
             (Inr (map mediaToProto items, nextCursor, word_of_nat (length items)), db'))"

text \<open>\<open>has\<close> is the permission port, answered by the room service.\<close>

definition requireQueuePermission ::
  "(string \<Rightarrow> string \<Rightarrow> int \<Rightarrow> bool result) \<Rightarrow> string \<Rightarrow> string \<Rightarrow> int \<Rightarrow> string \<Rightarrow> unit result" where
  "requireQueuePermission has userID roomID perm action =
     (if userID = '''' then Inl (Unauthenticated ''MISSING_USER_ID'')
      else (case has roomID userID perm of
          Inl err \<Rightarrow> Inl (internal ''PERMISSION_CHECK_FAILED'' err)
        | Inr allowed \<Rightarrow> if \<not> allowed then Inl (PermissionDenied action (''room:'' @ roomID)) else Inr ()))"

definition ROOM_PERMISSION_ADD_QUEUE :: int where "ROOM_PERMISSION_ADD_QUEUE = 4"
definition ROOM_PERMISSION_REMOVE_QUEUE :: int where "ROOM_PERMISSION_REMOVE_QUEUE = 5"

definition add_tx :: "call \<Rightarrow> string \<Rightarrow> string \<Rightarrow> (media_db, QueueItem) tx" where
  "add_tx c roomID mediaID = tx_bind (Media_GetByID mediaID) (\<lambda>_. Queue_Add (rq_dbnow c) roomID mediaID)"

definition AddToQueue ::
  "(string \<Rightarrow> string \<Rightarrow> int \<Rightarrow> bool result) \<Rightarrow> call \<Rightarrow> string \<Rightarrow> string \<Rightarrow> media_db \<Rightarrow> QueueItemProto result \<times> media_db" where
  "AddToQueue has c roomID mediaID db = ctxDone c db
     (let subject = subjectFromHeader c in
      if sj_SystemRole subject < SYSTEM_ROLE_USER then (Inl (PermissionDenied ''media.queue.add'' ''media-queue''), db)
      else if roomID = '''' \<or> mediaID = '''' then
        (Inl (InvalidArgumentFor ''vibesync.media'' ''MISSING_ID'' ''room_id and media_id required''), db)
      else (case requireQueuePermission has (sj_UserID subject) roomID ROOM_PERMISSION_ADD_QUEUE ''media.queue.add'' of
          Inl err \<Rightarrow> (Inl err, db)
        | Inr _ \<Rightarrow>
            (case map_error (\<lambda>err. if isNotFound err then NotFound ''media'' mediaID else internal ''ADD_TO_QUEUE_FAILED'' err)
                (run_tx (add_tx c roomID mediaID) (rq_faults c) db) of
               (Inl err, db') \<Rightarrow> (Inl err, db') | (Inr item, db') \<Rightarrow> (Inr (queueItemToProto item), db'))))"

definition GetQueue :: "call \<Rightarrow> string \<Rightarrow> media_db \<Rightarrow> QueueItemProto list result \<times> media_db" where
  "GetQueue c roomID db = ctxDone c db
     (case map_error (internal ''GET_QUEUE_FAILED'') (run_tx (Queue_List roomID) (rq_faults c) db) of
        (Inl err, db') \<Rightarrow> (Inl err, db') | (Inr items, db') \<Rightarrow> (Inr (map queueItemToProto items), db'))"

definition RemoveFromQueue ::
  "(string \<Rightarrow> string \<Rightarrow> int \<Rightarrow> bool result) \<Rightarrow> (QueueItem list \<Rightarrow> QueueItem list) \<Rightarrow> call \<Rightarrow> string \<Rightarrow> u32 \<Rightarrow> media_db
   \<Rightarrow> bool result \<times> media_db" where
  "RemoveFromQueue has scan c roomID position db = ctxDone c db
     (let subject = subjectFromHeader c in
      if sj_SystemRole subject < SYSTEM_ROLE_USER then (Inl (PermissionDenied ''media.queue.remove'' ''media-queue''), db)
      else (case requireQueuePermission has (sj_UserID subject) roomID ROOM_PERMISSION_REMOVE_QUEUE ''media.queue.remove'' of
          Inl err \<Rightarrow> (Inl err, db)
        | Inr _ \<Rightarrow>
            (case map_error (\<lambda>err. if isNotFound err then NotFound ''queue'' (roomID @ '':'' @ dec_int (uint position)) else internal ''REMOVE_FROM_QUEUE_FAILED'' err)
                (run_tx (Queue_Remove scan roomID (uint position)) (rq_faults c) db) of
               (Inl err, db') \<Rightarrow> (Inl err, db') | (Inr _, db') \<Rightarrow> (Inr True, db'))))"

end
