(* ===== verification/Media_Queue.thy ===== *)
theory Media_Queue
  imports Media_Service "HOL-Library.Multiset" Vb_History
begin

text \<open>
  The queue of a room as a list: every operation of the media service keeps the positions 0, 1, ..., n - 1,
  and acts on the list of media ids as append and as deletion of one element. The renumbering
  statement succeeds when it visits the rows in position order; in another order the primary key makes
  it fail.
\<close>

section \<open>Lists of rows\<close>

text \<open>The rows of one room in position order; dense positions.\<close>

definition queue_sorted :: "string \<Rightarrow> QueueItem list \<Rightarrow> QueueItem list" where
  "queue_sorted k q = sort_key qi_Position (room_rows k q)"

definition dense :: "QueueItem list \<Rightarrow> bool" where
  "dense rows \<longleftrightarrow> map qi_Position (sort_key qi_Position rows) = map int [0..<length rows]"

definition queue_ok :: "QueueItem list \<Rightarrow> bool" where
  "queue_ok q \<longleftrightarrow> (\<forall>k. dense (room_rows k q))"

definition queue_abs :: "QueueItem list \<Rightarrow> string \<Rightarrow> string list" where
  "queue_abs q k = map qi_MediaID (queue_sorted k q)"

lemma length_queue_sorted [simp]: "length (queue_sorted k q) = length (room_rows k q)"
  by (simp add: queue_sorted_def)

text \<open>A sorted list with the same rows and increasing positions is the sorted list.\<close>

lemma sort_unique:
  assumes "mset ys = mset rows" "map qi_Position ys = map int [0..<length ys]"
  shows "sort_key qi_Position rows = ys" "dense rows"
proof -
  have "distinct (map qi_Position ys)" unfolding assms(2) by (simp add: distinct_map)
  moreover have "set rows = set ys" using assms(1) by (metis mset_eq_setD)
  ultimately have "inj_on qi_Position (set rows)" by (simp add: distinct_map)
  moreover have "sorted (map qi_Position ys)" unfolding assms(2) by (simp add: sorted_map)
  ultimately show *: "sort_key qi_Position rows = ys" using assms(1) by (metis sort_key_inj_key_eq)
  have "length ys = length rows" using assms(1) by (metis size_mset)
  then show "dense rows" using assms(2) by (simp add: dense_def *)
qed

lemma dense_mset:
  assumes "dense rows" shows "mset (sort_key qi_Position rows) = mset rows"
    "map qi_Position (sort_key qi_Position rows) = map int [0..<length (sort_key qi_Position rows)]"
  using assms by (simp_all add: dense_def)

lemma dense_nth: "dense rows \<Longrightarrow> i < length rows \<Longrightarrow> qi_Position (sort_key qi_Position rows ! i) = int i"
proof -
  assume "dense rows" "i < length rows"
  then have "map qi_Position (sort_key qi_Position rows) ! i = map int [0..<length rows] ! i" by (simp add: dense_def)
  then show ?thesis using \<open>i < length rows\<close> by simp
qed

section \<open>Adding\<close>

lemma fold_max_le: "(\<And>x. x \<in> set xs \<Longrightarrow> x \<le> b) \<Longrightarrow> a \<le> b \<Longrightarrow> fold max xs a \<le> (b :: int)"
  by (induction xs arbitrary: a) auto

lemma fold_max_ge: "x \<in> set xs \<or> x \<le> a \<Longrightarrow> x \<le> fold max xs (a :: int)"
  by (induction xs arbitrary: a) (auto simp: max_def)

lemma dense_positions: "dense rows \<Longrightarrow> qi_Position ` set rows = int ` {..<length rows}"
proof -
  assume "dense rows"
  then have "set (map qi_Position (sort_key qi_Position rows)) = set (map int [0..<length rows])" by (simp add: dense_def)
  then show ?thesis by (simp add: atLeast0LessThan)
qed

lemma next_position_dense:
  assumes "dense (room_rows k q)" shows "next_position k q = int (length (room_rows k q))"
proof -
  let ?ps = "map qi_Position (room_rows k q)" let ?n = "length (room_rows k q)"
  have set: "set ?ps = int ` {..<?n}" using dense_positions [OF assms] by simp
  have "fold max ?ps (- 1) \<le> int ?n - 1"
    using set by (intro fold_max_le) auto
  moreover have "int ?n - 1 \<le> fold max ?ps (- 1)"
  proof (cases "?n = 0")
    case False
    then have "int ?n - 1 \<in> set ?ps" unfolding set by (auto simp: image_iff of_nat_diff Suc_leI intro!: bexI [of _ "?n - 1"])
    then show ?thesis by (intro fold_max_ge) simp
  qed simp
  ultimately show ?thesis by (simp add: next_position_def)
qed

lemma add_row:
  assumes "dense (room_rows k q)" "qi_RoomID x = k" "qi_Position x = int (length (room_rows k q))"
  shows "queue_sorted k (q @ [x]) = queue_sorted k q @ [x]" "dense (room_rows k (q @ [x]))"
    "j \<noteq> k \<Longrightarrow> room_rows j (q @ [x]) = room_rows j q"
proof -
  have rr: "room_rows k (q @ [x]) = room_rows k q @ [x]" using assms(2) by (simp add: room_rows_def)
  have m: "mset (queue_sorted k q @ [x]) = mset (room_rows k (q @ [x]))"
    by (simp add: rr queue_sorted_def)
  have p: "map qi_Position (queue_sorted k q @ [x]) = map int [0..<length (queue_sorted k q @ [x])]"
    using assms by (simp add: dense_def queue_sorted_def)
  show "queue_sorted k (q @ [x]) = queue_sorted k q @ [x]" "dense (room_rows k (q @ [x]))"
    using sort_unique [OF m p] by (simp_all add: queue_sorted_def)
  show "j \<noteq> k \<Longrightarrow> room_rows j (q @ [x]) = room_rows j q" using assms(2) by (simp add: room_rows_def)
qed

section \<open>Removing\<close>

definition shift_row :: "string \<Rightarrow> int \<Rightarrow> QueueItem \<Rightarrow> QueueItem" where
  "shift_row k p x = (if qi_RoomID x = k \<and> qi_Position x > p then x\<lparr>qi_Position := qi_Position x - 1\<rparr> else x)"

lemma renumber_Some: "renumber k p seen xs = Some ys \<Longrightarrow> ys = seen @ map (shift_row k p) xs"
  by (induction k p seen xs arbitrary: ys rule: renumber.induct) (auto simp: shift_row_def Let_def split: if_splits)

lemma shift_row_simps [simp]: "qi_RoomID (shift_row k p x) = qi_RoomID x" "qi_MediaID (shift_row k p x) = qi_MediaID x"
  by (simp_all add: shift_row_def)

text \<open>Without row \<open>p\<close>, and with the rows after it moved down, the positions are dense again.\<close>

lemma shifted_positions:
  assumes pos: "\<And>i. i < length s \<Longrightarrow> qi_Position (s ! i) = int i" and rooms: "\<And>x. x \<in> set s \<Longrightarrow> qi_RoomID x = k" and p: "p < length s"
  defines "ys \<equiv> map (shift_row k (int p)) (take p s @ drop (Suc p) s)"
  shows "map qi_Position ys = map int [0..<length ys]"
proof (rule nth_equalityI)
  fix i assume "i < length (map qi_Position ys)"
  then have i: "i < length s - 1" using p by (simp add: ys_def)
  show "map qi_Position ys ! i = map int [0..<length ys] ! i"
  proof (cases "i < p")
    case True
    then have "(take p s @ drop (Suc p) s) ! i = s ! i" using p by (simp add: nth_append)
    then show ?thesis using i True pos [of i] p by (simp add: ys_def shift_row_def nth_append)
  next
    case False
    then have "(take p s @ drop (Suc p) s) ! i = s ! Suc i" using i p by (simp add: nth_append)
    moreover have "qi_RoomID (s ! Suc i) = k" using i by (intro rooms nth_mem) simp
    ultimately show ?thesis using i False pos [of "Suc i"] p by (simp add: ys_def shift_row_def nth_append)
  qed
qed (use p in simp)

lemma remove_row:
  assumes "dense (room_rows k q)" "p < length (room_rows k q)" "mset q' = mset (filter (\<lambda>x. \<not> (qi_RoomID x = k \<and> qi_Position x = int p)) q)"
  defines "r \<equiv> map (shift_row k (int p)) q'"
  shows "map qi_MediaID (queue_sorted k r) = take p (queue_abs q k) @ drop (Suc p) (queue_abs q k)" "dense (room_rows k r)"
    "j \<noteq> k \<Longrightarrow> mset (room_rows j r) = mset (room_rows j q)"
proof -
  let ?s = "queue_sorted k q" let ?n = "length (room_rows k q)"
  have pos: "i < ?n \<Longrightarrow> qi_Position (?s ! i) = int i" for i using dense_nth [OF assms(1)] by (simp add: queue_sorted_def)
  have rooms: "x \<in> set ?s \<Longrightarrow> qi_RoomID x = k" for x by (simp add: queue_sorted_def room_rows_def)
  have split: "?s = take p ?s @ ?s ! p # drop (Suc p) ?s" using assms(2) by (simp add: id_take_nth_drop)
  have tk: "x \<in> set (take p ?s) \<Longrightarrow> qi_Position x < int p" for x
    using pos assms(2) by (auto simp: in_set_conv_nth)
  have dp: "x \<in> set (drop (Suc p) ?s) \<Longrightarrow> int p < qi_Position x" for x
    using pos by (auto simp: in_set_conv_nth)
  have fs: "filter (\<lambda>x. qi_Position x \<noteq> int p) ?s = take p ?s @ drop (Suc p) ?s"
  proof -
    have "filter (\<lambda>x. qi_Position x \<noteq> int p) (take p ?s) = take p ?s" using tk by (force simp: filter_id_conv)
    moreover have "filter (\<lambda>x. qi_Position x \<noteq> int p) (drop (Suc p) ?s) = drop (Suc p) ?s" using dp by (force simp: filter_id_conv)
    ultimately show ?thesis by (subst split) (simp add: pos assms(2))
  qed
  let ?ys = "map (shift_row k (int p)) (take p ?s @ drop (Suc p) ?s)"
  have "mset (room_rows k r) = image_mset (shift_row k (int p)) (mset (filter (\<lambda>x. qi_RoomID x = k) q'))"
    by (simp add: r_def room_rows_def filter_map o_def)
  also have "mset (filter (\<lambda>x. qi_RoomID x = k) q') = mset (filter (\<lambda>x. qi_Position x \<noteq> int p) (room_rows k q))"
    using assms(3) by (simp add: room_rows_def mset_filter filter_filter_mset) (rule filter_mset_cong, auto)
  also have "\<dots> = mset (filter (\<lambda>x. qi_Position x \<noteq> int p) ?s)" by (simp add: queue_sorted_def mset_filter)
  finally have m: "mset ?ys = mset (room_rows k r)" by (simp add: fs)
  have "map qi_Position ?ys = map int [0..<length ?ys]"
    by (rule shifted_positions) (use pos rooms assms(2) in \<open>simp_all add: queue_sorted_def\<close>)
  from sort_unique [OF m this] show "map qi_MediaID (queue_sorted k r) = take p (queue_abs q k) @ drop (Suc p) (queue_abs q k)"
    "dense (room_rows k r)" by (simp_all add: queue_sorted_def queue_abs_def take_map drop_map)
  show "j \<noteq> k \<Longrightarrow> mset (room_rows j r) = mset (room_rows j q)"
  proof -
    assume j: "j \<noteq> k"
    have "map (shift_row k (int p)) (filter (\<lambda>x. qi_RoomID x = j) q') = filter (\<lambda>x. qi_RoomID x = j) q'"
      using j by (intro map_idI) (auto simp: shift_row_def)
    then have "room_rows j r = filter (\<lambda>x. qi_RoomID x = j) q'" by (simp add: r_def room_rows_def filter_map o_def)
    then show ?thesis using assms(3) j
      by (simp add: room_rows_def mset_filter filter_filter_mset) (metis (mono_tags, lifting) filter_mset_cong)
  qed
qed

lemma renumber_ascending:
  assumes "sorted_wrt (\<lambda>x y. qi_RoomID x = k \<longrightarrow> qi_RoomID y = k \<longrightarrow> qi_Position x < qi_Position y) xs"
    "\<forall>x\<in>set xs. qi_RoomID x = k \<longrightarrow> qi_Position x \<noteq> p"
    "\<forall>z\<in>set seen. \<forall>x\<in>set xs. qi_RoomID z = k \<longrightarrow> qi_RoomID x = k \<longrightarrow> p < qi_Position x \<longrightarrow> qi_Position z < qi_Position x - 1"
  shows "renumber k p seen xs \<noteq> None"
  using assms
proof (induction xs arbitrary: seen)
  case (Cons x xs)
  show ?case
  proof (cases "qi_RoomID x = k \<and> p < qi_Position x")
    case True
    let ?y = "x\<lparr>qi_Position := qi_Position x - 1\<rparr>"
    have "\<not> list_ex (\<lambda>z. qi_RoomID z = k \<and> qi_Position z = qi_Position ?y) (seen @ xs)"
      using Cons.prems True by (force simp: list_ex_iff)
    moreover have "renumber k p (seen @ [?y]) xs \<noteq> None"
      by (rule Cons.IH) (use Cons.prems True in auto)
    ultimately show ?thesis using True by (simp add: Let_def)
  next
    case False
    have "renumber k p (seen @ [x]) xs \<noteq> None"
      by (rule Cons.IH) (use Cons.prems False in \<open>force+\<close>)
    with False show ?thesis by auto
  qed
qed simp

section \<open>Transactions\<close>

lemma Media_GetByID_inr [tx_inr]:
  "Media_GetByID i fl n db = (Inr m, n', db') \<longleftrightarrow>
     fl n = None \<and> n' = n + 1 \<and> db' = db \<and> (\<exists>w. find_media i db = Some w \<and> m = scanMedia w)"
  by (auto simp: Media_GetByID_def tx_inr split: option.splits)

lemma add_tx_success:
  assumes "add_tx c r m fl n db = (Inr item, n', db')"
  obtains "item = \<lparr>qi_RoomID = key26 r, qi_Position = next_position (key26 r) (db_queue db), qi_MediaID = key26 m, qi_AddedAt = rq_dbnow c\<rparr>"
    "db' = db\<lparr>db_queue := db_queue db @ [item]\<rparr>" "map_of (db_media db) (key26 m) \<noteq> None"
  using assms by (auto simp: add_tx_def Queue_Add_def tx_inr key26_def Let_def split: option.splits if_splits)

lemma Queue_Remove_success:
  assumes "Queue_Remove scan r p fl n db = (Inr v, n', db')"
  obtains "x" where "x \<in> set (room_rows (key26 r) (db_queue db))" "qi_Position x = p"
    "db' = db\<lparr>db_queue := map (shift_row (key26 r) p)
       (scan (filter (\<lambda>x. \<not> (qi_RoomID x = key26 r \<and> qi_Position x = p)) (db_queue db)))\<rparr>"
proof -
  let ?hit = "\<lambda>x. char_col 26 r = Some (qi_RoomID x) \<and> qi_Position x = p"
  from assms obtain n1 db1 where d: "filter ?hit (db_queue db) \<noteq> []" "db1 = db\<lparr>db_queue := filter (\<lambda>x. \<not> ?hit x) (db_queue db)\<rparr>"
    and rest: "(case char_col 26 r of None \<Rightarrow> (Inr (), db1)
         | Some k \<Rightarrow> (case renumber k p [] (scan (db_queue db1)) of
             None \<Rightarrow> (Inl (ExtErr ''duplicate key''), db1)
           | Some q \<Rightarrow> (Inr (), db1\<lparr>db_queue := q\<rparr>))) = (Inr v, db')"
    by (auto simp: Queue_Remove_def tx_inr Let_def split: if_splits)
  from d(1) obtain x where x: "x \<in> set (db_queue db)" "?hit x" by (auto simp: filter_empty_conv)
  have k: "char_col 26 r = Some (key26 r)" "key26 r = qi_RoomID x" using x(2) by (auto simp: key26_def)
  have "db' = db1\<lparr>db_queue := map (shift_row (key26 r) p) (scan (db_queue db1))\<rparr>"
    using rest k(1) by (auto dest: renumber_Some split: option.splits)
  then show thesis using that [of x] x k d(2) by (simp add: room_rows_def eq_commute)
qed

section \<open>Histories\<close>

datatype media_request =
    ReqGetMedia string
  | ReqCreateMedia CreateMediaRequest
  | ReqListMedia "string \<Rightarrow> string \<Rightarrow> bool" "(string \<times> u32) option" string
  | ReqAddToQueue string string
  | ReqGetQueue string
  | ReqRemoveFromQueue "QueueItem list \<Rightarrow> QueueItem list" string u32

text \<open>The renumbering visits every row once, in some order.\<close>

fun scans_rows :: "media_request \<Rightarrow> bool" where
  "scans_rows (ReqRemoveFromQueue scan r p) \<longleftrightarrow> (\<forall>q. mset (scan q) = mset q)"
| "scans_rows _ \<longleftrightarrow> True"

type_synonym permission_port = "string \<Rightarrow> string \<Rightarrow> int \<Rightarrow> bool result"

fun media_exec :: "permission_port \<Rightarrow> call \<Rightarrow> media_request \<Rightarrow> media_db \<Rightarrow> go_error option \<times> media_db" where
  "media_exec has c (ReqGetMedia i) db = outcome (GetMedia c i db)"
| "media_exec has c (ReqCreateMedia req) db = outcome (CreateMedia c req db)"
| "media_exec has c (ReqListMedia matches page search) db = outcome (ListMedia matches c page search db)"
| "media_exec has c (ReqAddToQueue r m) db = outcome (AddToQueue has c r m db)"
| "media_exec has c (ReqGetQueue r) db = outcome (GetQueue c r db)"
| "media_exec has c (ReqRemoveFromQueue scan r p) db = outcome (RemoveFromQueue has scan c r p db)"

text \<open>Histories: any calls, with any answers of the permission port and any faults.\<close>

inductive media_step :: "media_db \<Rightarrow> media_db \<Rightarrow> bool" where
  call: "scans_rows req \<Longrightarrow> media_exec has c req db = (r, db') \<Longrightarrow> media_step db db'"

inductive_cases media_stepE: "media_step db db'"

text \<open>What the queues are to their users: one list of media ids per room.\<close>

fun queue_spec :: "media_request \<Rightarrow> (string \<Rightarrow> string list) \<Rightarrow> (string \<Rightarrow> string list)" where
  "queue_spec (ReqAddToQueue r m) Q = Q(key26 r := Q (key26 r) @ [key26 m])"
| "queue_spec (ReqRemoveFromQueue scan r p) Q = Q(key26 r := take (unat p) (Q (key26 r)) @ drop (Suc (unat p)) (Q (key26 r)))"
| "queue_spec _ Q = Q"

definition queued_exist :: "media_db \<Rightarrow> bool" where
  "queued_exist db \<longleftrightarrow> (\<forall>x\<in>set (db_queue db). map_of (db_media db) (qi_MediaID x) \<noteq> None)"

text \<open>The transaction that a call runs, if it runs one.\<close>

fun media_tx :: "call \<Rightarrow> media_request \<Rightarrow> (media_db, unit) tx" where
  "media_tx c (ReqCreateMedia req) =
     (case NewMedia (rq_now c 0) (rq_newID c 0)
          \<lparr>nm_Kind = i8 (cm_Kind req), nm_Source = i8 (cm_Source req), nm_ExternalRef = cm_ExternalRef req, nm_Title = cm_Title req,
           nm_Artist = cm_Artist req, nm_DurationMs = u64_to_i64 (cm_DurationMs req), nm_CoverURL = cm_CoverUrl req\<rparr> of
        Inl e \<Rightarrow> tx_fail e | Inr m \<Rightarrow> Media_Create m)"
| "media_tx c (ReqAddToQueue r m) = tx_bind (add_tx c r m) (\<lambda>_. tx_return ())"
| "media_tx c (ReqRemoveFromQueue scan r p) = Queue_Remove scan r (uint p)"
| "media_tx c _ = tx_return ()"

lemma GetMedia_same: "snd (GetMedia c i db) = db"
proof -
  have "run_tx (Media_GetByID i) f db = (r, db') \<Longrightarrow> db' = db" for f r db'
    by (cases r) (auto simp: run_tx_inr tx_inr dest: run_tx_error)
  then show ?thesis
    by (auto simp: GetMedia_def ctxDone_def map_error_def split: option.splits prod.splits sum.splits)
qed

lemma GetQueue_same: "snd (GetQueue c r db) = db"
proof -
  have "run_tx (Queue_List r) f db = (v, db') \<Longrightarrow> db' = db" for f v db'
    by (cases v) (auto simp: run_tx_inr Queue_List_def tx_inr dest: run_tx_error)
  then show ?thesis
    by (auto simp: GetQueue_def ctxDone_def map_error_def split: option.splits prod.splits sum.splits)
qed

lemma ListMedia_same: "snd (ListMedia matches c page search db) = db"
proof -
  have "run_tx (Media_List matches U cur l search) f db = (r, db') \<Longrightarrow> db' = db" for U cur l f r db'
    by (cases r) (auto simp: run_tx_inr Media_List_def Let_def tx_inr dest: run_tx_error)
  then have same: "snd (run_tx (Media_List matches U cur l search) f db) = db" for U cur l f
    by (metis prod.collapse)
  have unwrap: "snd (case map_error g x of (Inl err, d) \<Rightarrow> (Inl err, d) | (Inr (a, b), d) \<Rightarrow> (Inr (h a b), d)) = snd x"
    for g x and h :: "'a \<Rightarrow> 'b \<Rightarrow> 'c"
    by (auto simp: map_error_def split: prod.splits sum.splits)
  show ?thesis
    unfolding ListMedia_def Let_def ctxDone_def
    by (cases "rq_ctxErr c") (simp_all only: option.case unwrap same snd_conv)
qed

lemma media_exec_cases:
  assumes "media_exec has c req db = (r, db')"
  shows "case r of Some e \<Rightarrow> db' = db | None \<Rightarrow> \<exists>n. media_tx c req (rq_faults c) 1 db = (Inr (), n, db')"
proof (cases req)
  case (ReqGetMedia i)
  with assms have "db' = db" using GetMedia_same [of c i db] by (simp add: snd_outcome prod_eq_iff)
  then show ?thesis by (auto simp: ReqGetMedia tx_inr split: option.split)
next
  case (ReqListMedia m p s)
  with assms have "db' = db" using ListMedia_same [of m c p s db] by (simp add: snd_outcome prod_eq_iff)
  then show ?thesis by (auto simp: ReqListMedia tx_inr split: option.split)
next
  case (ReqGetQueue i)
  with assms have "db' = db" using GetQueue_same [of c i db] by (simp add: snd_outcome prod_eq_iff)
  then show ?thesis by (auto simp: ReqGetQueue tx_inr split: option.split)
qed (use assms in \<open>force simp: CreateMedia_def AddToQueue_def RemoveFromQueue_def ctxDone_def Let_def outcome_def map_error_def
    run_tx_inr tx_inr_bind tx_inr_return split: option.splits if_splits sum.splits prod.splits dest: run_tx_error\<close>)+

section \<open>Refinement\<close>

lemma queue_abs_cong: "dense (room_rows j q) \<Longrightarrow> mset (room_rows j q') = mset (room_rows j q) \<Longrightarrow>
  queue_abs q' j = queue_abs q j \<and> dense (room_rows j q')"
  using sort_unique [of "queue_sorted j q" "room_rows j q'"] dense_mset [of "room_rows j q"]
  by (simp add: queue_abs_def queue_sorted_def)

lemma remove_refines:
  assumes "Queue_Remove scan r (uint p) fl n db = (Inr v, n', db')" "\<And>q. mset (scan q) = mset q" "queue_ok (db_queue db)"
  shows "queue_abs (db_queue db') = queue_spec (ReqRemoveFromQueue scan r (p :: u32)) (queue_abs (db_queue db))"
    and "queue_ok (db_queue db')" and "db_media db' = db_media db"
    and "qi_MediaID ` set (db_queue db') \<subseteq> qi_MediaID ` set (db_queue db)"
    and "unat p < length (queue_abs (db_queue db) (key26 r))"
proof -
  let ?k = "key26 r" let ?q = "db_queue db"
  obtain x where x: "x \<in> set (room_rows ?k ?q)" "qi_Position x = uint p"
    and db': "db' = db\<lparr>db_queue := map (shift_row ?k (uint p)) (scan (filter (\<lambda>x. \<not> (qi_RoomID x = ?k \<and> qi_Position x = uint p)) ?q))\<rparr>"
    using assms(1) by (rule Queue_Remove_success)
  have d: "dense (room_rows j ?q)" for j using assms(3) by (simp add: queue_ok_def)
  have u: "int (unat p) = uint p" by simp
  have "qi_Position x \<in> int ` {..<length (room_rows ?k ?q)}" using x(1) dense_positions [OF d] by blast
  then have "int (unat p) < int (length (room_rows ?k ?q))" unfolding u x(2) by (elim imageE) simp
  then have lt: "unat p < length (room_rows ?k ?q)" by (simp only: of_nat_less_iff)
  let ?q' = "scan (filter (\<lambda>x. \<not> (qi_RoomID x = ?k \<and> qi_Position x = int (unat p))) ?q)"
  note rm = remove_row [OF d lt, of ?q', unfolded assms(2), OF refl]
  have q': "db_queue db' = map (shift_row ?k (int (unat p))) ?q'" by (simp add: db' u)
  have other: "j \<noteq> ?k \<Longrightarrow> queue_abs (db_queue db') j = queue_abs ?q j \<and> dense (room_rows j (db_queue db'))" for j
    unfolding q' by (rule queue_abs_cong [OF d rm(3)])
  show "queue_abs (db_queue db') = queue_spec (ReqRemoveFromQueue scan r p) (queue_abs ?q)"
    using rm(1) other unfolding q' by (auto simp: fun_eq_iff queue_abs_def)
  show "queue_ok (db_queue db')" using rm(2) other unfolding queue_ok_def q' by metis
  show "db_media db' = db_media db" by (simp add: db')
  have "set (scan z) = set z" for z using assms(2) by (metis mset_eq_setD)
  then show "qi_MediaID ` set (db_queue db') \<subseteq> qi_MediaID ` set ?q" by (auto simp: db')
  show "unat p < length (queue_abs ?q ?k)" using lt by (simp add: queue_abs_def)
qed

lemma media_tx_refines:
  assumes "media_tx c req fl n db = (Inr (), n', db')" "scans_rows req" "queue_ok (db_queue db)" "queued_exist db"
  shows "queue_abs (db_queue db') = queue_spec req (queue_abs (db_queue db)) \<and> queue_ok (db_queue db') \<and> queued_exist db'"
proof (cases req)
  case (ReqCreateMedia q)
  with assms(1) have "db_queue db' = db_queue db" "\<And>m. map_of (db_media db) m \<noteq> None \<Longrightarrow> map_of (db_media db') m \<noteq> None"
    by (auto simp: Media_Create_def tx_inr map_add_def split: sum.splits option.splits if_splits)
  with assms(3,4) show ?thesis by (auto simp: ReqCreateMedia queued_exist_def)
next
  case (ReqAddToQueue r m)
  with assms(1) obtain item n1 where "add_tx c r m fl n db = (Inr item, n1, db')" by (auto simp: tx_inr)
  then show ?thesis
  proof (rule add_tx_success)
    assume item: "item = \<lparr>qi_RoomID = key26 r, qi_Position = next_position (key26 r) (db_queue db), qi_MediaID = key26 m, qi_AddedAt = rq_dbnow c\<rparr>"
      and db': "db' = db\<lparr>db_queue := db_queue db @ [item]\<rparr>" and m: "map_of (db_media db) (key26 m) \<noteq> None"
    have d: "dense (room_rows j (db_queue db))" for j using assms(3) by (simp add: queue_ok_def)
    have "qi_RoomID item = key26 r" "qi_Position item = int (length (room_rows (key26 r) (db_queue db)))"
      using next_position_dense [OF d] by (simp_all add: item)
    note add = add_row [OF d this]
    have q': "db_queue db' = db_queue db @ [item]" by (simp add: db')
    have "queue_ok (db_queue db')" unfolding queue_ok_def q' using add(2,3) d by metis
    moreover have "queue_abs (db_queue db') j = queue_spec req (queue_abs (db_queue db)) j" for j
    proof (cases "j = key26 r")
      case True
      then show ?thesis unfolding q' queue_abs_def True add(1) by (simp add: ReqAddToQueue queue_abs_def item)
    next
      case False
      then show ?thesis unfolding q' queue_abs_def queue_sorted_def add(3) [OF False] by (simp add: ReqAddToQueue)
    qed
    ultimately show ?thesis using assms(4) m by (auto simp: queued_exist_def db' item)
  qed
next
  case (ReqRemoveFromQueue scan r p)
  with assms(1,2) have "Queue_Remove scan r (uint p) fl n db = (Inr (), n', db')" "\<And>q. mset (scan q) = mset q" by auto
  note rm = remove_refines [OF this assms(3)]
  have "queued_exist db'" using rm(3,4) assms(4) unfolding queued_exist_def by (metis imageE image_subset_iff)
  with rm show ?thesis by (simp add: ReqRemoveFromQueue)
qed (use assms in \<open>simp_all add: tx_inr\<close>)

lemma media_step_inv: "media_step db db' \<Longrightarrow> queue_ok (db_queue db) \<and> queued_exist db \<Longrightarrow> queue_ok (db_queue db') \<and> queued_exist db'"
proof (erule media_stepE)
  fix req has c r assume "scans_rows req" "media_exec has c req db = (r, db')" "queue_ok (db_queue db) \<and> queued_exist db"
  then show ?thesis using media_exec_cases [of has c req db r db'] media_tx_refines [of c req _ _ db _ db']
    by (auto split: option.splits)
qed

interpretation media_history: history media_step "\<lambda>db. queue_ok (db_queue db) \<and> queued_exist db" empty_media_db
  by unfold_locales (rule media_step_inv, assumption+, simp add: empty_media_db_def queue_ok_def queued_exist_def dense_def room_rows_def)

lemmas media_reachable_inv = media_history.reachable_inv

text \<open>C16: The queues refine lists: in every reachable state of the tables, whatever the permission port
  answers and whatever fails, a successful \<open>AddToQueue\<close> appends the item to the list of its room, a
  successful \<open>RemoveFromQueue\<close> deletes exactly the element at the given position, every other call and every
  failed call leaves all queues as they are; and the items of the queues exist in the catalog.\<close>

theorem media_queue_refines:
  assumes "media_step\<^sup>*\<^sup>* empty_media_db db" "scans_rows req" "media_exec has c req db = (r, db')"
  shows "queue_abs (db_queue db') = (if r = None then queue_spec req (queue_abs (db_queue db)) else queue_abs (db_queue db))
    \<and> queued_exist db'"
proof (rule conjI)
  note i = media_reachable_inv [OF assms(1)]
  show "queue_abs (db_queue db') = (if r = None then queue_spec req (queue_abs (db_queue db)) else queue_abs (db_queue db))"
    using media_exec_cases [OF assms(3)] media_tx_refines [OF _ assms(2)] i by (cases r) force+
  show "queued_exist db'" using media_step_inv [OF media_step.call [OF assms(2,3)]] i by blast
qed

section \<open>Reading the queue and examples\<close>

text \<open>\<open>GetQueue\<close> shows the room's list in order, and the positions it reports are 0, 1, 2, ... In every
  reachable state, if the call succeeds, entry number \<open>i\<close> of the response carries position \<open>i\<close> (as a 32-bit
  number) and the media id at place \<open>i\<close> of the list.\<close>

theorem GetQueue_positions:
  assumes "media_step\<^sup>*\<^sup>* empty_media_db db" "GetQueue c r db = (Inr items, db')" "char_col 26 r = Some k"
  shows "map qp_MediaId items = queue_abs (db_queue db) k \<and>
    map qp_Position items = map word_of_nat [0..<length (queue_abs (db_queue db) k)]"
proof -
  let ?rows = "room_rows k (db_queue db)"
  have d: "dense ?rows" using media_reachable_inv [OF assms(1)] by (simp add: queue_ok_def)
  have items: "items = map queueItemToProto (sort_key qi_Position ?rows)"
    using assms(2,3) by (auto simp: GetQueue_def ctxDone_def map_error_def run_tx_inr Queue_List_def tx_inr
        split: option.splits prod.splits sum.splits)
  have "map qp_Position items = map word_of_int (map qi_Position (sort_key qi_Position ?rows))"
    by (simp add: items queueItemToProto_def)
  also have "\<dots> = map word_of_nat [0..<length ?rows]" using d by (simp add: dense_def)
  finally show ?thesis by (simp add: items queueItemToProto_def queue_abs_def queue_sorted_def)
qed

lemma dense_distinct: "dense rows \<Longrightarrow> distinct (map qi_Position rows)"
proof -
  assume "dense rows"
  then have "mset (map qi_Position (sort_key qi_Position rows)) = mset (map int [0..<length rows])" by (simp only: dense_def)
  then have "mset (map qi_Position rows) = mset (map int [0..<length rows])" by simp
  then show ?thesis by (metis distinct_map distinct_upt inj_on_of_nat mset_eq_imp_distinct_iff)
qed

lemma sorted_wrt_room_rows:
  "sorted (map qi_Position (room_rows k xs)) \<Longrightarrow> distinct (map qi_Position (room_rows k xs)) \<Longrightarrow>
   sorted_wrt (\<lambda>x y. qi_RoomID x = k \<longrightarrow> qi_RoomID y = k \<longrightarrow> qi_Position x < qi_Position y) xs"
proof (induction xs)
  case (Cons x xs)
  then show ?case by (cases "qi_RoomID x = k") (force simp: room_rows_def order_less_le)+
qed simp

lemma Queue_Remove_runs:
  assumes "in_i32 p" "char_col 26 r = Some k" "filter (\<lambda>x. k = qi_RoomID x \<and> qi_Position x = p) (db_queue db) \<noteq> []"
    "renumber k p [] (scan (filter (\<lambda>x. k = qi_RoomID x \<longrightarrow> qi_Position x \<noteq> p) (db_queue db))) = Some q"
  shows "run_tx (Queue_Remove scan r p) no_faults db = (Inr (), db\<lparr>db_queue := q\<rparr>)"
  using assms by (simp add: run_tx_def Queue_Remove_def tx_defs Let_def)


text \<open>In another order the statement is rejected, and nothing is removed.\<close>

lemma renumber_order_matters:
  "renumber k 0 [] [\<lparr>qi_RoomID = k, qi_Position = 2, qi_MediaID = a, qi_AddedAt = s\<rparr>, \<lparr>qi_RoomID = k, qi_Position = 1, qi_MediaID = b, qi_AddedAt = t\<rparr>] = None"
  by simp

definition sample_song :: CreateMediaRequest where
  "sample_song = \<lparr>cm_Kind = 1, cm_Source = 1, cm_ExternalRef = ''yt'', cm_Title = ''Song'', cm_Artist = '''', cm_DurationMs = 1000, cm_CoverUrl = ''''\<rparr>"

definition sample_media :: Media where
  "sample_media = \<lparr>md_ID = ''m1'', md_Kind = 1, md_Source = 1, md_ExternalRef = ''yt'', md_Title = ''Song'', md_Artist = '''',
     md_DurationMs = 1000, md_CoverURL = '''', md_CreatedAt = 0\<rparr>"

definition sample_catalog :: media_db where
  "sample_catalog = \<lparr>db_media = [(pad 26 ''m1'', sample_media\<lparr>md_ID := pad 26 ''m1''\<rparr>)], db_queue = []\<rparr>"

definition sample_queue :: media_db where
  "sample_queue = sample_catalog\<lparr>db_queue := [\<lparr>qi_RoomID = pad 26 ''r1'', qi_Position = 0, qi_MediaID = pad 26 ''m1'', qi_AddedAt = 0\<rparr>]\<rparr>"

lemma sample_trim_yt: "TrimSpace ''yt'' = ''yt''" by (simp add: TrimSpace_id printable_def)
lemma sample_trim_song: "TrimSpace ''Song'' = ''Song''" by (simp add: TrimSpace_id printable_def)
lemma sample_trim_empty: "TrimSpace [] = []" by (rule TrimSpace_Nil)
lemmas sample_trim = sample_trim_yt sample_trim_song sample_trim_empty

lemma sample_columns: "text_varchar_col 255 ''yt'' = Some ''yt''" "text_varchar_col 255 ''Song'' = Some ''Song''"
  "text_varchar_col 255 [] = Some []" "text_col [] = Some []"
  by (simp_all add: text_varchar_col_def text_col_def rune_count_def)

lemma sample_call_simps [simp]:
  "rq_ctxErr (sample_call u i) = None" "rq_userHeader (sample_call u i) = u" "rq_faults (sample_call u i) = no_faults"
  "ParseSystemRole (rq_roleHeader (sample_call u i)) = 2" "rq_now (sample_call u i) n = 0" "rq_newID (sample_call u i) 0 = i"
  "rq_dbnow (sample_call u i) = 0"
  by (simp_all add: sample_call_def role_user)

lemma sample_row: "media_row_of sample_media = Some (sample_media\<lparr>md_ID := pad 26 ''m1''\<rparr>)"
  by (simp add: media_row_of_def sample_media_def sample_columns pg_time_def i16_id)

lemma sample_catalog_exec:
  "media_exec has (sample_call ''ann'' ''m1'') (ReqCreateMedia sample_song) empty_media_db = (None, sample_catalog)"
proof -
  have "run_tx (Media_Create sample_media) no_faults empty_media_db = (Inr (), sample_catalog)"
    by (simp add: run_tx_def Media_Create_def tx_defs sample_row empty_media_db_def sample_catalog_def)
  moreover have "NewMedia 0 ''m1'' \<lparr>nm_Kind = 1, nm_Source = 1, nm_ExternalRef = ''yt'', nm_Title = ''Song'', nm_Artist = '''',
      nm_DurationMs = 1000, nm_CoverURL = ''''\<rparr> = Inr sample_media"
    by (simp add: NewMedia_def sample_trim sample_media_def)
  ultimately show ?thesis
    by (simp add: CreateMedia_def ctxDone_def outcome_def map_error_def sample_song_def i8_id SYSTEM_ROLE_USER_def u64_to_i64_def)
qed

lemma sample_add_tx: "run_tx (add_tx (sample_call ''ann'' '''') ''r1'' ''m1'') no_faults sample_catalog = (Inr (db_queue sample_queue ! 0), sample_queue)"
  by (simp add: run_tx_def add_tx_def Media_GetByID_def Queue_Add_def tx_defs find_media_def sample_catalog_def sample_queue_def
      next_position_def room_rows_def in_i32_def Let_def)

lemma sample_add: "media_exec (\<lambda>r u p. Inr True) (sample_call ''ann'' '''') (ReqAddToQueue ''r1'' ''m1'') sample_catalog = (None, sample_queue)"
  by (simp add: AddToQueue_def ctxDone_def requireQueuePermission_def SYSTEM_ROLE_USER_def sample_add_tx map_error_def outcome_def)

lemma sample_reachable: "media_step\<^sup>*\<^sup>* empty_media_db sample_catalog" "media_step\<^sup>*\<^sup>* empty_media_db sample_queue"
proof -
  have "media_step empty_media_db sample_catalog" by (rule media_step.call [OF _ sample_catalog_exec]) simp
  then show *: "media_step\<^sup>*\<^sup>* empty_media_db sample_catalog" by blast
  have "media_step sample_catalog sample_queue" by (rule media_step.call [OF _ sample_add]) simp
  with * show "media_step\<^sup>*\<^sup>* empty_media_db sample_queue" by (rule rtranclp.rtrancl_into_rtrancl)
qed

lemma sample_abs: "queue_abs (db_queue sample_queue) (pad 26 ''r1'') = [pad 26 ''m1'']" "queue_abs (db_queue sample_catalog) k = []"
  by (simp_all add: sample_queue_def sample_catalog_def queue_abs_def queue_sorted_def room_rows_def)

theorem media_queue_refines_witness: "queue_abs (db_queue sample_queue) (key26 ''r1'') = [key26 ''m1'']"
  using media_queue_refines [OF sample_reachable(1) _ sample_add] by (simp add: sample_abs)

theorem GetQueue_positions_witness:
  "\<exists>items. GetQueue (sample_call ''ann'' '''') ''r1'' sample_queue = (Inr items, sample_queue) \<and> map qp_Position items = [0]"
proof -
  have "\<exists>items. GetQueue (sample_call ''ann'' '''') ''r1'' sample_queue = (Inr items, sample_queue)"
    by (simp add: GetQueue_def ctxDone_def map_error_def run_tx_def Queue_List_def tx_defs)
  then obtain items where items: "GetQueue (sample_call ''ann'' '''') ''r1'' sample_queue = (Inr items, sample_queue)" ..
  have "char_col 26 ''r1'' = Some (pad 26 ''r1'')" by simp
  from GetQueue_positions [OF sample_reachable(2) items this] items show ?thesis by (simp add: sample_abs)
qed


end
