(* ===== verification/Auth_Domain.thy ===== *)
theory Auth_Domain
  imports Prelude Vb_Errors Go_Base64
begin

text \<open>
  The auth service's domain layer: \<open>domain/{status,user,session,refresh_token,oauth_flow,signing_key}.go\<close>, the
  parsing of presented tokens (\<open>app/refresh.go\<close>) and the user name derived from a provider profile
  (\<open>app/oauth.go\<close>).

  Random bytes are functions from position to byte, one per read; \<open>U\<close> is the lower-casing of non-ASCII text.
  Shown here: presenting and splitting a refresh token are inverse; the classification of a presented
  token; validated user names and emails have the shape the patterns describe; a derived user name is
  valid except in two cases.
\<close>

section \<open>Status values\<close>

definition UserStatusActive :: int where "UserStatusActive = 1"
definition UserStatusSuspended :: int where "UserStatusSuspended = 2"
definition UserStatusDeleted :: int where "UserStatusDeleted = 3"

definition CanLogin :: "int \<Rightarrow> bool" where "CanLogin s \<longleftrightarrow> s = UserStatusActive"

definition RefreshTokenStatusActive :: int where "RefreshTokenStatusActive = 1"
definition RefreshTokenStatusUsed :: int where "RefreshTokenStatusUsed = 2"
definition RefreshTokenStatusRevoked :: int where "RefreshTokenStatusRevoked = 3"
definition RefreshTokenStatusCompromised :: int where "RefreshTokenStatusCompromised = 4"
definition RefreshTokenStatusExpired :: int where "RefreshTokenStatusExpired = 5"

lemmas token_status_defs = RefreshTokenStatusActive_def RefreshTokenStatusUsed_def RefreshTokenStatusRevoked_def
  RefreshTokenStatusCompromised_def RefreshTokenStatusExpired_def

definition SigningKeyStatusActive :: int where "SigningKeyStatusActive = 1"
definition SigningKeyStatusRetired :: int where "SigningKeyStatusRetired = 2"

section \<open>Users\<close>

record User =
  us_ID :: string
  us_Email :: string
  us_Username :: string
  us_DisplayName :: string
  us_AvatarURL :: string
  us_PasswordHash :: string
  us_SystemRole :: int
  us_Status :: int
  us_CreatedAt :: time
  us_UpdatedAt :: time

definition ErrEmailInvalid :: go_error where "ErrEmailInvalid = PlainErr ''user: invalid email''"
definition ErrUsernameInvalid :: go_error where "ErrUsernameInvalid = PlainErr ''user: invalid username''"
definition ErrDisplayNameTooLong :: go_error where "ErrDisplayNameTooLong = PlainErr ''user: display name too long''"

text \<open>\<open>^[^\s@]+@[^\s@]+\.[^\s@]+$\<close>; the white space of Go's \<open>\s\<close> is ASCII, so bytes decide.\<close>

definition re_space :: "char \<Rightarrow> bool" where
  "re_space c \<longleftrightarrow> c \<in> {CHR '' '', CHR 0x09, CHR 0x0A, CHR 0x0C, CHR 0x0D}"

definition emailRe :: "string \<Rightarrow> bool" where
  "emailRe s \<longleftrightarrow>
     (let local = takeWhile (\<lambda>c. c \<noteq> CHR ''@'') s; host = drop (length local + 1) s in
      CHR ''@'' \<in> set s \<and> local \<noteq> [] \<and> CHR ''@'' \<notin> set host \<and> list_all (\<lambda>c. \<not> re_space c) s \<and>
      list_ex (\<lambda>i. host ! i = CHR ''.'') [1..<length host - 1])"

text \<open>\<open>^[a-z][a-z0-9_]{2,31}$\<close>\<close>

definition lower_letter :: "char \<Rightarrow> bool" where
  "lower_letter c \<longleftrightarrow> 97 \<le> (of_char c :: nat) \<and> (of_char c :: nat) \<le> 122"

definition digit_char :: "char \<Rightarrow> bool" where
  "digit_char c \<longleftrightarrow> 48 \<le> (of_char c :: nat) \<and> (of_char c :: nat) \<le> 57"

definition username_char :: "char \<Rightarrow> bool" where
  "username_char c \<longleftrightarrow> lower_letter c \<or> digit_char c \<or> c = CHR ''_''"

definition usernameRe :: "string \<Rightarrow> bool" where
  "usernameRe s \<longleftrightarrow> (case s of [] \<Rightarrow> False
     | c # cs \<Rightarrow> lower_letter c \<and> list_all username_char cs \<and> 2 \<le> length cs \<and> length cs \<le> 31)"

record NewUserParams =
  nu_Email :: string
  nu_Username :: string
  nu_DisplayName :: string
  nu_AvatarURL :: string

definition SystemRoleUser :: int where "SystemRoleUser = 2"

definition NewUser :: "(string \<Rightarrow> string) \<Rightarrow> time \<Rightarrow> NewUserParams \<Rightarrow> User result" where
  "NewUser U now p =
     (let email = TrimSpace (ToLower U (nu_Email p)) in
      if \<not> emailRe email then Inl ErrEmailInvalid
      else (let username = TrimSpace (ToLower U (nu_Username p)) in
        if \<not> usernameRe username then Inl ErrUsernameInvalid
        else (let display = TrimSpace (nu_DisplayName p) in
          if length display > 100 then Inl ErrDisplayNameTooLong
          else Inr \<lparr>us_ID = '''', us_Email = email, us_Username = username,
                 us_DisplayName = (if display = '''' then username else display), us_AvatarURL = TrimSpace (nu_AvatarURL p),
                 us_PasswordHash = '''', us_SystemRole = SystemRoleUser, us_Status = UserStatusActive,
                 us_CreatedAt = now, us_UpdatedAt = now\<rparr>)))"

definition CanAuthenticate :: "User \<Rightarrow> bool" where "CanAuthenticate u \<longleftrightarrow> CanLogin (us_Status u)"
definition HasPassword :: "User \<Rightarrow> bool" where "HasPassword u \<longleftrightarrow> us_PasswordHash u \<noteq> ''''"

text \<open>\<open>SetPassword\<close> reads the system clock itself, \<open>sysnow\<close>.\<close>

definition SetPassword :: "time \<Rightarrow> string \<Rightarrow> User \<Rightarrow> User" where
  "SetPassword sysnow hash u = u\<lparr>us_PasswordHash := hash, us_UpdatedAt := sysnow\<rparr>"

section \<open>Sessions\<close>

record Session =
  se_ID :: string
  se_UserID :: string
  se_DeviceLabel :: string
  se_FamilyID :: string
  se_CreatedAt :: time
  se_LastSeenAt :: time
  se_ExpiresAt :: time

definition NewSession :: "time \<Rightarrow> string \<Rightarrow> string \<Rightarrow> string \<Rightarrow> duration \<Rightarrow> string \<Rightarrow> Session" where
  "NewSession now i userID familyID ttl deviceLabel =
     \<lparr>se_ID = i, se_UserID = userID, se_DeviceLabel = deviceLabel, se_FamilyID = familyID, se_CreatedAt = now,
      se_LastSeenAt = now, se_ExpiresAt = now + ttl\<rparr>"

definition Session_IsExpired :: "time \<Rightarrow> Session \<Rightarrow> bool" where
  "Session_IsExpired now s \<longleftrightarrow> \<not> now < se_ExpiresAt s"

section \<open>Refresh tokens\<close>

record RefreshToken =
  rt_ID :: string
  rt_FamilyID :: string
  rt_UserID :: string
  rt_SessionID :: string
  rt_Selector :: string
  rt_ValidatorHash :: string
  rt_RotatedFrom :: string
  rt_Status :: int
  rt_ExpiresAt :: time
  rt_CreatedAt :: time
  rt_UsedAt :: time
  rt_RevokedAt :: time

definition selectorBytes :: nat where "selectorBytes = 12"
definition validatorBytes :: nat where "validatorBytes = 32"

definition ErrExpired :: go_error where "ErrExpired = PlainErr ''refresh token: expired''"
definition ErrRevoked :: go_error where "ErrRevoked = PlainErr ''refresh token: revoked''"
definition ErrReuse :: go_error where "ErrReuse = PlainErr ''refresh token: reuse detected''"
definition ErrCompromised :: go_error where "ErrCompromised = PlainErr ''refresh token: family compromised''"

definition randomURL :: "(nat \<Rightarrow> 8 word) \<Rightarrow> nat \<Rightarrow> string" where
  "randomURL rnd n = RawURLEncoding (map rnd [0..<n])"

record ValidatorMaterial =
  vm_Selector :: string
  vm_Validator :: string

definition PresentationToken :: "ValidatorMaterial \<Rightarrow> string" where
  "PresentationToken v = vm_Selector v @ ''.'' @ vm_Validator v"

definition NewRefreshToken ::
  "(nat \<Rightarrow> 8 word) \<Rightarrow> (nat \<Rightarrow> 8 word) \<Rightarrow> (string \<Rightarrow> string result) \<Rightarrow> time \<Rightarrow> string \<Rightarrow> string \<Rightarrow> string \<Rightarrow> string \<Rightarrow> string
   \<Rightarrow> duration \<Rightarrow> (RefreshToken \<times> ValidatorMaterial) result" where
  "NewRefreshToken rndS rndV hashFn now i familyID userID sessionID rotatedFrom ttl =
     (let selector = randomURL rndS selectorBytes; validator = randomURL rndV validatorBytes in
      case hashFn validator of
        Inl err \<Rightarrow> Inl err
      | Inr vhash \<Rightarrow> Inr
          (\<lparr>rt_ID = i, rt_FamilyID = familyID, rt_UserID = userID, rt_SessionID = sessionID, rt_Selector = selector,
            rt_ValidatorHash = vhash, rt_RotatedFrom = rotatedFrom, rt_Status = RefreshTokenStatusActive,
            rt_ExpiresAt = now + ttl, rt_CreatedAt = now, rt_UsedAt = zero_time, rt_RevokedAt = zero_time\<rparr>,
           \<lparr>vm_Selector = selector, vm_Validator = validator\<rparr>))"

definition VerifyValidator :: "(string \<Rightarrow> string \<Rightarrow> bool) \<Rightarrow> string \<Rightarrow> RefreshToken \<Rightarrow> bool" where
  "VerifyValidator compareFn presented t = compareFn (rt_ValidatorHash t) presented"

datatype UseOutcome = UseOutcomeRotate | UseOutcomeReuse | UseOutcomeCompromised | UseOutcomeRevoked | UseOutcomeExpired

definition ClassifyUse :: "time \<Rightarrow> RefreshToken \<Rightarrow> UseOutcome \<times> go_error option" where
  "ClassifyUse now t =
     (if rt_Status t = RefreshTokenStatusCompromised then (UseOutcomeCompromised, Some ErrCompromised)
      else if rt_Status t = RefreshTokenStatusRevoked then (UseOutcomeRevoked, Some ErrRevoked)
      else if \<not> now < rt_ExpiresAt t then (UseOutcomeExpired, Some ErrExpired)
      else if rt_Status t = RefreshTokenStatusUsed then (UseOutcomeReuse, Some ErrReuse)
      else if rt_Status t = RefreshTokenStatusActive then (UseOutcomeRotate, None)
      else (UseOutcomeRevoked, Some ErrRevoked))"

definition splitSelectorValidator :: "string \<Rightarrow> string \<times> string" where
  "splitSelectorValidator token =
     (let idx = length (takeWhile (\<lambda>c. c \<noteq> CHR ''.'') token) in
      if idx = length token \<or> idx = 0 \<or> idx = length token - 1 then ('''', '''')
      else (take idx token, drop (idx + 1) token))"

section \<open>OAuth flows and accounts\<close>

record OAuthFlow =
  of_State :: string
  of_Provider :: string
  of_RedirectURI :: string
  of_CodeChallenge :: string
  of_UserAgent :: string
  of_CreatedAt :: time
  of_ExpiresAt :: time

definition stateBytes :: nat where "stateBytes = 16"

definition NewOAuthFlow ::
  "(nat \<Rightarrow> 8 word) \<Rightarrow> time \<Rightarrow> string \<Rightarrow> string \<Rightarrow> string \<Rightarrow> string \<Rightarrow> duration \<Rightarrow> OAuthFlow" where
  "NewOAuthFlow rnd now provider redirectURI codeChallenge userAgent ttl =
     \<lparr>of_State = randomURL rnd stateBytes, of_Provider = provider, of_RedirectURI = redirectURI,
      of_CodeChallenge = codeChallenge, of_UserAgent = userAgent, of_CreatedAt = now, of_ExpiresAt = now + ttl\<rparr>"

definition Flow_IsExpired :: "time \<Rightarrow> OAuthFlow \<Rightarrow> bool" where
  "Flow_IsExpired now f \<longleftrightarrow> \<not> now < of_ExpiresAt f"

record OAuthAccount =
  oa_UserID :: string
  oa_Provider :: string
  oa_ProviderUserID :: string
  oa_CreatedAt :: time

record ProviderProfile =
  pp_Provider :: string
  pp_ProviderUserID :: string
  pp_Email :: string
  pp_EmailVerified :: bool
  pp_DisplayName :: string
  pp_AvatarURL :: string

fun derive_loop :: "string \<Rightarrow> string \<Rightarrow> string" where
  "derive_loop out [] = out"
| "derive_loop out (c # cs) =
     (let out' = (if lower_letter c then out @ [c]
            else if 65 \<le> (of_char c :: nat) \<and> (of_char c :: nat) \<le> 90 then out @ [char_of ((of_char c :: nat) + 32)]
            else if digit_char c \<or> c = CHR ''_'' then out @ [c]
            else if out \<noteq> [] \<and> last out \<noteq> CHR ''_'' then out @ ''_'' else out)
      in if length out' \<ge> 32 then out' else derive_loop out' cs)"

definition trimUnderscores :: "string \<Rightarrow> string" where "trimUnderscores b = trim_char (CHR ''_'') b"

definition deriveUsername :: "ProviderProfile \<Rightarrow> string" where
  "deriveUsername p =
     (if pp_Email p = '''' then ''''
      else (let local = takeWhile (\<lambda>c. c \<noteq> CHR ''@'') (pp_Email p); out = trimUnderscores (derive_loop [] local) in
        if length out < 3 then local
        else if \<not> lower_letter (hd out) then CHR ''u'' # out else out))"

section \<open>Signing keys\<close>

record SigningKey =
  sk_KID :: string
  sk_Status :: int
  sk_PrivateEncrypted :: string
  sk_PublicJWK :: string
  sk_CreatedAt :: time
  sk_RetiredAt :: time

definition NewKID :: "(nat \<Rightarrow> 8 word) \<Rightarrow> string" where
  "NewKID rnd = ''vk1_'' @ RawURLEncoding (map rnd [0..<8])"

text \<open>Generating an RSA key is outside the program: \<open>priv\<close> is the key that comes out, \<open>der\<close> its encoding.\<close>

definition GenerateSigningKey ::
  "string result \<Rightarrow> (string \<Rightarrow> string result) \<Rightarrow> string result \<Rightarrow> time \<Rightarrow> string \<Rightarrow> SigningKey result" where
  "GenerateSigningKey der encryptFn jwk now kid =
     (case der of Inl err \<Rightarrow> Inl err
      | Inr privDER \<Rightarrow> (case encryptFn privDER of Inl err \<Rightarrow> Inl err
        | Inr enc \<Rightarrow> (case jwk of Inl err \<Rightarrow> Inl err
          | Inr j \<Rightarrow> Inr \<lparr>sk_KID = kid, sk_Status = SigningKeyStatusActive, sk_PrivateEncrypted = enc, sk_PublicJWK = j,
              sk_CreatedAt = now, sk_RetiredAt = zero_time\<rparr>)))"

section \<open>Lemmas\<close>

lemma takeWhile_sep: "c \<notin> set xs \<Longrightarrow> takeWhile (\<lambda>x. x \<noteq> c) (xs @ c # ys) = xs"
  by (induction xs) auto

text \<open>Splitting inverts presenting.\<close>

lemma split_present:
  assumes "CHR ''.'' \<notin> set s" "s \<noteq> []" "v \<noteq> []"
  shows "splitSelectorValidator (PresentationToken \<lparr>vm_Selector = s, vm_Validator = v\<rparr>) = (s, v)"
  using assms by (simp add: splitSelectorValidator_def PresentationToken_def takeWhile_sep)

lemma randomURL_props [simp]:
  "length (randomURL rnd n) = (4 * n + 2) div 3" "CHR ''.'' \<notin> set (randomURL rnd n)"
  by (simp_all add: randomURL_def no_separator)

lemma randomURL_inj: "randomURL f n = randomURL g n \<longleftrightarrow> (\<forall>i<n. f i = g i)"
  by (auto simp: randomURL_def RawURLEncoding_inj)

text \<open>Only an active, unexpired token is rotated; only a used, unexpired one counts as reuse.\<close>

lemma ClassifyUse_rotate: "fst (ClassifyUse now t) = UseOutcomeRotate \<longleftrightarrow> rt_Status t = RefreshTokenStatusActive \<and> now < rt_ExpiresAt t"
  by (auto simp: ClassifyUse_def token_status_defs)

lemma ClassifyUse_reuse: "fst (ClassifyUse now t) = UseOutcomeReuse \<longleftrightarrow> rt_Status t = RefreshTokenStatusUsed \<and> now < rt_ExpiresAt t"
  by (auto simp: ClassifyUse_def token_status_defs)

lemma NewUser_valid:
  "NewUser U now p = Inr u \<Longrightarrow> emailRe (us_Email u) \<and> usernameRe (us_Username u) \<and> CanAuthenticate u \<and>
     us_SystemRole u = SystemRoleUser \<and> us_PasswordHash u = '''' \<and> us_DisplayName u \<noteq> ''''"
  by (auto simp: NewUser_def Let_def CanAuthenticate_def CanLogin_def usernameRe_def split: if_splits)

text \<open>The characters of a derived name; it is valid unless the local part is too short, or 32 characters
  that do not start with a letter, where the added letter makes it one too long.\<close>

lemma derive_loop_chars: "list_all username_char out \<Longrightarrow> list_all username_char (derive_loop out cs)"
proof (induction out cs rule: derive_loop.induct)
  case (2 out c cs)
  have "65 \<le> (of_char c :: nat) \<and> (of_char c :: nat) \<le> 90 \<Longrightarrow> lower_letter (char_of ((of_char c :: nat) + 32))"
    by (simp add: lower_letter_def of_char_of)
  then show ?case using 2 by (auto simp: Let_def username_char_def)
qed simp

lemma set_trimUnderscores: "set (trimUnderscores s) \<subseteq> set s"
  unfolding trimUnderscores_def trim_char_def by (auto dest!: set_dropWhileD)

lemma length_trimUnderscores: "length (trimUnderscores s) \<le> length s"
  unfolding trimUnderscores_def trim_char_def by (metis length_dropWhile_le length_rev order_trans)

lemma deriveUsername_valid:
  assumes "3 \<le> length (trimUnderscores (derive_loop [] (takeWhile (\<lambda>c. c \<noteq> CHR ''@'') (pp_Email p))))" "length (deriveUsername p) \<le> 32"
  shows "usernameRe (deriveUsername p)"
proof -
  let ?out = "trimUnderscores (derive_loop [] (takeWhile (\<lambda>c. c \<noteq> CHR ''@'') (pp_Email p)))"
  have ne: "pp_Email p \<noteq> ''''" using assms(1) length_trimUnderscores [of "[]"] by auto
  have ch: "list_all username_char ?out"
    using derive_loop_chars [of "[]"] set_trimUnderscores by (fastforce simp: list_all_iff)
  obtain c cs where out: "?out = c # cs" using assms(1) by (cases ?out) auto
  show ?thesis using assms ch ne unfolding deriveUsername_def Let_def out
    by (auto simp: usernameRe_def lower_letter_def)
qed

lemma deriveUsername_too_long:
  "\<not> usernameRe (deriveUsername \<lparr>pp_Provider = '''', pp_ProviderUserID = '''', pp_Email = replicate 32 (CHR ''1'') @ ''@x.io'',
     pp_EmailVerified = True, pp_DisplayName = '''', pp_AvatarURL = ''''\<rparr>)"
  by code_simp

end
