(* ===== verification/Auth_Repo.thy ===== *)
theory Auth_Repo
  imports Auth_Domain Outbox
begin

text \<open>
  The auth service's tables and every statement on them: \<open>infra/postgres/*.go\<close> with the constraints of
  \<open>migrations/*.sql\<close>. Rows are stored as the columns return them: \<open>CHAR(26)\<close> blank padded, times in
  microseconds, a NULL time as the zero time. \<open>ci\<close> is the folding of \<open>CITEXT\<close>, under which emails are compared.
  The column \<open>revoked_at\<close> of sessions is left out: nothing writes it (\<open>SessionRepo.Revoke\<close> is not called).
\<close>

section \<open>Tables\<close>

record ProviderToken =
  pt_Provider :: string
  pt_UserID :: string
  pt_AccessTokenEnc :: string
  pt_RefreshTokenEnc :: string
  pt_ExpiresAt :: time
  pt_UpdatedAt :: time

record auth_db =
  au_users :: "(string \<times> User) list"
  au_sessions :: "(string \<times> Session) list"
  au_tokens :: "(string \<times> RefreshToken) list"
  au_flows :: "(string \<times> OAuthFlow) list"
  au_accounts :: "((string \<times> string) \<times> OAuthAccount) list"
  au_ptokens :: "((string \<times> string) \<times> ProviderToken) list"
  au_keys :: "(string \<times> SigningKey) list"
  au_outbox :: "outbox_row list"

definition empty_auth_db :: auth_db where
  "empty_auth_db = \<lparr>au_users = [], au_sessions = [], au_tokens = [], au_flows = [], au_accounts = [], au_ptokens = [],
     au_keys = [], au_outbox = []\<rparr>"

text \<open>The text of PostgreSQL's error for a unique constraint, with its SQLSTATE, and its recognition.\<close>

definition unique_violation :: go_error where
  "unique_violation = ExtErr ''ERROR: duplicate key value violates unique constraint (SQLSTATE 23505)''"

fun isUniqueViolation :: "go_error \<Rightarrow> bool" where
  "isUniqueViolation (ExtErr s) \<longleftrightarrow> starts_with (rev ''(SQLSTATE 23505)'') (rev s)"
| "isUniqueViolation (WrapErr p e) = isUniqueViolation e"
| "isUniqueViolation (VbErr k r d m meta (Some e)) = isUniqueViolation e"
| "isUniqueViolation _ = False"

text \<open>A row whose keys are checked first, then inserted.\<close>

definition insert_row :: "bool \<Rightarrow> bool \<Rightarrow> 'db \<Rightarrow> 'db \<Rightarrow> unit result \<times> 'db" where
  "insert_row duplicate dangling db db' =
     (if duplicate then (Inl unique_violation, db)
      else if dangling then (Inl (ExtErr ''foreign key violation''), db) else (Inr (), db'))"

section \<open>Users\<close>

definition user_row_of :: "User \<Rightarrow> User option" where
  "user_row_of u =
     (case (char_col 26 (us_ID u), text_col (us_Email u), text_varchar_col 32 (us_Username u),
            text_varchar_col 100 (us_DisplayName u), text_col (us_AvatarURL u), text_col (us_PasswordHash u)) of
        (Some i, Some e, Some n, Some d, Some a, Some h) \<Rightarrow>
          if 0 \<le> us_SystemRole u \<and> us_SystemRole u \<le> 4 \<and> 0 \<le> us_Status u \<and> us_Status u \<le> 3
          then Some (u\<lparr>us_ID := i, us_Email := e, us_Username := n, us_DisplayName := d, us_AvatarURL := a, us_PasswordHash := h,
                       us_CreatedAt := pg_time (us_CreatedAt u), us_UpdatedAt := pg_time (us_UpdatedAt u)\<rparr>)
          else None
      | _ \<Rightarrow> None)"

definition User_Create :: "(string \<Rightarrow> string) \<Rightarrow> User \<Rightarrow> (auth_db, unit) tx" where
  "User_Create ci u = tx_err (WrapErr ''user_repo: create'') (tx_stmt (\<lambda>db.
     case user_row_of u of
       None \<Rightarrow> (Inl (ExtErr ''invalid value''), db)
     | Some w \<Rightarrow> insert_row
         (map_of (au_users db) (us_ID w) \<noteq> None
            \<or> list_ex (\<lambda>(i, v). ci (us_Email v) = ci (us_Email w) \<or> us_Username v = us_Username w) (au_users db))
         False db (db\<lparr>au_users := au_users db @ [(us_ID w, w)]\<rparr>)))"

text \<open>\<open>scanUser\<close>: no row is the not-found error, with the empty id of the zero value.\<close>

definition scan_row :: "string \<Rightarrow> string \<Rightarrow> 'a option \<Rightarrow> 'db \<Rightarrow> 'a result \<times> 'db" where
  "scan_row entity i r db = (case r of None \<Rightarrow> (Inl (PortsNotFound entity i), db) | Some v \<Rightarrow> (Inr v, db))"

definition User_GetByID :: "string \<Rightarrow> (auth_db, User) tx" where
  "User_GetByID i = tx_stmt (\<lambda>db. scan_row ''user'' ''''
     (case char_col 26 i of None \<Rightarrow> None | Some k \<Rightarrow> map_of (au_users db) k) db)"

definition User_GetByEmail :: "(string \<Rightarrow> string) \<Rightarrow> string \<Rightarrow> (auth_db, User) tx" where
  "User_GetByEmail ci email = tx_stmt (\<lambda>db. scan_row ''user'' ''''
     (map_option snd (find (\<lambda>(i, u). ci (us_Email u) = ci email) (au_users db))) db)"

section \<open>Sessions\<close>

definition session_row_of :: "Session \<Rightarrow> Session option" where
  "session_row_of s =
     (case (char_col 26 (se_ID s), char_col 26 (se_UserID s), text_varchar_col 100 (se_DeviceLabel s), char_col 26 (se_FamilyID s)) of
        (Some i, Some u, Some d, Some f) \<Rightarrow>
          Some (s\<lparr>se_ID := i, se_UserID := u, se_DeviceLabel := d, se_FamilyID := f, se_CreatedAt := pg_time (se_CreatedAt s),
                 se_LastSeenAt := pg_time (se_LastSeenAt s), se_ExpiresAt := pg_time (se_ExpiresAt s)\<rparr>)
      | _ \<Rightarrow> None)"

definition Session_Create :: "Session \<Rightarrow> (auth_db, unit) tx" where
  "Session_Create s = tx_err (WrapErr ''session_repo: create'') (tx_stmt (\<lambda>db.
     case session_row_of s of
       None \<Rightarrow> (Inl (ExtErr ''invalid value''), db)
     | Some w \<Rightarrow> insert_row
         (map_of (au_sessions db) (se_ID w) \<noteq> None \<or> list_ex (\<lambda>(i, v). se_FamilyID v = se_FamilyID w) (au_sessions db))
         (map_of (au_users db) (se_UserID w) = None) db (db\<lparr>au_sessions := au_sessions db @ [(se_ID w, w)]\<rparr>)))"

definition Session_GetByID :: "string \<Rightarrow> (auth_db, Session) tx" where
  "Session_GetByID i = tx_stmt (\<lambda>db. scan_row ''session'' i
     (case char_col 26 i of None \<Rightarrow> None | Some k \<Rightarrow> map_of (au_sessions db) k) db)"

definition UpdateLastSeen :: "string \<Rightarrow> time \<Rightarrow> (auth_db, unit) tx" where
  "UpdateLastSeen i ts = tx_err (WrapErr ''session_repo: update_last_seen'') (tx_stmt (\<lambda>db. (Inr (),
     case char_col 26 i of None \<Rightarrow> db
     | Some k \<Rightarrow> db\<lparr>au_sessions := AList.map_entry k (\<lambda>s. s\<lparr>se_LastSeenAt := pg_time ts\<rparr>) (au_sessions db)\<rparr>)))"

section \<open>Refresh tokens\<close>

definition token_row_of :: "RefreshToken \<Rightarrow> RefreshToken option" where
  "token_row_of t =
     (case (char_col 26 (rt_ID t), char_col 26 (rt_FamilyID t), char_col 26 (rt_UserID t), char_col 26 (rt_SessionID t),
            varchar_col 32 (rt_Selector t), text_col (rt_ValidatorHash t),
            if rt_RotatedFrom t = '''' then Some '''' else char_col 26 (rt_RotatedFrom t)) of
        (Some i, Some f, Some u, Some s, Some sel, Some h, Some r) \<Rightarrow>
          if 0 \<le> rt_Status t \<and> rt_Status t \<le> 5
          then Some (t\<lparr>rt_ID := i, rt_FamilyID := f, rt_UserID := u, rt_SessionID := s, rt_Selector := sel, rt_ValidatorHash := h,
                 rt_RotatedFrom := r, rt_ExpiresAt := pg_time (rt_ExpiresAt t), rt_CreatedAt := pg_time (rt_CreatedAt t),
                 rt_UsedAt := zero_time, rt_RevokedAt := zero_time\<rparr>)
          else None
      | _ \<Rightarrow> None)"

definition Refresh_Create :: "RefreshToken \<Rightarrow> (auth_db, unit) tx" where
  "Refresh_Create t = tx_err (WrapErr ''refresh_repo: create'') (tx_stmt (\<lambda>db.
     case token_row_of t of
       None \<Rightarrow> (Inl (ExtErr ''invalid value''), db)
     | Some w \<Rightarrow> insert_row
         (map_of (au_tokens db) (rt_ID w) \<noteq> None \<or> list_ex (\<lambda>(i, v). rt_Selector v = rt_Selector w) (au_tokens db))
         (map_of (au_users db) (rt_UserID w) = None \<or> map_of (au_sessions db) (rt_SessionID w) = None)
         db (db\<lparr>au_tokens := au_tokens db @ [(rt_ID w, w)]\<rparr>)))"

definition GetBySelector :: "string \<Rightarrow> (auth_db, RefreshToken) tx" where
  "GetBySelector selector = tx_stmt (\<lambda>db. scan_row ''refresh_token'' ''''
     (map_option snd (find (\<lambda>(i, t). rt_Selector t = selector) (au_tokens db))) db)"

definition set_token :: "string \<Rightarrow> (RefreshToken \<Rightarrow> RefreshToken) \<Rightarrow> auth_db \<Rightarrow> auth_db" where
  "set_token i f db = (case char_col 26 i of None \<Rightarrow> db
     | Some k \<Rightarrow> db\<lparr>au_tokens := AList.map_entry k f (au_tokens db)\<rparr>)"

definition MarkUsed :: "string \<Rightarrow> time \<Rightarrow> (auth_db, unit) tx" where
  "MarkUsed i ts = tx_err (WrapErr ''refresh_repo: mark_used'') (tx_stmt (\<lambda>db. (Inr (),
     set_token i (\<lambda>t. t\<lparr>rt_Status := RefreshTokenStatusUsed, rt_UsedAt := pg_time ts\<rparr>) db)))"

definition MarkRevoked :: "string \<Rightarrow> time \<Rightarrow> (auth_db, unit) tx" where
  "MarkRevoked i ts = tx_err (WrapErr ''refresh_repo: mark_revoked'') (tx_stmt (\<lambda>db. (Inr (),
     set_token i (\<lambda>t. t\<lparr>rt_Status := RefreshTokenStatusRevoked, rt_RevokedAt := pg_time ts\<rparr>) db)))"

definition RevokeFamily :: "string \<Rightarrow> time \<Rightarrow> (auth_db, nat) tx" where
  "RevokeFamily familyID ts = tx_err (WrapErr ''refresh_repo: revoke_family'') (tx_stmt (\<lambda>db.
     let hit = (\<lambda>t. char_col 26 familyID = Some (rt_FamilyID t) \<and> rt_Status t \<noteq> RefreshTokenStatusCompromised) in
     (Inr (length (filter (hit \<circ> snd) (au_tokens db))),
      db\<lparr>au_tokens := map (\<lambda>(i, t). (i, if hit t
           then t\<lparr>rt_Status := RefreshTokenStatusCompromised, rt_RevokedAt := pg_time ts\<rparr> else t)) (au_tokens db)\<rparr>)))"

section \<open>OAuth flows, accounts and provider tokens\<close>

definition flow_row_of :: "OAuthFlow \<Rightarrow> OAuthFlow option" where
  "flow_row_of f =
     (case (varchar_col 32 (of_State f), text_varchar_col 32 (of_Provider f), text_col (of_RedirectURI f),
            text_varchar_col 64 (of_CodeChallenge f), text_col (of_UserAgent f)) of
        (Some s, Some p, Some r, Some c, Some u) \<Rightarrow>
          Some (f\<lparr>of_State := s, of_Provider := p, of_RedirectURI := r, of_CodeChallenge := c, of_UserAgent := u,
                 of_CreatedAt := pg_time (of_CreatedAt f), of_ExpiresAt := pg_time (of_ExpiresAt f)\<rparr>)
      | _ \<Rightarrow> None)"

definition Flow_Create :: "OAuthFlow \<Rightarrow> (auth_db, unit) tx" where
  "Flow_Create f = tx_err (WrapErr ''oauthflow_repo: create'') (tx_stmt (\<lambda>db.
     case flow_row_of f of
       None \<Rightarrow> (Inl (ExtErr ''invalid value''), db)
     | Some w \<Rightarrow> insert_row (map_of (au_flows db) (of_State w) \<noteq> None) False db
         (db\<lparr>au_flows := au_flows db @ [(of_State w, w)]\<rparr>)))"

definition GetAndConsume :: "string \<Rightarrow> (auth_db, OAuthFlow) tx" where
  "GetAndConsume state =
     tx_bind (tx_stmt (\<lambda>db. scan_row ''oauth_flow'' state (map_of (au_flows db) state) db)) (\<lambda>f.
     tx_then (tx_err (WrapErr ''oauthflow_repo: consume'')
         (tx_stmt (\<lambda>db. (Inr (), db\<lparr>au_flows := AList.delete state (au_flows db)\<rparr>))))
       (tx_return f))"

definition Flow_DeleteExpired :: "time \<Rightarrow> (auth_db, nat) tx" where
  "Flow_DeleteExpired before = tx_err (WrapErr ''oauthflow_repo: delete_expired'') (tx_stmt (\<lambda>db.
     let old = (\<lambda>(s, f). of_ExpiresAt f < before) in
     (Inr (length (filter old (au_flows db))), db\<lparr>au_flows := filter (\<lambda>x. \<not> old x) (au_flows db)\<rparr>)))"

definition account_row_of :: "OAuthAccount \<Rightarrow> OAuthAccount option" where
  "account_row_of a =
     (case (text_varchar_col 32 (oa_Provider a), text_varchar_col 255 (oa_ProviderUserID a), char_col 26 (oa_UserID a)) of
        (Some p, Some i, Some u) \<Rightarrow>
          Some (a\<lparr>oa_Provider := p, oa_ProviderUserID := i, oa_UserID := u, oa_CreatedAt := pg_time (oa_CreatedAt a)\<rparr>)
      | _ \<Rightarrow> None)"

text \<open>\<open>ON CONFLICT (provider, provider_user_id) DO NOTHING\<close>; the other unique index rejects a second link of a
  user to the same provider.\<close>

definition Account_Upsert :: "OAuthAccount \<Rightarrow> (auth_db, unit) tx" where
  "Account_Upsert a = tx_err (WrapErr ''oauthaccount_repo: upsert'') (tx_stmt (\<lambda>db.
     case account_row_of a of
       None \<Rightarrow> (Inl (ExtErr ''invalid value''), db)
     | Some w \<Rightarrow>
         let key = (oa_Provider w, oa_ProviderUserID w) in
         if map_of (au_accounts db) key \<noteq> None then (Inr (), db)
         else insert_row
           (list_ex (\<lambda>(i, v). oa_UserID v = oa_UserID w \<and> oa_Provider v = oa_Provider w) (au_accounts db))
           (map_of (au_users db) (oa_UserID w) = None) db (db\<lparr>au_accounts := au_accounts db @ [(key, w)]\<rparr>)))"

definition Account_GetByProvider :: "string \<Rightarrow> string \<Rightarrow> (auth_db, OAuthAccount) tx" where
  "Account_GetByProvider provider i = tx_stmt (\<lambda>db. scan_row provider i (map_of (au_accounts db) (provider, i)) db)"

definition Account_ListByUser :: "string \<Rightarrow> (auth_db, OAuthAccount list) tx" where
  "Account_ListByUser userID = tx_err (WrapErr ''oauthaccount_repo: list_by_user'') (tx_query (\<lambda>db.
     sort_key oa_CreatedAt (filter (\<lambda>a. char_col 26 userID = Some (oa_UserID a)) (map snd (au_accounts db)))))"

text \<open>\<open>sysnow\<close> is the reading of the system clock inside the statement's arguments.\<close>

definition ProviderToken_Upsert :: "time \<Rightarrow> ProviderToken \<Rightarrow> (auth_db, unit) tx" where
  "ProviderToken_Upsert sysnow t = tx_err (WrapErr ''provider_token_repo: upsert'') (tx_stmt (\<lambda>db.
     case (text_varchar_col 32 (pt_Provider t), char_col 26 (pt_UserID t)) of
       (Some p, Some u) \<Rightarrow>
         if map_of (au_users db) u = None then (Inl (ExtErr ''foreign key violation''), db)
         else (Inr (), db\<lparr>au_ptokens := AList.update (p, u)
           (t\<lparr>pt_Provider := p, pt_UserID := u, pt_ExpiresAt := pg_time (pt_ExpiresAt t), pt_UpdatedAt := pg_time sysnow\<rparr>) (au_ptokens db)\<rparr>)
     | _ \<Rightarrow> (Inl (ExtErr ''invalid value''), db)))"

definition ProviderToken_Get :: "string \<Rightarrow> string \<Rightarrow> (auth_db, ProviderToken) tx" where
  "ProviderToken_Get provider userID = tx_stmt (\<lambda>db. scan_row ''provider_token'' (provider @ '':'' @ userID)
     (case char_col 26 userID of None \<Rightarrow> None | Some u \<Rightarrow> map_of (au_ptokens db) (provider, u)) db)"

section \<open>Signing keys\<close>

text \<open>The partial unique index allows one active key.\<close>

definition Key_Upsert :: "SigningKey \<Rightarrow> (auth_db, unit) tx" where
  "Key_Upsert k = tx_err (WrapErr ''signingkey_repo: upsert'') (tx_stmt (\<lambda>db.
     let w = k\<lparr>sk_CreatedAt := (case map_of (au_keys db) (sk_KID k) of None \<Rightarrow> pg_time (sk_CreatedAt k) | Some old \<Rightarrow> sk_CreatedAt old),
               sk_RetiredAt := (if sk_RetiredAt k = zero_time then zero_time else pg_time (sk_RetiredAt k))\<rparr> in
     if sk_Status k \<notin> {0, 1, 2} then (Inl (ExtErr ''check violation''), db)
     else if sk_Status k = SigningKeyStatusActive
         \<and> list_ex (\<lambda>(i, v). i \<noteq> sk_KID k \<and> sk_Status v = SigningKeyStatusActive) (au_keys db)
     then (Inl unique_violation, db)
     else (Inr (), db\<lparr>au_keys := AList.update (sk_KID k) w (au_keys db)\<rparr>)))"

definition Key_GetActive :: "(auth_db, SigningKey) tx" where
  "Key_GetActive = tx_stmt (\<lambda>db. scan_row ''signing_key'' ''''
     (map_option snd (find (\<lambda>(i, k). sk_Status k = SigningKeyStatusActive) (au_keys db))) db)"

definition Key_ListVerifiable :: "(auth_db, SigningKey list) tx" where
  "Key_ListVerifiable = tx_err (WrapErr ''signingkey_repo: list'') (tx_query (\<lambda>db.
     sort_key (\<lambda>k. - sk_CreatedAt k)
       (filter (\<lambda>k. sk_Status k \<in> {SigningKeyStatusActive, SigningKeyStatusRetired}) (map snd (au_keys db)))))"

definition Key_MarkRetired :: "string \<Rightarrow> time \<Rightarrow> (auth_db, unit) tx" where
  "Key_MarkRetired kid ts = tx_err (WrapErr ''signingkey_repo: mark_retired'') (tx_stmt (\<lambda>db. (Inr (),
     db\<lparr>au_keys := AList.map_entry kid (\<lambda>k. k\<lparr>sk_Status := SigningKeyStatusRetired, sk_RetiredAt := pg_time ts\<rparr>) (au_keys db)\<rparr>)))"

section \<open>Outbox\<close>

definition Auth_Append :: "Event list \<Rightarrow> (auth_db, unit) tx" where
  "Auth_Append es = tx_on au_outbox (\<lambda>rows db. db\<lparr>au_outbox := rows\<rparr>) (Append es)"

section \<open>Successful statements\<close>

lemma insert_row_inr [simp]:
  "insert_row dup dangling db db1 = (Inr v, db') \<longleftrightarrow> \<not> dup \<and> \<not> dangling \<and> db' = db1"
  by (auto simp: insert_row_def unique_violation_def)

lemma scan_row_inr [simp]: "scan_row en i r db = (Inr v, db') \<longleftrightarrow> r = Some v \<and> db' = db"
  by (auto simp: scan_row_def split: option.split)

lemmas auth_stmt_defs = User_Create_def User_GetByID_def User_GetByEmail_def Session_Create_def Session_GetByID_def
  UpdateLastSeen_def Refresh_Create_def GetBySelector_def MarkUsed_def MarkRevoked_def RevokeFamily_def
  Flow_Create_def GetAndConsume_def Account_Upsert_def Account_GetByProvider_def ProviderToken_Upsert_def
  Key_Upsert_def Key_GetActive_def Key_MarkRetired_def Auth_Append_def

end
