(* ===== verification/Auth_Crypto.thy ===== *)
theory Auth_Crypto
  imports Vb_Errors Go_Base64
begin

text \<open>
  The auth service's adapters for passwords and for encryption at rest: \<open>infra/crypto/{password,keycipher}.go\<close>.
  Key derivation (\<open>argon2.IDKey\<close>) and authenticated encryption (\<open>cipher.AEAD\<close>) are library code and are
  arguments here. What the service needs of a password hasher is the locale \<open>password_hasher\<close>; the adapter
  interprets it, for every key derivation function. Decryption inverts encryption for every cipher whose
  \<open>Open\<close> inverts its \<open>Seal\<close>.
\<close>

section \<open>Contract\<close>

text \<open>\<open>ports.PasswordHasher\<close>: a hash accepts the text it was made from, whatever the salt; the empty hash,
  which marks accounts without a password, accepts nothing.\<close>

locale password_hasher =
  fixes Hash :: "(nat \<Rightarrow> 8 word) \<Rightarrow> string \<Rightarrow> string result" and Compare :: "string \<Rightarrow> string \<Rightarrow> bool"
  assumes hash_total: "\<exists>h. Hash salt p = Inr h"
    and compare_hash: "Hash salt p = Inr h \<Longrightarrow> Compare h p"
    and compare_empty: "\<not> Compare '''' p"
begin

lemma hash_nonempty: "Hash salt p = Inr h \<Longrightarrow> h \<noteq> ''''"
  using compare_hash compare_empty by metis

end

section \<open>Passwords\<close>

type_synonym id_key = "string \<Rightarrow> 8 word list \<Rightarrow> nat \<Rightarrow> nat \<Rightarrow> nat \<Rightarrow> nat \<Rightarrow> 8 word list"

definition argon2Memory :: nat where "argon2Memory = 19 * 1024"
definition argon2Iterations :: nat where "argon2Iterations = 2"
definition argon2Lanes :: nat where "argon2Lanes = 1"
definition argon2SaltBytes :: nat where "argon2SaltBytes = 16"
definition argon2KeyBytes :: nat where "argon2KeyBytes = 32"
definition argon2Version :: nat where "argon2Version = 19"
definition phcVersion :: string where "phcVersion = ''argon2id''"

text \<open>\<open>strings.Split\<close> by a one-byte separator.\<close>

fun split_on :: "char \<Rightarrow> string \<Rightarrow> string list" where
  "split_on c [] = [[]]"
| "split_on c (x # xs) = (if x = c then [] # split_on c xs
     else (case split_on c xs of [] \<Rightarrow> [[x]] | p # ps \<Rightarrow> (x # p) # ps))"

definition phcEncode :: "8 word list \<Rightarrow> 8 word list \<Rightarrow> string" where
  "phcEncode salt key =
     ''$'' @ phcVersion @ ''$v='' @ dec_nat argon2Version @ ''$m='' @ dec_nat argon2Memory @ '',t='' @ dec_nat argon2Iterations
       @ '',p='' @ dec_nat argon2Lanes @ ''$'' @ RawStdEncoding salt @ ''$'' @ RawStdEncoding key"

definition phcDecode :: "string \<Rightarrow> (8 word list \<times> 8 word list) result" where
  "phcDecode s =
     (let parts = split_on (CHR ''$'') s in
      if length parts \<noteq> 6 \<or> parts ! 1 \<noteq> phcVersion then Inl (PlainErr ''password: unrecognized hash format'')
      else (case RawStdDecoding (parts ! 4) of
          None \<Rightarrow> Inl (WrapErr ''password: salt decode'' (PlainErr ''illegal base64 data''))
        | Some salt \<Rightarrow> (case RawStdDecoding (parts ! 5) of
            None \<Rightarrow> Inl (WrapErr ''password: key decode'' (PlainErr ''illegal base64 data''))
          | Some key \<Rightarrow> Inr (salt, key))))"

definition derive :: "id_key \<Rightarrow> string \<Rightarrow> 8 word list \<Rightarrow> 8 word list" where
  "derive IDKey plaintext salt = IDKey plaintext salt argon2Iterations argon2Memory argon2Lanes argon2KeyBytes"

definition Password_Hash :: "id_key \<Rightarrow> (nat \<Rightarrow> 8 word) \<Rightarrow> string \<Rightarrow> string result" where
  "Password_Hash IDKey rnd plaintext =
     (let salt = map rnd [0..<argon2SaltBytes]; key = derive IDKey plaintext salt in Inr (phcEncode salt key))"

definition Password_Compare :: "id_key \<Rightarrow> string \<Rightarrow> string \<Rightarrow> bool" where
  "Password_Compare IDKey hash plaintext =
     (case phcDecode hash of Inl err \<Rightarrow> False | Inr (salt, want) \<Rightarrow> want = derive IDKey plaintext salt)"

lemma split_on_nonempty [simp]: "split_on c s \<noteq> []"
  by (induction s) (auto split: list.splits)

lemma split_on_no: "c \<notin> set s \<Longrightarrow> split_on c s = [s]"
  by (induction s) auto

lemma split_on_sep: "c \<notin> set s \<Longrightarrow> split_on c (s @ c # t) = s # split_on c t"
  by (induction s) auto

text \<open>The middle part of the encoding, as text.\<close>

lemma phc_params: "''v='' @ dec_nat argon2Version = ''v=19''"
  "''m='' @ dec_nat argon2Memory @ '',t='' @ dec_nat argon2Iterations @ '',p='' @ dec_nat argon2Lanes = ''m=19456,t=2,p=1''"
  by (simp_all add: argon2Version_def argon2Memory_def argon2Iterations_def argon2Lanes_def dec_nat.simps char_of_def bit_0)

lemma phcEncode_eq:
  "phcEncode salt key = CHR ''$'' # phcVersion @ CHR ''$'' # ''v=19'' @ CHR ''$'' # ''m=19456,t=2,p=1''
     @ CHR ''$'' # RawStdEncoding salt @ CHR ''$'' # RawStdEncoding key"
proof -
  let ?S = "RawStdEncoding salt" and ?K = "RawStdEncoding key"
  have "phcEncode salt key = ''$'' @ phcVersion @ ''$'' @ (''v='' @ dec_nat argon2Version) @ ''$''
      @ (''m='' @ dec_nat argon2Memory @ '',t='' @ dec_nat argon2Iterations @ '',p='' @ dec_nat argon2Lanes) @ ''$'' @ ?S @ ''$'' @ ?K"
    by (simp add: phcEncode_def)
  also have "\<dots> = CHR ''$'' # phcVersion @ CHR ''$'' # ''v=19'' @ CHR ''$'' # ''m=19456,t=2,p=1'' @ CHR ''$'' # ?S @ CHR ''$'' # ?K"
    unfolding phc_params by simp
  finally show ?thesis .
qed

lemma phcDecode_phcEncode: "phcDecode (phcEncode salt key) = Inr (salt, key)"
proof -
  have "split_on (CHR ''$'') (phcEncode salt key) = ['''', phcVersion, ''v=19'', ''m=19456,t=2,p=1'', RawStdEncoding salt, RawStdEncoding key]"
    using no_separator(2) by (simp add: phcEncode_eq split_on_sep split_on_no phcVersion_def)
  then show ?thesis by (simp add: phcDecode_def)
qed

lemma phcEncode_no_nul: "CHR 0x00 \<notin> set (phcEncode salt key)"
proof -
  have "CHR 0x00 \<notin> set std_alphabet" by code_simp
  then have "CHR 0x00 \<notin> set (RawStdEncoding bs)" for bs
    using set_b64_encode [OF alphabets_ok(2)] by (auto simp: RawStdEncoding_def)
  then show ?thesis by (simp add: phcEncode_eq phcVersion_def)
qed

lemma Compare_Hash:
  "Password_Hash IDKey rnd p = Inr h \<Longrightarrow>
   Password_Compare IDKey h q \<longleftrightarrow> derive IDKey q (map rnd [0..<argon2SaltBytes]) = derive IDKey p (map rnd [0..<argon2SaltBytes])"
  by (auto simp: Password_Hash_def Password_Compare_def phcDecode_phcEncode Let_def)

interpretation argon: password_hasher "Password_Hash IDKey" "Password_Compare IDKey"
proof unfold_locales
  show "\<exists>h. Password_Hash IDKey salt p = Inr h" for salt p by (simp add: Password_Hash_def Let_def)
  show "Password_Hash IDKey salt p = Inr h \<Longrightarrow> Password_Compare IDKey h p" for salt p h by (simp add: Compare_Hash)
  show "\<not> Password_Compare IDKey [] p" for p by (simp add: Password_Compare_def phcDecode_def)
qed

section \<open>Encryption at rest\<close>

record aead =
  NonceSize :: nat
  Seal :: "string \<Rightarrow> string \<Rightarrow> string"
  Open :: "string \<Rightarrow> string \<Rightarrow> string option"

definition Cipher_Encrypt :: "aead \<Rightarrow> (nat \<Rightarrow> 8 word) \<Rightarrow> string \<Rightarrow> string result" where
  "Cipher_Encrypt c rnd plaintext =
     (let nonce = map (\<lambda>i. char_of (unat (rnd i))) [0..<NonceSize c] in Inr (nonce @ Seal c nonce plaintext))"

definition Cipher_Decrypt :: "aead \<Rightarrow> string \<Rightarrow> string result" where
  "Cipher_Decrypt c ciphertext =
     (if length ciphertext < NonceSize c then Inl (PlainErr ''keycipher: ciphertext too short'')
      else (let nonce = take (NonceSize c) ciphertext; ct = drop (NonceSize c) ciphertext in
        case Open c nonce ct of
          None \<Rightarrow> Inl (WrapErr ''keycipher: decrypt'' (PlainErr ''cipher: message authentication failed''))
        | Some plaintext \<Rightarrow> Inr plaintext))"

text \<open>What \<open>cipher.AEAD\<close> documents, and a cipher that has it.\<close>

definition opens_sealed :: "aead \<Rightarrow> bool" where
  "opens_sealed c \<longleftrightarrow> (\<forall>n p. length n = NonceSize c \<longrightarrow> Open c n (Seal c n p) = Some p)"

lemma Decrypt_Encrypt: "opens_sealed c \<Longrightarrow> Cipher_Encrypt c rnd p = Inr ct \<Longrightarrow> Cipher_Decrypt c ct = Inr p"
  by (auto simp: Cipher_Encrypt_def Cipher_Decrypt_def opens_sealed_def Let_def)

definition plain_aead :: aead where
  "plain_aead = \<lparr>NonceSize = 12, Seal = (\<lambda>n p. n @ p), Open = (\<lambda>n c. if take (length n) c = n then Some (drop (length n) c) else None)\<rparr>"

lemma plain_aead_opens: "opens_sealed plain_aead"
  by (simp add: opens_sealed_def plain_aead_def)

section \<open>Properties\<close>

text \<open>A password hash is usable and specific: for every key derivation function and every salt, hashing
  succeeds, and the stored text accepts exactly those passwords that derive the same key under that salt, in
  particular the hashed password itself; the empty hash of accounts without a password accepts nothing.\<close>

theorem password_roundtrip:
  "\<exists>h. Password_Hash IDKey rnd p = Inr h \<and> Password_Compare IDKey h p \<and> \<not> Password_Compare IDKey '''' p \<and>
     (\<forall>q. Password_Compare IDKey h q \<longleftrightarrow>
        derive IDKey q (map rnd [0..<argon2SaltBytes]) = derive IDKey p (map rnd [0..<argon2SaltBytes]))"
proof -
  obtain h where h: "Password_Hash IDKey rnd p = Inr h" using argon.hash_total by blast
  then show ?thesis using argon.compare_hash argon.compare_empty Compare_Hash [OF h] by blast
qed

end
