(* ===== verification/Auth_Service.thy ===== *)
theory Auth_Service
  imports Auth_Repo Auth_Crypto Vb_Call
begin

text \<open>
  The auth service's use cases: \<open>app/{login,register,refresh,oauth,provider_token,providers,tokens}.go\<close>. A call's
  clock readings, identifiers and random bytes are numbered by the places of the handler that ask for them.
  What lies outside the program is in \<open>auth_env\<close>: key derivation, token signing, encryption, the OAuth providers
  with their token endpoints, the folding of \<open>CITEXT\<close>, and the configuration.
\<close>

section \<open>Environment\<close>

record AccessTokenClaims =
  ac_Subject :: string
  ac_SystemRole :: int
  ac_Issuer :: string
  ac_Audience :: "string list"
  ac_IssuedAt :: time
  ac_ExpiresAt :: time
  ac_Scope :: string

record ProviderTokens =
  tk_AccessToken :: string
  tk_RefreshToken :: string
  tk_ExpiresIn :: duration

record OAuthProvider =
  op_Name :: string
  op_AuthorizationURL :: "string \<Rightarrow> string \<Rightarrow> string \<Rightarrow> string result"
  op_Exchange :: "string \<Rightarrow> string \<Rightarrow> string \<Rightarrow> ProviderTokens result"
  op_Profile :: "ProviderTokens \<Rightarrow> ProviderProfile result"

record auth_env =
  ae_ci :: "string \<Rightarrow> string"
  ae_IDKey :: id_key
  ae_Sign :: "AccessTokenClaims \<Rightarrow> string result"
  ae_cipher :: aead
  ae_registry :: "(string \<Rightarrow> OAuthProvider option) option"
  ae_cv :: "f64 \<Rightarrow> int"
  ae_SessionTTL :: duration
  ae_RefreshTokenTTL :: duration
  ae_AccessTokenTTL :: duration
  ae_OAuthFlowTTL :: duration
  ae_Issuer :: string

definition ae_Compare :: "auth_env \<Rightarrow> string \<Rightarrow> string \<Rightarrow> bool" where
  "ae_Compare env = Password_Compare (ae_IDKey env)"

text \<open>\<open>time.Duration.Seconds\<close>, then \<open>uint64\<close>.\<close>

definition Seconds :: "duration \<Rightarrow> f64" where
  "Seconds d = fadd (i2f (trunc_rat (of_int d / 10 ^ 9))) (fdiv (i2f (d - trunc_rat (of_int d / 10 ^ 9) * 10 ^ 9)) (i2f (10 ^ 9)))"

definition expiresIn :: "auth_env \<Rightarrow> u64" where
  "expiresIn env = word_of_int (f2i (ae_cv env) 64 (Seconds (ae_AccessTokenTTL env)))"

record tokenMaterial =
  tm_AccessToken :: string
  tm_RefreshToken :: string
  tm_ExpiresIn :: u64

record AuthSession =
  as_AccessToken :: string
  as_RefreshToken :: string
  as_TokenType :: string
  as_ExpiresIn :: u64
  as_UserId :: string

definition auth_session :: "Session \<Rightarrow> tokenMaterial \<Rightarrow> AuthSession" where
  "auth_session s m = \<lparr>as_AccessToken = tm_AccessToken m, as_RefreshToken = tm_RefreshToken m, as_TokenType = ''Bearer'',
     as_ExpiresIn = tm_ExpiresIn m, as_UserId = se_UserID s\<rparr>"

definition respond :: "(Session \<times> tokenMaterial) result \<times> auth_db \<Rightarrow> AuthSession result \<times> auth_db" where
  "respond r = (case r of (Inl err, db) \<Rightarrow> (Inl err, db) | (Inr (s, m), db) \<Rightarrow> (Inr (auth_session s m), db))"

definition tx_result :: "'a result \<Rightarrow> ('db, 'a) tx" where
  "tx_result r = (case r of Inl err \<Rightarrow> tx_fail err | Inr v \<Rightarrow> tx_return v)"

section \<open>Sessions and tokens\<close>

definition issueAccessToken :: "auth_env \<Rightarrow> time \<Rightarrow> User \<Rightarrow> string result" where
  "issueAccessToken env now u = ae_Sign env
     \<lparr>ac_Subject = us_ID u, ac_SystemRole = us_SystemRole u, ac_Issuer = ae_Issuer env, ac_Audience = [''vibesync''],
      ac_IssuedAt = now, ac_ExpiresAt = now + ae_AccessTokenTTL env, ac_Scope = ''''\<rparr>"

text \<open>A new refresh token: reads \<open>r\<close>, \<open>r + 1\<close> and \<open>r + 2\<close> of the random source give selector, validator and the
  salt of its hash.\<close>

definition new_token ::
  "auth_env \<Rightarrow> call \<Rightarrow> nat \<Rightarrow> time \<Rightarrow> string \<Rightarrow> string \<Rightarrow> string \<Rightarrow> string \<Rightarrow> string \<Rightarrow> (RefreshToken \<times> ValidatorMaterial) result" where
  "new_token env c r now i familyID userID sessionID rotatedFrom =
     NewRefreshToken (rq_rand c r) (rq_rand c (r + 1)) (Password_Hash (ae_IDKey env) (rq_rand c (r + 2)))
       now i familyID userID sessionID rotatedFrom (ae_RefreshTokenTTL env)"

text \<open>\<open>issueSessionForUser\<close>, which \<open>loginUseCase\<close> spells out; \<open>t\<close>, \<open>i\<close> and \<open>r\<close> count the clock readings,
  identifiers and random reads before it.\<close>

definition issueSessionForUser ::
  "auth_env \<Rightarrow> call \<Rightarrow> nat \<Rightarrow> nat \<Rightarrow> nat \<Rightarrow> User \<Rightarrow> string \<Rightarrow> (auth_db, Session \<times> tokenMaterial) tx" where
  "issueSessionForUser env c t i r user deviceLabel =
     (let now = rq_now c t; sessionID = rq_newID c i; familyID = rq_newID c (i + 1);
          sess = NewSession now sessionID (us_ID user) familyID (ae_SessionTTL env) deviceLabel in
      tx_then (Session_Create sess)
     (tx_bind (tx_result (new_token env c r now (rq_newID c (i + 2)) familyID (us_ID user) sessionID '''')) (\<lambda>(rt, validator).
      tx_then (Refresh_Create rt)
     (tx_bind (tx_result (issueAccessToken env (rq_now c (t + 1)) user)) (\<lambda>access.
      tx_return (sess, \<lparr>tm_AccessToken = access, tm_RefreshToken = PresentationToken validator, tm_ExpiresIn = expiresIn env\<rparr>))))))"

section \<open>Login and registration\<close>

definition login_tx :: "auth_env \<Rightarrow> call \<Rightarrow> string \<Rightarrow> string \<Rightarrow> string \<Rightarrow> (auth_db, Session \<times> tokenMaterial) tx" where
  "login_tx env c email password deviceLabel =
     tx_lookup (User_GetByEmail (ae_ci env) email) (tx_fail (Unauthenticated ''INVALID_CREDENTIALS'')) (\<lambda>user.
     tx_then (tx_when (\<not> HasPassword user) (Unauthenticated ''INVALID_CREDENTIALS''))
    (tx_then (tx_when (\<not> ae_Compare env (us_PasswordHash user) password) (Unauthenticated ''INVALID_CREDENTIALS''))
    (tx_then (tx_when (\<not> CanAuthenticate user) (PermissionDenied ''login'' (''user:'' @ us_ID user)))
       (issueSessionForUser env c 0 0 0 user deviceLabel))))"

definition Login :: "auth_env \<Rightarrow> call \<Rightarrow> string \<Rightarrow> string \<Rightarrow> string \<Rightarrow> auth_db \<Rightarrow> AuthSession result \<times> auth_db" where
  "Login env c email password deviceLabel db = ctxDone c db
     (if email = '''' \<or> password = ''''
      then (Inl (InvalidArgumentFor ''vibesync.auth'' ''MISSING_CREDENTIALS'' ''email and password required''), db)
      else respond (run_tx (login_tx env c email password deviceLabel) (rq_faults c) db))"

definition user_created :: "string \<Rightarrow> User \<Rightarrow> string \<Rightarrow> time \<Rightarrow> Event" where
  "user_created eventID user provider now =
     \<lparr>ev_ID = eventID, ev_AggregateID = us_ID user, ev_Topic = ''user.created.v1'', ev_Key = us_ID user,
      ev_Payload = json_marshal [(''user_id'', JStr (us_ID user)), (''email'', JStr (us_Email user)),
        (''username'', JStr (us_Username user)), (''provider'', JStr provider), (''created_at'', JStr (Format_RFC3339 now))],
      ev_Headers = [], ev_OccurredAt = now, ev_Version = ''v1''\<rparr>"

record RegisterRequest =
  rg_Email :: string
  rg_Username :: string
  rg_Password :: string
  rg_DisplayName :: string
  rg_DeviceLabel :: string

definition register_tx :: "auth_env \<Rightarrow> call \<Rightarrow> RegisterRequest \<Rightarrow> (auth_db, Session \<times> tokenMaterial) tx" where
  "register_tx env c req =
     (case NewUser (rq_lower c) (rq_now c 0)
         \<lparr>nu_Email = rg_Email req, nu_Username = rg_Username req, nu_DisplayName = rg_DisplayName req, nu_AvatarURL = ''''\<rparr> of
        Inl err \<Rightarrow> tx_fail (WithCause err (InvalidArgumentFor ''vibesync.auth'' ''INVALID_FIELDS'' (err_text err)))
      | Inr user \<Rightarrow>
          (case Password_Hash (ae_IDKey env) (rq_rand c 0) (rg_Password req) of
             Inl err \<Rightarrow> tx_fail (internal ''PASSWORD_HASH_FAILED'' err)
           | Inr hash \<Rightarrow>
               (let user = SetPassword (rq_now c 1) hash user in
                tx_lookup (User_GetByEmail (ae_ci env) (us_Email user))
                  (let user = user\<lparr>us_ID := rq_newID c 0\<rparr> in
                   tx_then (tx_err (\<lambda>err. if isUniqueViolation err then AlreadyExists ''user'' (us_Email user) else err)
                      (User_Create (ae_ci env) user))
                  (tx_then (Auth_Append [user_created (rq_newID c 1) user ''password'' (rq_now c 0)])
                     (issueSessionForUser env c 2 2 1 user (rg_DeviceLabel req))))
                  (\<lambda>_. tx_fail (AlreadyExists ''user'' (us_Email user))))))"

definition Register :: "auth_env \<Rightarrow> call \<Rightarrow> RegisterRequest \<Rightarrow> auth_db \<Rightarrow> AuthSession result \<times> auth_db" where
  "Register env c req db = ctxDone c db
     (if rg_Email req = '''' \<or> rg_Username req = '''' \<or> rg_Password req = ''''
      then (Inl (InvalidArgumentFor ''vibesync.auth'' ''MISSING_FIELDS'' ''email, username, and password are required''), db)
      else if length (rg_Password req) < 8
      then (Inl (InvalidArgumentFor ''vibesync.auth'' ''PASSWORD_TOO_SHORT'' ''password must be at least 8 characters''), db)
      else respond (run_tx (register_tx env c req) (rq_faults c) db))"

section \<open>Refresh and logout\<close>

definition rotate_tx :: "auth_env \<Rightarrow> call \<Rightarrow> time \<Rightarrow> RefreshToken \<Rightarrow> (auth_db, Session \<times> tokenMaterial) tx" where
  "rotate_tx env c now rt =
     tx_lookup (User_GetByID (rt_UserID rt)) (tx_fail (Unauthenticated ''INVALID_REFRESH_TOKEN'')) (\<lambda>user.
     tx_then (tx_when (\<not> CanAuthenticate user) (PermissionDenied ''refresh'' (''user:'' @ us_ID user)))
    (tx_then (MarkUsed (rt_ID rt) now)
    (tx_bind (tx_result (new_token env c 0 now (rq_newID c 0) (rt_FamilyID rt) (us_ID user) (rt_SessionID rt) (rt_ID rt))) (\<lambda>(newRT, newValidator).
     tx_then (Refresh_Create newRT)
    (tx_then (UpdateLastSeen (rt_SessionID rt) now)
    (tx_bind (tx_result (issueAccessToken env (rq_now c 1) user)) (\<lambda>access.
     tx_bind (Session_GetByID (rt_SessionID rt)) (\<lambda>sess.
     tx_return (sess, \<lparr>tm_AccessToken = access, tm_RefreshToken = PresentationToken newValidator, tm_ExpiresIn = expiresIn env\<rparr>)))))))))"

definition refresh_tx :: "auth_env \<Rightarrow> call \<Rightarrow> string \<Rightarrow> string \<Rightarrow> (auth_db, Session \<times> tokenMaterial) tx" where
  "refresh_tx env c selector validator =
     tx_lookup (GetBySelector selector) (tx_fail (Unauthenticated ''INVALID_REFRESH_TOKEN'')) (\<lambda>rt.
     tx_then (tx_when (\<not> VerifyValidator (ae_Compare env) validator rt) (Unauthenticated ''INVALID_REFRESH_TOKEN''))
       (let now = rq_now c 0 in
        case ClassifyUse now rt of
          (UseOutcomeRotate, _) \<Rightarrow> rotate_tx env c now rt
        | (UseOutcomeReuse, err) \<Rightarrow>
            tx_bind (RevokeFamily (rt_FamilyID rt) now) (\<lambda>_.
              tx_fail (WithCause ErrReuse (WithMeta ''family_id'' (rt_FamilyID rt) (Unauthenticated ''REUSE_DETECTED''))))
        | (UseOutcomeCompromised, err) \<Rightarrow> tx_fail (WithCause ErrCompromised (Unauthenticated ''FAMILY_COMPROMISED''))
        | (UseOutcomeRevoked, err) \<Rightarrow> tx_fail (WithCause ErrRevoked (Unauthenticated ''REVOKED''))
        | (UseOutcomeExpired, err) \<Rightarrow> tx_fail (WithCause ErrExpired (Unauthenticated ''EXPIRED''))))"

definition RefreshToken_handler :: "auth_env \<Rightarrow> call \<Rightarrow> string \<Rightarrow> auth_db \<Rightarrow> AuthSession result \<times> auth_db" where
  "RefreshToken_handler env c presented db = ctxDone c db
     (if presented = ''''
      then (Inl (InvalidArgumentFor ''vibesync.auth'' ''MISSING_REFRESH_TOKEN'' ''refresh_token required''), db)
      else (case splitSelectorValidator presented of (selector, validator) \<Rightarrow>
        if selector = '''' \<or> validator = ''''
        then (Inl (InvalidArgumentFor ''vibesync.auth'' ''MALFORMED_REFRESH_TOKEN'' ''expected <selector>.<validator>''), db)
        else respond (run_tx (refresh_tx env c selector validator) (rq_faults c) db)))"

definition logout_tx :: "call \<Rightarrow> string \<Rightarrow> (auth_db, bool) tx" where
  "logout_tx c selector =
     tx_lookup (GetBySelector selector) (tx_return False) (\<lambda>rt.
       if rt_Status rt = RefreshTokenStatusActive
       then tx_then (MarkRevoked (rt_ID rt) (rq_now c 0)) (tx_return True) else tx_return False)"

definition Logout :: "call \<Rightarrow> string \<Rightarrow> auth_db \<Rightarrow> bool result \<times> auth_db" where
  "Logout c presented db = ctxDone c db
     (if presented = '''' \<or> fst (splitSelectorValidator presented) = '''' then (Inr False, db)
      else run_tx (logout_tx c (fst (splitSelectorValidator presented))) (rq_faults c) db)"

section \<open>OAuth\<close>

definition BeginOAuth :: "auth_env \<Rightarrow> call \<Rightarrow> string \<Rightarrow> string \<Rightarrow> string \<Rightarrow> auth_db \<Rightarrow> (string \<times> string) result \<times> auth_db" where
  "BeginOAuth env c providerName redirectURI codeChallenge db = ctxDone c db
     (if providerName = '''' \<or> redirectURI = ''''
      then (Inl (InvalidArgumentFor ''vibesync.auth'' ''MISSING_OAUTH_PARAMS'' ''provider and redirect_uri required''), db)
      else (case ae_registry env of
        None \<Rightarrow> (Inl (FailedPrecondition ''vibesync.auth'' ''OAUTH_DISABLED'' ''no OAuth providers configured''), db)
      | Some reg \<Rightarrow> (case reg providerName of
          None \<Rightarrow> (Inl (InvalidArgumentFor ''vibesync.auth'' ''UNKNOWN_PROVIDER'' (''unknown or disabled OAuth provider: '' @ providerName)), db)
        | Some provider \<Rightarrow>
            (let flow = NewOAuthFlow (rq_rand c 0) (rq_now c 0) providerName redirectURI codeChallenge '''' (ae_OAuthFlowTTL env) in
             case run_tx (Flow_Create flow) (rq_faults c) db of
               (Inl err, db') \<Rightarrow> (Inl err, db')
             | (Inr _, db') \<Rightarrow>
                 (case op_AuthorizationURL provider redirectURI (of_State flow) (of_CodeChallenge flow) of
                    Inl err \<Rightarrow> (Inl (internal ''OAUTH_AUTH_URL'' err), db')
                  | Inr authURL \<Rightarrow> (Inr (authURL, of_State flow), db'))))))"

text \<open>\<open>t\<close> and \<open>r\<close> count the clock readings and random reads before it; \<open>sysnow\<close> is the clock inside the
  statement.\<close>

definition saveProviderTokens ::
  "auth_env \<Rightarrow> call \<Rightarrow> nat \<Rightarrow> nat \<Rightarrow> string \<Rightarrow> string \<Rightarrow> ProviderTokens \<Rightarrow> (auth_db, unit) tx" where
  "saveProviderTokens env c t r providerName userID tokens =
     (if tk_AccessToken tokens = '''' then tx_return ()
      else (case Cipher_Encrypt (ae_cipher env) (rq_rand c r) (tk_AccessToken tokens) of
        Inl err \<Rightarrow> tx_fail (internal ''TOKEN_ENCRYPT_FAILED'' err)
      | Inr encAccess \<Rightarrow> (case Cipher_Encrypt (ae_cipher env) (rq_rand c (r + 1)) (tk_RefreshToken tokens) of
          Inl err \<Rightarrow> tx_fail (internal ''TOKEN_ENCRYPT_FAILED'' err)
        | Inr encRefresh \<Rightarrow>
            (let expiresAt = (if tk_ExpiresIn tokens = 0 then rq_now c (t + 1) + 3600 * second else rq_now c t + tk_ExpiresIn tokens) in
             ProviderToken_Upsert (rq_dbnow c)
               \<lparr>pt_Provider = providerName, pt_UserID = userID, pt_AccessTokenEnc = encAccess, pt_RefreshTokenEnc = encRefresh,
                pt_ExpiresAt = expiresAt, pt_UpdatedAt = zero_time\<rparr>))))"

definition oauth_account :: "string \<Rightarrow> string \<Rightarrow> string \<Rightarrow> time \<Rightarrow> OAuthAccount" where
  "oauth_account userID provider providerUserID now =
     \<lparr>oa_UserID = userID, oa_Provider = provider, oa_ProviderUserID = providerUserID, oa_CreatedAt = now\<rparr>"

text \<open>The user of a profile: the linked one, else the one with its email (who is then linked), else a new one.\<close>

definition oauth_new_user :: "auth_env \<Rightarrow> call \<Rightarrow> string \<Rightarrow> ProviderProfile \<Rightarrow> (auth_db, User) tx" where
  "oauth_new_user env c providerName profile =
     (let now = rq_now c 0 in
      case NewUser (rq_lower c) now
          \<lparr>nu_Email = pp_Email profile, nu_Username = deriveUsername profile, nu_DisplayName = pp_DisplayName profile,
           nu_AvatarURL = pp_AvatarURL profile\<rparr> of
        Inl err \<Rightarrow> tx_fail (WithCause err (InvalidArgumentFor ''vibesync.auth'' ''OAUTH_PROFILE_INVALID'' (err_text err)))
      | Inr newUser \<Rightarrow>
          (let newUser = newUser\<lparr>us_ID := rq_newID c 0\<rparr> in
           tx_then (User_Create (ae_ci env) newUser)
          (tx_then (Account_Upsert (oauth_account (us_ID newUser) providerName (pp_ProviderUserID profile) now))
          (tx_then (Auth_Append [user_created (rq_newID c 1) newUser providerName now])
             (tx_return newUser)))))"

definition oauth_user :: "auth_env \<Rightarrow> call \<Rightarrow> string \<Rightarrow> ProviderProfile \<Rightarrow> (auth_db, User) tx" where
  "oauth_user env c providerName profile =
     tx_lookup (Account_GetByProvider providerName (pp_ProviderUserID profile))
       (tx_lookup (User_GetByEmail (ae_ci env) (pp_Email profile))
          (oauth_new_user env c providerName profile)
          (\<lambda>user. tx_then (Account_Upsert (oauth_account (us_ID user) providerName (pp_ProviderUserID profile) (rq_now c 0)))
             (tx_return user)))
       (\<lambda>link. User_GetByID (oa_UserID link))"

definition oauth_tx ::
  "auth_env \<Rightarrow> call \<Rightarrow> string \<Rightarrow> ProviderProfile \<Rightarrow> string \<Rightarrow> ProviderTokens \<Rightarrow> (auth_db, Session \<times> tokenMaterial) tx" where
  "oauth_tx env c providerName profile deviceLabel tokens =
     tx_bind (oauth_user env c providerName profile) (\<lambda>user.
     tx_then (tx_when (\<not> CanAuthenticate user) (PermissionDenied ''oauth_login'' (''user:'' @ us_ID user)))
    (tx_then (saveProviderTokens env c 1 0 providerName (us_ID user) tokens)
       (issueSessionForUser env c 3 2 2 user deviceLabel)))"

definition consume_tx :: "string \<Rightarrow> (auth_db, OAuthFlow) tx" where
  "consume_tx state = tx_err (\<lambda>err. if isNotFound err
       then InvalidArgumentFor ''vibesync.auth'' ''BAD_STATE'' ''state not found or expired'' else err) (GetAndConsume state)"

record CompleteOAuthRequest =
  co_Provider :: string
  co_State :: string
  co_Code :: string
  co_CodeVerifier :: string

text \<open>\<open>fl\<close> are the faults of the first transaction.\<close>

definition CompleteOAuth :: "auth_env \<Rightarrow> call \<Rightarrow> faults \<Rightarrow> CompleteOAuthRequest \<Rightarrow> auth_db \<Rightarrow> AuthSession result \<times> auth_db" where
  "CompleteOAuth env c fl req db = ctxDone c db
     (case ae_registry env of
        None \<Rightarrow> (Inl (FailedPrecondition ''vibesync.auth'' ''OAUTH_DISABLED'' ''no OAuth providers configured''), db)
      | Some reg \<Rightarrow> (case reg (co_Provider req) of
          None \<Rightarrow> (Inl (InvalidArgumentFor ''vibesync.auth'' ''UNKNOWN_PROVIDER'' ''unknown or disabled OAuth provider''), db)
        | Some provider \<Rightarrow> (case run_tx (consume_tx (co_State req)) fl db of
            (Inl err, db1) \<Rightarrow> (Inl err, db1)
          | (Inr flow, db1) \<Rightarrow> (case op_Exchange provider (co_Code req) (of_RedirectURI flow) (co_CodeVerifier req) of
              Inl err \<Rightarrow> (Inl (WithCause err (Unauthenticated ''OAUTH_EXCHANGE_FAILED'')), db1)
            | Inr tokens \<Rightarrow> (case op_Profile provider tokens of
                Inl err \<Rightarrow> (Inl (internal ''OAUTH_PROFILE_FAILED'' err), db1)
              | Inr profile \<Rightarrow>
                  if pp_ProviderUserID profile = '''' \<or> pp_Email profile = ''''
                  then (Inl (InvalidArgumentFor ''vibesync.auth'' ''OAUTH_PROFILE_INCOMPLETE'' ''provider did not return id and email''), db1)
                  else respond (run_tx (oauth_tx env c (op_Name provider) profile (of_UserAgent flow) tokens) (rq_faults c) db1))))))"

definition ListLinkedProviders :: "call \<Rightarrow> string \<Rightarrow> auth_db \<Rightarrow> (string \<times> time) list result \<times> auth_db" where
  "ListLinkedProviders c userID db = ctxDone c db
     (if userID = '''' then (Inl (InvalidArgumentFor ''vibesync.auth'' ''MISSING_USER_ID'' ''user_id required''), db)
      else (let subject = subjectFromHeader c in
        if sj_UserID subject \<noteq> userID \<and> sj_SystemRole subject < SYSTEM_ROLE_ADMINISTRATOR
        then (Inl (PermissionDenied ''list_providers'' (''user:'' @ userID)), db)
        else (case map_error (internal ''LIST_PROVIDERS_FAILED'') (run_tx (Account_ListByUser userID) (rq_faults c) db) of
            (Inl err, db') \<Rightarrow> (Inl err, db')
          | (Inr accounts, db') \<Rightarrow> (Inr (map (\<lambda>a. (oa_Provider a, oa_CreatedAt a)) accounts), db'))))"

end
