(* ===== verification/Auth_Keys.thy ===== *)
theory Auth_Keys
  imports Auth_Service
begin

text \<open>
  Access tokens, signing keys and stored provider tokens: \<open>infra/crypto/{jwt,rsa_helpers}.go\<close>,
  \<open>app/{keys,introspect,provider_token}.go\<close> and \<open>bootstrapSigner\<close> of \<open>cmd/auth-service/main.go\<close>.

  RSA, PKCS8 and the JOSE library are the record \<open>jose\<close>: private keys are opaque, a public key is its modulus and
  exponent, a parsed token is its key id and an opaque signed part. The claims of a token are a JSON object.
\<close>

section \<open>Libraries\<close>

type_synonym rsa_private = string

record rsa_public =
  rp_N :: nat
  rp_E :: int

text \<open>What parsing a JWK yields: an error, an RSA public key, or a key of another kind.\<close>

datatype jwk_parse = JwkError string | JwkRSA rsa_public | JwkOther

record jose =
  jo_public :: "rsa_private \<Rightarrow> rsa_public"
  jo_pkcs8 :: "rsa_private \<Rightarrow> string result"
  jo_parse_pkcs8 :: "string \<Rightarrow> rsa_private result"
  jo_jwk :: "rsa_public \<Rightarrow> string result"
  jo_parse_jwk :: "string \<Rightarrow> jwk_parse"
  jo_sign :: "rsa_private \<Rightarrow> string \<Rightarrow> payload \<Rightarrow> string result"
  jo_parse :: "string \<Rightarrow> (string \<times> string) option"
  jo_verify :: "string \<Rightarrow> rsa_public \<Rightarrow> payload option"

text \<open>What the service relies on: a signed token parses, with the key id it was signed with, and verifies
  under the public key of the signing key; keys survive their encodings.\<close>

definition jose_ok :: "jose \<Rightarrow> bool" where
  "jose_ok jo \<longleftrightarrow>
     (\<forall>priv kid p tok. jo_sign jo priv kid p = Inr tok \<longrightarrow>
        (\<exists>j. jo_parse jo tok = Some (kid, j) \<and> jo_verify jo j (jo_public jo priv) = Some p)) \<and>
     (\<forall>pub b. jo_jwk jo pub = Inr b \<longrightarrow> jo_parse_jwk jo b = JwkRSA pub) \<and>
     (\<forall>priv d. jo_pkcs8 jo priv = Inr d \<longrightarrow> jo_parse_pkcs8 jo d = Inr priv)"

section \<open>Claims\<close>

record accessTokenClaims =
  cl_Sub :: string
  cl_Role :: int
  cl_Scope :: string
  cl_Jti :: string
  cl_Iss :: string
  cl_Aud :: "string list"
  cl_Iat :: int
  cl_Exp :: int

text \<open>\<open>json.Marshal\<close> and \<open>json.Unmarshal\<close> of the struct: the fields marked \<open>omitempty\<close> are left out when empty.\<close>

definition claims_json :: "accessTokenClaims \<Rightarrow> payload" where
  "claims_json c = [(''sub'', JStr (cl_Sub c)), (''role'', JInt (cl_Role c))]
     @ (if cl_Scope c = '''' then [] else [(''scope'', JStr (cl_Scope c))])
     @ [(''jti'', JStr (cl_Jti c)), (''iss'', JStr (cl_Iss c))]
     @ (if cl_Aud c = [] then [] else [(''aud'', JArr (cl_Aud c))])
     @ [(''iat'', JInt (cl_Iat c)), (''exp'', JInt (cl_Exp c))]"

definition json_arr :: "payload \<Rightarrow> string \<Rightarrow> string list option" where
  "json_arr ob k = (case map_of ob k of None \<Rightarrow> Some [] | Some (JArr xs) \<Rightarrow> Some xs | _ \<Rightarrow> None)"

definition parse_claims :: "payload \<Rightarrow> accessTokenClaims option" where
  "parse_claims ob =
     (case (json_str ob ''sub'', json_int (- (2 ^ 31)) (2 ^ 31 - 1) ob ''role'', json_str ob ''scope'', json_str ob ''jti'',
            json_str ob ''iss'', json_arr ob ''aud'', json_int (- (2 ^ 63)) (2 ^ 63 - 1) ob ''iat'',
            json_int (- (2 ^ 63)) (2 ^ 63 - 1) ob ''exp'') of
        (Some s, Some r, Some sc, Some j, Some i, Some a, Some t, Some e) \<Rightarrow>
          Some \<lparr>cl_Sub = s, cl_Role = r, cl_Scope = sc, cl_Jti = j, cl_Iss = i, cl_Aud = a, cl_Iat = t, cl_Exp = e\<rparr>
      | _ \<Rightarrow> None)"

text \<open>\<open>t.Unix()\<close> and \<open>time.Unix(s, 0)\<close>.\<close>

definition to_unix :: "time \<Rightarrow> int" where "to_unix t = t div 10 ^ 9"
definition from_unix :: "int \<Rightarrow> time" where "from_unix s = s * 10 ^ 9"

section \<open>The signer\<close>

text \<open>The maps \<open>verifiers\<close> and \<open>jwks\<close> hold the same keys and are one map here.\<close>

record JWTSigner =
  js_activeKID :: string
  js_signer :: rsa_private
  js_verifiers :: "string \<rightharpoonup> rsa_public"

definition jwkToRSAPublic :: "jose \<Rightarrow> string \<Rightarrow> rsa_public result" where
  "jwkToRSAPublic jo b = (case jo_parse_jwk jo b of
     JwkError e \<Rightarrow> Inl (WrapErr ''jwt: unmarshal jwk'' (ExtErr e))
   | JwkRSA pub \<Rightarrow> Inr pub
   | JwkOther \<Rightarrow> Inl (PlainErr ''jwt: jwk is not RSA''))"

fun load_keys :: "jose \<Rightarrow> string \<Rightarrow> (string \<times> string) list \<Rightarrow> (string \<rightharpoonup> rsa_public) \<Rightarrow> (string \<rightharpoonup> rsa_public) result" where
  "load_keys jo what [] m = Inr m"
| "load_keys jo what ((kid, b) # ks) m = (case jwkToRSAPublic jo b of
     Inl err \<Rightarrow> Inl (WrapErr (what @ kid) err)
   | Inr pub \<Rightarrow> load_keys jo what ks (m(kid \<mapsto> pub)))"

text \<open>\<open>activePriv\<close> may be nil.\<close>

definition NewJWTSigner :: "jose \<Rightarrow> SigningKey \<Rightarrow> rsa_private option \<Rightarrow> (string \<times> string) list \<Rightarrow> JWTSigner result" where
  "NewJWTSigner jo active activePriv verifiable =
     (case activePriv of None \<Rightarrow> Inl (PlainErr ''jwt: active private key required'')
      | Some priv \<Rightarrow>
          (case load_keys jo ''jwt: load retired key '' (filter (\<lambda>(kid, b). kid \<noteq> sk_KID active) verifiable)
              [sk_KID active \<mapsto> jo_public jo priv] of
             Inl err \<Rightarrow> Inl err
           | Inr m \<Rightarrow> Inr \<lparr>js_activeKID = sk_KID active, js_signer = priv, js_verifiers = m\<rparr>))"

text \<open>\<open>jti\<close> is the identifier from \<open>uuid.NewString\<close>.\<close>

definition Signer_Sign :: "jose \<Rightarrow> string \<Rightarrow> JWTSigner \<Rightarrow> AccessTokenClaims \<Rightarrow> string result" where
  "Signer_Sign jo jti s c =
     (let claims = \<lparr>cl_Sub = ac_Subject c, cl_Role = ac_SystemRole c, cl_Scope = ac_Scope c, cl_Jti = jti, cl_Iss = ac_Issuer c,
            cl_Aud = ac_Audience c, cl_Iat = to_unix (ac_IssuedAt c), cl_Exp = to_unix (ac_ExpiresAt c)\<rparr> in
      case jo_sign jo (js_signer s) (js_activeKID s) (claims_json claims) of
        Inl err \<Rightarrow> Inl (WrapErr ''jwt: sign'' err)
      | Inr tok \<Rightarrow> Inr tok)"

text \<open>Returns the claims and the token id; \<open>sysnow\<close> is the system clock.\<close>

definition Signer_Verify :: "jose \<Rightarrow> time \<Rightarrow> JWTSigner \<Rightarrow> string \<Rightarrow> (AccessTokenClaims \<times> string) result" where
  "Signer_Verify jo sysnow s tok =
     (case jo_parse jo tok of None \<Rightarrow> Inl (Unauthenticated ''TOKEN_MALFORMED'')
      | Some (kid, j) \<Rightarrow> (case js_verifiers s kid of None \<Rightarrow> Inl (Unauthenticated ''UNKNOWN_KID'')
        | Some pub \<Rightarrow> (case jo_verify jo j pub of None \<Rightarrow> Inl (Unauthenticated ''BAD_SIGNATURE'')
          | Some p \<Rightarrow> (case parse_claims p of None \<Rightarrow> Inl (Unauthenticated ''CLAIMS_MALFORMED'')
            | Some cl \<Rightarrow>
                if to_unix sysnow \<ge> cl_Exp cl then Inl (Unauthenticated ''TOKEN_EXPIRED'')
                else Inr (\<lparr>ac_Subject = cl_Sub cl, ac_SystemRole = cl_Role cl, ac_Issuer = cl_Iss cl, ac_Audience = cl_Aud cl,
                  ac_IssuedAt = from_unix (cl_Iat cl), ac_ExpiresAt = from_unix (cl_Exp cl), ac_Scope = cl_Scope cl\<rparr>, cl_Jti cl)))))"

definition Reload :: "jose \<Rightarrow> SigningKey \<Rightarrow> rsa_private \<Rightarrow> (string \<times> string) list \<Rightarrow> JWTSigner \<Rightarrow> unit result \<times> JWTSigner" where
  "Reload jo active priv retired s =
     (case load_keys jo ''jwt: reload retired key '' retired [sk_KID active \<mapsto> jo_public jo priv] of
        Inl err \<Rightarrow> (Inl err, s)
      | Inr m \<Rightarrow> (Inr (), \<lparr>js_activeKID = sk_KID active, js_signer = priv, js_verifiers = m\<rparr>))"

section \<open>Type assertions\<close>

text \<open>\<open>x.(I)\<close> succeeds when the method set of \<open>x\<close>'s type has the methods of \<open>I\<close> with identical types. The two
  assertions of this package compare the parameters of \<open>Reload\<close> and the result of \<open>Code\<close>.\<close>

datatype go_type = GoNamed string | GoPtr go_type | GoSlice go_type | GoAny

definition JWTSigner_Reload_params :: "go_type list" where
  "JWTSigner_Reload_params = [GoNamed ''domain.SigningKey'', GoAny, GoSlice (GoNamed ''crypto.RetiredKeyInput'')]"

definition signerReloader_params :: "go_type list" where
  "signerReloader_params = [GoNamed ''domain.SigningKey'', GoPtr (GoNamed ''rsa.PrivateKey''), GoSlice (GoNamed ''crypto.RetiredKeyInput'')]"

definition is_signerReloader :: bool where "is_signerReloader \<longleftrightarrow> JWTSigner_Reload_params = signerReloader_params"

text \<open>\<open>(*Error).Code\<close> returns \<open>connect.Code\<close>; the other errors of the model have no such method.\<close>

fun isAuthErr :: "go_error \<Rightarrow> bool" where
  "isAuthErr (VbErr k r d m meta c) \<longleftrightarrow> GoNamed ''connect.Code'' = GoNamed ''uint32'' \<and> Kind_code k = CodeUnauthenticated"
| "isAuthErr _ \<longleftrightarrow> False"

section \<open>Introspection\<close>

record IntrospectResponse =
  ir_Active :: bool
  ir_UserId :: string
  ir_SystemRole :: int
  ir_ExpiresAt :: time
  ir_Scope :: string

definition inactive :: IntrospectResponse where
  "inactive = \<lparr>ir_Active = False, ir_UserId = '''', ir_SystemRole = 0, ir_ExpiresAt = zero_time, ir_Scope = ''''\<rparr>"

definition Introspect :: "jose \<Rightarrow> call \<Rightarrow> JWTSigner \<Rightarrow> string \<Rightarrow> IntrospectResponse result" where
  "Introspect jo c s tok =
     (case rq_ctxErr c of Some err \<Rightarrow> Inl err
      | None \<Rightarrow>
          if tok = '''' then Inr inactive
          else (case Signer_Verify jo (rq_now c 0) s tok of
              Inl err \<Rightarrow> if isAuthErr err then Inr inactive else Inl err
            | Inr (claims, jti) \<Rightarrow> Inr \<lparr>ir_Active = True, ir_UserId = ac_Subject claims, ir_SystemRole = ac_SystemRole claims,
                ir_ExpiresAt = ac_ExpiresAt claims, ir_Scope = ac_Scope claims\<rparr>))"

section \<open>Key sets\<close>

text \<open>Big-endian bytes, without leading zeros.\<close>

fun be_bytes :: "nat \<Rightarrow> 8 word list" where
  "be_bytes n = (if n = 0 then [] else be_bytes (n div 256) @ [word_of_nat n])"

definition encodeRSAModulus :: "rsa_public \<Rightarrow> string" where
  "encodeRSAModulus pub = RawURLEncoding (be_bytes (rp_N pub))"

fun strip_zeros :: "8 word list \<Rightarrow> 8 word list" where
  "strip_zeros (b # c # bs) = (if b = 0 then strip_zeros (c # bs) else b # c # bs)"
| "strip_zeros bs = bs"

definition encodeRSAExponent :: "rsa_public \<Rightarrow> string" where
  "encodeRSAExponent pub =
     (let v = rp_E pub; byte = (\<lambda>n. word_of_int (v div 2 ^ n));
          buf = (if v = 0 then [0] else if v < 0x100 then [byte 0] else if v < 0x10000 then [byte 8, byte 0]
            else [byte 24, byte 16, byte 8, byte 0]) in
      RawURLEncoding (strip_zeros buf))"

record JsonWebKey =
  jw_Kid :: string
  jw_Kty :: string
  jw_Alg :: string
  jw_Use :: string
  jw_N :: string
  jw_E :: string

definition jwkFromStored :: "jose \<Rightarrow> SigningKey \<Rightarrow> JsonWebKey result" where
  "jwkFromStored jo k =
     (let key = (\<lambda>n e. Inr \<lparr>jw_Kid = sk_KID k, jw_Kty = ''RSA'', jw_Alg = ''RS256'', jw_Use = ''sig'', jw_N = n, jw_E = e\<rparr>) in
      case jo_parse_jwk jo (sk_PublicJWK k) of
        JwkError e \<Rightarrow> Inl (internal ''JWK_PARSE_FAILED'' (ExtErr e))
      | JwkRSA pub \<Rightarrow> key (encodeRSAModulus pub) (encodeRSAExponent pub)
      | JwkOther \<Rightarrow> key '''' '''')"

fun project_keys :: "jose \<Rightarrow> SigningKey list \<Rightarrow> JsonWebKey list result" where
  "project_keys jo [] = Inr []"
| "project_keys jo (k # ks) = (case jwkFromStored jo k of Inl err \<Rightarrow> Inl err
     | Inr j \<Rightarrow> (case project_keys jo ks of Inl err \<Rightarrow> Inl err | Inr js \<Rightarrow> Inr (j # js)))"

definition listSigningKeyJWK :: "jose \<Rightarrow> (auth_db, JsonWebKey list) tx" where
  "listSigningKeyJWK jo = tx_bind Key_ListVerifiable (\<lambda>stored. tx_result (project_keys jo stored))"

definition GetJwks :: "jose \<Rightarrow> call \<Rightarrow> auth_db \<Rightarrow> JsonWebKey list result \<times> auth_db" where
  "GetJwks jo c db = ctxDone c db (run_tx (listSigningKeyJWK jo) (rq_faults c) db)"

section \<open>Rotation\<close>

text \<open>\<open>gen\<close> is the key from \<open>rsa.GenerateKey\<close>; random read 0 gives the key id, read 1 the nonce.\<close>

definition new_key :: "jose \<Rightarrow> aead \<Rightarrow> call \<Rightarrow> rsa_private result \<Rightarrow> time \<Rightarrow> (SigningKey \<times> rsa_private) result" where
  "new_key jo cipher c gen now =
     (case gen of Inl err \<Rightarrow> Inl err
      | Inr priv \<Rightarrow>
          (case GenerateSigningKey (jo_pkcs8 jo priv) (Cipher_Encrypt cipher (rq_rand c 1)) (jo_jwk jo (jo_public jo priv)) now (NewKID (rq_rand c 0)) of
             Inl err \<Rightarrow> Inl err
           | Inr k \<Rightarrow> Inr (k, priv)))"

definition rotate_key_tx :: "duration \<Rightarrow> bool \<Rightarrow> time \<Rightarrow> SigningKey \<Rightarrow> (auth_db, unit) tx" where
  "rotate_key_tx interval force now newKey =
     tx_lookup Key_GetActive (Key_Upsert newKey) (\<lambda>prev.
       tx_then (tx_when (\<not> force \<and> time_sub now (sk_CreatedAt prev) < interval)
           (FailedPrecondition ''vibesync.auth'' ''ROTATION_TOO_SOON'' ''active key is younger than the rotation interval''))
      (tx_then (Key_MarkRetired (sk_KID prev) now) (Key_Upsert newKey)))"

text \<open>\<open>fl\<close> are the faults of the read that precedes the reload.\<close>

definition rotateSigningKey ::
  "jose \<Rightarrow> aead \<Rightarrow> duration \<Rightarrow> call \<Rightarrow> faults \<Rightarrow> rsa_private result \<Rightarrow> bool \<Rightarrow> auth_db \<times> JWTSigner \<Rightarrow> string result \<times> auth_db \<times> JWTSigner" where
  "rotateSigningKey jo cipher interval c fl gen force st =
     (case st of (db, s) \<Rightarrow>
      let now = rq_now c 0 in
      case new_key jo cipher c gen now of
        Inl err \<Rightarrow> (Inl (internal ''KEY_GEN_FAILED'' err), db, s)
      | Inr (newKey, newPriv) \<Rightarrow>
          (case run_tx (rotate_key_tx interval force now newKey) (rq_faults c) db of
             (Inl err, db') \<Rightarrow> (Inl err, db', s)
           | (Inr _, db') \<Rightarrow>
               if is_signerReloader
               then (case run_tx Key_ListVerifiable fl db' of
                   (Inl err, db'') \<Rightarrow> (Inl err, db'', s)
                 | (Inr stored, db'') \<Rightarrow>
                     (case Reload jo newKey newPriv (map (\<lambda>k. (sk_KID k, sk_PublicJWK k)) (filter (\<lambda>k. sk_KID k \<noteq> sk_KID newKey) stored)) s of
                        (Inl err, s') \<Rightarrow> (Inl (internal ''SIGNER_RELOAD_FAILED'' err), db'', s')
                      | (Inr _, s') \<Rightarrow> (Inr (sk_KID newKey), db'', s')))
               else (Inr (sk_KID newKey), db', s)))"

definition RotateKeys ::
  "jose \<Rightarrow> aead \<Rightarrow> duration \<Rightarrow> call \<Rightarrow> faults \<Rightarrow> rsa_private result \<Rightarrow> bool \<Rightarrow> auth_db \<times> JWTSigner \<Rightarrow> string result \<times> auth_db \<times> JWTSigner" where
  "RotateKeys jo cipher interval c fl gen force st =
     (case rq_ctxErr c of Some err \<Rightarrow> (Inl err, st) | None \<Rightarrow> rotateSigningKey jo cipher interval c fl gen force st)"

section \<open>Start-up\<close>

definition RSAPrivateKeyFromPKCS8 :: "jose \<Rightarrow> string \<Rightarrow> rsa_private result" where
  "RSAPrivateKeyFromPKCS8 jo der = (case jo_parse_pkcs8 jo der of Inl err \<Rightarrow> Inl (WrapErr ''jwt: parse pkcs8'' err) | Inr k \<Rightarrow> Inr k)"

definition bootstrap_tx :: "jose \<Rightarrow> aead \<Rightarrow> call \<Rightarrow> rsa_private result \<Rightarrow> (auth_db, SigningKey \<times> rsa_private) tx" where
  "bootstrap_tx jo cipher c gen = tx_bind (tx_try Key_GetActive) (\<lambda>r. case r of
     Inl err \<Rightarrow>
       if \<not> is_no_rows err \<and> \<not> isNotFound err then tx_fail (WrapErr ''load active key'' err)
       else (case new_key jo cipher c gen (rq_now c 0) of Inl err \<Rightarrow> tx_fail err
         | Inr (k, priv) \<Rightarrow> tx_then (Key_Upsert k) (tx_return (k, priv)))
   | Inr active \<Rightarrow> (case Cipher_Decrypt cipher (sk_PrivateEncrypted active) of
         Inl err \<Rightarrow> tx_fail (WrapErr ''decrypt active key'' err)
       | Inr der \<Rightarrow> (case RSAPrivateKeyFromPKCS8 jo der of Inl err \<Rightarrow> tx_fail err | Inr priv \<Rightarrow> tx_return (active, priv))))"

definition bootstrapSigner :: "jose \<Rightarrow> aead \<Rightarrow> call \<Rightarrow> faults \<Rightarrow> rsa_private result \<Rightarrow> auth_db \<Rightarrow> JWTSigner result \<times> auth_db" where
  "bootstrapSigner jo cipher c fl gen db =
     (case run_tx (bootstrap_tx jo cipher c gen) (rq_faults c) db of
        (Inl err, db1) \<Rightarrow> (Inl err, db1)
      | (Inr (active, priv), db1) \<Rightarrow>
          (case run_tx Key_ListVerifiable fl db1 of
             (Inl err, db2) \<Rightarrow> (Inl err, db2)
           | (Inr stored, db2) \<Rightarrow>
               (NewJWTSigner jo active (Some priv) (map (\<lambda>k. (sk_KID k, sk_PublicJWK k)) (filter (\<lambda>k. sk_KID k \<noteq> sk_KID active) stored)), db2)))"

section \<open>Provider tokens\<close>

definition tokenRefreshMargin :: duration where "tokenRefreshMargin = 120 * second"

text \<open>The provider's token endpoint: the URL and the form give the status line and the body, a JSON object if it
  decodes. \<open>getenv\<close> is the environment.\<close>

record http_reply =
  hr_Status :: nat
  hr_StatusText :: string
  hr_Body :: "payload option"

record token_client =
  tc_post :: "string \<Rightarrow> (string \<times> string) list \<Rightarrow> http_reply result"
  tc_getenv :: "string \<Rightarrow> string"
  tc_SpotifyID :: string
  tc_SpotifySecret :: string
  tc_GoogleID :: string
  tc_GoogleSecret :: string

definition providerTokenEndpoints :: "string \<rightharpoonup> string" where
  "providerTokenEndpoints = [''spotify'' \<mapsto> ''https://accounts.spotify.com/api/token'', ''google'' \<mapsto> ''https://oauth2.googleapis.com/token'']"

definition providerClientCreds :: "token_client \<Rightarrow> string \<Rightarrow> (string \<times> string) option" where
  "providerClientCreds tc provider =
     (if provider = ''spotify'' then Some (tc_SpotifyID tc, tc_SpotifySecret tc)
      else if provider = ''google'' then Some (tc_GoogleID tc, tc_GoogleSecret tc) else None)"

definition resolveEnvOrValue :: "token_client \<Rightarrow> string \<Rightarrow> string" where
  "resolveEnvOrValue tc s = (if tc_getenv tc s \<noteq> '''' then tc_getenv tc s else s)"

text \<open>The decoder fails on a body that is not such an object and on an out-of-range lifetime.\<close>

definition refreshProviderToken :: "token_client \<Rightarrow> time \<Rightarrow> string \<Rightarrow> string \<Rightarrow> (string \<times> string \<times> time) result" where
  "refreshProviderToken tc now provider refreshToken =
     (case providerClientCreds tc provider of
        None \<Rightarrow> Inl (PlainErr (''no client credentials for provider '' @ provider))
      | Some (idEnv, secretEnv) \<Rightarrow>
          let clientID = resolveEnvOrValue tc idEnv; clientSecret = resolveEnvOrValue tc secretEnv in
          (case providerTokenEndpoints provider of
             None \<Rightarrow> Inl (PlainErr (''no token endpoint for provider '' @ provider))
           | Some endpoint \<Rightarrow>
               let form = [(''grant_type'', ''refresh_token''), (''refresh_token'', refreshToken)]
                   @ (if clientID \<noteq> '''' then [(''client_id'', clientID), (''client_secret'', clientSecret)] else []) in
               (case tc_post tc endpoint form of
                  Inl err \<Rightarrow> Inl (WrapErr ''refresh request'' err)
                | Inr resp \<Rightarrow>
                    if hr_Status resp \<noteq> 200 then Inl (PlainErr (''refresh status '' @ hr_StatusText resp))
                    else (case hr_Body resp of
                        None \<Rightarrow> Inl (WrapErr ''decode refresh response'' (PlainErr ''invalid body''))
                      | Some ob \<Rightarrow>
                          (case (json_str ob ''access_token'', json_str ob ''refresh_token'', json_int (- (2 ^ 63)) (2 ^ 63 - 1) ob ''expires_in'') of
                             (Some access, Some refresh, Some ttl) \<Rightarrow>
                               if access = '''' then Inl (PlainErr ''empty access token in refresh response'')
                               else Inr (access, if refresh = '''' then refreshToken else refresh, now + i64 (ttl * second))
                           | _ \<Rightarrow> Inl (WrapErr ''decode refresh response'' (PlainErr ''invalid body'')))))))"

text \<open>\<open>fl\<close> are the faults of the first transaction. Random reads 0 and 1 give the nonces.\<close>

definition GetProviderToken ::
  "auth_env \<Rightarrow> token_client \<Rightarrow> call \<Rightarrow> faults \<Rightarrow> string \<Rightarrow> string \<Rightarrow> auth_db \<Rightarrow> (string \<times> time) result \<times> auth_db" where
  "GetProviderToken env tc c fl userID providerName db = ctxDone c db
     (if userID = '''' \<or> providerName = ''''
      then (Inl (InvalidArgumentFor ''vibesync.auth'' ''MISSING_PARAMS'' ''user_id and provider required''), db)
      else (case ae_registry env of
        None \<Rightarrow> (Inl (FailedPrecondition ''vibesync.auth'' ''OAUTH_DISABLED'' ''no OAuth providers configured''), db)
      | Some reg \<Rightarrow> (case reg providerName of
          None \<Rightarrow> (Inl (InvalidArgumentFor ''vibesync.auth'' ''UNKNOWN_PROVIDER'' (''unknown provider: '' @ providerName)), db)
        | Some _ \<Rightarrow> (case run_tx (ProviderToken_Get providerName userID) fl db of
            (Inl err, db1) \<Rightarrow> (Inl (if isNotFound err then NotFound ''provider_token'' (providerName @ '':'' @ userID)
                 else internal ''TOKEN_FETCH_FAILED'' err), db1)
          | (Inr stored, db1) \<Rightarrow> (case Cipher_Decrypt (ae_cipher env) (pt_AccessTokenEnc stored) of
              Inl err \<Rightarrow> (Inl (internal ''TOKEN_DECRYPT_FAILED'' err), db1)
            | Inr accessToken \<Rightarrow> (case Cipher_Decrypt (ae_cipher env) (pt_RefreshTokenEnc stored) of
                Inl err \<Rightarrow> (Inl (internal ''TOKEN_DECRYPT_FAILED'' err), db1)
              | Inr refreshToken \<Rightarrow>
                  if rq_now c 0 < pt_ExpiresAt stored - tokenRefreshMargin then (Inr (accessToken, pt_ExpiresAt stored), db1)
                  else (case refreshProviderToken tc (rq_now c 1) providerName refreshToken of
                      Inl err \<Rightarrow> (Inl (internal ''TOKEN_REFRESH_FAILED'' err), db1)
                    | Inr (newAccess, newRefresh, newExpiry) \<Rightarrow>
                        (case Cipher_Encrypt (ae_cipher env) (rq_rand c 0) newAccess of
                           Inl err \<Rightarrow> (Inl (internal ''TOKEN_ENCRYPT_FAILED'' err), db1)
                         | Inr encAccess \<Rightarrow> (case Cipher_Encrypt (ae_cipher env) (rq_rand c 1) newRefresh of
                             Inl err \<Rightarrow> (Inl (internal ''TOKEN_ENCRYPT_FAILED'' err), db1)
                           | Inr encRefresh \<Rightarrow>
                               (case map_error (internal ''TOKEN_STORE_FAILED'') (run_tx (ProviderToken_Upsert (rq_dbnow c)
                                    \<lparr>pt_Provider = providerName, pt_UserID = userID, pt_AccessTokenEnc = encAccess, pt_RefreshTokenEnc = encRefresh,
                                     pt_ExpiresAt = newExpiry, pt_UpdatedAt = zero_time\<rparr>) (rq_faults c) db1) of
                                  (Inl err, db2) \<Rightarrow> (Inl err, db2)
                                | (Inr _, db2) \<Rightarrow> (Inr (newAccess, newExpiry), db2)))))))))))"

end
