(* ===== verification/Auth_Tokens.thy ===== *)
theory Auth_Tokens
  imports Auth_Service
begin

text \<open>
  Refresh tokens over the life of the service. A small transition system on the tokens (issue, rotate, revoke)
  that every call of the service follows; the invariant that the tokens of a family form a chain whose members
  are used except the last; and what follows: a rotated or revoked token is never accepted again.
\<close>

section \<open>Successful calls\<close>

lemma lookup_inr [tx_inr]:
  "tx_lookup (tx_stmt (\<lambda>db. scan_row en i (q db) db)) A B fl n db = (Inr v, n', db') \<longleftrightarrow>
     fl n = None \<and> (case q db of None \<Rightarrow> A fl (n + 1) db = (Inr v, n', db') | Some x \<Rightarrow> B x fl (n + 1) db = (Inr v, n', db'))"
  by (auto simp: tx_lookup_def tx_defs scan_row_def split: option.splits)

lemma tx_result_inr [tx_inr]: "tx_result r fl n db = (Inr v, n', db') \<longleftrightarrow> r = Inr v \<and> n' = n \<and> db' = db"
  by (auto simp: tx_result_def tx_defs split: sum.splits)

lemma respond_inr: "respond r = (Inr a, db') \<longleftrightarrow> (\<exists>s m. r = (Inr (s, m), db') \<and> a = auth_session s m)"
  by (auto simp: respond_def split: prod.splits sum.splits)

lemma outcome_respond: "outcome (respond r) = outcome r"
  by (auto simp: respond_def outcome_def split: prod.splits sum.splits)

text \<open>The family of a session, as the tables hold it.\<close>

definition fam_of :: "auth_db \<Rightarrow> string \<Rightarrow> string option" where
  "fam_of db s = map_option se_FamilyID (map_of (au_sessions db) s)"

text \<open>Users are only added, under their own id.\<close>

definition user_key :: "string \<times> User \<Rightarrow> bool" where
  "user_key p \<longleftrightarrow> us_ID (snd p) = fst p \<and> length (fst p) = 26"

definition users_grow :: "auth_db \<Rightarrow> auth_db \<Rightarrow> bool" where
  "users_grow db db' \<longleftrightarrow> (\<exists>new. au_users db' = au_users db @ new \<and> list_all user_key new) \<and>
     (distinct (map fst (au_users db)) \<longrightarrow> distinct (map fst (au_users db')))"

definition users_ok :: "(string \<times> User) list \<Rightarrow> bool" where
  "users_ok us \<longleftrightarrow> list_all user_key us \<and> distinct (map fst us)"

lemma users_okD: "users_ok us \<Longrightarrow> (k, u) \<in> set us \<Longrightarrow> us_ID u = k \<and> length k = 26 \<and> map_of us k = Some u"
  by (auto simp: users_ok_def list_all_iff user_key_def)

lemma users_grow_same [simp]: "au_users db' = au_users db \<Longrightarrow> users_grow db db'"
  by (simp add: users_grow_def)

lemma users_grow_trans: "users_grow db db1 \<Longrightarrow> users_grow db1 db2 \<Longrightarrow> users_grow db db2"
  unfolding users_grow_def by (metis append_assoc list_all_append)

definition kept :: "auth_db \<Rightarrow> auth_db \<Rightarrow> bool" where
  "kept db db' \<longleftrightarrow> (\<forall>s f. fam_of db s = Some f \<longrightarrow> fam_of db' s = Some f) \<and> users_grow db db'"

lemma kept_refl [simp]: "kept db db"
  by (simp add: kept_def)

lemma fam_of_cong: "au_sessions db' = au_sessions db \<Longrightarrow> fam_of db' = fam_of db"
  by (simp add: fam_of_def fun_eq_iff)

lemma fam_of_append:
  "au_sessions db' = au_sessions db @ [(k, w)] \<Longrightarrow>
   fam_of db' s = (case fam_of db s of None \<Rightarrow> if s = k then Some (se_FamilyID w) else None | Some f \<Rightarrow> Some f)"
  by (auto simp: fam_of_def map_add_def split: option.splits)

lemma fam_of_last_seen: "fam_of (db\<lparr>au_sessions := AList.map_entry k (\<lambda>s. s\<lparr>se_LastSeenAt := t\<rparr>) (au_sessions db)\<rparr>) = fam_of db"
  by (auto simp: fam_of_def map_of_map_entry fun_eq_iff split: option.split)

section \<open>Transitions\<close>

definition fresh_token :: "auth_db \<Rightarrow> RefreshToken \<Rightarrow> bool" where
  "fresh_token db w \<longleftrightarrow> map_of (au_tokens db) (rt_ID w) = None \<and> (\<forall>t\<in>snd ` set (au_tokens db). rt_Selector t \<noteq> rt_Selector w) \<and>
     rt_Status w = RefreshTokenStatusActive \<and> length (rt_ID w) = 26 \<and> length (rt_UserID w) = 26 \<and> length (rt_SessionID w) = 26 \<and> length (rt_FamilyID w) = 26"

definition mark :: "int \<Rightarrow> RefreshToken \<Rightarrow> RefreshToken \<Rightarrow> bool" where
  "mark st t t' \<longleftrightarrow> (\<exists>u r. t' = t\<lparr>rt_Status := st, rt_UsedAt := u, rt_RevokedAt := r\<rparr>)"

inductive token_step :: "auth_db \<Rightarrow> auth_db \<Rightarrow> bool" where
  same: "au_tokens db' = au_tokens db \<Longrightarrow> kept db db' \<Longrightarrow> token_step db db'"
| issue: "au_tokens db' = au_tokens db @ [(rt_ID w, w)] \<Longrightarrow> fresh_token db w \<Longrightarrow> rt_RotatedFrom w = '''' \<Longrightarrow>
    \<forall>s. fam_of db s \<noteq> Some (rt_FamilyID w) \<Longrightarrow> fam_of db' (rt_SessionID w) = Some (rt_FamilyID w) \<Longrightarrow>
    kept db db' \<Longrightarrow> token_step db db'"
| rotate: "map_of (au_tokens db) i = Some t \<Longrightarrow> rt_Status t = RefreshTokenStatusActive \<Longrightarrow> mark RefreshTokenStatusUsed t t' \<Longrightarrow>
    au_tokens db' = AList.update i t' (au_tokens db) @ [(rt_ID w, w)] \<Longrightarrow> fresh_token db w \<Longrightarrow> rt_RotatedFrom w = i \<Longrightarrow>
    rt_FamilyID w = rt_FamilyID t \<Longrightarrow> rt_SessionID w = rt_SessionID t \<Longrightarrow> rt_UserID w = rt_UserID t \<Longrightarrow> kept db db' \<Longrightarrow> token_step db db'"
| revoke: "map_of (au_tokens db) i = Some t \<Longrightarrow> rt_Status t = RefreshTokenStatusActive \<Longrightarrow> mark RefreshTokenStatusRevoked t t' \<Longrightarrow>
    au_tokens db' = AList.update i t' (au_tokens db) \<Longrightarrow> kept db db' \<Longrightarrow> token_step db db'"

section \<open>Invariant\<close>

text \<open>A family, in the order in which its tokens were issued: used tokens, then one that is active or revoked; each
  token was rotated from the one before; all belong to the same user and session.\<close>

definition family :: "auth_db \<Rightarrow> string \<Rightarrow> RefreshToken list" where
  "family db f = filter (\<lambda>t. rt_FamilyID t = f) (map snd (au_tokens db))"

definition chain_ok :: "RefreshToken list \<Rightarrow> bool" where
  "chain_ok ts \<longleftrightarrow> (\<forall>t\<in>set (butlast ts). rt_Status t = RefreshTokenStatusUsed) \<and>
     (ts \<noteq> [] \<longrightarrow> rt_Status (last ts) = RefreshTokenStatusActive \<or> rt_Status (last ts) = RefreshTokenStatusRevoked) \<and>
     (ts \<noteq> [] \<longrightarrow> map rt_RotatedFrom ts = '''' # map rt_ID (butlast ts)) \<and>
     (\<forall>t\<in>set ts. rt_UserID t = rt_UserID (last ts) \<and> rt_SessionID t = rt_SessionID (last ts))"

definition token_row_ok :: "auth_db \<Rightarrow> string \<Rightarrow> RefreshToken \<Rightarrow> bool" where
  "token_row_ok db i t \<longleftrightarrow> rt_ID t = i \<and> length i = 26 \<and> length (rt_UserID t) = 26 \<and> length (rt_SessionID t) = 26 \<and> length (rt_FamilyID t) = 26 \<and>
     fam_of db (rt_SessionID t) = Some (rt_FamilyID t)"

definition token_inv :: "auth_db \<Rightarrow> bool" where
  "token_inv db \<longleftrightarrow> distinct (map fst (au_tokens db)) \<and> distinct (map (rt_Selector \<circ> snd) (au_tokens db)) \<and>
     (\<forall>(i, t)\<in>set (au_tokens db). token_row_ok db i t) \<and> (\<forall>f. chain_ok (family db f)) \<and> users_ok (au_users db)"

lemma token_inv_empty: "token_inv empty_auth_db"
  by (simp add: token_inv_def empty_auth_db_def family_def chain_ok_def users_ok_def)

lemma chain_ok_active_last:
  assumes "chain_ok ts" "t \<in> set ts" "rt_Status t = RefreshTokenStatusActive"
  shows "\<exists>us. ts = us @ [t] \<and> (\<forall>u\<in>set us. rt_Status u = RefreshTokenStatusUsed)"
  using assms by (cases ts rule: rev_exhaust) (auto simp: chain_ok_def token_status_defs)

lemma AList_update_map:
  "distinct (map fst xs) \<Longrightarrow> map_of xs i = Some t \<Longrightarrow> AList.update i t' xs = map (\<lambda>(j, u). (j, if j = i then t' else u)) xs"
proof (induction xs)
  case (Cons x xs)
  then show ?case
  proof (cases "fst x = i")
    case True
    then have "i \<notin> fst ` set xs" using Cons.prems(1) by simp
    then have "map (\<lambda>(j, u). (j, if j = i then t' else u)) xs = xs" by (intro map_idI) force
    with True show ?thesis by (cases x) auto
  qed (cases x, auto)
qed simp

lemma token_invD:
  assumes "token_inv db" "(i, t) \<in> set (au_tokens db)"
  shows "map_of (au_tokens db) i = Some t" "rt_ID t = i" "token_row_ok db i t"
  using assms by (auto simp: token_inv_def token_row_ok_def)

lemma family_mem:
  assumes "token_inv db" shows "u \<in> set (family db f) \<longleftrightarrow> rt_FamilyID u = f \<and> map_of (au_tokens db) (rt_ID u) = Some u"
proof -
  have "map_of (au_tokens db) (rt_ID u) = Some u \<Longrightarrow> u \<in> snd ` set (au_tokens db)"
    by (drule map_of_SomeD) (rule rev_image_eqI, assumption, simp)
  moreover have "u \<in> snd ` set (au_tokens db) \<Longrightarrow> map_of (au_tokens db) (rt_ID u) = Some u"
    using token_invD(1,2) [OF assms] by (metis imageE prod.collapse)
  ultimately show ?thesis unfolding family_def by auto
qed

lemma family_ids: "token_inv db \<Longrightarrow> distinct (map rt_ID (family db f))"
proof -
  assume i: "token_inv db"
  then have "map rt_ID (map snd (au_tokens db)) = map fst (au_tokens db)"
    by (auto simp: token_inv_def token_row_ok_def)
  then have "distinct (map rt_ID (map snd (au_tokens db)))" using i by (simp only: token_inv_def)
  then show ?thesis unfolding family_def by (rule distinct_map_filter)
qed

lemma filter_replace:
  assumes "\<And>j u. (j, u) \<in> set xs \<Longrightarrow> rt_ID u = j \<and> (j = i \<longrightarrow> u = t)" "rt_FamilyID t' = rt_FamilyID t"
  shows "filter (\<lambda>t. rt_FamilyID t = f) (map (\<lambda>(j, u). if j = i then t' else u) xs) =
      (if f = rt_FamilyID t then map (\<lambda>u. if rt_ID u = i then t' else u) (filter (\<lambda>t. rt_FamilyID t = f) (map snd xs))
       else filter (\<lambda>t. rt_FamilyID t = f) (map snd xs))"
  using assms(1)
proof (induction xs)
  case (Cons x xs)
  obtain j u where x: "x = (j, u)" by (cases x)
  have "rt_ID u = j" "j = i \<Longrightarrow> u = t" using Cons.prems [of j u] by (simp_all add: x)
  moreover note Cons.IH [OF Cons.prems]
  ultimately show ?case using assms(2) by (cases "j = i"; cases "f = rt_FamilyID t") (simp_all add: x)
qed simp

lemma family_replace:
  assumes "token_inv db" "map_of (au_tokens db) i = Some t" "mark st t t'"
  shows "filter (\<lambda>t. rt_FamilyID t = f) (map snd (AList.update i t' (au_tokens db))) =
    (if f = rt_FamilyID t then map (\<lambda>u. if rt_ID u = i then t' else u) (family db f) else family db f)"
proof -
  have t': "rt_FamilyID t' = rt_FamilyID t" "rt_ID t' = rt_ID t" using assms(3) by (auto simp: mark_def)
  have d: "distinct (map fst (au_tokens db))" using assms(1) by (simp add: token_inv_def)
  have rows: "rt_ID u = j \<and> (j = i \<longrightarrow> u = t)" if "(j, u) \<in> set (au_tokens db)" for j u
    using token_invD [OF assms(1) that] assms(2) by auto
  have "map snd (AList.update i t' (au_tokens db)) = map (\<lambda>(j, u). if j = i then t' else u) (au_tokens db)"
    by (auto simp: AList_update_map [OF d assms(2)])
  then show ?thesis using filter_replace [OF rows t'(1), where f = f] by (simp only: family_def)
qed

text \<open>Marking the active token of a family changes the last element of the chain only.\<close>

lemma family_mark:
  assumes "token_inv db" "map_of (au_tokens db) i = Some t" "rt_Status t = RefreshTokenStatusActive" "mark st t t'"
  shows "\<exists>us. family db (rt_FamilyID t) = us @ [t] \<and> (\<forall>u\<in>set us. rt_Status u = RefreshTokenStatusUsed) \<and>
    filter (\<lambda>x. rt_FamilyID x = rt_FamilyID t) (map snd (AList.update i t' (au_tokens db))) = us @ [t']"
proof -
  have id: "rt_ID t = i" using assms(1,2) by (auto dest!: map_of_SomeD token_invD(2))
  then have "t \<in> set (family db (rt_FamilyID t))" using family_mem [OF assms(1)] assms(2) by simp
  moreover have "chain_ok (family db (rt_FamilyID t))" using assms(1) by (simp add: token_inv_def)
  ultimately obtain us where us: "family db (rt_FamilyID t) = us @ [t]" "\<forall>u\<in>set us. rt_Status u = RefreshTokenStatusUsed"
    using chain_ok_active_last assms(3) by blast
  have "i \<notin> rt_ID ` set us" using family_ids [OF assms(1), of "rt_FamilyID t"] id by (simp add: us(1))
  then have "map (\<lambda>u. if rt_ID u = i then t' else u) us = us" by (intro map_idI) auto
  with us show ?thesis using family_replace [OF assms(1,2,4), of "rt_FamilyID t"] by (auto simp: id)
qed

text \<open>The rows of the table: replacing a marked row, adding a fresh one.\<close>

lemma rows_mark:
  assumes "token_inv db" "map_of (au_tokens db) i = Some t" "mark st t t'" "kept db db'"
  defines "xs \<equiv> AList.update i t' (au_tokens db)"
  shows "map fst xs = map fst (au_tokens db)" "map (rt_Selector \<circ> snd) xs = map (rt_Selector \<circ> snd) (au_tokens db)"
    "\<forall>(j, u)\<in>set xs. token_row_ok db' j u"
proof -
  have d: "distinct (map fst (au_tokens db))" using assms(1) by (simp add: token_inv_def)
  have xs: "xs = map (\<lambda>(j, u). (j, if j = i then t' else u)) (au_tokens db)"
    unfolding xs_def by (rule AList_update_map [OF d assms(2)])
  have rows: "token_row_ok db' j (if j = i then t' else u) \<and> (j = i \<longrightarrow> rt_Selector t' = rt_Selector u)"
    if "(j, u) \<in> set (au_tokens db)" for j u
    using token_invD [OF assms(1) that] assms(2-4) by (auto simp: token_row_ok_def mark_def kept_def)
  show "map fst xs = map fst (au_tokens db)" by (auto simp: xs)
  show "map (rt_Selector \<circ> snd) xs = map (rt_Selector \<circ> snd) (au_tokens db)" using rows by (auto simp: xs)
  show "\<forall>(j, u)\<in>set xs. token_row_ok db' j u" using rows by (auto simp: xs)
qed

lemma chain_mark:
  assumes "chain_ok (us @ [t])" "mark st t t'" "st = RefreshTokenStatusRevoked" shows "chain_ok (us @ [t'])"
  using assms by (auto simp: chain_ok_def mark_def)

lemma chain_extend:
  assumes "chain_ok (us @ [t])" "mark RefreshTokenStatusUsed t t'" "rt_Status w = RefreshTokenStatusActive" "rt_RotatedFrom w = rt_ID t"
    "rt_UserID w = rt_UserID t" "rt_SessionID w = rt_SessionID t"
  shows "chain_ok (us @ [t', w])"
proof -
  have "map rt_RotatedFrom us @ [rt_RotatedFrom t] = '''' # map rt_ID us" using assms(1) by (simp add: chain_ok_def)
  moreover have "rt_RotatedFrom t' = rt_RotatedFrom t" "rt_ID t' = rt_ID t" "rt_Status t' = RefreshTokenStatusUsed"
    "rt_UserID t' = rt_UserID t" "rt_SessionID t' = rt_SessionID t"
    using assms(2) by (auto simp: mark_def)
  ultimately show ?thesis using assms by (auto simp: chain_ok_def butlast_append)
qed

lemma kept_users: "kept db db' \<Longrightarrow> users_ok (au_users db) \<Longrightarrow> users_ok (au_users db')"
  by (auto simp: kept_def users_grow_def users_ok_def)

lemma token_rotate_inv:
  assumes inv: "token_inv db"
    and rotate: "map_of (au_tokens db) i = Some t" "rt_Status t = RefreshTokenStatusActive" "mark RefreshTokenStatusUsed t t'"
    "au_tokens db' = AList.update i t' (au_tokens db) @ [(rt_ID w, w)]" "fresh_token db w" "rt_RotatedFrom w = i"
    "rt_FamilyID w = rt_FamilyID t" "rt_SessionID w = rt_SessionID t" "rt_UserID w = rt_UserID t" "kept db db'"
  shows "token_inv db'"
proof -
  note m = rows_mark [OF inv rotate(1,3,10)]
  obtain us where us: "family db (rt_FamilyID t) = us @ [t]"
      "filter (\<lambda>x. rt_FamilyID x = rt_FamilyID t) (map snd (AList.update i t' (au_tokens db))) = us @ [t']"
    using family_mark [OF inv rotate(1,2,3)] by blast
  have id: "rt_ID t = i" using token_invD(2) [OF inv map_of_SomeD [OF rotate(1)]] .
  have "family db' f = (if f = rt_FamilyID t then us @ [t', w] else family db f)" for f
    using us(2) family_replace [OF inv rotate(1,3), of f]
    by (cases "f = rt_FamilyID t") (simp_all only: family_def rotate(4) map_append filter_append, simp_all add: rotate(7))
  moreover have "chain_ok (us @ [t', w])"
    using chain_extend [of us t t' w] us(1) inv rotate(3,5,6,8,9) id by (metis fresh_token_def token_inv_def)
  ultimately have "chain_ok (family db' f)" for f using inv by (simp add: token_inv_def)
  moreover have "rt_ID w \<notin> set (map fst (AList.update i t' (au_tokens db)))"
    using rotate(5) unfolding m(1) by (simp add: fresh_token_def map_of_eq_None_iff)
  moreover have "rt_Selector w \<notin> set (map (rt_Selector \<circ> snd) (AList.update i t' (au_tokens db)))"
    using rotate(5) unfolding m(2) by (auto simp: fresh_token_def)
  moreover have "token_row_ok db' (rt_ID w) w"
    using rotate token_invD(3) [OF inv map_of_SomeD [OF rotate(1)]]
    by (auto simp: token_row_ok_def fresh_token_def kept_def)
  ultimately show ?thesis using inv m kept_users [OF rotate(10)] unfolding token_inv_def rotate(4) by (simp del: map_map)
qed

lemma token_step_inv:
  assumes "token_step db db'" "token_inv db" shows "token_inv db'"
  using assms(1)
proof cases
  case same
  then show ?thesis using assms(2) kept_users [of db db'] by (simp add: token_inv_def token_row_ok_def kept_def family_def users_ok_def) blast
next
  case (issue w)
  have fam: "family db' f = family db f @ (if f = rt_FamilyID w then [w] else [])" for f
    by (simp add: family_def issue(1))
  have "family db (rt_FamilyID w) = []"
    using issue(4) assms(2) by (force simp: family_def filter_empty_conv token_inv_def token_row_ok_def)
  then have "chain_ok (family db' f)" for f
    using assms(2) issue(2,3) by (cases "f = rt_FamilyID w") (auto simp: fam chain_ok_def fresh_token_def token_inv_def)
  moreover have "\<forall>(j, u)\<in>set (au_tokens db). token_row_ok db' j u"
    using assms(2) issue(6) by (auto simp: token_inv_def token_row_ok_def kept_def)
  moreover have "rt_ID w \<notin> fst ` set (au_tokens db)" using issue(2) by (simp add: fresh_token_def map_of_eq_None_iff)
  ultimately show ?thesis using assms(2) issue(1,2,5) kept_users [OF issue(6)]
    by (auto simp: token_inv_def token_row_ok_def fresh_token_def)
next
  case (rotate i t t' w)
  show ?thesis by (rule token_rotate_inv [OF assms(2) rotate])
next
  case (revoke i t t')
  note m = rows_mark [OF assms(2) revoke(1,3,5)]
  obtain us where us: "family db (rt_FamilyID t) = us @ [t]"
      "filter (\<lambda>x. rt_FamilyID x = rt_FamilyID t) (map snd (AList.update i t' (au_tokens db))) = us @ [t']"
    using family_mark [OF assms(2) revoke(1,2,3)] by blast
  have "family db' f = (if f = rt_FamilyID t then us @ [t'] else family db f)" for f
    using us(2) family_replace [OF assms(2) revoke(1,3), of f]
    by (cases "f = rt_FamilyID t") (simp_all only: family_def revoke(4), simp_all)
  moreover have "chain_ok (us @ [t'])" using chain_mark [OF _ revoke(3) refl] us(1) assms(2) by (metis token_inv_def)
  ultimately have "chain_ok (family db' f)" for f using assms(2) by (simp add: token_inv_def)
  then show ?thesis using assms(2) m kept_users [OF revoke(5)] unfolding token_inv_def revoke(4) by (simp del: map_map)
qed

section \<open>The calls follow the transitions\<close>

lemma token_row_of_Some:
  "token_row_of t = Some w \<Longrightarrow> char_col 26 (rt_ID t) = Some (rt_ID w) \<and> char_col 26 (rt_FamilyID t) = Some (rt_FamilyID w) \<and>
     char_col 26 (rt_UserID t) = Some (rt_UserID w) \<and> char_col 26 (rt_SessionID t) = Some (rt_SessionID w) \<and> rt_Status w = rt_Status t \<and>
     (rt_RotatedFrom t = '''' \<longrightarrow> rt_RotatedFrom w = '''') \<and> (rt_RotatedFrom t \<noteq> '''' \<longrightarrow> char_col 26 (rt_RotatedFrom t) = Some (rt_RotatedFrom w))"
  by (auto simp: token_row_of_def split: option.splits if_splits)

lemma session_row_of_Some:
  "session_row_of s = Some w \<Longrightarrow> char_col 26 (se_ID s) = Some (se_ID w) \<and> char_col 26 (se_FamilyID s) = Some (se_FamilyID w)"
  by (auto simp: session_row_of_def split: option.splits)

lemma new_token_inr:
  "new_token env c r now i f u s p = Inr (t, v) \<Longrightarrow> rt_ID t = i \<and> rt_FamilyID t = f \<and> rt_UserID t = u \<and> rt_SessionID t = s \<and>
     rt_RotatedFrom t = p \<and> rt_Status t = RefreshTokenStatusActive \<and> rt_ExpiresAt t = now + ae_RefreshTokenTTL env \<and>
     rt_Selector t = vm_Selector v \<and> vm_Selector v = randomURL (rq_rand c r) 12 \<and> vm_Validator v = randomURL (rq_rand c (r + 1)) 32 \<and>
     Password_Hash (ae_IDKey env) (rq_rand c (r + 2)) (vm_Validator v) = Inr (rt_ValidatorHash t)"
  by (auto simp: new_token_def NewRefreshToken_def Let_def selectorBytes_def validatorBytes_def split: sum.splits)

lemma Refresh_Create_inr [tx_inr]:
  "Refresh_Create t fl n db = (Inr u, n', db') \<longleftrightarrow> fl n = None \<and> n' = n + 1 \<and>
     (\<exists>w. token_row_of t = Some w \<and> map_of (au_tokens db) (rt_ID w) = None \<and>
        (\<forall>x\<in>snd ` set (au_tokens db). rt_Selector x \<noteq> rt_Selector w) \<and> map_of (au_users db) (rt_UserID w) \<noteq> None \<and>
        map_of (au_sessions db) (rt_SessionID w) \<noteq> None \<and> db' = db\<lparr>au_tokens := au_tokens db @ [(rt_ID w, w)]\<rparr>)"
  by (auto simp: Refresh_Create_def tx_inr list_ex_iff split: option.splits)

lemma Session_Create_inr [tx_inr]:
  "Session_Create s fl n db = (Inr u, n', db') \<longleftrightarrow> fl n = None \<and> n' = n + 1 \<and>
     (\<exists>w. session_row_of s = Some w \<and> map_of (au_sessions db) (se_ID w) = None \<and>
        (\<forall>x\<in>snd ` set (au_sessions db). se_FamilyID x \<noteq> se_FamilyID w) \<and> map_of (au_users db) (se_UserID w) \<noteq> None \<and>
        db' = db\<lparr>au_sessions := au_sessions db @ [(se_ID w, w)]\<rparr>)"
  by (auto simp: Session_Create_def tx_inr list_ex_iff split: option.splits)

text \<open>What a new session adds to the tables.\<close>

lemma issueSession_success:
  assumes "issueSessionForUser env c t i r user label fl n db = (Inr (s, m), n', db')"
  obtains w tok v tw where
    "session_row_of (NewSession (rq_now c t) (rq_newID c i) (us_ID user) (rq_newID c (i + 1)) (ae_SessionTTL env) label) = Some w"
    "map_of (au_sessions db) (se_ID w) = None" "\<forall>x\<in>snd ` set (au_sessions db). se_FamilyID x \<noteq> se_FamilyID w"
    "new_token env c r (rq_now c t) (rq_newID c (i + 2)) (rq_newID c (i + 1)) (us_ID user) (rq_newID c i) '''' = Inr (tok, v)"
    "token_row_of tok = Some tw" "map_of (au_tokens db) (rt_ID tw) = None" "\<forall>x\<in>snd ` set (au_tokens db). rt_Selector x \<noteq> rt_Selector tw"
    "db' = db\<lparr>au_sessions := au_sessions db @ [(se_ID w, w)], au_tokens := au_tokens db @ [(rt_ID tw, tw)]\<rparr>"
    "tm_RefreshToken m = PresentationToken v" "s = NewSession (rq_now c t) (rq_newID c i) (us_ID user) (rq_newID c (i + 1)) (ae_SessionTTL env) label"
  using assms by (auto simp: issueSessionForUser_def Let_def tx_inr split: prod.splits)

lemma issueSession_step:
  assumes "issueSessionForUser env c t i r user label fl n db = (Inr (s, m), n', db')"
  shows "token_step db db'"
  using assms
proof (rule issueSession_success)
  fix w tok v tw
  assume w: "session_row_of (NewSession (rq_now c t) (rq_newID c i) (us_ID user) (rq_newID c (i + 1)) (ae_SessionTTL env) label) = Some w"
    "map_of (au_sessions db) (se_ID w) = None" "\<forall>x\<in>snd ` set (au_sessions db). se_FamilyID x \<noteq> se_FamilyID w"
    and tok: "new_token env c r (rq_now c t) (rq_newID c (i + 2)) (rq_newID c (i + 1)) (us_ID user) (rq_newID c i) '''' = Inr (tok, v)"
    and tw: "token_row_of tok = Some tw" "map_of (au_tokens db) (rt_ID tw) = None" "\<forall>x\<in>snd ` set (au_tokens db). rt_Selector x \<noteq> rt_Selector tw"
    and db': "db' = db\<lparr>au_sessions := au_sessions db @ [(se_ID w, w)], au_tokens := au_tokens db @ [(rt_ID tw, tw)]\<rparr>"
  note f = new_token_inr [OF tok] token_row_of_Some [OF tw(1)] session_row_of_Some [OF w(1)]
  have ids: "rt_SessionID tw = se_ID w" "rt_FamilyID tw = se_FamilyID w" using f by (auto simp: NewSession_def)
  have fo: "fam_of db' x = (case fam_of db x of None \<Rightarrow> if x = se_ID w then Some (se_FamilyID w) else None | Some f \<Rightarrow> Some f)" for x
    by (rule fam_of_append) (simp add: db')
  have none: "fam_of db (se_ID w) = None" using w(2) by (simp add: fam_of_def)
  have fresh: "fam_of db x \<noteq> Some (se_FamilyID w)" for x
    using w(3) by (auto simp: fam_of_def dest!: map_of_SomeD)
  show ?thesis
  proof (rule token_step.issue)
    show "fresh_token db tw" using f tw by (auto simp: fresh_token_def dest: char_col_length)
  qed (use f fo none fresh ids in \<open>auto simp: db' kept_def split: option.splits\<close>)
qed

lemma login_step:
  assumes "login_tx env c email password label fl n db = (Inr (s, m), n', db')" shows "token_step db db'"
  using assms by (auto simp: login_tx_def User_GetByEmail_def tx_inr split: option.splits dest: issueSession_step)

text \<open>A step that leaves tokens and sessions alone.\<close>

definition untouched :: "auth_db \<Rightarrow> auth_db \<Rightarrow> bool" where
  "untouched db db' \<longleftrightarrow> au_tokens db' = au_tokens db \<and> au_sessions db' = au_sessions db \<and> users_grow db db'"

lemma untouched_step: "untouched db db1 \<Longrightarrow> token_step db1 db' \<Longrightarrow> token_step db db'"
proof -
  assume u: "untouched db db1"
  then have "fam_of db1 = fam_of db" by (intro fam_of_cong) (simp add: untouched_def)
  then have f: "kept db1 d \<Longrightarrow> kept db d" "fresh_token db1 = fresh_token db" for d
    using u users_grow_trans by (auto simp: kept_def fresh_token_def untouched_def fun_eq_iff)
  assume "token_step db1 db'"
  then show ?thesis
  proof cases
    case same
    then show ?thesis using u f by (intro token_step.same) (auto simp: untouched_def)
  next
    case (issue w)
    then show ?thesis using u f \<open>fam_of db1 = fam_of db\<close> by (intro token_step.issue) (auto simp: untouched_def)
  next
    case (rotate i t t' w)
    then show ?thesis using u f by (intro token_step.rotate [of db i t t' db' w]) (auto simp: untouched_def)
  next
    case (revoke i t t')
    then show ?thesis using u f by (intro token_step.revoke [of db i t t']) (auto simp: untouched_def)
  qed
qed

lemma user_row_of_key: "user_row_of u = Some w \<Longrightarrow> user_key (us_ID w, w)"
  by (auto simp: user_row_of_def user_key_def dest: char_col_length split: option.splits if_splits)

lemma untouched_stmts:
  "User_Create ci u fl n db = (Inr v, n', db') \<Longrightarrow> untouched db db'"
  "Account_Upsert a fl n db = (Inr v, n', db') \<Longrightarrow> untouched db db'"
  "Auth_Append es fl n db = (Inr v, n', db') \<Longrightarrow> untouched db db'"
  "ProviderToken_Upsert ts p fl n db = (Inr v, n', db') \<Longrightarrow> untouched db db'"
  by (auto simp: untouched_def auth_stmt_defs tx_inr Let_def users_grow_def user_row_of_key map_of_eq_None_iff
      split: option.splits if_splits)

lemma untouched_trans [trans]: "untouched db db1 \<Longrightarrow> untouched db1 db2 \<Longrightarrow> untouched db db2"
  using users_grow_trans by (auto simp: untouched_def)

lemma register_step:
  assumes "register_tx env c req fl n db = (Inr (s, m), n', db')" shows "token_step db db'"
proof -
  obtain user u1 u2 n1 n2 n3 db1 db2 where
    a: "User_Create (ae_ci env) user fl n1 db = (Inr u1, n2, db1)" and
    b: "Auth_Append [user_created (rq_newID c 1) user ''password'' (rq_now c 0)] fl n2 db1 = (Inr u2, n3, db2)" and
    s: "issueSessionForUser env c 2 2 1 user (rg_DeviceLabel req) fl n3 db2 = (Inr (s, m), n', db')"
    using assms by (auto simp: register_tx_def User_GetByEmail_def Let_def tx_inr split: sum.splits option.splits)
  show ?thesis
    by (rule untouched_step [OF untouched_trans [OF untouched_stmts(1) [OF a] untouched_stmts(3) [OF b]] issueSession_step [OF s]])
qed

lemma oauth_user_untouched:
  assumes "oauth_user env c p profile fl n db = (Inr user, n', db')" shows "untouched db db'"
proof -
  have new: "untouched db db'" if new_user: "oauth_new_user env c p profile fl n db = (Inr user, n', db')" for n db
  proof -
    obtain u a es n1 n2 db1 db2 where "User_Create (ae_ci env) u fl n db = (Inr (), n1, db1)" "Account_Upsert a fl n1 db1 = (Inr (), n2, db2)"
      "Auth_Append es fl n2 db2 = (Inr (), n', db')"
      using new_user by (auto simp: oauth_new_user_def Let_def tx_inr split: sum.splits)
    then show ?thesis by (meson untouched_stmts untouched_trans)
  qed
  show ?thesis using assms
    by (auto simp: oauth_user_def Account_GetByProvider_def User_GetByEmail_def User_GetByID_def tx_inr untouched_def [of db db]
        split: option.splits dest: new untouched_stmts)
qed

lemma oauth_step:
  assumes "oauth_tx env c p profile label tokens fl n db = (Inr (s, m), n', db')" shows "token_step db db'"
proof -
  obtain user n1 db1 n2 db2 where "oauth_user env c p profile fl n db = (Inr user, n1, db1)"
    "saveProviderTokens env c 1 0 p (us_ID user) tokens fl n1 db1 = (Inr (), n2, db2)"
    "issueSessionForUser env c 3 2 2 user label fl n2 db2 = (Inr (s, m), n', db')"
    using assms by (auto simp: oauth_tx_def tx_inr)
  moreover from this(2) have "untouched db1 db2"
    by (auto simp: saveProviderTokens_def Let_def tx_inr untouched_def [of db1 db1] split: if_splits sum.splits dest: untouched_stmts)
  ultimately show ?thesis using oauth_user_untouched issueSession_step untouched_step untouched_trans by metis
qed

lemma find_token:
  "find (\<lambda>(i, t). rt_Selector t = sel) xs = Some (j, t) \<Longrightarrow> (j, t) \<in> set xs \<and> rt_Selector t = sel"
  by (auto simp: find_Some_iff) (metis nth_mem)

lemma mark_used: "mark RefreshTokenStatusUsed t (t\<lparr>rt_Status := RefreshTokenStatusUsed, rt_UsedAt := ts\<rparr>)"
  unfolding mark_def by (intro exI [of _ ts] exI [of _ "rt_RevokedAt t"]) simp

lemma mark_revoked: "mark RefreshTokenStatusRevoked t (t\<lparr>rt_Status := RefreshTokenStatusRevoked, rt_RevokedAt := ts\<rparr>)"
  unfolding mark_def by (intro exI [of _ "rt_UsedAt t"] exI [of _ ts]) simp

lemma map_entry_update:
  "distinct (map fst xs) \<Longrightarrow> map_of xs j = Some t \<Longrightarrow> AList.map_entry j f xs = AList.update j (f t) xs"
  by (induction xs) (auto split: if_splits)

text \<open>What a successful refresh did.\<close>

lemma refresh_success:
  assumes "refresh_tx env c sel val fl n db = (Inr (s, m), n', db')" "token_inv db"
  obtains i t u tok v w where
    "map_of (au_tokens db) i = Some t" "rt_Selector t = sel" "rt_Status t = RefreshTokenStatusActive" "rq_now c 0 < rt_ExpiresAt t"
    "Password_Compare (ae_IDKey env) (rt_ValidatorHash t) val" "map_of (au_users db) (key26 (rt_UserID t)) = Some u" "CanAuthenticate u"
    "new_token env c 0 (rq_now c 0) (rq_newID c 0) (rt_FamilyID t) (us_ID u) (rt_SessionID t) i = Inr (tok, v)"
    "token_row_of tok = Some w" "fresh_token db w"
    "au_tokens db' = AList.update i (t\<lparr>rt_Status := RefreshTokenStatusUsed, rt_UsedAt := pg_time (rq_now c 0)\<rparr>) (au_tokens db) @ [(rt_ID w, w)]"
    "fam_of db' = fam_of db" "au_users db' = au_users db" "tm_RefreshToken m = PresentationToken v"
    "rt_UserID w = rt_UserID t"
proof -
  obtain j t where find: "find (\<lambda>(i, t). rt_Selector t = sel) (au_tokens db) = Some (j, t)"
    and cmp: "Password_Compare (ae_IDKey env) (rt_ValidatorHash t) val"
    and cls: "fst (ClassifyUse (rq_now c 0) t) = UseOutcomeRotate"
    and rot: "rotate_tx env c (rq_now c 0) t fl (n + 1) db = (Inr (s, m), n', db')"
    using assms(1) by (auto simp: refresh_tx_def GetBySelector_def VerifyValidator_def ae_Compare_def Let_def tx_inr
        split: option.splits prod.splits UseOutcome.splits)
  note t = find_token [OF find]
  note ok = token_invD [OF assms(2) conjunct1 [OF t]]
  have act: "rt_Status t = RefreshTokenStatusActive" "rq_now c 0 < rt_ExpiresAt t" using cls by (simp_all add: ClassifyUse_rotate)
  have k: "char_col 26 j = Some j" using ok(3) by (simp add: token_row_ok_def)
  let ?f = "\<lambda>t. t\<lparr>rt_Status := RefreshTokenStatusUsed, rt_UsedAt := pg_time (rq_now c 0)\<rparr>"
  obtain u tok v w k' where
    u: "char_col 26 (rt_UserID t) = Some k'" "map_of (au_users db) k' = Some u" "CanAuthenticate u"
    and tok: "new_token env c 0 (rq_now c 0) (rq_newID c 0) (rt_FamilyID t) (us_ID u) (rt_SessionID t) (rt_ID t) = Inr (tok, v)"
    and w: "token_row_of tok = Some w" "map_of (AList.map_entry j ?f (au_tokens db)) (rt_ID w) = None"
      "\<forall>x\<in>snd ` set (AList.map_entry j ?f (au_tokens db)). rt_Selector x \<noteq> rt_Selector w"
    and db': "au_tokens db' = AList.map_entry j ?f (au_tokens db) @ [(rt_ID w, w)]" "fam_of db' = fam_of db"
      "au_users db' = au_users db" "tm_RefreshToken m = PresentationToken v"
    using rot
    by (auto simp: rotate_tx_def User_GetByID_def MarkUsed_def set_token_def UpdateLastSeen_def Session_GetByID_def tx_inr ok(2) k
        fam_of_last_seen fam_of_def fun_eq_iff map_of_map_entry split: option.splits)
  have d: "distinct (map fst (au_tokens db))" using assms(2) by (simp add: token_inv_def)
  note upd = map_entry_update [OF d ok(1), of ?f]
  have "map_of (au_tokens db) (rt_ID w) = None" using w(2) by (simp add: map_of_map_entry split: if_splits option.splits)
  moreover have "rt_Selector x \<noteq> rt_Selector w" if "x \<in> snd ` set (au_tokens db)" for x
  proof -
    have "rt_Selector x \<in> set (map (rt_Selector \<circ> snd) (au_tokens db))" using that by auto
    also have "map (rt_Selector \<circ> snd) (au_tokens db) = map (rt_Selector \<circ> snd) (AList.map_entry j ?f (au_tokens db))"
      unfolding upd by (rule rows_mark(2) [OF assms(2) ok(1) mark_used kept_refl, symmetric])
    finally show ?thesis using w(3) by auto
  qed
  ultimately have "fresh_token db w"
    using token_row_of_Some [OF w(1)] new_token_inr [OF tok] by (auto simp: fresh_token_def dest: char_col_length)
  moreover have "us_ID u = rt_UserID t" "length (rt_UserID t) = 26"
    using map_of_SomeD [OF u(2)] u(1) ok(3) assms(2) users_okD by (auto simp: token_inv_def token_row_ok_def)
  then have "rt_UserID w = rt_UserID t" using token_row_of_Some [OF w(1)] new_token_inr [OF tok] by simp
  ultimately show thesis
    using that [of j t u tok v w] ok u tok w(1) db' act cmp t by (simp add: upd key26_def)
qed

end
