(* ===== verification/Auth_Sessions.thy ===== *)
theory Auth_Sessions
  imports Auth_Tokens Vb_History
begin

text \<open>
  Histories of the auth service: all calls as one datatype of requests; every history follows the transitions
  of \<open>Auth_Tokens\<close> and keeps their invariant. A token that is used or revoked stays so, and is refused.
\<close>

section \<open>Histories\<close>

lemma refresh_step:
  assumes "refresh_tx env c sel val fl n db = (Inr (s, m), n', db')" "token_inv db" shows "token_step db db'"
  using assms(1,2)
proof (rule refresh_success)
  fix i t u tok v w
  assume t: "map_of (au_tokens db) i = Some t" "rt_Status t = RefreshTokenStatusActive"
    and u: "map_of (au_users db) (key26 (rt_UserID t)) = Some u"
    and tok: "new_token env c 0 (rq_now c 0) (rq_newID c 0) (rt_FamilyID t) (us_ID u) (rt_SessionID t) i = Inr (tok, v)"
    and w: "token_row_of tok = Some w" "fresh_token db w"
    and db': "au_tokens db' = AList.update i (t\<lparr>rt_Status := RefreshTokenStatusUsed, rt_UsedAt := pg_time (rq_now c 0)\<rparr>) (au_tokens db) @ [(rt_ID w, w)]"
      "fam_of db' = fam_of db" "au_users db' = au_users db"
  have ok: "token_row_ok db i t" using token_invD(3) [OF assms(2) map_of_SomeD [OF t(1)]] .
  note f = new_token_inr [OF tok] token_row_of_Some [OF w(1)]
  have "us_ID u = key26 (rt_UserID t)" using map_of_SomeD [OF u] assms(2) users_okD by (auto simp: token_inv_def)
  then have "rt_UserID w = rt_UserID t" using f ok by (simp add: token_row_ok_def key26_def)
  moreover have "i \<noteq> ''''" "rt_FamilyID w = rt_FamilyID t" "rt_SessionID w = rt_SessionID t" "rt_RotatedFrom w = i"
    using f ok by (auto simp: token_row_ok_def)
  ultimately show ?thesis
    by (intro token_step.rotate [OF t mark_used db'(1) w(2)]) (auto simp: kept_def db'(2,3))
qed

lemma logout_step:
  assumes "logout_tx c sel fl n db = (Inr b, n', db')" "token_inv db" shows "token_step db db'"
proof (cases "find (\<lambda>(i, t). rt_Selector t = sel) (au_tokens db)")
  case None
  then show ?thesis using assms(1)
    by (auto simp: logout_tx_def GetBySelector_def tx_inr intro: token_step.same)
next
  case (Some p)
  obtain j t where p: "p = (j, t)" by (cases p)
  note t = find_token [OF Some [unfolded p]]
  note ok = token_invD [OF assms(2) conjunct1 [OF t]]
  have k: "char_col 26 (rt_ID t) = Some j" using ok(2,3) by (simp add: token_row_ok_def)
  have d: "distinct (map fst (au_tokens db))" using assms(2) by (simp add: token_inv_def)
  let ?f = "\<lambda>t. t\<lparr>rt_Status := RefreshTokenStatusRevoked, rt_RevokedAt := pg_time (rq_now c 0)\<rparr>"
  show ?thesis
  proof (cases "rt_Status t = RefreshTokenStatusActive")
    case True
    then have "db' = db\<lparr>au_tokens := AList.map_entry j ?f (au_tokens db)\<rparr>"
      using assms(1) Some k by (auto simp: logout_tx_def GetBySelector_def MarkRevoked_def set_token_def p tx_inr)
    then show ?thesis
      by (intro token_step.revoke [OF ok(1) True mark_revoked]) (auto simp: map_entry_update [OF d ok(1)] kept_def fam_of_def)
  next
    case False
    then show ?thesis using assms(1) Some
      by (auto simp: logout_tx_def GetBySelector_def p tx_inr intro: token_step.same)
  qed
qed

datatype auth_request =
    ReqLogin string string string
  | ReqRegister RegisterRequest
  | ReqRefresh string
  | ReqLogout string
  | ReqBeginOAuth string string string
  | ReqCompleteOAuth faults CompleteOAuthRequest
  | ReqListLinkedProviders string

fun auth_exec :: "auth_env \<Rightarrow> call \<Rightarrow> auth_request \<Rightarrow> auth_db \<Rightarrow> go_error option \<times> auth_db" where
  "auth_exec env c (ReqLogin e p l) db = outcome (Login env c e p l db)"
| "auth_exec env c (ReqRegister req) db = outcome (Register env c req db)"
| "auth_exec env c (ReqRefresh t) db = outcome (RefreshToken_handler env c t db)"
| "auth_exec env c (ReqLogout t) db = outcome (Logout c t db)"
| "auth_exec env c (ReqBeginOAuth p u ch) db = outcome (BeginOAuth env c p u ch db)"
| "auth_exec env c (ReqCompleteOAuth fl req) db = outcome (CompleteOAuth env c fl req db)"
| "auth_exec env c (ReqListLinkedProviders u) db = outcome (ListLinkedProviders c u db)"

text \<open>Calls with any input, in any environment; runs of the outbox relay; sweeps of expired flows.\<close>

inductive auth_step :: "auth_db \<Rightarrow> auth_db \<Rightarrow> bool" where
  call: "auth_exec env c req db = (r, db') \<Longrightarrow> auth_step db db'"
| relay: "drainOnce fl locked b now (au_outbox db, klog) = (r, rows, klog') \<Longrightarrow> auth_step db (db\<lparr>au_outbox := rows\<rparr>)"
| sweep: "run_tx (Flow_DeleteExpired before) fl db = (r, db') \<Longrightarrow> auth_step db db'"

text \<open>A transaction that is a transition when it succeeds is one whatever happens.\<close>

lemma run_tx_step:
  assumes "\<And>v n n' d. m fl n db = (Inr v, n', d) \<Longrightarrow> token_step db d" "run_tx m fl db = (r, db')"
  shows "token_step db db'"
  using assms run_tx_error [of m fl db _ db'] by (cases r) (auto simp: run_tx_inr intro: token_step.same)

lemma snd_respond: "snd (respond x) = snd x"
  by (auto simp: respond_def split: prod.splits sum.splits)

lemma run_tx_snd: "token_inv db \<Longrightarrow> (\<And>v n n' d. m fl n db = (Inr v, n', d) \<Longrightarrow> token_inv db \<Longrightarrow> token_step db d) \<Longrightarrow> token_step db (snd (run_tx m fl db))"
  using run_tx_step [of m fl db] by (metis prod.collapse)

lemma untouched_flows:
  "Flow_Create f fl n db = (Inr v, n', db') \<Longrightarrow> token_step db db'"
  "consume_tx s fl n db = (Inr w, n', db') \<Longrightarrow> token_step db db'"
  "Flow_DeleteExpired t fl n db = (Inr k, n', db') \<Longrightarrow> token_step db db'"
  "Account_ListByUser u fl n db = (Inr as, n', db') \<Longrightarrow> token_step db db'"
  by (auto simp: Flow_Create_def consume_tx_def GetAndConsume_def Flow_DeleteExpired_def Account_ListByUser_def tx_inr Let_def
      kept_def fam_of_def split: option.splits intro!: token_step.same)

lemma CompleteOAuth_steps:
  assumes "token_inv db"
  shows "token_step\<^sup>*\<^sup>* db (snd (CompleteOAuth env c fl q db))"
proof -
  have refl: "token_step db db" by (rule token_step.same) simp_all
  have 1: "run_tx (consume_tx s) fl db = (x, d) \<Longrightarrow> token_step db d" for s x d
    by (rule run_tx_step) (auto dest: untouched_flows)
  have 2: "token_step\<^sup>*\<^sup>* db (snd (run_tx (oauth_tx env c p pr l tk) (rq_faults c) d))" if "run_tx (consume_tx s) fl db = (x, d)" for s x d p pr l tk
  proof -
    have "token_step db d" by (rule 1 [OF that])
    moreover have "token_step d (snd (run_tx (oauth_tx env c p pr l tk) (rq_faults c) d))"
      by (rule run_tx_snd [OF token_step_inv [OF \<open>token_step db d\<close> assms]]) (auto dest: oauth_step)
    ultimately show ?thesis by (meson converse_rtranclp_into_rtranclp r_into_rtranclp)
  qed
  show ?thesis using refl 1 2
    by (auto simp: CompleteOAuth_def ctxDone_def snd_respond split: option.splits prod.splits sum.splits)
qed

lemma auth_exec_step:
  assumes "auth_exec env c req db = (r, db')" "token_inv db" shows "token_step\<^sup>*\<^sup>* db db'"
proof -
  have refl: "token_step db db" by (rule token_step.same) simp_all
  have db': "db' = snd (auth_exec env c req db)" using assms(1) by simp
  show ?thesis
  proof (cases req)
    case (ReqLogin e p l)
    have "token_step db (snd (run_tx (login_tx env c e p l) (rq_faults c) db))"
      by (rule run_tx_snd [OF assms(2)]) (auto dest: login_step)
    then show ?thesis using refl by (auto simp: db' ReqLogin snd_outcome Login_def ctxDone_def snd_respond split: option.splits)
  next
    case (ReqRegister q)
    have "token_step db (snd (run_tx (register_tx env c q) (rq_faults c) db))"
      by (rule run_tx_snd [OF assms(2)]) (auto dest: register_step)
    then show ?thesis using refl by (auto simp: db' ReqRegister snd_outcome Register_def ctxDone_def snd_respond split: option.splits)
  next
    case (ReqRefresh t)
    have "token_step db (snd (run_tx (refresh_tx env c s v) (rq_faults c) db))" for s v
      by (rule run_tx_snd [OF assms(2)]) (auto dest: refresh_step)
    then show ?thesis using refl
      by (auto simp: db' ReqRefresh snd_outcome RefreshToken_handler_def ctxDone_def snd_respond split: option.splits prod.splits)
  next
    case (ReqLogout t)
    have "token_step db (snd (run_tx (logout_tx c s) (rq_faults c) db))" for s
      by (rule run_tx_snd [OF assms(2)]) (auto dest: logout_step)
    then show ?thesis using refl by (auto simp: db' ReqLogout snd_outcome Logout_def ctxDone_def split: option.splits)
  next
    case (ReqBeginOAuth p u ch)
    have "token_step db (snd (run_tx (Flow_Create f) (rq_faults c) db))" for f
      by (rule run_tx_snd [OF assms(2)]) (auto dest: untouched_flows)
    then have "run_tx (Flow_Create f) (rq_faults c) db = (x, d) \<Longrightarrow> token_step db d" for f x d by (metis snd_conv)
    then show ?thesis using refl
      by (auto simp: db' ReqBeginOAuth snd_outcome BeginOAuth_def ctxDone_def Let_def split: option.splits prod.splits sum.splits)
  next
    case (ReqCompleteOAuth fl q)
    then show ?thesis using CompleteOAuth_steps [OF assms(2)] by (simp add: db' snd_outcome)
  next
    case (ReqListLinkedProviders u)
    have "run_tx (Account_ListByUser u) (rq_faults c) db = (x, d) \<Longrightarrow> token_step db d" for x d
      by (rule run_tx_step) (auto dest: untouched_flows)
    then show ?thesis using refl
      by (auto simp: db' ReqListLinkedProviders snd_outcome ListLinkedProviders_def ctxDone_def Let_def map_error_def
          split: option.splits prod.splits sum.splits)
  qed
qed

lemma auth_step_tokens: "auth_step db db' \<Longrightarrow> token_inv db \<Longrightarrow> token_step\<^sup>*\<^sup>* db db'"
proof (induction rule: auth_step.induct)
  case (relay fl locked b now db klog r rows klog')
  have "token_step db (db\<lparr>au_outbox := rows\<rparr>)" by (rule token_step.same) (simp_all add: kept_def fam_of_def)
  then show ?case by blast
next
  case (sweep before fl db r db')
  have "token_step db db'" by (rule run_tx_step [OF _ sweep(1)]) (auto dest: untouched_flows)
  then show ?case by blast
qed (rule auth_exec_step)

interpretation token_run: invariant_system token_step token_inv
  by unfold_locales (rule token_step_inv)

lemmas token_steps_inv = token_run.run_inv

lemma auth_steps_tokens: "auth_step\<^sup>*\<^sup>* db db' \<Longrightarrow> token_inv db \<Longrightarrow> token_step\<^sup>*\<^sup>* db db' \<and> token_inv db'"
proof (induction rule: rtranclp_induct)
  case (step y z)
  then have "token_step\<^sup>*\<^sup>* y z" using auth_step_tokens by blast
  with step show ?case using token_steps_inv by (meson rtranclp_trans)
qed simp

lemma auth_reachable_inv: "auth_step\<^sup>*\<^sup>* empty_auth_db db \<Longrightarrow> token_inv db"
  using auth_steps_tokens token_inv_empty by blast

section \<open>Superseded tokens\<close>

text \<open>A token that is no longer active: it keeps its selector and never becomes active again.\<close>

definition dead :: "string \<Rightarrow> auth_db \<Rightarrow> bool" where
  "dead sel db \<longleftrightarrow> (\<exists>i t. map_of (au_tokens db) i = Some t \<and> rt_Selector t = sel \<and> rt_Status t \<noteq> RefreshTokenStatusActive)"

lemma token_step_dead: "token_step db db' \<Longrightarrow> dead sel db \<Longrightarrow> dead sel db'"
proof (induction rule: token_step.induct)
  case (issue db' db w)
  from issue.prems obtain j u where u: "map_of (au_tokens db) j = Some u" "rt_Selector u = sel" "rt_Status u \<noteq> RefreshTokenStatusActive"
    by (auto simp: dead_def)
  then have "j \<noteq> rt_ID w" using issue by (auto simp: fresh_token_def)
  then show ?case using u issue unfolding dead_def by (intro exI [of _ j] exI [of _ u]) (simp add: map_add_def)
next
  case (rotate db i t t' db' w)
  from rotate.prems obtain j u where u: "map_of (au_tokens db) j = Some u" "rt_Selector u = sel" "rt_Status u \<noteq> RefreshTokenStatusActive"
    by (auto simp: dead_def)
  then have "j \<noteq> i" "j \<noteq> rt_ID w" using rotate by (auto simp: fresh_token_def)
  then show ?case using u rotate unfolding dead_def by (intro exI [of _ j] exI [of _ u]) (simp add: map_add_def update_conv')
next
  case (revoke db i t t' db')
  from revoke.prems obtain j u where u: "map_of (au_tokens db) j = Some u" "rt_Selector u = sel" "rt_Status u \<noteq> RefreshTokenStatusActive"
    by (auto simp: dead_def)
  then have "j \<noteq> i" using revoke by auto
  then show ?case using u revoke unfolding dead_def by (intro exI [of _ j] exI [of _ u]) (simp add: update_conv')
qed (auto simp: dead_def)

lemma token_steps_dead: "token_step\<^sup>*\<^sup>* db db' \<Longrightarrow> dead sel db \<Longrightarrow> dead sel db'"
  by (induction rule: rtranclp_induct) (auto intro: token_step_dead)

lemma selector_unique:
  assumes "token_inv db" "map_of (au_tokens db) i = Some t" "map_of (au_tokens db) j = Some u" "rt_Selector t = rt_Selector u"
  shows "t = u"
proof -
  have "inj_on (rt_Selector \<circ> snd) (set (au_tokens db))" using assms(1) by (simp add: token_inv_def distinct_map)
  from inj_onD [OF this, of "(i, t)" "(j, u)"] show ?thesis using assms(2-4) by (auto dest!: map_of_SomeD)
qed

lemma find_selector:
  assumes "token_inv db" "(i, t) \<in> set (au_tokens db)"
  shows "find (\<lambda>(i, u). rt_Selector u = rt_Selector t) (au_tokens db) = Some (i, t)"
proof -
  obtain j u where f: "find (\<lambda>(i, u). rt_Selector u = rt_Selector t) (au_tokens db) = Some (j, u)"
    using assms(2) by (cases "find (\<lambda>(i, u). rt_Selector u = rt_Selector t) (au_tokens db)") (auto simp: find_None_iff)
  note u = find_token [OF f]
  have "u = t" using selector_unique [OF assms(1)] token_invD(1) [OF assms(1)] u assms(2) by metis
  then have "j = i" using token_invD(2) [OF assms(1)] u assms(2) by metis
  with f \<open>u = t\<close> show ?thesis by simp
qed

text \<open>A dead token is refused, and nothing changes.\<close>

lemma dead_refused:
  assumes "token_inv db" "dead sel db" "fst (splitSelectorValidator tok) = sel"
  shows "\<exists>e. RefreshToken_handler env c tok db = (Inl e, db)"
proof -
  obtain v where s: "splitSelectorValidator tok = (sel, v)" using assms(3) by (cases "splitSelectorValidator tok") auto
  have "\<exists>e. run_tx (refresh_tx env c sel v) (rq_faults c) db = (Inl e, db)"
  proof (cases "run_tx (refresh_tx env c sel v) (rq_faults c) db")
    case (Pair r db')
    show ?thesis
    proof (cases r)
      case (Inl e)
      then show ?thesis using Pair run_tx_error [of "refresh_tx env c sel v" "rq_faults c" db e db'] by auto
    next
      case (Inr x)
      then obtain n where "refresh_tx env c sel v (rq_faults c) 1 db = (Inr (fst x, snd x), n, db')"
        using Pair by (auto simp: run_tx_inr)
      from refresh_success [OF this assms(1)] obtain i t where
        "map_of (au_tokens db) i = Some t" "rt_Selector t = sel" "rt_Status t = RefreshTokenStatusActive" by metis
      moreover obtain j u where "map_of (au_tokens db) j = Some u" "rt_Selector u = sel" "rt_Status u \<noteq> RefreshTokenStatusActive"
        using assms(2) by (auto simp: dead_def)
      ultimately show ?thesis using selector_unique [OF assms(1)] by metis
    qed
  qed
  then show ?thesis by (auto simp: RefreshToken_handler_def ctxDone_def s respond_def split: option.splits)
qed

text \<open>What a call that returned tokens did: refresh.\<close>

lemma RefreshToken_inr:
  assumes "RefreshToken_handler env c tok db = (Inr a, db')"
  obtains sel v s m n where "splitSelectorValidator tok = (sel, v)" "sel \<noteq> ''''" "v \<noteq> ''''"
    "refresh_tx env c sel v (rq_faults c) 1 db = (Inr (s, m), n, db')" "a = auth_session s m"
  using assms by (auto simp: RefreshToken_handler_def ctxDone_def respond_inr run_tx_inr split: option.splits if_splits prod.splits)

lemma rotated_is_dead:
  assumes "RefreshToken_handler env c tok db = (Inr a, db')" "token_inv db"
  shows "dead (fst (splitSelectorValidator tok)) db'"
  using assms(1)
proof (rule RefreshToken_inr)
  fix sel v s m n
  assume s: "splitSelectorValidator tok = (sel, v)" and r: "refresh_tx env c sel v (rq_faults c) 1 db = (Inr (s, m), n, db')"
  from r assms(2) show ?thesis
  proof (rule refresh_success)
    fix i t u tok' v' w
    assume t: "map_of (au_tokens db) i = Some t" "rt_Selector t = sel" and w: "fresh_token db w"
      and db': "au_tokens db' = AList.update i (t\<lparr>rt_Status := RefreshTokenStatusUsed, rt_UsedAt := pg_time (rq_now c 0)\<rparr>) (au_tokens db) @ [(rt_ID w, w)]"
    have "i \<noteq> rt_ID w" using t(1) w by (auto simp: fresh_token_def)
    then show ?thesis using t(2) s unfolding dead_def db'
      by (intro exI [of _ i] exI [of _ "t\<lparr>rt_Status := RefreshTokenStatusUsed, rt_UsedAt := pg_time (rq_now c 0)\<rparr>"])
        (simp add: map_add_def update_conv' token_status_defs)
  qed
qed

text \<open>The row of a token that was exchanged.\<close>

lemma rotated_row:
  assumes "RefreshToken_handler env c tok db = (Inr a, db')" "token_inv db"
  shows "\<exists>i t v. (i, t) \<in> set (au_tokens db') \<and> rt_Status t = RefreshTokenStatusUsed \<and> splitSelectorValidator tok = (rt_Selector t, v) \<and>
    rt_Selector t \<noteq> '''' \<and> v \<noteq> '''' \<and> Password_Compare (ae_IDKey env) (rt_ValidatorHash t) v \<and> rq_now c 0 < rt_ExpiresAt t"
  using assms(1)
proof (rule RefreshToken_inr)
  fix sel v s m n
  assume s: "splitSelectorValidator tok = (sel, v)" "sel \<noteq> ''''" "v \<noteq> ''''" and r: "refresh_tx env c sel v (rq_faults c) 1 db = (Inr (s, m), n, db')"
  from r assms(2) show ?thesis
  proof (rule refresh_success)
    fix i and t :: RefreshToken and u tok' v' w
    let ?t = "t\<lparr>rt_Status := RefreshTokenStatusUsed, rt_UsedAt := pg_time (rq_now c 0)\<rparr>"
    assume t: "map_of (au_tokens db) i = Some t" "rt_Selector t = sel" "rq_now c 0 < rt_ExpiresAt t"
        "Password_Compare (ae_IDKey env) (rt_ValidatorHash t) v"
      and db': "au_tokens db' = AList.update i ?t (au_tokens db) @ [(rt_ID w, w)]"
    have "map_of (AList.update i ?t (au_tokens db)) i = Some ?t" by (simp add: update_conv')
    then have "(i, ?t) \<in> set (au_tokens db')" unfolding db' by (auto dest: map_of_SomeD)
    then show ?thesis using t s by (intro exI [of _ i] exI [of _ ?t] exI [of _ v]) simp
  qed
qed

end
