(* ===== verification/Auth_Access.thy ===== *)
theory Auth_Access
  imports Auth_Sessions
begin

text \<open>
  Access to the auth service: who can log in, and that what the service hands out works: a token returned by a
  login, a registration or a refresh is accepted by the next refresh, and a registered user can log in.
\<close>

section \<open>New rows\<close>

lemma text_hash: "Password_Hash k rnd p = Inr h \<Longrightarrow> text_col h = Some h"
  using phcEncode_no_nul by (auto simp: Password_Hash_def Let_def text_col_def)

lemma new_token_total: "\<exists>tok v. new_token env c r now i f u s p = Inr (tok, v)"
  using argon.hash_total [of "ae_IDKey env" "rq_rand c (r + 2)" "randomURL (rq_rand c (r + 1)) validatorBytes"]
  by (auto simp: new_token_def NewRefreshToken_def Let_def)

lemma token_row_runs:
  assumes "new_token env c r now i f u s p = Inr (tok, v)" "length i \<le> 26" "length f \<le> 26" "length u \<le> 26" "length s \<le> 26" "length p \<le> 26"
  shows "\<exists>w. token_row_of tok = Some w \<and> rt_ID w = pad 26 i \<and> rt_UserID w = pad 26 u \<and> rt_SessionID w = pad 26 s \<and>
    rt_Selector w = vm_Selector v"
proof -
  note t = new_token_inr [OF assms(1)]
  have "varchar_col 32 (rt_Selector tok) = Some (rt_Selector tok)" using t by simp
  moreover have "text_col (rt_ValidatorHash tok) = Some (rt_ValidatorHash tok)" using t text_hash by blast
  ultimately show ?thesis using t assms(2-6) by (auto simp: token_row_of_def token_status_defs)
qed

section \<open>Tokens handed out\<close>

text \<open>\<open>redeemable env tok until db\<close>: the tables hold the token, active until the given time, of a user who may
  authenticate, in a session that exists.\<close>

definition redeemable :: "auth_env \<Rightarrow> string \<Rightarrow> time \<Rightarrow> auth_db \<Rightarrow> bool" where
  "redeemable env tok until db \<longleftrightarrow> (\<exists>i t v u. (i, t) \<in> set (au_tokens db) \<and> rt_Status t = RefreshTokenStatusActive \<and>
     rt_ExpiresAt t = until \<and> splitSelectorValidator tok = (rt_Selector t, v) \<and> rt_Selector t \<noteq> '''' \<and> v \<noteq> '''' \<and>
     Password_Compare (ae_IDKey env) (rt_ValidatorHash t) v \<and> map_of (au_users db) (rt_UserID t) = Some u \<and> CanAuthenticate u)"

lemma new_token_redeemable:
  assumes "new_token env c r now i f u s p = Inr (tok, v)" "token_row_of tok = Some w" "(rt_ID w, w) \<in> set (au_tokens db)"
    "map_of (au_users db) (rt_UserID w) = Some x" "CanAuthenticate x"
  shows "redeemable env (PresentationToken v) (pg_time (now + ae_RefreshTokenTTL env)) db"
proof -
  note t = new_token_inr [OF assms(1)]
  have sel: "varchar_col 32 (rt_Selector tok) = Some (rt_Selector tok)" using t by simp
  have hash: "text_col (rt_ValidatorHash tok) = Some (rt_ValidatorHash tok)" using t text_hash by blast
  have w: "rt_Selector w = vm_Selector v" "rt_ValidatorHash w = rt_ValidatorHash tok" "rt_Status w = RefreshTokenStatusActive"
      "rt_ExpiresAt w = pg_time (now + ae_RefreshTokenTTL env)"
    using assms(2) t sel hash by (auto simp: token_row_of_def split: option.splits if_splits)
  have "length (vm_Selector v) = 16" "length (vm_Validator v) = 43" using t by simp_all
  then have ne: "vm_Selector v \<noteq> []" "vm_Validator v \<noteq> []" by auto
  have "CHR ''.'' \<notin> set (vm_Selector v)" using t by simp
  from split_present [OF this ne] have "splitSelectorValidator (PresentationToken v) = (vm_Selector v, vm_Validator v)"
    by (cases v) simp
  moreover have "Password_Compare (ae_IDKey env) (rt_ValidatorHash w) (vm_Validator v)"
    unfolding w(2) using t by (intro argon.compare_hash) blast
  ultimately show ?thesis unfolding redeemable_def using assms(3-5) w ne by metis
qed

text \<open>The inputs of a call that find the tables ready: no fault, fresh identifier and selector, a signer that works.\<close>

definition smooth :: "auth_env \<Rightarrow> call \<Rightarrow> auth_db \<Rightarrow> bool" where
  "smooth env c db \<longleftrightarrow> rq_ctxErr c = None \<and> rq_faults c = no_faults \<and> (\<forall>claims. \<exists>tok. ae_Sign env claims = Inr tok) \<and>
     length (rq_newID c 0) \<le> 26 \<and> map_of (au_tokens db) (pad 26 (rq_newID c 0)) = None \<and>
     (\<forall>t\<in>snd ` set (au_tokens db). rt_Selector t \<noteq> randomURL (rq_rand c 0) 12)"

lemma map_entry_selectors:
  "(\<And>t. rt_Selector (f t) = rt_Selector t) \<Longrightarrow> rt_Selector ` snd ` set (AList.map_entry i f xs) = rt_Selector ` snd ` set xs"
  by (induction xs) auto

text \<open>The statements after the check of a presented token, for a row \<open>t\<close> that was read before.\<close>

lemma rotate_tx_runs:
  assumes "smooth env c db" "map_of (au_users db) (rt_UserID t) = Some u" "CanAuthenticate u" "us_ID u = rt_UserID t"
    "map_of (au_sessions db) (rt_SessionID t) = Some se" "length (rt_ID t) = 26" "length (rt_UserID t) = 26" "length (rt_SessionID t) = 26"
    "length (rt_FamilyID t) = 26"
  shows "\<exists>s m n' db' w. rotate_tx env c (rq_now c 0) t no_faults n db = (Inr (s, m), n', db') \<and>
    au_tokens db' = AList.map_entry (rt_ID t) (\<lambda>t. t\<lparr>rt_Status := RefreshTokenStatusUsed, rt_UsedAt := pg_time (rq_now c 0)\<rparr>) (au_tokens db) @ [(rt_ID w, w)] \<and>
    rt_Status w = RefreshTokenStatusActive \<and> rt_FamilyID w = rt_FamilyID t"
proof -
  obtain nt nv where nt: "new_token env c 0 (rq_now c 0) (rq_newID c 0) (rt_FamilyID t) (us_ID u) (rt_SessionID t) (rt_ID t) = Inr (nt, nv)"
    using new_token_total by blast
  obtain w where w: "token_row_of nt = Some w" "rt_ID w = pad 26 (rq_newID c 0)" "rt_UserID w = rt_UserID t" "rt_SessionID w = rt_SessionID t"
      "rt_Selector w = vm_Selector nv"
    using token_row_runs [OF nt] assms by (auto simp: smooth_def)
  have w2: "rt_Status w = RefreshTokenStatusActive" "rt_FamilyID w = rt_FamilyID t"
    using token_row_of_Some [OF w(1)] new_token_inr [OF nt] assms(9) by auto
  obtain acc where acc: "issueAccessToken env (rq_now c 1) u = Inr acc" using assms(1) unfolding smooth_def issueAccessToken_def by metis
  have sel: "vm_Selector nv = randomURL (rq_rand c 0) 12" using new_token_inr [OF nt] by simp
  have k: "char_col 26 (rt_ID t) = Some (rt_ID t)" "char_col 26 (rt_UserID t) = Some (rt_UserID t)" "char_col 26 (rt_SessionID t) = Some (rt_SessionID t)"
    using assms(6-8) by auto
  let ?f = "\<lambda>t. t\<lparr>rt_Status := RefreshTokenStatusUsed, rt_UsedAt := pg_time (rq_now c 0)\<rparr>"
  let ?toks = "AList.map_entry (rt_ID t) ?f (au_tokens db)"
  have fresh1: "map_of ?toks (rt_ID w) = None"
    using assms(1) w(2) by (auto simp: map_of_map_entry smooth_def split: option.splits)
  have "rt_Selector ` snd ` set ?toks = rt_Selector ` snd ` set (au_tokens db)" by (rule map_entry_selectors) simp
  moreover have "rt_Selector w \<notin> rt_Selector ` snd ` set (au_tokens db)" using assms(1) w(5) sel by (auto simp: smooth_def)
  ultimately have fresh2: "\<forall>x\<in>snd ` set ?toks. rt_Selector x \<noteq> rt_Selector w" by (metis imageI)
  show ?thesis using fresh1 fresh2 assms w w2 nt acc
    by (simp add: rotate_tx_def User_GetByID_def MarkUsed_def set_token_def UpdateLastSeen_def Session_GetByID_def tx_inr k map_of_map_entry)
qed

lemma refresh_runs:
  assumes "token_inv db" "redeemable env tok until db" "smooth env c db" "rq_now c 0 < until"
  shows "\<exists>a db'. RefreshToken_handler env c tok db = (Inr a, db')"
proof -
  obtain i t v u where t: "(i, t) \<in> set (au_tokens db)" "rt_Status t = RefreshTokenStatusActive" "rt_ExpiresAt t = until"
      "splitSelectorValidator tok = (rt_Selector t, v)" "rt_Selector t \<noteq> ''''" "v \<noteq> ''''"
      "Password_Compare (ae_IDKey env) (rt_ValidatorHash t) v" "map_of (au_users db) (rt_UserID t) = Some u" "CanAuthenticate u"
    using assms(2) by (auto simp: redeemable_def)
  note ok = token_invD [OF assms(1) t(1)]
  have len: "length (rt_ID t) = 26" "length (rt_UserID t) = 26" "length (rt_SessionID t) = 26" "length (rt_FamilyID t) = 26"
    using ok(2,3) by (auto simp: token_row_ok_def)
  have uid: "us_ID u = rt_UserID t" using map_of_SomeD [OF t(8)] assms(1) users_okD by (auto simp: token_inv_def)
  obtain se where se: "map_of (au_sessions db) (rt_SessionID t) = Some se" using ok(3) by (auto simp: token_row_ok_def fam_of_def)
  note find = find_selector [OF assms(1) t(1)]
  have cls: "ClassifyUse (rq_now c 0) t = (UseOutcomeRotate, None)"
    using t(2,3) assms(4) by (simp add: ClassifyUse_def token_status_defs)
  have "\<exists>a b db' n. rotate_tx env c (rq_now c 0) t no_faults (Suc (Suc 0)) db = (Inr (a, b), n, db')"
    using rotate_tx_runs [OF assms(3) t(8,9) uid se len] by blast
  then have "\<exists>x db'. run_tx (refresh_tx env c (rt_Selector t) v) no_faults db = (Inr x, db')" using find t(7) cls
    by (auto simp: run_tx_inr refresh_tx_def GetBySelector_def VerifyValidator_def ae_Compare_def Let_def tx_inr)
  moreover have "tok \<noteq> ''''" using t(4,5) by (auto simp: splitSelectorValidator_def)
  ultimately show ?thesis using assms(3) t(4-6) by (auto simp: RefreshToken_handler_def ctxDone_def smooth_def respond_def)
qed

section \<open>Calls that hand out tokens\<close>

lemma session_redeemable:
  assumes "issueSessionForUser env c t i r user label fl n db = (Inr (s, m), n', db')" "map_of (au_users db) (key26 (us_ID user)) = Some x"
    "CanAuthenticate x"
  shows "redeemable env (tm_RefreshToken m) (pg_time (rq_now c t + ae_RefreshTokenTTL env)) db'"
  using assms(1)
proof (rule issueSession_success)
  fix w tok v tw
  assume tok: "new_token env c r (rq_now c t) (rq_newID c (i + 2)) (rq_newID c (i + 1)) (us_ID user) (rq_newID c i) '''' = Inr (tok, v)"
    and tw: "token_row_of tok = Some tw" and m: "tm_RefreshToken m = PresentationToken v"
    and db': "db' = db\<lparr>au_sessions := au_sessions db @ [(se_ID w, w)], au_tokens := au_tokens db @ [(rt_ID tw, tw)]\<rparr>"
  have "rt_UserID tw = key26 (us_ID user)"
    using token_row_of_Some [OF tw] new_token_inr [OF tok] by (auto simp: key26_def)
  then show ?thesis unfolding m using new_token_redeemable [OF tok tw, of db' x] assms(2,3) by (simp add: db')
qed

lemma Login_inr:
  assumes "Login env c email password label db = (Inr a, db')"
  obtains k user s m n n' where "find (\<lambda>(i, u). ae_ci env (us_Email u) = ae_ci env email) (au_users db) = Some (k, user)"
    "Password_Compare (ae_IDKey env) (us_PasswordHash user) password" "HasPassword user" "CanAuthenticate user"
    "issueSessionForUser env c 0 0 0 user label (rq_faults c) n db = (Inr (s, m), n', db')" "a = auth_session s m"
  using assms by (auto simp: Login_def ctxDone_def respond_inr run_tx_inr login_tx_def User_GetByEmail_def ae_Compare_def tx_inr
      split: option.splits if_splits)

lemma find_user: "find (\<lambda>(i, u). P u) us = Some (k, u) \<Longrightarrow> (k, u) \<in> set us \<and> P u"
  by (auto simp: find_Some_iff) (metis nth_mem)

lemma issued_session:
  "issueSessionForUser env c t i r user label fl n db = (Inr (s, m), n', db') \<Longrightarrow> se_UserID s = us_ID user"
  by (erule issueSession_success) (simp add: NewSession_def)

lemma Login_issues:
  assumes "Login env c email password label db = (Inr a, db')" "token_inv db"
  shows "redeemable env (as_RefreshToken a) (pg_time (rq_now c 0 + ae_RefreshTokenTTL env)) db'"
  using assms(1)
proof (rule Login_inr)
  fix k user s m n n'
  assume f: "find (\<lambda>(i, u). ae_ci env (us_Email u) = ae_ci env email) (au_users db) = Some (k, user)" and u: "CanAuthenticate user"
    and s: "issueSessionForUser env c 0 0 0 user label (rq_faults c) n db = (Inr (s, m), n', db')" "a = auth_session s m"
  have "us_ID user = k \<and> length k = 26 \<and> map_of (au_users db) k = Some user"
    using find_user [OF f] assms(2) users_okD by (auto simp: token_inv_def)
  then show ?thesis using session_redeemable [OF s(1), of user] u by (simp add: key26_def s(2) auth_session_def)
qed

lemma Register_inr:
  assumes "Register env c req db = (Inr a, db')"
  obtains user hash w n1 n2 db2 s m n' where "NewUser (rq_lower c) (rq_now c 0)
      \<lparr>nu_Email = rg_Email req, nu_Username = rg_Username req, nu_DisplayName = rg_DisplayName req, nu_AvatarURL = ''''\<rparr> = Inr user"
    "Password_Hash (ae_IDKey env) (rq_rand c 0) (rg_Password req) = Inr hash"
    "find (\<lambda>(i, u). ae_ci env (us_Email u) = ae_ci env (us_Email user)) (au_users db) = None"
    "user_row_of ((SetPassword (rq_now c 1) hash user)\<lparr>us_ID := rq_newID c 0\<rparr>) = Some w"
    "map_of (au_users db) (us_ID w) = None" "au_users db2 = au_users db @ [(us_ID w, w)]"
    "issueSessionForUser env c 2 2 1 ((SetPassword (rq_now c 1) hash user)\<lparr>us_ID := rq_newID c 0\<rparr>) (rg_DeviceLabel req)
       (rq_faults c) n2 db2 = (Inr (s, m), n', db')" "a = auth_session s m"
    "au_users db' = au_users db @ [(us_ID w, w)]"
proof -
  obtain user hash n1 n2 n3 db1 db2 s m n' where
    user: "NewUser (rq_lower c) (rq_now c 0)
      \<lparr>nu_Email = rg_Email req, nu_Username = rg_Username req, nu_DisplayName = rg_DisplayName req, nu_AvatarURL = ''''\<rparr> = Inr user"
    and hash: "Password_Hash (ae_IDKey env) (rq_rand c 0) (rg_Password req) = Inr hash"
    and f': "\<forall>a b. find (\<lambda>(i, u). ae_ci env (us_Email u) = ae_ci env (us_Email user)) (au_users db) \<noteq> Some (a, b)"
    and cr: "User_Create (ae_ci env) ((SetPassword (rq_now c 1) hash user)\<lparr>us_ID := rq_newID c 0\<rparr>) (rq_faults c) n1 db = (Inr (), n2, db1)"
    and ap: "Auth_Append [user_created (rq_newID c 1) ((SetPassword (rq_now c 1) hash user)\<lparr>us_ID := rq_newID c 0\<rparr>) ''password'' (rq_now c 0)]
        (rq_faults c) n2 db1 = (Inr (), n3, db2)"
    and s: "issueSessionForUser env c 2 2 1 ((SetPassword (rq_now c 1) hash user)\<lparr>us_ID := rq_newID c 0\<rparr>) (rg_DeviceLabel req)
       (rq_faults c) n3 db2 = (Inr (s, m), n', db')" "a = auth_session s m"
    using assms by (auto simp: Register_def ctxDone_def respond_inr run_tx_inr register_tx_def User_GetByEmail_def Let_def tx_inr SetPassword_def
      split: option.splits if_splits sum.splits)
  have f: "find (\<lambda>(i, u). ae_ci env (us_Email u) = ae_ci env (us_Email user)) (au_users db) = None" using f' by (metis not_None_eq surj_pair)
  obtain w where w: "user_row_of ((SetPassword (rq_now c 1) hash user)\<lparr>us_ID := rq_newID c 0\<rparr>) = Some w"
    "map_of (au_users db) (us_ID w) = None" "au_users db1 = au_users db @ [(us_ID w, w)]"
    using cr by (auto simp: User_Create_def tx_inr split: option.splits)
  have d: "au_users db2 = au_users db1" using ap by (auto simp: Auth_Append_def tx_inr)
  have "au_users db' = au_users db2" using s(1) by (rule issueSession_success) simp
  then show thesis using that [OF user hash f w(1,2) _ s] w(3) d by simp
qed

lemma register_row:
  assumes "NewUser U now p = Inr user" "user_row_of ((SetPassword sysnow hash user)\<lparr>us_ID := i\<rparr>) = Some w"
  shows "us_Email w = us_Email user \<and> us_PasswordHash w = hash \<and> CanAuthenticate w \<and> us_ID w = key26 i"
  using NewUser_valid [OF assms(1)] assms(2)
  by (auto simp: user_row_of_def SetPassword_def CanAuthenticate_def key26_def text_col_def split: option.splits if_splits)

lemma Register_issues:
  assumes "Register env c req db = (Inr a, db')"
  shows "redeemable env (as_RefreshToken a) (pg_time (rq_now c 2 + ae_RefreshTokenTTL env)) db'"
  using assms
proof (rule Register_inr)
  fix user hash w n1 n2 db2 s m n'
  let ?u = "(SetPassword (rq_now c 1) hash user)\<lparr>us_ID := rq_newID c 0\<rparr>"
  assume user: "NewUser (rq_lower c) (rq_now c 0)
      \<lparr>nu_Email = rg_Email req, nu_Username = rg_Username req, nu_DisplayName = rg_DisplayName req, nu_AvatarURL = ''''\<rparr> = Inr user"
    and w: "user_row_of ?u = Some w" "map_of (au_users db) (us_ID w) = None" "au_users db2 = au_users db @ [(us_ID w, w)]"
    and s: "issueSessionForUser env c 2 2 1 ?u (rg_DeviceLabel req) (rq_faults c) n2 db2 = (Inr (s, m), n', db')" "a = auth_session s m"
  note r = register_row [OF user w(1)]
  have "map_of (au_users db2) (key26 (us_ID ?u)) = Some w" using w(2,3) r by (simp add: map_add_def)
  then show ?thesis using session_redeemable [OF s(1)] r by (simp add: s(2) auth_session_def)
qed

lemma Refresh_issues:
  assumes "RefreshToken_handler env c tok db = (Inr a, db')" "token_inv db"
  shows "redeemable env (as_RefreshToken a) (pg_time (rq_now c 0 + ae_RefreshTokenTTL env)) db'"
  using assms(1)
proof (rule RefreshToken_inr)
  fix sel v s m n
  assume r: "refresh_tx env c sel v (rq_faults c) 1 db = (Inr (s, m), n, db')" "a = auth_session s m"
  from r(1) assms(2) show ?thesis
  proof (rule refresh_success)
    fix i t u tok' v' w
    assume t: "map_of (au_tokens db) i = Some t" and u: "map_of (au_users db) (key26 (rt_UserID t)) = Some u" "CanAuthenticate u"
      and tok: "new_token env c 0 (rq_now c 0) (rq_newID c 0) (rt_FamilyID t) (us_ID u) (rt_SessionID t) i = Inr (tok', v')"
      and w: "token_row_of tok' = Some w" "rt_UserID w = rt_UserID t"
      and db': "au_tokens db' = AList.update i (t\<lparr>rt_Status := RefreshTokenStatusUsed, rt_UsedAt := pg_time (rq_now c 0)\<rparr>) (au_tokens db) @ [(rt_ID w, w)]"
        "au_users db' = au_users db" and m: "tm_RefreshToken m = PresentationToken v'"
    have "key26 (rt_UserID t) = rt_UserID t"
      using token_invD(3) [OF assms(2) map_of_SomeD [OF t]] by (simp add: token_row_ok_def key26_def)
    then show ?thesis using new_token_redeemable [OF tok w(1), of db' u] u db' w(2) m by (simp add: r(2) auth_session_def)
  qed
qed

text \<open>Inputs that find room for a new session: no fault, a valid label, fresh identifiers and selector; \<open>i\<close> and \<open>r\<close>
  count the identifiers and random reads before it.\<close>

definition session_ready :: "auth_env \<Rightarrow> call \<Rightarrow> nat \<Rightarrow> nat \<Rightarrow> string \<Rightarrow> auth_db \<Rightarrow> bool" where
  "session_ready env c i r label db \<longleftrightarrow> rq_faults c = no_faults \<and> (\<forall>claims. \<exists>tok. ae_Sign env claims = Inr tok) \<and>
     text_varchar_col 100 label \<noteq> None \<and> (\<forall>j\<le>2. length (rq_newID c (i + j)) \<le> 26) \<and>
     map_of (au_sessions db) (pad 26 (rq_newID c i)) = None \<and>
     (\<forall>s\<in>snd ` set (au_sessions db). se_FamilyID s \<noteq> pad 26 (rq_newID c (i + 1))) \<and> map_of (au_tokens db) (pad 26 (rq_newID c (i + 2))) = None \<and>
     (\<forall>t\<in>snd ` set (au_tokens db). rt_Selector t \<noteq> randomURL (rq_rand c r) 12)"

definition login_ready :: "auth_env \<Rightarrow> call \<Rightarrow> string \<Rightarrow> auth_db \<Rightarrow> bool" where
  "login_ready env c label db \<longleftrightarrow> rq_ctxErr c = None \<and> session_ready env c 0 0 label db"

lemma session_runs:
  assumes "session_ready env c i r label db" "map_of (au_users db) (pad 26 (us_ID user)) \<noteq> None" "length (us_ID user) \<le> 26"
  shows "\<exists>s m n' db'. issueSessionForUser env c k i r user label no_faults n db = (Inr (s, m), n', db')"
proof -
  let ?sess = "NewSession (rq_now c k) (rq_newID c i) (us_ID user) (rq_newID c (i + 1)) (ae_SessionTTL env) label"
  have "length (rq_newID c (i + j)) \<le> 26" if "j \<le> 2" for j using assms(1) that by (simp add: session_ready_def)
  from this [of 0] this [of 1] this [of 2]
  have len: "length (rq_newID c i) \<le> 26" "length (rq_newID c (i + 1)) \<le> 26" "length (rq_newID c (i + 2)) \<le> 26" by simp_all
  obtain tok v where tok: "new_token env c r (rq_now c k) (rq_newID c (i + 2)) (rq_newID c (i + 1)) (us_ID user) (rq_newID c i) '''' = Inr (tok, v)"
    using new_token_total by blast
  obtain w where w: "token_row_of tok = Some w" "rt_ID w = pad 26 (rq_newID c (i + 2))" "rt_UserID w = pad 26 (us_ID user)"
      "rt_SessionID w = pad 26 (rq_newID c i)" "rt_Selector w = randomURL (rq_rand c r) 12"
    using token_row_runs [OF tok] len assms(3) new_token_inr [OF tok] by auto
  obtain l where l: "text_varchar_col 100 label = Some l" using assms(1) by (auto simp: session_ready_def)
  obtain sw where sw: "session_row_of ?sess = Some sw" "se_ID sw = pad 26 (rq_newID c i)" "se_UserID sw = pad 26 (us_ID user)"
      "se_FamilyID sw = pad 26 (rq_newID c (i + 1))"
    using len assms(3) l by (auto simp: session_row_of_def NewSession_def)
  obtain acc where acc: "issueAccessToken env (rq_now c (k + 1)) user = Inr acc"
    using assms(1) unfolding session_ready_def issueAccessToken_def by metis
  show ?thesis using assms w sw tok acc
    by (simp add: issueSessionForUser_def Let_def tx_inr session_ready_def map_add_def)
qed

text \<open>What a new session adds.\<close>

lemma issueSession_adds:
  assumes "issueSessionForUser env c k i r user label fl n db = (Inr (s, m), n', db')"
  shows "(\<exists>tw. au_tokens db' = au_tokens db @ [(key26 (rq_newID c (i + 2)), tw)] \<and> rt_Selector tw = randomURL (rq_rand c r) 12) \<and>
    (\<exists>sw. au_sessions db' = au_sessions db @ [(key26 (rq_newID c i), sw)] \<and> se_FamilyID sw = key26 (rq_newID c (i + 1)))"
  using assms
proof (rule issueSession_success)
  fix w tok v tw
  assume w: "session_row_of (NewSession (rq_now c k) (rq_newID c i) (us_ID user) (rq_newID c (i + 1)) (ae_SessionTTL env) label) = Some w"
    and tok: "new_token env c r (rq_now c k) (rq_newID c (i + 2)) (rq_newID c (i + 1)) (us_ID user) (rq_newID c i) '''' = Inr (tok, v)"
    and tw: "token_row_of tok = Some tw"
    and db': "db' = db\<lparr>au_sessions := au_sessions db @ [(se_ID w, w)], au_tokens := au_tokens db @ [(rt_ID tw, tw)]\<rparr>"
  have "varchar_col 32 (rt_Selector tok) = Some (rt_Selector tok)" using new_token_inr [OF tok] by simp
  then have "rt_Selector tw = rt_Selector tok" using tw by (auto simp: token_row_of_def split: option.splits if_splits)
  then show ?thesis using new_token_inr [OF tok] token_row_of_Some [OF tw] session_row_of_Some [OF w]
    by (auto simp: db' NewSession_def key26_char_col)
qed

lemma find_append_None: "find P xs = None \<Longrightarrow> find P (xs @ ys) = find P ys"
  by (induction xs) (auto split: if_splits)

lemma token_step_users: "token_step db db' \<Longrightarrow> users_grow db db'"
  by (induction rule: token_step.induct) (auto simp: kept_def)

lemma token_steps_users: "token_step\<^sup>*\<^sup>* db db' \<Longrightarrow> users_grow db db'"
  by (induction rule: rtranclp_induct) (auto intro: users_grow_trans token_step_users)

section \<open>Registration\<close>

text \<open>Inputs with which a registration succeeds.\<close>

definition register_ready :: "auth_env \<Rightarrow> call \<Rightarrow> RegisterRequest \<Rightarrow> auth_db \<Rightarrow> bool" where
  "register_ready env c req db \<longleftrightarrow> rq_ctxErr c = None \<and> session_ready env c 2 1 (rg_DeviceLabel req) db \<and>
     rg_Email req \<noteq> '''' \<and> rg_Username req \<noteq> '''' \<and> 8 \<le> length (rg_Password req) \<and>
     length (rq_newID c 0) \<le> 26 \<and> length (rq_newID c 1) \<le> 26 \<and> map_of (au_users db) (pad 26 (rq_newID c 0)) = None \<and>
     pad 26 (rq_newID c 1) \<notin> ob_id ` set (au_outbox db) \<and>
     (\<exists>user. NewUser (rq_lower c) (rq_now c 0) \<lparr>nu_Email = rg_Email req, nu_Username = rg_Username req,
         nu_DisplayName = rg_DisplayName req, nu_AvatarURL = ''''\<rparr> = Inr user \<and>
       text_col (us_Email user) \<noteq> None \<and> text_varchar_col 32 (us_Username user) = Some (us_Username user) \<and>
       text_varchar_col 100 (us_DisplayName user) \<noteq> None \<and> us_AvatarURL user = '''' \<and>
       (\<forall>u\<in>snd ` set (au_users db). ae_ci env (us_Email u) \<noteq> ae_ci env (us_Email user) \<and> us_Username u \<noteq> us_Username user))"

lemma register_runs:
  assumes "register_ready env c req db" shows "\<exists>a db'. Register env c req db = (Inr a, db')"
proof -
  obtain user e d where user: "NewUser (rq_lower c) (rq_now c 0) \<lparr>nu_Email = rg_Email req, nu_Username = rg_Username req,
         nu_DisplayName = rg_DisplayName req, nu_AvatarURL = ''''\<rparr> = Inr user"
      "text_col (us_Email user) = Some e" "text_varchar_col 32 (us_Username user) = Some (us_Username user)"
      "text_varchar_col 100 (us_DisplayName user) = Some d" "us_AvatarURL user = ''''"
      "\<forall>u\<in>snd ` set (au_users db). ae_ci env (us_Email u) \<noteq> ae_ci env (us_Email user) \<and> us_Username u \<noteq> us_Username user"
    using assms by (auto simp: register_ready_def)
  obtain hash where hash: "Password_Hash (ae_IDKey env) (rq_rand c 0) (rg_Password req) = Inr hash" using argon.hash_total by blast
  let ?u = "(SetPassword (rq_now c 1) hash user)\<lparr>us_ID := rq_newID c 0\<rparr>"
  have len: "length (rq_newID c 0) \<le> 26" "length (rq_newID c 1) \<le> 26" using assms by (simp_all add: register_ready_def)
  have st: "us_SystemRole user = 2" "us_Status user = 1"
    using NewUser_valid [OF user(1)] by (auto simp: SystemRoleUser_def CanAuthenticate_def CanLogin_def UserStatusActive_def)
  obtain w where w: "user_row_of ?u = Some w" "us_ID w = pad 26 (rq_newID c 0)" "us_Email w = us_Email user" "us_Username w = us_Username user"
    using user(2-5) len st text_hash [OF hash] by (auto simp: user_row_of_def SetPassword_def text_col_def split: if_splits)
  have find: "find (\<lambda>(i, u). ae_ci env (us_Email u) = ae_ci env (us_Email user)) (au_users db) = None"
    using user(6) by (force simp: find_None_iff)
  let ?ev = "user_created (rq_newID c 1) ?u ''password'' (rq_now c 0)"
  obtain row where row: "outbox_row_of ?ev (rq_newID c 0) = Some row" "ob_id row = pad 26 (rq_newID c 1)"
    using len by (auto simp: outbox_row_of_def user_created_def json_marshal_def json_ok_def)
  let ?db1 = "db\<lparr>au_users := au_users db @ [(us_ID w, w)]\<rparr>"
  let ?db2 = "?db1\<lparr>au_outbox := au_outbox db @ [row]\<rparr>"
  have 1: "User_Create (ae_ci env) ?u no_faults n db = (Inr (), n + 1, ?db1)" for n
    using w user(6) assms by (auto simp: User_Create_def tx_inr list_ex_iff register_ready_def)
  have 2: "Auth_Append [?ev] no_faults n ?db1 = (Inr (), n + 1, ?db2)" for n
    using row assms by (auto simp: Auth_Append_def Append_def append_one_def insert_outbox_def tx_inr register_ready_def user_created_def)
  have "session_ready env c 2 1 (rg_DeviceLabel req) ?db2" "map_of (au_users ?db2) (pad 26 (us_ID ?u)) \<noteq> None"
    using assms w(2) by (auto simp: register_ready_def session_ready_def map_add_def split: option.splits)
  then obtain s m n' db' where "issueSessionForUser env c 2 2 1 ?u (rg_DeviceLabel req) no_faults (Suc (Suc (Suc (Suc 0)))) ?db2 = (Inr (s, m), n', db')"
    using session_runs [of env c 2 1 "rg_DeviceLabel req" ?db2 ?u 2 "Suc (Suc (Suc (Suc 0)))"] len by auto
  then have "register_tx env c req no_faults 1 db = (Inr (s, m), n', db')"
    using user(1) hash find 1 2 by (simp add: register_tx_def Let_def User_GetByEmail_def tx_inr SetPassword_def)
  moreover have "rq_faults c = no_faults" using assms by (simp add: register_ready_def session_ready_def)
  ultimately have "Register env c req db = (Inr (auth_session s m), db')"
    using assms by (auto simp: Register_def ctxDone_def register_ready_def respond_inr run_tx_inr)
  then show ?thesis by blast
qed

lemma Register_adds:
  assumes "Register env c req db = (Inr a, db')"
  shows "(\<exists>tw. au_tokens db' = au_tokens db @ [(key26 (rq_newID c 4), tw)] \<and> rt_Selector tw = randomURL (rq_rand c 1) 12) \<and>
    (\<exists>sw. au_sessions db' = au_sessions db @ [(key26 (rq_newID c 2), sw)] \<and> se_FamilyID sw = key26 (rq_newID c 3))"
proof -
  have t: "au_tokens db2 = au_tokens db \<and> au_sessions db2 = au_sessions db"
    if "User_Create ci u fl n1 db = (Inr (), n2, db1)" "Auth_Append es fl n2 db1 = (Inr (), n3, db2)" for ci u fl n1 n2 n3 db1 db2 es
    using that untouched_stmts(1,3) by (fastforce simp: untouched_def)
  obtain user n2 n' db2 s m where "issueSessionForUser env c 2 2 1 user (rg_DeviceLabel req) (rq_faults c) n2 db2 = (Inr (s, m), n', db')"
      "au_tokens db2 = au_tokens db \<and> au_sessions db2 = au_sessions db"
    using assms t
    by (auto simp: Register_def ctxDone_def respond_inr run_tx_inr register_tx_def User_GetByEmail_def Let_def tx_inr
      split: option.splits if_splits sum.splits)
  from issueSession_adds [OF this(1)] this(2) show ?thesis by (simp add: numeral_eq_Suc)
qed

text \<open>The stored user can log in.\<close>

lemma login_after_register:
  assumes "auth_step\<^sup>*\<^sup>* empty_auth_db db" "Register env c req db = (Inr a, db1)" "auth_step\<^sup>*\<^sup>* db1 db2"
    "email = TrimSpace (ToLower (rq_lower c) (rg_Email req))" "login_ready env c' label db2"
  shows "\<exists>a' db3. Login env c' email (rg_Password req) label db2 = (Inr a', db3) \<and> as_UserId a' = key26 (as_UserId a)"
proof -
  have i: "token_inv db" by (rule auth_reachable_inv [OF assms(1)])
  have "auth_step db db1" using assms(2) by (intro auth_step.call [of env c "ReqRegister req" db None]) (simp add: outcome_def)
  then have i1: "token_inv db1" using i auth_step_tokens token_steps_inv by blast
  then have i2: "token_inv db2" and g: "users_grow db1 db2" using auth_steps_tokens [OF assms(3)] token_steps_users by blast+
  from assms(2) show ?thesis
  proof (rule Register_inr)
    fix user hash w n1 n2 dbx s m n'
    let ?u = "(SetPassword (rq_now c 1) hash user)\<lparr>us_ID := rq_newID c 0\<rparr>"
    assume user: "NewUser (rq_lower c) (rq_now c 0)
        \<lparr>nu_Email = rg_Email req, nu_Username = rg_Username req, nu_DisplayName = rg_DisplayName req, nu_AvatarURL = ''''\<rparr> = Inr user"
      and hash: "Password_Hash (ae_IDKey env) (rq_rand c 0) (rg_Password req) = Inr hash"
      and none: "find (\<lambda>(i, u). ae_ci env (us_Email u) = ae_ci env (us_Email user)) (au_users db) = None"
      and w: "user_row_of ?u = Some w" "au_users db1 = au_users db @ [(us_ID w, w)]"
      and s: "issueSessionForUser env c 2 2 1 ?u (rg_DeviceLabel req) (rq_faults c) n2 dbx = (Inr (s, m), n', db1)" "a = auth_session s m"
    note r = register_row [OF user w(1)]
    have email: "email = us_Email user" using user by (auto simp: assms(4) NewUser_def Let_def split: if_splits)
    have ne: "email \<noteq> ''''" "rg_Password req \<noteq> ''''"
      using NewUser_valid [OF user] assms(2) by (auto simp: email emailRe_def Register_def ctxDone_def split: option.splits)
    obtain new where new: "au_users db2 = au_users db @ (us_ID w, w) # new" using g w(2) by (auto simp: users_grow_def)
    have f: "find (\<lambda>(i, u). ae_ci env (us_Email u) = ae_ci env email) (au_users db2) = Some (us_ID w, w)"
      using none r by (simp add: new find_append_None email)
    have "users_ok (au_users db2)" using i2 by (simp add: token_inv_def)
    from users_okD [OF this, of "us_ID w" w] have k: "length (us_ID w) = 26" "map_of (au_users db2) (us_ID w) = Some w" by (simp_all add: new)
    obtain s' m' n3 db3 where t: "issueSessionForUser env c' 0 0 0 w label no_faults 2 db2 = (Inr (s', m'), n3, db3)"
      using session_runs [of env c' 0 0 label db2 w 0 2] assms(5) k by (auto simp: login_ready_def)
    have "HasPassword w" "Password_Compare (ae_IDKey env) (us_PasswordHash w) (rg_Password req)"
      using r hash argon.compare_hash argon.hash_nonempty by (auto simp: HasPassword_def)
    then have "Login env c' email (rg_Password req) label db2 = (Inr (auth_session s' m'), db3)"
      using assms(5) ne f r t
      by (auto simp: Login_def ctxDone_def login_ready_def session_ready_def respond_inr run_tx_inr login_tx_def User_GetByEmail_def ae_Compare_def tx_inr numeral_2_eq_2)
    moreover have "se_UserID s' = us_ID w" "se_UserID s = rq_newID c 0" using issued_session [OF t] issued_session [OF s(1)] by simp_all
    ultimately show ?thesis using r by (auto simp: s(2) auth_session_def)
  qed
qed

section \<open>OAuth\<close>

lemma oauth_user_flows:
  "oauth_user env c p profile fl n db = (Inr user, n', db') \<Longrightarrow> au_flows db' = au_flows db"
  by (auto simp: oauth_user_def oauth_new_user_def Let_def auth_stmt_defs tx_inr split: option.splits sum.splits if_splits)

lemma oauth_tx_flows:
  assumes "oauth_tx env c p profile label tokens fl n db = (Inr (s, m), n', db')" shows "au_flows db' = au_flows db"
proof -
  obtain user n1 db1 n2 db2 where u: "oauth_user env c p profile fl n db = (Inr user, n1, db1)"
    and t: "saveProviderTokens env c 1 0 p (us_ID user) tokens fl n1 db1 = (Inr (), n2, db2)"
    and s: "issueSessionForUser env c 3 2 2 user label fl n2 db2 = (Inr (s, m), n', db')"
    using assms by (auto simp: oauth_tx_def tx_inr)
  have "au_flows db2 = au_flows db1" using t
    by (auto simp: saveProviderTokens_def ProviderToken_Upsert_def Let_def tx_inr split: if_splits sum.splits option.splits)
  moreover have "au_flows db' = au_flows db2" using s by (rule issueSession_success) simp
  ultimately show ?thesis using oauth_user_flows [OF u] by simp
qed

lemma consume_inr:
  "consume_tx state fl n db = (Inr flow, n', db') \<longleftrightarrow> fl n = None \<and> fl (n + 1) = None \<and> n' = n + 2 \<and> map_of (au_flows db) state = Some flow \<and>
     db' = db\<lparr>au_flows := AList.delete state (au_flows db)\<rparr>"
  by (auto simp: consume_tx_def GetAndConsume_def tx_inr)

lemma oauth_run_flows: "run_tx (oauth_tx env c p profile label tokens) fl db = (r, db') \<Longrightarrow> au_flows db' = au_flows db"
  using run_tx_error [of _ fl db _ db'] by (cases r) (auto simp: run_tx_inr dest!: oauth_tx_flows)

lemma consume_run:
  "run_tx (consume_tx state) fl db = (Inr flow, db') \<Longrightarrow> map_of (au_flows db) state = Some flow \<and> map_of (au_flows db') state = None"
  "run_tx (consume_tx state) no_faults db = (Inl e, db') \<Longrightarrow> db' = db \<and> map_of (au_flows db) state = None"
  "map_of (au_flows db) state = None \<Longrightarrow> \<exists>e. run_tx (consume_tx state) fl db = (Inl e, db)"
proof -
  show "run_tx (consume_tx state) fl db = (Inr flow, db') \<Longrightarrow> map_of (au_flows db) state = Some flow \<and> map_of (au_flows db') state = None"
    by (auto simp: run_tx_inr consume_inr delete_conv')
  assume a: "run_tx (consume_tx state) no_faults db = (Inl e, db')"
  have "map_of (au_flows db) state = Some flow \<Longrightarrow> run_tx (consume_tx state) no_faults db = (Inr flow, db\<lparr>au_flows := AList.delete state (au_flows db)\<rparr>)" for flow
    by (simp add: run_tx_inr consume_inr)
  with a show "db' = db \<and> map_of (au_flows db) state = None"
    using run_tx_error [OF a] by (cases "map_of (au_flows db) state") auto
next
  assume a: "map_of (au_flows db) state = None"
  show "\<exists>e. run_tx (consume_tx state) fl db = (Inl e, db)"
  proof (cases "run_tx (consume_tx state) fl db")
    case (Pair r d)
    show ?thesis
    proof (cases r)
      case (Inl e)
      then show ?thesis using Pair run_tx_error [of "consume_tx state" fl db e d] by simp
    next
      case (Inr flow)
      then show ?thesis using Pair a by (auto simp: run_tx_inr consume_inr)
    qed
  qed
qed

lemma oauth_refused:
  assumes "map_of (au_flows db) (co_State req) = None" shows "\<exists>e. CompleteOAuth env c fl req db = (Inl e, db)"
  using consume_run(3) [OF assms, of fl] by (auto simp: CompleteOAuth_def ctxDone_def split: option.splits)

end
