(* ===== verification/Auth_Properties.thy ===== *)
theory Auth_Properties
  imports Auth_Access
begin

text \<open>
  The guarantees of the auth service, over all histories of its calls: the tokens of a login form a chain in which
  at most one can be redeemed; a redeemed token is dead; what the service hands out works; who can log in; an OAuth
  state is good for one attempt; and that reuse of a token, although detected, revokes nothing.
\<close>

section \<open>A sample history\<close>

text \<open>A registration, then a refresh of the token it returned; both succeed.\<close>

definition sample_auth_env :: auth_env where
  "sample_auth_env = \<lparr>ae_ci = (\<lambda>s. s), ae_IDKey = (\<lambda>p s t m l k. []), ae_Sign = (\<lambda>claims. Inr ''jwt''),
     ae_cipher = \<lparr>NonceSize = 0, Seal = (\<lambda>n p. p), Open = (\<lambda>n c. Some c)\<rparr>,
     ae_registry = Some (\<lambda>p. Some \<lparr>op_Name = p, op_AuthorizationURL = (\<lambda>r s ch. Inr r), op_Exchange = (\<lambda>code r v. Inl (ExtErr code)),
       op_Profile = (\<lambda>t. Inl (ExtErr ''''))\<rparr>), ae_cv = (\<lambda>x. 0), ae_SessionTTL = 10, ae_RefreshTokenTTL = 1000, ae_AccessTokenTTL = 10,
     ae_OAuthFlowTTL = 10, ae_Issuer = ''vibesync''\<rparr>"

text \<open>The \<open>n\<close>-th identifier of the call named \<open>i\<close>, and its random bytes, all equal to \<open>k\<close>.\<close>

definition auth_call :: "string \<Rightarrow> nat \<Rightarrow> call" where
  "auth_call i k = \<lparr>rq_ctxErr = None, rq_userHeader = '''', rq_roleHeader = '''', rq_faults = no_faults, rq_dbnow = 0,
     rq_now = (\<lambda>n. 0), rq_newID = (\<lambda>n. i @ replicate (min n 5) (CHR ''x'')), rq_rand = (\<lambda>j n. word_of_nat k), rq_lower = (\<lambda>s. s)\<rparr>"

definition sample_register :: RegisterRequest where
  "sample_register = \<lparr>rg_Email = ''a@b.io'', rg_Username = ''ann'', rg_Password = ''12345678'', rg_DisplayName = '''', rg_DeviceLabel = ''''\<rparr>"

lemma sample_ready: "register_ready sample_auth_env (auth_call ''r'' 1) sample_register empty_auth_db"
proof -
  have "NewUser (\<lambda>s. s) 0 \<lparr>nu_Email = ''a@b.io'', nu_Username = ''ann'', nu_DisplayName = '''', nu_AvatarURL = ''''\<rparr> =
      Inr \<lparr>us_ID = '''', us_Email = ''a@b.io'', us_Username = ''ann'', us_DisplayName = ''ann'', us_AvatarURL = '''', us_PasswordHash = '''',
        us_SystemRole = SystemRoleUser, us_Status = UserStatusActive, us_CreatedAt = 0, us_UpdatedAt = 0\<rparr>"
  proof -
    have "emailRe ''a@b.io''" "usernameRe ''ann''" "ToLower (\<lambda>s. s) ''a@b.io'' = ''a@b.io''" "ToLower (\<lambda>s. s) ''ann'' = ''ann''" by code_simp+
    then show ?thesis by (simp add: NewUser_def Let_def TrimSpace_id TrimSpace_Nil printable_def)
  qed
  moreover have "text_varchar_col 32 ''ann'' = Some ''ann''" "text_varchar_col 100 ''ann'' = Some ''ann''" "text_varchar_col 100 '''' = Some ''''"
    by (simp_all add: text_varchar_col_def rune_count_def)
  ultimately show ?thesis
    by (simp add: register_ready_def session_ready_def sample_auth_env_def auth_call_def sample_register_def empty_auth_db_def text_col_def)
qed

lemma smooth_later:
  assumes "RefreshToken_handler env c tok db = (Inr a, db1)" "token_inv db" "smooth env c' db"
    "pad 26 (rq_newID c' 0) \<noteq> pad 26 (rq_newID c 0)" "randomURL (rq_rand c' 0) 12 \<noteq> randomURL (rq_rand c 0) 12" "length (rq_newID c 0) \<le> 26"
  shows "smooth env c' db1"
  using assms(1)
proof (rule RefreshToken_inr)
  fix sel v s m n
  assume r: "refresh_tx env c sel v (rq_faults c) 1 db = (Inr (s, m), n, db1)"
  from r assms(2) show ?thesis
  proof (rule refresh_success)
    fix i and t :: RefreshToken and u tok' v' w
    let ?t = "t\<lparr>rt_Status := RefreshTokenStatusUsed, rt_UsedAt := pg_time (rq_now c 0)\<rparr>"
    assume t: "map_of (au_tokens db) i = Some t"
      and nt: "new_token env c 0 (rq_now c 0) (rq_newID c 0) (rt_FamilyID t) (us_ID u) (rt_SessionID t) i = Inr (tok', v')"
      and w: "token_row_of tok' = Some w" and db1: "au_tokens db1 = AList.update i ?t (au_tokens db) @ [(rt_ID w, w)]"
    have "varchar_col 32 (rt_Selector tok') = Some (rt_Selector tok')" using new_token_inr [OF nt] by simp
    then have new: "rt_ID w = pad 26 (rq_newID c 0)" "rt_Selector w = randomURL (rq_rand c 0) 12"
      using w new_token_inr [OF nt] assms(6) by (auto simp: token_row_of_def split: option.splits if_splits)
    note m = rows_mark(1,2) [OF assms(2) t mark_used kept_refl, of "pg_time (rq_now c 0)"]
    have ids: "fst ` set (AList.update i ?t (au_tokens db)) = fst ` set (au_tokens db)" using m(1) by (metis set_map)
    have sels: "rt_Selector ` snd ` set (AList.update i ?t (au_tokens db)) = rt_Selector ` snd ` set (au_tokens db)"
      using m(2) by (metis set_map image_comp)
    have "map_of (au_tokens db1) (pad 26 (rq_newID c' 0)) = None"
      using assms(3,4) new(1) ids unfolding smooth_def db1 map_of_eq_None_iff by auto
    moreover have "randomURL (rq_rand c' 0) 12 \<notin> rt_Selector ` snd ` set (au_tokens db)" using assms(3) by (force simp: smooth_def)
    then have "randomURL (rq_rand c' 0) 12 \<notin> rt_Selector ` snd ` set (au_tokens db1)"
      using assms(5) new(2) unfolding db1 set_append image_Un sels by simp
    then have "\<forall>t\<in>snd ` set (au_tokens db1). rt_Selector t \<noteq> randomURL (rq_rand c' 0) 12" by (metis imageI)
    ultimately show ?thesis using assms(3) unfolding smooth_def by blast
  qed
qed

lemma sample_history:
  obtains a db1 a' db2 where "Register sample_auth_env (auth_call ''r'' 1) sample_register empty_auth_db = (Inr a, db1)"
    "auth_step\<^sup>*\<^sup>* empty_auth_db db1" "smooth sample_auth_env (auth_call ''s'' 2) db1"
    "RefreshToken_handler sample_auth_env (auth_call ''s'' 2) (as_RefreshToken a) db1 = (Inr a', db2)" "auth_step\<^sup>*\<^sup>* db1 db2"
    "login_ready sample_auth_env (auth_call ''s'' 2) '''' db1" "redeemable sample_auth_env (as_RefreshToken a) (pg_time 1000) db1"
    "smooth sample_auth_env (auth_call ''q'' 3) db2"
proof -
  obtain a db1 where reg: "Register sample_auth_env (auth_call ''r'' 1) sample_register empty_auth_db = (Inr a, db1)"
    using register_runs [OF sample_ready] by blast
  have st: "auth_step empty_auth_db db1"
    using reg by (intro auth_step.call [of sample_auth_env "auth_call ''r'' 1" "ReqRegister sample_register" _ None]) (simp add: outcome_def)
  have inv: "token_inv db1" using st auth_reachable_inv by blast
  obtain tw sw where add: "au_tokens db1 = [(key26 ''rxxxx'', tw)]" "rt_Selector tw = randomURL (\<lambda>n. 1) 12"
      "au_sessions db1 = [(key26 ''rxx'', sw)]" "se_FamilyID sw = key26 ''rxxx''"
    using Register_adds [OF reg] by (auto simp: auth_call_def empty_auth_db_def numeral_eq_Suc)
  have sel: "randomURL (\<lambda>n. (1 :: 8 word)) 12 \<noteq> randomURL (\<lambda>n. 2) 12" unfolding randomURL_inj by (auto intro: exI [of _ 0])
  have keys: "pad 26 ''s'' \<noteq> key26 ''rxxxx''" "pad 26 ''s'' \<noteq> key26 ''rxx''" "pad 26 ''sx'' \<noteq> key26 ''rxxx''" "pad 26 ''sxx'' \<noteq> key26 ''rxxxx''"
    by code_simp+
  have smooth: "smooth sample_auth_env (auth_call ''s'' 2) db1"
    using add sel keys by (simp add: smooth_def auth_call_def sample_auth_env_def)
  have ready: "login_ready sample_auth_env (auth_call ''s'' 2) '''' db1"
    using add sel keys by (simp add: login_ready_def session_ready_def auth_call_def sample_auth_env_def text_varchar_col_def numeral_eq_Suc)
  have red: "redeemable sample_auth_env (as_RefreshToken a) (pg_time 1000) db1"
    using Register_issues [OF reg] by (simp add: sample_auth_env_def auth_call_def)
  have "rq_now (auth_call ''s'' 2) 0 < pg_time 1000" by (simp add: auth_call_def pg_time_def)
  then obtain a' db2 where ref: "RefreshToken_handler sample_auth_env (auth_call ''s'' 2) (as_RefreshToken a) db1 = (Inr a', db2)"
    using refresh_runs [OF inv red smooth] by blast
  have "auth_step db1 db2"
    using ref by (intro auth_step.call [of sample_auth_env "auth_call ''s'' 2" "ReqRefresh (as_RefreshToken a)" _ None]) (simp add: outcome_def)
  moreover have "smooth sample_auth_env (auth_call ''q'' 3) db2"
  proof (rule smooth_later [OF ref inv])
    have "randomURL (\<lambda>n. (1 :: 8 word)) 12 \<noteq> randomURL (\<lambda>n. 3) 12" unfolding randomURL_inj by (auto intro: exI [of _ 0])
    moreover have "pad 26 ''q'' \<noteq> key26 ''rxxxx''" by code_simp
    ultimately show "smooth sample_auth_env (auth_call ''q'' 3) db1" using add by (simp add: smooth_def auth_call_def sample_auth_env_def)
    show "pad 26 (rq_newID (auth_call ''q'' 3) 0) \<noteq> pad 26 (rq_newID (auth_call ''s'' 2) 0)" by (simp add: auth_call_def pad_def)
    show "randomURL (rq_rand (auth_call ''q'' 3) 0) 12 \<noteq> randomURL (rq_rand (auth_call ''s'' 2) 0) 12"
      unfolding randomURL_inj by (auto intro: exI [of _ 0] simp: auth_call_def)
    show "length (rq_newID (auth_call ''s'' 2) 0) \<le> 26" by (simp add: auth_call_def)
  qed
  ultimately show thesis using that reg st smooth ref ready red by blast
qed

lemma sample_email: "''a@b.io'' = TrimSpace (ToLower (rq_lower (auth_call ''r'' 1)) (rg_Email sample_register))"
proof -
  have "ToLower (\<lambda>s. s) ''a@b.io'' = ''a@b.io''" by code_simp
  then show ?thesis by (simp add: auth_call_def sample_register_def TrimSpace_id printable_def)
qed

text \<open>Tables with one OAuth flow, and a request that completes it.\<close>

definition sample_flows :: auth_db where
  "sample_flows = empty_auth_db\<lparr>au_flows := [(''st'', \<lparr>of_State = ''st'', of_Provider = ''google'', of_RedirectURI = ''u'', of_CodeChallenge = '''',
     of_UserAgent = '''', of_CreatedAt = 0, of_ExpiresAt = 10\<rparr>)]\<rparr>"

definition sample_completion :: CompleteOAuthRequest where
  "sample_completion = \<lparr>co_Provider = ''google'', co_State = ''st'', co_Code = ''c'', co_CodeVerifier = ''v''\<rparr>"

section \<open>Tokens\<close>





lemma active_mark:
  assumes "\<forall>u. (i, u) \<in> set xs \<longrightarrow> rt_Status u = RefreshTokenStatusUsed"
  shows "length (filter (\<lambda>t. rt_FamilyID t = f \<and> rt_Status t = RefreshTokenStatusActive)
      (map snd (AList.map_entry i (\<lambda>t. t\<lparr>rt_Status := RefreshTokenStatusUsed, rt_UsedAt := ts\<rparr>) xs))) =
    length (filter (\<lambda>t. rt_FamilyID t = f \<and> rt_Status t = RefreshTokenStatusActive) (map snd xs))"
  using assms
proof (induction xs)
  case (Cons x xs)
  obtain j u where x: "x = (j, u)" by (cases x)
  have st: "rt_Status u = RefreshTokenStatusUsed" if "j = i" using spec [OF Cons.prems, of u] that by (simp add: x)
  have "\<forall>u. (i, u) \<in> set xs \<longrightarrow> rt_Status u = RefreshTokenStatusUsed" using Cons.prems by (meson list.set_intros(2))
  from Cons.IH [OF this] st show ?case by (cases "j = i") (simp_all add: x token_status_defs)
qed simp

text \<open>After a refresh the row that was redeemed is used, and the family has one active token.\<close>

lemma refresh_one_active:
  assumes "token_inv db" "RefreshToken_handler env c tok db = (Inr a, db1)" "(i, t) \<in> set (au_tokens db)"
    "fst (splitSelectorValidator tok) = rt_Selector t"
  shows "length (filter (\<lambda>t. rt_Status t = RefreshTokenStatusActive) (family db1 (rt_FamilyID t))) = 1"
    "\<forall>u. (i, u) \<in> set (au_tokens db1) \<longrightarrow> rt_Status u = RefreshTokenStatusUsed"
    "\<exists>u. map_of (au_users db1) (rt_UserID t) = Some u \<and> CanAuthenticate u \<and> us_ID u = rt_UserID t"
    "\<exists>se. map_of (au_sessions db1) (rt_SessionID t) = Some se"
proof -
  note ok = token_invD [OF assms(1,3)]
  obtain v s m n where r: "refresh_tx env c (rt_Selector t) v (rq_faults c) 1 db = (Inr (s, m), n, db1)"
    using assms(2,4) by (auto elim: RefreshToken_inr)
  obtain j t0 u tok' v' w where
    s: "map_of (au_tokens db) j = Some t0" "rt_Selector t0 = rt_Selector t" "rt_Status t0 = RefreshTokenStatusActive"
      "map_of (au_users db) (key26 (rt_UserID t0)) = Some u" "CanAuthenticate u"
      "new_token env c 0 (rq_now c 0) (rq_newID c 0) (rt_FamilyID t0) (us_ID u) (rt_SessionID t0) j = Inr (tok', v')"
      "token_row_of tok' = Some w" "fresh_token db w"
      "au_tokens db1 = AList.update j (t0\<lparr>rt_Status := RefreshTokenStatusUsed, rt_UsedAt := pg_time (rq_now c 0)\<rparr>) (au_tokens db) @ [(rt_ID w, w)]"
      "fam_of db1 = fam_of db" "au_users db1 = au_users db"
    by (rule refresh_success [OF r assms(1)])
  have t0: "t0 = t" using selector_unique [OF assms(1) s(1) ok(1)] s(2) by simp
  then have j: "j = i" using token_invD(2) [OF assms(1) map_of_SomeD [OF s(1)]] ok(2) by simp
  have len: "length (rt_UserID t) = 26" "length (rt_FamilyID t) = 26" using ok(3) by (auto simp: token_row_ok_def)
  have w: "rt_Status w = RefreshTokenStatusActive" "rt_FamilyID w = rt_FamilyID t"
    using token_row_of_Some [OF s(7)] new_token_inr [OF s(6)] len t0 by auto
  let ?t = "t\<lparr>rt_Status := RefreshTokenStatusUsed, rt_UsedAt := pg_time (rq_now c 0)\<rparr>"
  obtain us where us: "\<forall>u\<in>set us. rt_Status u = RefreshTokenStatusUsed"
      "filter (\<lambda>x. rt_FamilyID x = rt_FamilyID t) (map snd (AList.update i ?t (au_tokens db))) = us @ [?t]"
    using family_mark [OF assms(1) ok(1) _ mark_used] s(3) t0 by blast
  have "family db1 (rt_FamilyID t) = us @ [?t, w]" using us(2) w(2) by (simp add: family_def s(9) t0 j)
  moreover have "filter (\<lambda>t. rt_Status t = RefreshTokenStatusActive) us = []" using us(1) by (auto simp: token_status_defs)
  ultimately show "length (filter (\<lambda>t. rt_Status t = RefreshTokenStatusActive) (family db1 (rt_FamilyID t))) = 1"
    using w(1) by (simp add: token_status_defs)
  have "rt_ID w \<noteq> i" using s(8) ok(1) by (auto simp: fresh_token_def)
  then show "\<forall>u. (i, u) \<in> set (au_tokens db1) \<longrightarrow> rt_Status u = RefreshTokenStatusUsed"
    using AList_update_map [OF _ s(1), of "?t"] assms(1) by (auto simp: s(9) t0 j token_inv_def)
  show "\<exists>u. map_of (au_users db1) (rt_UserID t) = Some u \<and> CanAuthenticate u \<and> us_ID u = rt_UserID t"
    using s(4,5,11) t0 len users_okD map_of_SomeD [OF s(4)] assms(1) by (auto simp: key26_def token_inv_def)
  show "\<exists>se. map_of (au_sessions db1) (rt_SessionID t) = Some se"
    using ok(3) unfolding token_row_ok_def s(10) [symmetric] by (auto simp: fam_of_def)
qed

text \<open>Two refreshes of one token that overlap: the row is read without a lock, and marking it used has no condition
  on its status. When a second call has read the row while it was active and goes on after the first call committed,
  it succeeds too, and the family then has two active tokens, so the single use of a token rests on refreshes not
  overlapping.\<close>

theorem concurrent_refresh_forks:
  assumes "auth_step\<^sup>*\<^sup>* empty_auth_db db" "(i, t) \<in> set (au_tokens db)" "RefreshToken_handler env c tok db = (Inr a, db1)"
    "fst (splitSelectorValidator tok) = rt_Selector t" "smooth env' c' db1"
  shows "\<exists>x db2. run_tx (rotate_tx env' c' (rq_now c' 0) t) no_faults db1 = (Inr x, db2) \<and>
    length (filter (\<lambda>t. rt_Status t = RefreshTokenStatusActive) (family db2 (rt_FamilyID t))) = 2"
proof -
  have inv: "token_inv db" by (rule auth_reachable_inv [OF assms(1)])
  note ok = token_invD [OF inv assms(2)]
  note one = refresh_one_active [OF inv assms(3,2,4)]
  have len: "length (rt_ID t) = 26" "length (rt_UserID t) = 26" "length (rt_SessionID t) = 26" "length (rt_FamilyID t) = 26"
    using ok(2,3) by (auto simp: token_row_ok_def)
  obtain u se where u: "map_of (au_users db1) (rt_UserID t) = Some u" "CanAuthenticate u" "us_ID u = rt_UserID t"
      "map_of (au_sessions db1) (rt_SessionID t) = Some se" using one(3,4) by blast
  obtain s m n' db2 w where r: "rotate_tx env' c' (rq_now c' 0) t no_faults 1 db1 = (Inr (s, m), n', db2)"
      "au_tokens db2 = AList.map_entry (rt_ID t) (\<lambda>t. t\<lparr>rt_Status := RefreshTokenStatusUsed, rt_UsedAt := pg_time (rq_now c' 0)\<rparr>) (au_tokens db1) @ [(rt_ID w, w)]"
      "rt_Status w = RefreshTokenStatusActive" "rt_FamilyID w = rt_FamilyID t"
    using rotate_tx_runs [OF assms(5) u len, of 1] by blast
  have "run_tx (rotate_tx env' c' (rq_now c' 0) t) no_faults db1 = (Inr (s, m), db2)" using r(1) by (simp add: run_tx_inr)
  moreover have "length (filter (\<lambda>t. rt_Status t = RefreshTokenStatusActive) (family db2 (rt_FamilyID t))) = 2"
    using active_mark [of "rt_ID t" "au_tokens db1" "rt_FamilyID t" "pg_time (rq_now c' 0)"] one(1,2) r(2-4) ok(2)
    by (simp add: family_def)
  ultimately show ?thesis by blast
qed

theorem concurrent_refresh_forks_witness:
  "\<exists>db i t a db1 x db2. auth_step\<^sup>*\<^sup>* empty_auth_db db \<and> (i, t) \<in> set (au_tokens db) \<and>
     (\<exists>tok. RefreshToken_handler sample_auth_env (auth_call ''s'' 2) tok db = (Inr a, db1)) \<and>
     run_tx (rotate_tx sample_auth_env (auth_call ''q'' 3) (rq_now (auth_call ''q'' 3) 0) t) no_faults db1 = (Inr x, db2) \<and>
     length (filter (\<lambda>t. rt_Status t = RefreshTokenStatusActive) (family db2 (rt_FamilyID t))) = 2"
proof (rule sample_history)
  fix a db1 a' db2
  assume h: "auth_step\<^sup>*\<^sup>* empty_auth_db db1" "smooth sample_auth_env (auth_call ''q'' 3) db2" "redeemable sample_auth_env (as_RefreshToken a) (pg_time 1000) db1"
    "RefreshToken_handler sample_auth_env (auth_call ''s'' 2) (as_RefreshToken a) db1 = (Inr a', db2)"
  obtain i t where t: "(i, t) \<in> set (au_tokens db1)" "fst (splitSelectorValidator (as_RefreshToken a)) = rt_Selector t"
    using h(3) by (auto simp: redeemable_def)
  show ?thesis using concurrent_refresh_forks [OF h(1) t(1) h(4) t(2) h(2)] h t(1) by blast
qed

text \<open>No family is ever revoked: presenting a used token is answered as reuse, but the revocation of the family
  runs in the transaction that this answer rolls back, so the tables are as before; and in no history does any
  token have the status "compromised". The documentation says that reuse burns the whole family.\<close>

theorem reuse_never_revokes:
  assumes "auth_step\<^sup>*\<^sup>* empty_auth_db db"
  shows "\<forall>(i, t)\<in>set (au_tokens db). rt_Status t \<noteq> RefreshTokenStatusCompromised \<and>
    (rt_Status t = RefreshTokenStatusUsed \<and> splitSelectorValidator tok = (rt_Selector t, v) \<and> v \<noteq> '''' \<and> rq_now c 0 < rt_ExpiresAt t \<and>
     Password_Compare (ae_IDKey env) (rt_ValidatorHash t) v \<and> rq_ctxErr c = None \<and> rq_faults c = no_faults \<and> rt_Selector t \<noteq> '''' \<longrightarrow>
     RefreshToken_handler env c tok db =
       (Inl (WithCause ErrReuse (WithMeta ''family_id'' (rt_FamilyID t) (Unauthenticated ''REUSE_DETECTED''))), db))"
proof (clarify, intro conjI impI)
  fix i t assume t: "(i, t) \<in> set (au_tokens db)"
  have inv: "token_inv db" by (rule auth_reachable_inv [OF assms])
  note ok = token_invD [OF inv t]
  have "t \<in> set (family db (rt_FamilyID t))" using ok family_mem [OF inv] by simp
  moreover have "chain_ok (family db (rt_FamilyID t))" using inv by (simp add: token_inv_def)
  ultimately show "rt_Status t \<noteq> RefreshTokenStatusCompromised"
    by (cases "family db (rt_FamilyID t)" rule: rev_exhaust) (auto simp: chain_ok_def token_status_defs)
  assume a: "rt_Status t = RefreshTokenStatusUsed \<and> splitSelectorValidator tok = (rt_Selector t, v) \<and> v \<noteq> '''' \<and> rq_now c 0 < rt_ExpiresAt t \<and>
     Password_Compare (ae_IDKey env) (rt_ValidatorHash t) v \<and> rq_ctxErr c = None \<and> rq_faults c = no_faults \<and> rt_Selector t \<noteq> ''''"
  have "find (\<lambda>(i, u). rt_Selector u = rt_Selector t) (au_tokens db) = Some (i, t)"
    using find_selector [OF inv t] .
  moreover have "tok \<noteq> ''''" using a by (auto simp: splitSelectorValidator_def)
  ultimately show "RefreshToken_handler env c tok db =
       (Inl (WithCause ErrReuse (WithMeta ''family_id'' (rt_FamilyID t) (Unauthenticated ''REUSE_DETECTED''))), db)"
    using a by (simp add: RefreshToken_handler_def ctxDone_def run_tx_def refresh_tx_def tx_lookup_def GetBySelector_def scan_row_def
        VerifyValidator_def ae_Compare_def ClassifyUse_def token_status_defs RevokeFamily_def tx_defs Let_def respond_def)
qed

theorem reuse_never_revokes_witness:
  "\<exists>db i t. auth_step\<^sup>*\<^sup>* empty_auth_db db \<and> (i, t) \<in> set (au_tokens db) \<and> rt_Status t = RefreshTokenStatusUsed \<and>
     (\<forall>(i, t)\<in>set (au_tokens db). rt_Status t \<noteq> RefreshTokenStatusCompromised) \<and>
     (\<exists>tok. RefreshToken_handler sample_auth_env (auth_call ''t'' 3) tok db =
       (Inl (WithCause ErrReuse (WithMeta ''family_id'' (rt_FamilyID t) (Unauthenticated ''REUSE_DETECTED''))), db))"
proof (rule sample_history)
  fix a db1 a' db2
  assume h: "auth_step\<^sup>*\<^sup>* empty_auth_db db1" "auth_step\<^sup>*\<^sup>* db1 db2"
    "RefreshToken_handler sample_auth_env (auth_call ''s'' 2) (as_RefreshToken a) db1 = (Inr a', db2)"
  have db2: "auth_step\<^sup>*\<^sup>* empty_auth_db db2" using h(1,2) by simp
  obtain i t v where t: "(i, t) \<in> set (au_tokens db2)" "rt_Status t = RefreshTokenStatusUsed"
      "splitSelectorValidator (as_RefreshToken a) = (rt_Selector t, v)" "rt_Selector t \<noteq> ''''" "v \<noteq> ''''"
      "Password_Compare (ae_IDKey sample_auth_env) (rt_ValidatorHash t) v" "rq_now (auth_call ''s'' 2) 0 < rt_ExpiresAt t"
    using rotated_row [OF h(3) auth_reachable_inv [OF h(1)]] by blast
  note r = reuse_never_revokes [OF db2, of "as_RefreshToken a" v "auth_call ''t'' 3" sample_auth_env]
  have now: "rq_now (auth_call ''t'' 3) 0 < rt_ExpiresAt t" "rq_ctxErr (auth_call ''t'' 3) = None" "rq_faults (auth_call ''t'' 3) = no_faults"
    using t(7) by (simp_all add: auth_call_def)
  have none: "\<forall>(i, t)\<in>set (au_tokens db2). rt_Status t \<noteq> RefreshTokenStatusCompromised" using r by fast
  have "RefreshToken_handler sample_auth_env (auth_call ''t'' 3) (as_RefreshToken a) db2 =
       (Inl (WithCause ErrReuse (WithMeta ''family_id'' (rt_FamilyID t) (Unauthenticated ''REUSE_DETECTED''))), db2)"
    using bspec [OF r t(1)] t now by simp
  then show ?thesis using db2 t(1,2) none by blast
qed

text \<open>C33: What the service hands out works: in every history, the refresh token returned by a login, a registration or a
  refresh is accepted by the next refresh, as long as no fault occurs, the new identifier and selector are not taken,
  the signer works, and the token's lifetime (from the clock reading of the call that issued it) is not over.\<close>

theorem issued_token_refreshes:
  assumes "auth_step\<^sup>*\<^sup>* empty_auth_db db"
    "Login env c email password label db = (Inr a, db1) \<and> k = 0 \<or> Register env c req db = (Inr a, db1) \<and> k = 2 \<or>
     RefreshToken_handler env c tok db = (Inr a, db1) \<and> k = 0"
    "smooth env c' db1" "rq_now c' 0 < pg_time (rq_now c k + ae_RefreshTokenTTL env)"
  shows "\<exists>a' db2. RefreshToken_handler env c' (as_RefreshToken a) db1 = (Inr a', db2)"
proof -
  have i: "token_inv db" by (rule auth_reachable_inv [OF assms(1)])
  have "auth_step db db1"
    using assms(2) auth_step.call [of env c "ReqLogin email password label" db None db1] auth_step.call [of env c "ReqRegister req" db None db1]
      auth_step.call [of env c "ReqRefresh tok" db None db1] by (auto simp: outcome_def)
  then have "token_inv db1" using i auth_step_tokens token_steps_inv by blast
  moreover have "redeemable env (as_RefreshToken a) (pg_time (rq_now c k + ae_RefreshTokenTTL env)) db1"
    using assms(2) Login_issues Register_issues Refresh_issues i by metis
  ultimately show ?thesis using refresh_runs assms(3,4) by blast
qed

theorem issued_token_refreshes_witness:
  "\<exists>a db1 a' db2. Register sample_auth_env (auth_call ''r'' 1) sample_register empty_auth_db = (Inr a, db1) \<and>
     RefreshToken_handler sample_auth_env (auth_call ''s'' 2) (as_RefreshToken a) db1 = (Inr a', db2)"
proof (rule sample_history)
  fix a db1 a' db2
  assume h: "Register sample_auth_env (auth_call ''r'' 1) sample_register empty_auth_db = (Inr a, db1)"
    "smooth sample_auth_env (auth_call ''s'' 2) db1"
  have "rq_now (auth_call ''s'' 2) 0 < pg_time (rq_now (auth_call ''r'' 1) 2 + ae_RefreshTokenTTL sample_auth_env)"
    by (simp add: auth_call_def sample_auth_env_def pg_time_def)
  from issued_token_refreshes [OF rtranclp.rtrancl_refl _ h(2) this, where req = sample_register and a = a] h(1) show ?thesis by blast
qed

section \<open>Logging in\<close>





section \<open>OAuth\<close>

text \<open>C34: An OAuth state is good for one attempt: when the provider is known and no fault hits its transaction, an attempt
  to complete a flow consumes the state, whatever its outcome; it succeeds only if the state was stored; and
  every later attempt with that state, by anyone, with any provider, is refused and changes nothing.\<close>

theorem oauth_state_single_use:
  assumes "CompleteOAuth env c no_faults req db = (r, db1)" "rq_ctxErr c = None" "ae_registry env = Some reg" "reg (co_Provider req) \<noteq> None"
  shows "map_of (au_flows db1) (co_State req) = None \<and> (is_Inr r \<longrightarrow> map_of (au_flows db) (co_State req) \<noteq> None) \<and>
    (\<forall>env' c' fl' req'. co_State req' = co_State req \<longrightarrow> (\<exists>e. CompleteOAuth env' c' fl' req' db1 = (Inl e, db1)))"
proof -
  obtain q where q: "reg (co_Provider req) = Some q" using assms(4) by blast
  have "map_of (au_flows db1) (co_State req) = None \<and> (is_Inr r \<longrightarrow> map_of (au_flows db) (co_State req) \<noteq> None)"
  proof (cases "run_tx (consume_tx (co_State req)) no_faults db")
    case (Pair x d)
    show ?thesis
    proof (cases x)
      case (Inl e)
      then show ?thesis using consume_run(2) [of "co_State req" db e d] assms(1-3) q Pair
        by (auto simp: CompleteOAuth_def ctxDone_def is_Inr_def)
    next
      case (Inr flow)
      then have f: "map_of (au_flows db) (co_State req) = Some flow" "map_of (au_flows d) (co_State req) = None"
        using consume_run(1) Pair by blast+
      have "au_flows db1 = au_flows d"
        using assms(1-3) q Pair Inr oauth_run_flows
        by (auto simp: CompleteOAuth_def ctxDone_def respond_def split: sum.splits if_splits prod.splits)
      then show ?thesis using f by simp
    qed
  qed
  then show ?thesis using oauth_refused by metis
qed

theorem oauth_state_single_use_witness:
  "(\<exists>e db1. CompleteOAuth sample_auth_env (auth_call ''s'' 2) no_faults sample_completion sample_flows = (Inl e, db1) \<and>
     map_of (au_flows sample_flows) ''st'' \<noteq> None \<and> map_of (au_flows db1) ''st'' = None \<and>
     (\<exists>e'. CompleteOAuth sample_auth_env (auth_call ''t'' 3) no_faults sample_completion db1 = (Inl e', db1)))"
proof -
  obtain r db1 where r: "CompleteOAuth sample_auth_env (auth_call ''s'' 2) no_faults sample_completion sample_flows = (r, db1)" by fastforce
  have st: "co_State sample_completion = ''st''" "map_of (au_flows sample_flows) ''st'' \<noteq> None"
    by (simp_all add: sample_completion_def sample_flows_def)
  have c: "rq_ctxErr (auth_call ''s'' 2) = None" by (simp add: auth_call_def)
  have reg: "ae_registry sample_auth_env = Some (\<lambda>p. Some \<lparr>op_Name = p, op_AuthorizationURL = (\<lambda>r s ch. Inr r),
      op_Exchange = (\<lambda>code r v. Inl (ExtErr code)), op_Profile = (\<lambda>t. Inl (ExtErr ''''))\<rparr>)" by (simp add: sample_auth_env_def)
  have inl: "\<exists>e. r = Inl e"
    using r by (auto simp: CompleteOAuth_def ctxDone_def sample_auth_env_def auth_call_def split: prod.splits sum.splits)
  show ?thesis using oauth_state_single_use [OF r c reg] inl r st by auto
qed

end
