(* ===== verification/Auth_Key_Properties.thy ===== *)
theory Auth_Key_Properties
  imports Auth_Keys Auth_Properties
begin

text \<open>
  Access tokens and signing keys over the life of the service: at most one key is active, and a token verifies
  until it expires in every later run of the service, however often keys were rotated in between. A rotation does not
  reach the running signer, and a bad token is answered with an error; the comments say otherwise.
\<close>

declare be_bytes.simps [simp del]

section \<open>Claims\<close>

lemma parse_claims_json:
  assumes "- (2 ^ 31) \<le> cl_Role c" "cl_Role c < 2 ^ 31" "in_i64 (cl_Iat c)" "in_i64 (cl_Exp c)"
  shows "parse_claims (claims_json c) = Some c"
proof -
  have "json_str (claims_json c) ''sub'' = Some (cl_Sub c)" "json_int (- (2 ^ 31)) (2 ^ 31 - 1) (claims_json c) ''role'' = Some (cl_Role c)"
    "json_str (claims_json c) ''scope'' = Some (cl_Scope c)" "json_str (claims_json c) ''jti'' = Some (cl_Jti c)"
    "json_str (claims_json c) ''iss'' = Some (cl_Iss c)" "json_arr (claims_json c) ''aud'' = Some (cl_Aud c)"
    "json_int (- (2 ^ 63)) (2 ^ 63 - 1) (claims_json c) ''iat'' = Some (cl_Iat c)"
    "json_int (- (2 ^ 63)) (2 ^ 63 - 1) (claims_json c) ''exp'' = Some (cl_Exp c)"
    using assms by (simp_all add: claims_json_def json_str_def json_int_def json_arr_def in_i64_def)
  then show ?thesis by (simp add: parse_claims_def)
qed

text \<open>Claims as a token carries them: times in whole seconds.\<close>

definition whole_seconds :: "AccessTokenClaims \<Rightarrow> AccessTokenClaims" where
  "whole_seconds c = c\<lparr>ac_IssuedAt := from_unix (to_unix (ac_IssuedAt c)), ac_ExpiresAt := from_unix (to_unix (ac_ExpiresAt c))\<rparr>"

definition claims_ok :: "AccessTokenClaims \<Rightarrow> bool" where
  "claims_ok c \<longleftrightarrow> - (2 ^ 31) \<le> ac_SystemRole c \<and> ac_SystemRole c < 2 ^ 31 \<and> in_i64 (to_unix (ac_IssuedAt c)) \<and> in_i64 (to_unix (ac_ExpiresAt c))"

lemma verify_signed:
  assumes "jose_ok jo" "Signer_Sign jo jti s c = Inr tok" "js_verifiers s' (js_activeKID s) = Some (jo_public jo (js_signer s))" "claims_ok c"
  shows "Signer_Verify jo now s' tok =
    (if to_unix now \<ge> to_unix (ac_ExpiresAt c) then Inl (Unauthenticated ''TOKEN_EXPIRED'') else Inr (whole_seconds c, jti))"
proof -
  let ?cl = "\<lparr>cl_Sub = ac_Subject c, cl_Role = ac_SystemRole c, cl_Scope = ac_Scope c, cl_Jti = jti, cl_Iss = ac_Issuer c,
      cl_Aud = ac_Audience c, cl_Iat = to_unix (ac_IssuedAt c), cl_Exp = to_unix (ac_ExpiresAt c)\<rparr>"
  have "jo_sign jo (js_signer s) (js_activeKID s) (claims_json ?cl) = Inr tok"
    using assms(2) by (auto simp: Signer_Sign_def Let_def split: sum.splits)
  then obtain j where "jo_parse jo tok = Some (js_activeKID s, j)" "jo_verify jo j (jo_public jo (js_signer s)) = Some (claims_json ?cl)"
    using assms(1) unfolding jose_ok_def by blast
  moreover have "parse_claims (claims_json ?cl) = Some ?cl" using assms(4) by (intro parse_claims_json) (auto simp: claims_ok_def)
  ultimately show ?thesis using assms(3) by (simp add: Signer_Verify_def whole_seconds_def)
qed

section \<open>The table of keys\<close>

text \<open>A row: a private key sealed under the master key, and its public key.\<close>

definition key_row_ok :: "jose \<Rightarrow> aead \<Rightarrow> string \<times> SigningKey \<Rightarrow> bool" where
  "key_row_ok jo cipher p \<longleftrightarrow> sk_KID (snd p) = fst p \<and> sk_Status (snd p) \<in> {SigningKeyStatusActive, SigningKeyStatusRetired} \<and>
     (\<exists>priv der. jo_pkcs8 jo priv = Inr der \<and> Cipher_Decrypt cipher (sk_PrivateEncrypted (snd p)) = Inr der \<and>
        jo_jwk jo (jo_public jo priv) = Inr (sk_PublicJWK (snd p)))"

definition keys_inv :: "jose \<Rightarrow> aead \<Rightarrow> (string \<times> SigningKey) list \<Rightarrow> bool" where
  "keys_inv jo cipher ks \<longleftrightarrow> distinct (map fst ks) \<and> list_all (key_row_ok jo cipher) ks \<and>
     (\<forall>p\<in>set ks. \<forall>q\<in>set ks. sk_Status (snd p) = SigningKeyStatusActive \<and> sk_Status (snd q) = SigningKeyStatusActive \<longrightarrow> p = q)"

text \<open>Later tables keep every key's public part.\<close>

definition keys_kept :: "(string \<times> SigningKey) list \<Rightarrow> (string \<times> SigningKey) list \<Rightarrow> bool" where
  "keys_kept ks ks' \<longleftrightarrow> (\<forall>i k. map_of ks i = Some k \<longrightarrow> (\<exists>k'. map_of ks' i = Some k' \<and> sk_PublicJWK k' = sk_PublicJWK k))"

lemma keys_kept_refl [simp]: "keys_kept ks ks" by (simp add: keys_kept_def)

lemma keys_kept_trans: "keys_kept ks ks' \<Longrightarrow> keys_kept ks' ks'' \<Longrightarrow> keys_kept ks ks''"
  unfolding keys_kept_def by metis

lemma new_key_inr:
  assumes "new_key jo cipher c gen now = Inr (k, priv)" "opens_sealed cipher"
  shows "sk_KID k = NewKID (rq_rand c 0) \<and> sk_Status k = SigningKeyStatusActive \<and> sk_CreatedAt k = now \<and> gen = Inr priv \<and>
    (\<exists>der. jo_pkcs8 jo priv = Inr der \<and> Cipher_Decrypt cipher (sk_PrivateEncrypted k) = Inr der \<and> jo_jwk jo (jo_public jo priv) = Inr (sk_PublicJWK k))"
  using assms(1) Decrypt_Encrypt [OF assms(2)]
  by (auto simp: new_key_def GenerateSigningKey_def split: sum.splits)

lemma update_fresh: "map_of xs i = None \<Longrightarrow> AList.update i w xs = xs @ [(i, w)]"
  by (induction xs) (auto split: if_splits)

text \<open>Inserting a new active key once no other is active.\<close>

lemma insert_key:
  assumes "Key_Upsert k fl n db = (Inr u, n', db')" "sk_Status k = SigningKeyStatusActive" "map_of (au_keys db) (sk_KID k) = None"
  shows "\<exists>w. au_keys db' = au_keys db @ [(sk_KID k, w)] \<and> sk_KID w = sk_KID k \<and> sk_Status w = SigningKeyStatusActive \<and>
    sk_PrivateEncrypted w = sk_PrivateEncrypted k \<and> sk_PublicJWK w = sk_PublicJWK k \<and> (\<forall>p\<in>set (au_keys db). sk_Status (snd p) \<noteq> SigningKeyStatusActive)"
proof -
  let ?w = "k\<lparr>sk_CreatedAt := pg_time (sk_CreatedAt k), sk_RetiredAt := (if sk_RetiredAt k = zero_time then zero_time else pg_time (sk_RetiredAt k))\<rparr>"
  have a: "\<not> list_ex (\<lambda>(i, v). i \<noteq> sk_KID k \<and> sk_Status v = SigningKeyStatusActive) (au_keys db) \<and> db' = db\<lparr>au_keys := AList.update (sk_KID k) ?w (au_keys db)\<rparr>"
  proof (cases "list_ex (\<lambda>(i, v). i \<noteq> sk_KID k \<and> sk_Status v = SigningKeyStatusActive) (au_keys db)")
    case True
    then show ?thesis using assms(1,2) by (simp add: Key_Upsert_def Let_def tx_inr assms(3)) (auto simp: SigningKeyStatusActive_def assms(3))
  next
    case False
    then show ?thesis using assms(1,2) by (simp add: Key_Upsert_def Let_def tx_inr assms(3)) (auto simp: SigningKeyStatusActive_def assms(3))
  qed
  then have db': "au_keys db' = AList.update (sk_KID k) ?w (au_keys db)"
    and none: "\<not> list_ex (\<lambda>(i, v). i \<noteq> sk_KID k \<and> sk_Status v = SigningKeyStatusActive) (au_keys db)" by simp_all
  have "sk_Status (snd p) \<noteq> SigningKeyStatusActive" if "p \<in> set (au_keys db)" for p
  proof -
    have "fst p \<noteq> sk_KID k" using that assms(3) by (metis image_eqI map_of_eq_None_iff)
    then show ?thesis using none that by (auto simp: list_ex_iff)
  qed
  then show ?thesis using db' assms(2) by (simp add: update_fresh [OF assms(3)])
qed

text \<open>The effect of a rotation and of a start on the keys.\<close>

lemma find_active:
  assumes "keys_inv jo cipher ks"
  shows "find (\<lambda>(i, k). sk_Status k = SigningKeyStatusActive) ks = Some (i, k) \<longleftrightarrow> (i, k) \<in> set ks \<and> sk_Status k = SigningKeyStatusActive"
proof
  assume "find (\<lambda>(i, k). sk_Status k = SigningKeyStatusActive) ks = Some (i, k)"
  then show "(i, k) \<in> set ks \<and> sk_Status k = SigningKeyStatusActive" by (auto simp: find_Some_iff) (metis nth_mem)
next
  assume a: "(i, k) \<in> set ks \<and> sk_Status k = SigningKeyStatusActive"
  then obtain p where p: "find (\<lambda>(i, k). sk_Status k = SigningKeyStatusActive) ks = Some p"
    by (cases "find (\<lambda>(i, k). sk_Status k = SigningKeyStatusActive) ks") (auto simp: find_None_iff)
  then have "p \<in> set ks" "sk_Status (snd p) = SigningKeyStatusActive" by (auto simp: find_Some_iff case_prod_beta) 
  then have "p = (i, k)" using a assms unfolding keys_inv_def by force
  then show "find (\<lambda>(i, k). sk_Status k = SigningKeyStatusActive) ks = Some (i, k)" using p by simp
qed

definition retire :: "time \<Rightarrow> string \<Rightarrow> (string \<times> SigningKey) list \<Rightarrow> (string \<times> SigningKey) list" where
  "retire now i ks = AList.map_entry i (\<lambda>k. k\<lparr>sk_Status := SigningKeyStatusRetired, sk_RetiredAt := pg_time now\<rparr>) ks"

lemma retire_map:
  "distinct (map fst ks) \<Longrightarrow> retire now i ks = map (\<lambda>(j, k). (j, if j = i then k\<lparr>sk_Status := SigningKeyStatusRetired, sk_RetiredAt := pg_time now\<rparr> else k)) ks"
proof (induction ks)
  case (Cons x ks)
  have "i \<notin> fst ` set ks \<Longrightarrow> map (\<lambda>(j, k). (j, if j = i then k\<lparr>sk_Status := SigningKeyStatusRetired, sk_RetiredAt := pg_time now\<rparr> else k)) ks = ks"
    by (intro map_idI) force
  with Cons show ?case by (cases x) (auto simp: retire_def)
qed (simp add: retire_def)

text \<open>Retiring the active key and adding a new one keeps the invariant and all public keys.\<close>

lemma replace_active:
  assumes "keys_inv jo cipher ks" "ks1 = ks \<and> (\<forall>p\<in>set ks. sk_Status (snd p) \<noteq> SigningKeyStatusActive) \<or> ks1 = retire now i ks"
    "\<forall>p\<in>set ks1. sk_Status (snd p) \<noteq> SigningKeyStatusActive" "map_of ks (sk_KID w) = None" "key_row_ok jo cipher (sk_KID w, w)"
    "sk_Status w = SigningKeyStatusActive"
  shows "keys_inv jo cipher (ks1 @ [(sk_KID w, w)]) \<and> keys_kept ks (ks1 @ [(sk_KID w, w)])"
proof -
  have d: "distinct (map fst ks)" using assms(1) by (simp add: keys_inv_def)
  have fst: "map fst ks1 = map fst ks" using assms(2) by (auto simp: retire_map [OF d])
  have "key_row_ok jo cipher (j, k) \<Longrightarrow> key_row_ok jo cipher (j, k\<lparr>sk_Status := SigningKeyStatusRetired, sk_RetiredAt := t\<rparr>)" for j k t
    by (simp add: key_row_ok_def)
  moreover have "list_all (key_row_ok jo cipher) ks" using assms(1) by (simp add: keys_inv_def)
  ultimately have rows: "list_all (key_row_ok jo cipher) ks1"
    using assms(2) by (auto simp: retire_map [OF d] list_all_iff)
  have fresh: "sk_KID w \<notin> set (map fst ks1)" using assms(4) unfolding fst by (simp add: map_of_eq_None_iff)
  have "keys_kept ks ks1" using assms(2) by (auto simp: keys_kept_def retire_def map_of_map_entry)
  moreover have "keys_kept ks1 (ks1 @ [(sk_KID w, w)])"
    using fresh by (auto simp: keys_kept_def map_add_def map_of_eq_None_iff split: option.splits)
  ultimately have "keys_kept ks (ks1 @ [(sk_KID w, w)])" by (rule keys_kept_trans)
  then show ?thesis using fst d fresh rows assms(3,5,6) by (auto simp: keys_inv_def)
qed

lemma rotate_success:
  assumes "rotate_key_tx interval force now k fl n db = (Inr u, n', db')" "keys_inv jo cipher (au_keys db)"
    "sk_Status k = SigningKeyStatusActive" "map_of (au_keys db) (sk_KID k) = None"
  obtains ks1 w where "au_keys db' = ks1 @ [(sk_KID k, w)]" "sk_KID w = sk_KID k" "sk_Status w = SigningKeyStatusActive"
    "sk_PrivateEncrypted w = sk_PrivateEncrypted k" "sk_PublicJWK w = sk_PublicJWK k" "\<forall>p\<in>set ks1. sk_Status (snd p) \<noteq> SigningKeyStatusActive"
    "ks1 = au_keys db \<and> (\<forall>p\<in>set (au_keys db). sk_Status (snd p) \<noteq> SigningKeyStatusActive) \<or>
     (\<exists>i prev. (i, prev) \<in> set (au_keys db) \<and> sk_Status prev = SigningKeyStatusActive \<and> ks1 = retire now i (au_keys db) \<and>
        (force \<or> \<not> time_sub now (sk_CreatedAt prev) < interval))"
proof (cases "find (\<lambda>(i, k). sk_Status k = SigningKeyStatusActive) (au_keys db)")
  case None
  then have none: "\<forall>p\<in>set (au_keys db). sk_Status (snd p) \<noteq> SigningKeyStatusActive" by (auto simp: find_None_iff)
  have "Key_Upsert k fl (n + 1) db = (Inr u, n', db')" using assms(1) None by (auto simp: rotate_key_tx_def Key_GetActive_def tx_inr)
  from insert_key [OF this assms(3,4)] show thesis using that [of "au_keys db"] none by blast
next
  case (Some p)
  obtain i prev where p: "p = (i, prev)" by (cases p)
  have prev: "(i, prev) \<in> set (au_keys db)" "sk_Status prev = SigningKeyStatusActive" using find_active [OF assms(2)] Some p by auto
  then have kid: "sk_KID prev = i" using assms(2) by (auto simp: keys_inv_def list_all_iff key_row_ok_def)
  let ?db1 = "db\<lparr>au_keys := retire now i (au_keys db)\<rparr>"
  have up: "Key_Upsert k fl (n + 2) ?db1 = (Inr u, n', db')" and guard: "force \<or> \<not> time_sub now (sk_CreatedAt prev) < interval"
    using assms(1) Some p kid by (auto simp: rotate_key_tx_def Key_GetActive_def Key_MarkRetired_def retire_def tx_inr)
  have "map_of (au_keys ?db1) (sk_KID k) = None" using assms(4) by (auto simp: retire_def map_of_map_entry split: option.splits)
  from insert_key [OF up assms(3) this] show thesis using that [of "retire now i (au_keys db)"] prev guard by auto
qed

lemma rotate_inv:
  assumes "rotate_key_tx interval force now k fl n db = (Inr u, n', db')" "keys_inv jo cipher (au_keys db)"
    "new_key jo cipher c gen now = Inr (k, priv)" "opens_sealed cipher" "map_of (au_keys db) (NewKID (rq_rand c 0)) = None"
  shows "keys_inv jo cipher (au_keys db') \<and> keys_kept (au_keys db) (au_keys db')"
proof -
  note k = new_key_inr [OF assms(3,4)]
  have st: "sk_Status k = SigningKeyStatusActive" and fresh: "map_of (au_keys db) (sk_KID k) = None" using k assms(5) by simp_all
  from rotate_success [OF assms(1,2) st fresh] obtain ks1 w where w: "au_keys db' = ks1 @ [(sk_KID k, w)]" "sk_KID w = sk_KID k"
    "sk_Status w = SigningKeyStatusActive" "sk_PrivateEncrypted w = sk_PrivateEncrypted k" "sk_PublicJWK w = sk_PublicJWK k"
    "\<forall>p\<in>set ks1. sk_Status (snd p) \<noteq> SigningKeyStatusActive"
    "ks1 = au_keys db \<and> (\<forall>p\<in>set (au_keys db). sk_Status (snd p) \<noteq> SigningKeyStatusActive) \<or> (\<exists>i. ks1 = retire now i (au_keys db))"
    by metis
  have "key_row_ok jo cipher (sk_KID w, w)" using k w(3-5) by (auto simp: key_row_ok_def)
  with w(7) show ?thesis using replace_active [OF assms(2) _ w(6), of now _ w] fresh w(1,2,3) by auto
qed

lemma get_active:
  "tx_try Key_GetActive fl n db = (Inr (case fl n of Some e \<Rightarrow> Inl (ExtErr e)
     | None \<Rightarrow> (case find (\<lambda>(i, k). sk_Status k = SigningKeyStatusActive) (au_keys db) of
         None \<Rightarrow> Inl (PortsNotFound ''signing_key'' '''') | Some p \<Rightarrow> Inr (snd p))), n + 1, db)"
  by (auto simp: Key_GetActive_def tx_defs scan_row_def split: option.splits)

text \<open>The key that a start finds or makes.\<close>

lemma bootstrap_success:
  assumes "bootstrap_tx jo cipher c gen fl n db = (Inr (k, priv), n', db')" "keys_inv jo cipher (au_keys db)" "jose_ok jo"
    "opens_sealed cipher" "map_of (au_keys db) (NewKID (rq_rand c 0)) = None"
  shows "keys_inv jo cipher (au_keys db') \<and> keys_kept (au_keys db) (au_keys db') \<and>
    (\<exists>w. map_of (au_keys db') (sk_KID k) = Some w \<and> sk_Status w = SigningKeyStatusActive \<and> jo_jwk jo (jo_public jo priv) = Inr (sk_PublicJWK w))"
proof (cases "find (\<lambda>(i, k). sk_Status k = SigningKeyStatusActive) (au_keys db)")
  case None
  then have new: "new_key jo cipher c gen (rq_now c 0) = Inr (k, priv)" and up: "Key_Upsert k fl (n + 1) db = (Inr (), n', db')"
    using assms(1) by (auto simp: bootstrap_tx_def tx_bind_def [of "tx_try Key_GetActive"] get_active tx_inr split: sum.splits option.splits)
  note key = new_key_inr [OF new assms(4)]
  have fresh: "map_of (au_keys db) (sk_KID k) = None" using key assms(5) by simp
  from insert_key [OF up _ fresh] key obtain w where w: "au_keys db' = au_keys db @ [(sk_KID k, w)]" "sk_KID w = sk_KID k"
      "sk_Status w = SigningKeyStatusActive" "sk_PrivateEncrypted w = sk_PrivateEncrypted k" "sk_PublicJWK w = sk_PublicJWK k"
      "\<forall>p\<in>set (au_keys db). sk_Status (snd p) \<noteq> SigningKeyStatusActive" by blast
  have "key_row_ok jo cipher (sk_KID w, w)" using key w(3-5) by (auto simp: key_row_ok_def)
  then have "keys_inv jo cipher (au_keys db') \<and> keys_kept (au_keys db) (au_keys db')"
    using replace_active [OF assms(2) _ w(6), of 0 "[]" w] fresh w(1-3,6) by auto
  moreover have "map_of (au_keys db') (sk_KID k) = Some w" using fresh w(1) by (simp add: map_add_def)
  ultimately show ?thesis using w(3,5) key by metis
next
  case (Some p)
  obtain i act where p: "p = (i, act)" by (cases p)
  have act: "(i, act) \<in> set (au_keys db)" "sk_Status act = SigningKeyStatusActive" using find_active [OF assms(2)] Some p by auto
  have "key_row_ok jo cipher (i, act)" using act(1) assms(2) by (auto simp: keys_inv_def list_all_iff)
  then obtain priv' der where row: "sk_KID act = i" "jo_pkcs8 jo priv' = Inr der" "Cipher_Decrypt cipher (sk_PrivateEncrypted act) = Inr der"
      "jo_jwk jo (jo_public jo priv') = Inr (sk_PublicJWK act)" by (auto simp: key_row_ok_def)
  have "jo_parse_pkcs8 jo der = Inr priv'" using row(2) assms(3) by (auto simp: jose_ok_def)
  then have "db' = db" "k = act" "priv = priv'"
    using assms(1) Some p row(3)
    by (auto simp: bootstrap_tx_def tx_bind_def [of "tx_try Key_GetActive"] get_active tx_inr RSAPrivateKeyFromPKCS8_def split: option.splits)
  moreover have "map_of (au_keys db) i = Some act" using act(1) assms(2) by (auto simp: keys_inv_def)
  ultimately show ?thesis using assms(2) row act by auto
qed

section \<open>Signers\<close>

lemma load_keys_inr:
  assumes "load_keys jo what ks m = Inr m'" "distinct (map fst ks)"
  shows "m' i = (case map_of ks i of None \<Rightarrow> m i | Some b \<Rightarrow> (case jwkToRSAPublic jo b of Inl err \<Rightarrow> None | Inr pub \<Rightarrow> Some pub)) \<and>
    (\<forall>b. map_of ks i = Some b \<longrightarrow> (\<exists>pub. jwkToRSAPublic jo b = Inr pub))"
  using assms
proof (induction jo what ks m rule: load_keys.induct)
  case (2 jo what kid b ks m)
  then obtain pub where p: "jwkToRSAPublic jo b = Inr pub" "load_keys jo what ks (m(kid \<mapsto> pub)) = Inr m'"
    by (auto split: sum.splits)
  have "map_of ks kid = None" using 2(3) by (auto simp: map_of_eq_None_iff)
  then show ?case using "2.IH" [OF p] 2(3) p(1) by (cases "i = kid") (auto split: option.splits)
qed simp

definition verifiable :: "auth_db \<Rightarrow> string \<Rightarrow> (string \<times> string) list" where
  "verifiable db active = map (\<lambda>k. (sk_KID k, sk_PublicJWK k)) (filter (\<lambda>k. sk_KID k \<noteq> active)
     (sort_key (\<lambda>k. - sk_CreatedAt k) (filter (\<lambda>k. sk_Status k \<in> {SigningKeyStatusActive, SigningKeyStatusRetired}) (map snd (au_keys db)))))"

lemma verifiable_map:
  assumes "keys_inv jo cipher (au_keys db)"
  shows "distinct (map fst (verifiable db a))"
    "i \<noteq> a \<Longrightarrow> map_of (au_keys db) i = Some k \<Longrightarrow> map_of (verifiable db a) i = Some (sk_PublicJWK k)" "map_of (verifiable db a) a = None"
proof -
  have kid: "sk_KID k = i \<and> sk_Status k \<in> {SigningKeyStatusActive, SigningKeyStatusRetired}" if "(i, k) \<in> set (au_keys db)" for i k
    using that assms by (auto simp: keys_inv_def list_all_iff key_row_ok_def)
  have "map sk_KID (map snd (au_keys db)) = map fst (au_keys db)" using kid by auto
  then have "distinct (map sk_KID (map snd (au_keys db)))" using assms by (simp add: keys_inv_def del: map_map)
  then have "distinct (map sk_KID (filter (\<lambda>k. sk_Status k \<in> {SigningKeyStatusActive, SigningKeyStatusRetired}) (map snd (au_keys db))))"
    by (rule distinct_map_filter)
  then have d: "distinct (map sk_KID (sort_key (\<lambda>k. - sk_CreatedAt k) (filter (\<lambda>k. sk_Status k \<in> {SigningKeyStatusActive, SigningKeyStatusRetired}) (map snd (au_keys db)))))"
    by (simp only: distinct_map distinct_sort set_sort)
  then show 1: "distinct (map fst (verifiable db a))" by (simp add: verifiable_def comp_def distinct_map_filter)
  show "map_of (verifiable db a) a = None" by (auto simp: verifiable_def map_of_eq_None_iff)
  assume "i \<noteq> a" "map_of (au_keys db) i = Some k"
  then have "(i, sk_PublicJWK k) \<in> set (verifiable db a)" using kid map_of_SomeD by (force simp: verifiable_def)
  then show "map_of (verifiable db a) i = Some (sk_PublicJWK k)" using 1 by simp
qed

lemma bootstrap_signer:
  assumes "bootstrapSigner jo cipher c fl gen db = (Inr s, db')" "keys_inv jo cipher (au_keys db)" "jose_ok jo"
    "opens_sealed cipher" "map_of (au_keys db) (NewKID (rq_rand c 0)) = None"
  shows "keys_inv jo cipher (au_keys db') \<and> keys_kept (au_keys db) (au_keys db') \<and>
    (\<exists>w. map_of (au_keys db') (js_activeKID s) = Some w \<and> sk_Status w = SigningKeyStatusActive \<and>
       jo_jwk jo (jo_public jo (js_signer s)) = Inr (sk_PublicJWK w)) \<and>
    (\<forall>i k. map_of (au_keys db') i = Some k \<longrightarrow> (\<exists>pub. jo_parse_jwk jo (sk_PublicJWK k) = JwkRSA pub \<and> js_verifiers s i = Some pub))"
proof -
  obtain k priv n where b: "bootstrap_tx jo cipher c gen (rq_faults c) 1 db = (Inr (k, priv), n, db')"
    and s: "NewJWTSigner jo k (Some priv) (verifiable db' (sk_KID k)) = Inr s"
  proof -
    obtain k priv db1 where 1: "run_tx (bootstrap_tx jo cipher c gen) (rq_faults c) db = (Inr (k, priv), db1)"
      using assms(1) by (auto simp: bootstrapSigner_def split: prod.splits sum.splits)
    obtain stored db2 where 2: "run_tx Key_ListVerifiable fl db1 = (Inr stored, db2)"
      using assms(1) 1 by (auto simp: bootstrapSigner_def split: prod.splits sum.splits)
    have 3: "db2 = db1" "stored = sort_key (\<lambda>k. - sk_CreatedAt k) (filter (\<lambda>k. sk_Status k \<in> {SigningKeyStatusActive, SigningKeyStatusRetired}) (map snd (au_keys db1)))"
      using 2 by (auto simp: run_tx_inr Key_ListVerifiable_def tx_inr)
    then have "db' = db1" "NewJWTSigner jo k (Some priv) (verifiable db' (sk_KID k)) = Inr s"
      using assms(1) 1 2 by (auto simp: bootstrapSigner_def verifiable_def)
    then show thesis using that 1 by (auto simp: run_tx_inr)
  qed
  note bs = bootstrap_success [OF b assms(2-5)]
  then obtain w where w: "map_of (au_keys db') (sk_KID k) = Some w" "sk_Status w = SigningKeyStatusActive" "jo_jwk jo (jo_public jo priv) = Inr (sk_PublicJWK w)"
    and inv: "keys_inv jo cipher (au_keys db')" by blast
  have "filter (\<lambda>(kid, b). kid \<noteq> sk_KID k) (verifiable db' (sk_KID k)) = verifiable db' (sk_KID k)"
    by (auto simp: verifiable_def filter_id_conv)
  then obtain m where m: "load_keys jo ''jwt: load retired key '' (verifiable db' (sk_KID k)) [sk_KID k \<mapsto> jo_public jo priv] = Inr m"
      "s = \<lparr>js_activeKID = sk_KID k, js_signer = priv, js_verifiers = m\<rparr>"
    using s by (auto simp: NewJWTSigner_def split: sum.splits)
  note v = verifiable_map [OF inv, where a = "sk_KID k"]
  have jwk: "jo_parse_jwk jo (sk_PublicJWK w) = JwkRSA (jo_public jo priv)" using w(3) assms(3) by (auto simp: jose_ok_def)
  have "\<exists>pub. jo_parse_jwk jo (sk_PublicJWK k') = JwkRSA pub \<and> m i = Some pub" if "map_of (au_keys db') i = Some k'" for i k'
  proof (cases "i = sk_KID k")
    case True
    then show ?thesis using load_keys_inr [OF m(1) v(1), of i] v(3) that w(1) jwk by simp
  next
    case False
    from load_keys_inr [OF m(1) v(1), of i] v(2) [OF False that]
    show ?thesis by (auto simp: jwkToRSAPublic_def split: jwk_parse.splits)
  qed
  then show ?thesis using bs w m(2) by simp
qed

lemma load_keys_runs: "\<forall>(i, b)\<in>set ks. \<exists>pub. jwkToRSAPublic jo b = Inr pub \<Longrightarrow> \<exists>m'. load_keys jo what ks m = Inr m'"
  by (induction ks arbitrary: m) force+

text \<open>A start over a sound table with an active key succeeds.\<close>

lemma restart_runs:
  assumes "keys_inv jo cipher (au_keys db)" "jose_ok jo" "(i, act) \<in> set (au_keys db)" "sk_Status act = SigningKeyStatusActive"
    "rq_faults c = no_faults" "fl = no_faults"
  shows "\<exists>s. bootstrapSigner jo cipher c fl gen db = (Inr s, db)"
proof -
  have rows: "key_row_ok jo cipher p" if "p \<in> set (au_keys db)" for p using that assms(1) by (auto simp: keys_inv_def list_all_iff)
  from rows [OF assms(3)] obtain priv der where a: "sk_KID act = i" "jo_pkcs8 jo priv = Inr der"
      "Cipher_Decrypt cipher (sk_PrivateEncrypted act) = Inr der" by (auto simp: key_row_ok_def)
  have "jo_parse_pkcs8 jo der = Inr priv" using a(2) assms(2) by (auto simp: jose_ok_def)
  moreover have "find (\<lambda>(i, k). sk_Status k = SigningKeyStatusActive) (au_keys db) = Some (i, act)" using find_active [OF assms(1)] assms(3,4) by blast
  ultimately have 1: "run_tx (bootstrap_tx jo cipher c gen) no_faults db = (Inr (act, priv), db)"
    using a by (simp add: run_tx_inr bootstrap_tx_def tx_bind_def [of "tx_try Key_GetActive"] get_active tx_inr RSAPrivateKeyFromPKCS8_def)
  have 2: "run_tx Key_ListVerifiable no_faults db =
      (Inr (sort_key (\<lambda>k. - sk_CreatedAt k) (filter (\<lambda>k. sk_Status k \<in> {SigningKeyStatusActive, SigningKeyStatusRetired}) (map snd (au_keys db)))), db)"
    by (simp add: run_tx_inr Key_ListVerifiable_def tx_inr)
  have "\<exists>pub. jwkToRSAPublic jo (sk_PublicJWK k) = Inr pub" if "(j, k) \<in> set (au_keys db)" for j k
    using rows [OF that] assms(2) by (fastforce simp: key_row_ok_def jose_ok_def jwkToRSAPublic_def)
  then have "\<forall>(j, b)\<in>set (filter (\<lambda>(kid, b). kid \<noteq> i) (verifiable db i)). \<exists>pub. jwkToRSAPublic jo b = Inr pub"
    by (auto simp: verifiable_def)
  from load_keys_runs [OF this] obtain m where
    "load_keys jo ''jwt: load retired key '' (filter (\<lambda>(kid, b). kid \<noteq> i) (verifiable db i)) [i \<mapsto> jo_public jo priv] = Inr m" by blast
  then show ?thesis using 1 2 assms(5,6) a(1) by (simp add: bootstrapSigner_def NewJWTSigner_def verifiable_def)
qed

section \<open>Histories\<close>

text \<open>Rotations and starts with new key ids, and everything that leaves the keys alone.\<close>

inductive key_step :: "jose \<Rightarrow> aead \<Rightarrow> auth_db \<Rightarrow> auth_db \<Rightarrow> bool" for jo cipher where
  rotate: "RotateKeys jo cipher interval c fl gen force (db, s) = (r, db', s') \<Longrightarrow> map_of (au_keys db) (NewKID (rq_rand c 0)) = None \<Longrightarrow>
    key_step jo cipher db db'"
| start: "bootstrapSigner jo cipher c fl gen db = (r, db') \<Longrightarrow> map_of (au_keys db) (NewKID (rq_rand c 0)) = None \<Longrightarrow> key_step jo cipher db db'"
| other: "au_keys db' = au_keys db \<Longrightarrow> key_step jo cipher db db'"

text \<open>What a rotation does: the signer is not reloaded.\<close>

lemma not_reloader: "\<not> is_signerReloader"
  by (simp add: is_signerReloader_def JWTSigner_Reload_params_def signerReloader_params_def)

lemma RotateKeys_cases:
  assumes "RotateKeys jo cipher interval c fl gen force (db, s) = (r, db', s')"
  obtains e where "r = Inl e" "db' = db" "s' = s"
    | k priv n n' where "new_key jo cipher c gen (rq_now c 0) = Inr (k, priv)" "r = Inr (sk_KID k)" "s' = s"
        "rotate_key_tx interval force (rq_now c 0) k (rq_faults c) n db = (Inr (), n', db')"
proof -
  consider (ctx) e where "rq_ctxErr c = Some e" | (gen) e where "rq_ctxErr c = None" "new_key jo cipher c gen (rq_now c 0) = Inl e"
    | (new) k priv where "rq_ctxErr c = None" "new_key jo cipher c gen (rq_now c 0) = Inr (k, priv)"
    by (cases "rq_ctxErr c"; cases "new_key jo cipher c gen (rq_now c 0)") auto
  then show thesis
  proof cases
    case new
    obtain x d where x: "run_tx (rotate_key_tx interval force (rq_now c 0) k) (rq_faults c) db = (x, d)" by fastforce
    show thesis
    proof (cases x)
      case (Inl e)
      then show thesis using assms new x run_tx_error [of _ "rq_faults c" db e d] that(1) by (auto simp: RotateKeys_def rotateSigningKey_def)
    next
      case (Inr u)
      then show thesis using assms new x that(2) not_reloader by (auto simp: RotateKeys_def rotateSigningKey_def run_tx_inr)
    qed
  qed (use assms that(1) in \<open>auto simp: RotateKeys_def rotateSigningKey_def\<close>)
qed

text \<open>A forced rotation over a sound table with an active key succeeds.\<close>

lemma rotate_runs:
  assumes "keys_inv jo cipher (au_keys db)" "new_key jo cipher c gen (rq_now c 0) = Inr (k, priv)" "opens_sealed cipher"
    "map_of (au_keys db) (NewKID (rq_rand c 0)) = None" "(i, act) \<in> set (au_keys db)" "sk_Status act = SigningKeyStatusActive"
    "rq_faults c = no_faults" "rq_ctxErr c = None"
  shows "\<exists>db'. RotateKeys jo cipher interval c fl gen True (db, s) = (Inr (sk_KID k), db', s)"
proof -
  note key = new_key_inr [OF assms(2,3)]
  have kid: "sk_KID act = i" using assms(1,5) by (auto simp: keys_inv_def list_all_iff key_row_ok_def)
  have d: "distinct (map fst (au_keys db))" using assms(1) by (simp add: keys_inv_def)
  let ?db1 = "db\<lparr>au_keys := retire (rq_now c 0) i (au_keys db)\<rparr>"
  have "sk_Status y \<noteq> SigningKeyStatusActive \<or> j = i" if "(j, y) \<in> set (au_keys db)" for j y
    using that assms(1,5,6) unfolding keys_inv_def by fastforce
  then have "\<not> list_ex (\<lambda>(j, v). j \<noteq> sk_KID k \<and> sk_Status v = SigningKeyStatusActive) (au_keys ?db1)"
    by (auto simp: list_ex_iff retire_map [OF d] SigningKeyStatusActive_def SigningKeyStatusRetired_def split: if_splits)
  moreover have "sk_Status k = 1" using key by (simp add: SigningKeyStatusActive_def)
  ultimately obtain db' where "Key_Upsert k no_faults 3 ?db1 = (Inr (), 4, db')" by (simp add: Key_Upsert_def tx_inr Let_def)
  moreover have "find (\<lambda>(i, k). sk_Status k = SigningKeyStatusActive) (au_keys db) = Some (i, act)" using find_active [OF assms(1)] assms(5,6) by blast
  ultimately have "rotate_key_tx interval True (rq_now c 0) k no_faults 1 db = (Inr (), 4, db')"
    using kid by (simp add: rotate_key_tx_def Key_GetActive_def Key_MarkRetired_def retire_def tx_inr numeral_3_eq_3)
  then have "run_tx (rotate_key_tx interval True (rq_now c 0) k) no_faults db = (Inr (), db')" by (simp add: run_tx_inr)
  then show ?thesis using assms(2,7,8) not_reloader by (simp add: RotateKeys_def rotateSigningKey_def)
qed

lemma key_step_inv:
  assumes "key_step jo cipher db db'" "keys_inv jo cipher (au_keys db)" "jose_ok jo" "opens_sealed cipher"
  shows "keys_inv jo cipher (au_keys db') \<and> keys_kept (au_keys db) (au_keys db')"
  using assms(1)
proof cases
  case (rotate interval c fl gen force s r s')
  from rotate(1) show ?thesis
  proof (rule RotateKeys_cases)
    fix k priv n n'
    assume "new_key jo cipher c gen (rq_now c 0) = Inr (k, priv)" "rotate_key_tx interval force (rq_now c 0) k (rq_faults c) n db = (Inr (), n', db')"
    then show ?thesis using rotate_inv [OF _ assms(2) _ assms(4) rotate(2)] by blast
  qed (use assms(2) in simp)
next
  case (start c fl gen r)
  obtain x d where x: "run_tx (bootstrap_tx jo cipher c gen) (rq_faults c) db = (x, d)" by fastforce
  have db': "db' = d"
  proof (cases x)
    case (Inr a)
    obtain y d2 where y: "run_tx Key_ListVerifiable fl d = (y, d2)" by fastforce
    have "d2 = d" using y run_tx_error [of Key_ListVerifiable fl d _ d2] by (cases y) (auto simp: run_tx_inr Key_ListVerifiable_def tx_inr)
    then show ?thesis using start(1) x y Inr by (auto simp: bootstrapSigner_def split: prod.splits sum.splits)
  qed (use start(1) x in \<open>auto simp: bootstrapSigner_def\<close>)
  show ?thesis
  proof (cases x)
    case (Inl e)
    then show ?thesis using db' x run_tx_error [of "bootstrap_tx jo cipher c gen" "rq_faults c" db e d] assms(2) by simp
  next
    case (Inr a)
    then obtain n where "bootstrap_tx jo cipher c gen (rq_faults c) 1 db = (Inr (fst a, snd a), n, d)" using x by (auto simp: run_tx_inr)
    from bootstrap_success [OF this assms(2-4) start(2)] show ?thesis by (simp add: db')
  qed
qed (use assms(2) in simp)

lemma key_steps_inv:
  assumes "(key_step jo cipher)\<^sup>*\<^sup>* db db'" "keys_inv jo cipher (au_keys db)" "jose_ok jo" "opens_sealed cipher"
  shows "keys_inv jo cipher (au_keys db') \<and> keys_kept (au_keys db) (au_keys db')"
  using assms(1)
proof (induction rule: rtranclp_induct)
  case (step y z)
  then show ?case using key_step_inv [OF step(2) _ assms(3,4)] keys_kept_trans by blast
qed (use assms(2) in simp)

lemma keys_inv_empty: "keys_inv jo cipher (au_keys empty_auth_db)"
  by (simp add: keys_inv_def empty_auth_db_def)

section \<open>A working library\<close>

text \<open>A library that signs one set of claims with one key, and has the laws; a first start with it.\<close>

definition sample_claims :: AccessTokenClaims where
  "sample_claims = \<lparr>ac_Subject = ''u1'', ac_SystemRole = 2, ac_Issuer = ''vibesync'', ac_Audience = [''vibesync''], ac_IssuedAt = 0,
     ac_ExpiresAt = 900 * second, ac_Scope = ''''\<rparr>"

definition sample_payload :: payload where
  "sample_payload = claims_json \<lparr>cl_Sub = ''u1'', cl_Role = 2, cl_Scope = '''', cl_Jti = ''j1'', cl_Iss = ''vibesync'', cl_Aud = [''vibesync''],
     cl_Iat = 0, cl_Exp = 900\<rparr>"

definition sample_kid :: string where "sample_kid = NewKID (\<lambda>n. 1)"

definition sample_jose :: jose where
  "sample_jose = \<lparr>jo_public = (\<lambda>p. \<lparr>rp_N = length p, rp_E = 65537\<rparr>), jo_pkcs8 = (\<lambda>p. Inr p), jo_parse_pkcs8 = (\<lambda>d. Inr d),
     jo_jwk = (\<lambda>pub. if rp_E pub = 65537 then Inr (replicate (rp_N pub) (CHR ''n'')) else Inl (ExtErr ''exponent'')),
     jo_parse_jwk = (\<lambda>b. JwkRSA \<lparr>rp_N = length b, rp_E = 65537\<rparr>),
     jo_sign = (\<lambda>p kid ob. if p = ''k'' \<and> kid = sample_kid \<and> ob = sample_payload then Inr ''t'' else Inl (ExtErr ''not signed'')),
     jo_parse = (\<lambda>t. if t = ''t'' then Some (sample_kid, t) else None),
     jo_verify = (\<lambda>j pub. if pub = \<lparr>rp_N = 1, rp_E = 65537\<rparr> then Some sample_payload else None)\<rparr>"

lemma sample_jose_ok: "jose_ok sample_jose"
proof -
  have "pub = \<lparr>rp_N = rp_N pub, rp_E = 65537\<rparr>" if "rp_E pub = 65537" for pub :: rsa_public using that by (cases pub) simp
  then show ?thesis by (auto simp: jose_ok_def sample_jose_def split: if_splits)
qed

lemma sample_start:
  obtains s db where "bootstrapSigner sample_jose plain_aead (auth_call ''r'' 1) no_faults (Inr ''k'') empty_auth_db = (Inr s, db)"
    "js_activeKID s = sample_kid" "js_signer s = ''k''" "keys_inv sample_jose plain_aead (au_keys db)" "map fst (au_keys db) = [sample_kid]"
proof -
  define c where "c = auth_call ''r'' 1"
  obtain k where k: "new_key sample_jose plain_aead c (Inr ''k'') 0 = Inr (k, ''k'')" "sk_KID k = sample_kid"
      "sk_Status k = SigningKeyStatusActive"
    by (auto simp: new_key_def GenerateSigningKey_def sample_jose_def Cipher_Encrypt_def Let_def sample_kid_def c_def auth_call_def)
  define w where "w = k\<lparr>sk_CreatedAt := pg_time (sk_CreatedAt k), sk_RetiredAt := (if sk_RetiredAt k = zero_time then zero_time else pg_time (sk_RetiredAt k))\<rparr>"
  let ?db = "empty_auth_db\<lparr>au_keys := [(sample_kid, w)]\<rparr>"
  have c: "rq_now c 0 = 0" "rq_faults c = no_faults" by (simp_all add: c_def auth_call_def)
  have up: "Key_Upsert k no_faults 2 empty_auth_db = (Inr (), 3, ?db)"
    using k(2,3) by (simp add: Key_Upsert_def tx_inr Let_def SigningKeyStatusActive_def w_def) (simp add: empty_auth_db_def)
  have "bootstrap_tx sample_jose plain_aead c (Inr ''k'') no_faults 1 empty_auth_db = (Inr (k, ''k''), 3, ?db)"
    using k(1) up by (simp add: bootstrap_tx_def tx_bind_def [of "tx_try Key_GetActive"] get_active tx_inr c empty_auth_db_def numeral_2_eq_2)
  then have 1: "run_tx (bootstrap_tx sample_jose plain_aead c (Inr ''k'')) no_faults empty_auth_db = (Inr (k, ''k''), ?db)"
    by (simp add: run_tx_inr)
  have 2: "run_tx Key_ListVerifiable no_faults ?db = (Inr [w], ?db)" using k(3) by (simp add: w_def run_tx_inr Key_ListVerifiable_def tx_inr)
  have "\<exists>s db. bootstrapSigner sample_jose plain_aead c no_faults (Inr ''k'') empty_auth_db = (Inr s, db) \<and>
      js_activeKID s = sample_kid \<and> js_signer s = ''k'' \<and> map fst (au_keys db) = [sample_kid]"
    using 1 2 k(2) by (simp add: bootstrapSigner_def c NewJWTSigner_def w_def)
  then obtain s db where s: "bootstrapSigner sample_jose plain_aead (auth_call ''r'' 1) no_faults (Inr ''k'') empty_auth_db = (Inr s, db)"
      "js_activeKID s = sample_kid" "js_signer s = ''k''" "map fst (au_keys db) = [sample_kid]" unfolding c_def by (elim exE conjE)
  have "keys_inv sample_jose plain_aead (au_keys db)"
    using bootstrap_signer [OF s(1) keys_inv_empty sample_jose_ok plain_aead_opens] by (simp add: empty_auth_db_def)
  from that [OF s(1-3) this s(4)] show thesis .
qed

lemma sample_fresh:
  "sample_kid \<noteq> NewKID (rq_rand (auth_call ''s'' 2) 0)"
  "map fst ks = [sample_kid] \<Longrightarrow> map_of ks (NewKID (rq_rand (auth_call ''s'' 2) 0)) = None"
proof -
  show ne: "sample_kid \<noteq> NewKID (rq_rand (auth_call ''s'' 2) 0)"
    by (auto simp: sample_kid_def NewKID_def auth_call_def RawURLEncoding_inj intro: exI [of _ 0])
  assume "map fst ks = [sample_kid]"
  then show "map_of ks (NewKID (rq_rand (auth_call ''s'' 2) 0)) = None" using ne by (cases ks) auto
qed

section \<open>Properties\<close>

text \<open>C18: An access token verifies until it expires: in every history of rotations and restarts, a token signed by a
  running service is accepted by that service and by every later run of it, as long as its expiry (in whole
  seconds) lies ahead, and yields the claims it was issued with, times in whole seconds; once expired it is rejected.
  So rotating keys never invalidates tokens. Assumed are the laws of the JOSE library and the cipher, and that new
  key ids are not taken.\<close>

theorem tokens_survive_rotation:
  assumes "jose_ok jo" "opens_sealed cipher" "(key_step jo cipher)\<^sup>*\<^sup>* empty_auth_db db"
    "bootstrapSigner jo cipher c fl gen db = (Inr s, db1)" "map_of (au_keys db) (NewKID (rq_rand c 0)) = None"
    "(key_step jo cipher)\<^sup>*\<^sup>* db1 db2"
    "bootstrapSigner jo cipher c' fl' gen' db2 = (Inr s', db3)" "map_of (au_keys db2) (NewKID (rq_rand c' 0)) = None"
    "Signer_Sign jo jti s cl = Inr tok" "claims_ok cl" "t \<in> {s, s'}"
  shows "Signer_Verify jo now t tok =
    (if to_unix now \<ge> to_unix (ac_ExpiresAt cl) then Inl (Unauthenticated ''TOKEN_EXPIRED'') else Inr (whole_seconds cl, jti))"
proof (rule verify_signed [OF assms(1,9) _ assms(10)])
  have i: "keys_inv jo cipher (au_keys db)" using key_steps_inv [OF assms(3) keys_inv_empty assms(1,2)] by blast
  note b1 = bootstrap_signer [OF assms(4) i assms(1,2,5)]
  then obtain w where w: "map_of (au_keys db1) (js_activeKID s) = Some w" "jo_jwk jo (jo_public jo (js_signer s)) = Inr (sk_PublicJWK w)" by blast
  have jwk: "jo_parse_jwk jo (sk_PublicJWK w) = JwkRSA (jo_public jo (js_signer s))" using w(2) assms(1) by (auto simp: jose_ok_def)
  have k12: "keys_inv jo cipher (au_keys db2)" "keys_kept (au_keys db1) (au_keys db2)"
    using key_steps_inv [OF assms(6) _ assms(1,2)] b1 by blast+
  note b2 = bootstrap_signer [OF assms(7) k12(1) assms(1,2,8)]
  have "keys_kept (au_keys db1) (au_keys db3)" using keys_kept_trans k12(2) b2 by blast
  then obtain w' where "map_of (au_keys db3) (js_activeKID s) = Some w'" "sk_PublicJWK w' = sk_PublicJWK w"
    using w(1) unfolding keys_kept_def by blast
  then have "js_verifiers s' (js_activeKID s) = Some (jo_public jo (js_signer s))" using b2 jwk by force
  moreover have "js_verifiers s (js_activeKID s) = Some (jo_public jo (js_signer s))" using b1 w(1) jwk by force
  ultimately show "js_verifiers t (js_activeKID s) = Some (jo_public jo (js_signer s))" using assms(11) by auto
qed

theorem tokens_survive_rotation_witness:
  "\<exists>s db. bootstrapSigner sample_jose plain_aead (auth_call ''r'' 1) no_faults (Inr ''k'') empty_auth_db = (Inr s, db) \<and>
     (\<exists>tok. Signer_Sign sample_jose ''j1'' s sample_claims = Inr tok \<and>
       Signer_Verify sample_jose (60 * second) s tok = Inr (sample_claims, ''j1''))"
proof (rule sample_start)
  fix s db
  assume s: "bootstrapSigner sample_jose plain_aead (auth_call ''r'' 1) no_faults (Inr ''k'') empty_auth_db = (Inr s, db)"
    "js_activeKID s = sample_kid" "js_signer s = ''k''" "map fst (au_keys db) = [sample_kid]"
  have sign: "Signer_Sign sample_jose ''j1'' s sample_claims = Inr ''t''"
    using s(2,3) by (simp add: Signer_Sign_def sample_jose_def sample_payload_def sample_claims_def to_unix_def second_def)
  have ok: "claims_ok sample_claims" by (simp add: claims_ok_def sample_claims_def to_unix_def second_def in_i64_def)
  have fresh: "map_of (au_keys empty_auth_db) i = None" for i by (simp add: empty_auth_db_def)
  note b = bootstrap_signer [OF s(1) keys_inv_empty sample_jose_ok plain_aead_opens fresh]
  then obtain w where "(js_activeKID s, w) \<in> set (au_keys db)" "sk_Status w = SigningKeyStatusActive" by (auto dest!: map_of_SomeD)
  from restart_runs [OF conjunct1 [OF b] sample_jose_ok this, of "auth_call ''s'' 2" no_faults "Inr ''k''"]
  obtain s' where s': "bootstrapSigner sample_jose plain_aead (auth_call ''s'' 2) no_faults (Inr ''k'') db = (Inr s', db)"
    by (auto simp: auth_call_def)
  note fresh2 = sample_fresh(2) [OF s(4)]
  have "Signer_Verify sample_jose (60 * second) s ''t'' = (if to_unix (60 * second) \<ge> to_unix (ac_ExpiresAt sample_claims)
      then Inl (Unauthenticated ''TOKEN_EXPIRED'') else Inr (whole_seconds sample_claims, ''j1''))"
    by (rule tokens_survive_rotation [OF sample_jose_ok plain_aead_opens rtranclp.rtrancl_refl s(1) fresh rtranclp.rtrancl_refl s' fresh2 sign ok]) simp
  then show ?thesis using s(1) sign
    by (auto simp: sample_claims_def whole_seconds_def to_unix_def from_unix_def second_def)
qed



text \<open>A rotation does not reach the running signer: after a successful rotation the table has the new key as its
  active key, and the key that was active is retired, but the service keeps signing with its old key, whose id it
  still names, until the next start. The comment on the rotation says that new tokens use the new key at once; the
  signer's reload method does not have the type that the rotation asserts.\<close>

theorem rotation_needs_restart:
  assumes "RotateKeys jo cipher interval c fl gen force (db, s) = (Inr kid, db', s')" "keys_inv jo cipher (au_keys db)"
    "opens_sealed cipher" "map_of (au_keys db) (NewKID (rq_rand c 0)) = None"
  shows "s' = s \<and> kid = NewKID (rq_rand c 0) \<and>
    (\<exists>w. map_of (au_keys db') kid = Some w \<and> sk_Status w = SigningKeyStatusActive) \<and>
    (\<forall>k. map_of (au_keys db) (js_activeKID s) = Some k \<longrightarrow>
       (\<exists>w. map_of (au_keys db') (js_activeKID s) = Some w \<and> sk_Status w = SigningKeyStatusRetired))"
proof -
  from assms(1) obtain k priv n n' where k: "new_key jo cipher c gen (rq_now c 0) = Inr (k, priv)" "kid = sk_KID k" "s' = s"
      "rotate_key_tx interval force (rq_now c 0) k (rq_faults c) n db = (Inr (), n', db')"
    by (rule RotateKeys_cases) auto
  note key = new_key_inr [OF k(1) assms(3)]
  have st: "sk_Status k = SigningKeyStatusActive" and fresh: "map_of (au_keys db) (sk_KID k) = None" using key assms(4) by simp_all
  from rotate_success [OF k(4) assms(2) st fresh] obtain ks1 w where w: "au_keys db' = ks1 @ [(sk_KID k, w)]" "sk_Status w = SigningKeyStatusActive"
      "\<forall>p\<in>set ks1. sk_Status (snd p) \<noteq> SigningKeyStatusActive" by metis
  note inv = rotate_inv [OF k(4) assms(2) k(1) assms(3,4)]
  then have d: "distinct (map fst (au_keys db'))" by (simp add: keys_inv_def)
  then have "map_of (au_keys db') kid = Some w" using map_of_is_SomeI [OF d, of kid w] k(2) w(1) by simp
  moreover have "\<exists>x. map_of (au_keys db') i = Some x \<and> sk_Status x = SigningKeyStatusRetired" if old: "map_of (au_keys db) i = Some k0" for i k0
  proof -
    obtain x where x: "map_of (au_keys db') i = Some x" using inv old unfolding keys_kept_def by blast
    have "i \<noteq> sk_KID k" using old fresh by auto
    then have "(i, x) \<in> set ks1" using map_of_SomeD [OF x] w(1) by auto
    moreover have "key_row_ok jo cipher (i, x)" using inv map_of_SomeD [OF x] by (auto simp: keys_inv_def list_all_iff)
    ultimately show ?thesis using x w(3) by (auto simp: key_row_ok_def)
  qed
  ultimately show ?thesis using k(2,3) key w(2) by auto
qed

theorem rotation_needs_restart_witness:
  "\<exists>s db kid db'. RotateKeys sample_jose plain_aead 0 (auth_call ''s'' 2) no_faults (Inr ''k'') True (db, s) = (Inr kid, db', s) \<and>
     kid \<noteq> js_activeKID s \<and> (\<exists>w. map_of (au_keys db') (js_activeKID s) = Some w \<and> sk_Status w = SigningKeyStatusRetired)"
proof (rule sample_start)
  fix s db
  assume s: "bootstrapSigner sample_jose plain_aead (auth_call ''r'' 1) no_faults (Inr ''k'') empty_auth_db = (Inr s, db)"
    "js_activeKID s = sample_kid" "keys_inv sample_jose plain_aead (au_keys db)" "map fst (au_keys db) = [sample_kid]"
  have "map_of (au_keys empty_auth_db) i = None" for i by (simp add: empty_auth_db_def)
  from bootstrap_signer [OF s(1) keys_inv_empty sample_jose_ok plain_aead_opens this] obtain w where
    w: "map_of (au_keys db) (js_activeKID s) = Some w" "sk_Status w = SigningKeyStatusActive" by blast
  obtain k where k: "new_key sample_jose plain_aead (auth_call ''s'' 2) (Inr ''k'') (rq_now (auth_call ''s'' 2) 0) = Inr (k, ''k'')"
    by (auto simp: new_key_def GenerateSigningKey_def sample_jose_def Cipher_Encrypt_def Let_def)
  note fresh = sample_fresh(2) [OF s(4)]
  from rotate_runs [OF s(3) k plain_aead_opens fresh map_of_SomeD [OF w(1)] w(2), of 0 no_faults s]
  obtain db' where r: "RotateKeys sample_jose plain_aead 0 (auth_call ''s'' 2) no_faults (Inr ''k'') True (db, s) = (Inr (sk_KID k), db', s)"
    by (auto simp: auth_call_def)
  note e = rotation_needs_restart [OF r s(3) plain_aead_opens fresh]
  then have "sk_KID k \<noteq> js_activeKID s" using sample_fresh(1) s(2) by simp
  with e r w(1) show ?thesis by blast
qed




definition sample_client :: token_client where
  "sample_client = \<lparr>tc_post = (\<lambda>u form. Inl (ExtErr ''unreachable'')), tc_getenv = (\<lambda>n. ''''), tc_SpotifyID = '''', tc_SpotifySecret = '''',
     tc_GoogleID = '''', tc_GoogleSecret = ''''\<rparr>"


section \<open>Published keys\<close>

definition be_value :: "8 word list \<Rightarrow> nat" where
  "be_value bs = foldl (\<lambda>a b. a * 256 + unat b) 0 bs"

lemma be_value_snoc [simp]: "be_value (bs @ [b]) = be_value bs * 256 + unat b" "be_value [] = 0"
  by (simp_all add: be_value_def)

lemma be_value_be_bytes: "be_value (be_bytes n) = n"
proof (induction n rule: be_bytes.induct)
  case (1 n)
  show ?case
  proof (cases "n = 0")
    case True
    then show ?thesis by (simp add: be_bytes.simps)
  next
    case False
    then have "be_value (be_bytes n) = n div 256 * 256 + unat (word_of_nat n :: 8 word)"
      using 1 [OF False] by (subst be_bytes.simps) simp
    then show ?thesis by (simp add: unat_of_nat)
  qed
qed

lemma be_value_strip: "be_value (strip_zeros bs) = be_value bs"
  by (induction bs rule: strip_zeros.induct) (auto simp: be_value_def)

lemma uint_byte: "uint (word_of_int v :: 8 word) = v mod 256"
  by (simp add: uint_word_of_int)

lemma be_value_exponent:
  assumes "0 \<le> v" "v < 2 ^ 32"
  shows "int (be_value (if v = 0 then [0] else if v < 0x100 then [word_of_int v] else if v < 0x10000 then [word_of_int (v div 256), word_of_int v]
    else [word_of_int (v div 16777216), word_of_int (v div 65536), word_of_int (v div 256), word_of_int v])) = v"
proof -
  have "v div 65536 = v div 256 div 256" "v div 16777216 = v div 65536 div 256" "v div 16777216 mod 256 = v div 16777216" using assms by simp_all
  then have sum: "v div 16777216 mod 256 * 16777216 + v div 65536 mod 256 * 65536 + v div 256 mod 256 * 256 + v mod 256 = v"
    using div_mult_mod_eq [of v 256] div_mult_mod_eq [of "v div 256" 256] div_mult_mod_eq [of "v div 65536" 256] by linarith
  have two: "v div 256 mod 256 * 256 + v mod 256 = v" if "v < 65536"
  proof -
    have "v div 256 mod 256 = v div 256" using that assms(1) by simp
    then show ?thesis using div_mult_mod_eq [of v 256] by (simp only:)
  qed
  have val: "int (be_value [word_of_int a]) = a mod 256" "int (be_value [word_of_int a, word_of_int b]) = a mod 256 * 256 + b mod 256"
    "int (be_value [word_of_int a, word_of_int b, word_of_int c, word_of_int d]) = a mod 256 * 16777216 + b mod 256 * 65536 + c mod 256 * 256 + d mod 256"
    for a b c d by (simp_all add: be_value_def uint_byte)
  consider "v = 0" | "v \<noteq> 0" "v < 0x100" | "\<not> v < 0x100" "v < 0x10000" | "\<not> v < 0x100" "\<not> v < 0x10000" by linarith
  then show ?thesis
  proof cases
    case 1
    then show ?thesis by (simp add: be_value_def)
  next
    case 2
    then show ?thesis using val(1) [of v] mod_pos_pos_trivial [OF assms(1), of 256] by (simp only: if_False if_True)
  next
    case 3
    then have "v \<noteq> 0" by linarith
    with 3 show ?thesis using val(2) [of "v div 256" v] two [OF 3(2)] by (simp only: if_False if_True)
  next
    case 4
    then have "v \<noteq> 0" by linarith
    with 4 show ?thesis using val(3) [of "v div 16777216" "v div 65536" "v div 256" v] sum by (simp only: if_False if_True)
  qed
qed

text \<open>The published key set determines the keys: the modulus and the exponent of a key, in base64 without padding
  of their big-endian bytes, decode to the numbers, for every modulus and every exponent of at most 32 bits.\<close>

theorem jwk_fields_roundtrip:
  assumes "0 \<le> rp_E pub" "rp_E pub < 2 ^ 32"
  shows "map_option be_value (b64_decode url_alphabet (encodeRSAModulus pub)) = Some (rp_N pub) \<and>
    map_option (int \<circ> be_value) (b64_decode url_alphabet (encodeRSAExponent pub)) = Some (rp_E pub)"
proof -
  have dec: "b64_decode url_alphabet (RawURLEncoding bs) = Some bs" for bs
    unfolding RawURLEncoding_def by (rule b64_decode_encode [OF alphabets_ok(1)])
  show ?thesis using be_value_exponent [OF assms]
    by (simp add: encodeRSAModulus_def encodeRSAExponent_def Let_def dec be_value_be_bytes be_value_strip split: if_splits)
qed

theorem jwk_fields_roundtrip_witness:
  "map_option (int \<circ> be_value) (b64_decode url_alphabet (encodeRSAExponent \<lparr>rp_N = 35, rp_E = 65537\<rparr>)) = Some 65537"
  using jwk_fields_roundtrip [of "\<lparr>rp_N = 35, rp_E = 65537\<rparr>"] by simp

end
