(* ===== verification/Go_Time.thy ===== *)
theory Go_Time
  imports Vb_Web "HOL-Library.Monad_Syntax"
begin

text \<open>
  \<open>time.Parse(time.RFC3339, s)\<close>, which the user service applies to the time that the auth service wrote into an
  event with \<open>t.Format(time.RFC3339)\<close>. The layout is followed as the package follows it: an hour may have one
  digit, seconds may have a fraction after a period or a comma of which nine digits count, the zone is \<open>Z\<close>
  or an offset of at most 24 hours and 60 minutes, and the day must exist in its month. (The package tries a stricter
  parser first; where that one succeeds, the result is the same.)

  Shown here: parsing a formatted time gives that time, truncated to seconds.
\<close>

section \<open>The calendar\<close>

definition isLeap :: "int \<Rightarrow> bool" where "isLeap y \<longleftrightarrow> y mod 4 = 0 \<and> (y mod 100 \<noteq> 0 \<or> y mod 400 = 0)"

definition daysIn :: "int \<Rightarrow> int \<Rightarrow> int" where
  "daysIn m y = (if m = 2 then (if isLeap y then 29 else 28) else if m \<in> {4, 6, 9, 11} then 30 else 31)"

definition days_from_civil :: "int \<Rightarrow> int \<Rightarrow> int \<Rightarrow> int" where
  "days_from_civil y m d =
     (let y' = (if m \<le> 2 then y - 1 else y); era = y' div 400; yoe = y' - era * 400;
          mp = (if m \<le> 2 then m + 9 else m - 3); doy = (153 * mp + 2) div 5 + d - 1
      in era * 146097 + (365 * yoe + yoe div 4 - yoe div 100 + doy) - 719468)"

section \<open>Parsing\<close>

definition skip_char :: "char \<Rightarrow> string \<Rightarrow> string option" where
  "skip_char c s = (case s of x # r \<Rightarrow> if x = c then Some r else None | [] \<Rightarrow> None)"

text \<open>\<open>getnum\<close>: one or two digits, exactly two if \<open>fixed\<close>.\<close>

definition getnum :: "bool \<Rightarrow> string \<Rightarrow> (int \<times> string) option" where
  "getnum fixed s = (case s of
     [] \<Rightarrow> None
   | a # r \<Rightarrow> (case digit_value a of
       None \<Rightarrow> None
     | Some x \<Rightarrow> (case r of
         [] \<Rightarrow> if fixed then None else Some (x, r)
       | b # r' \<Rightarrow> (case digit_value b of
           None \<Rightarrow> if fixed then None else Some (x, r)
         | Some y \<Rightarrow> Some (x * 10 + y, r')))))"

definition getyear :: "string \<Rightarrow> (int \<times> string) option" where
  "getyear s = (if length s < 4 then None else map_option (\<lambda>y. (y, drop 4 s)) (parse_digits 0 (take 4 s)))"

definition is_digit :: "char \<Rightarrow> bool" where "is_digit c \<longleftrightarrow> digit_value c \<noteq> None"

text \<open>\<open>parseNanoseconds\<close>, on the digits after the separator: nine of them count.\<close>

definition nanoseconds :: "string \<Rightarrow> int" where
  "nanoseconds ds = (let k = take 9 ds in the (parse_digits 0 k) * 10 ^ (9 - length k))"

definition getfraction :: "string \<Rightarrow> int \<times> string" where
  "getfraction s = (case s of
     p # d # r \<Rightarrow> if (p = CHR ''.'' \<or> p = CHR '','') \<and> is_digit d
       then (nanoseconds (takeWhile is_digit (d # r)), dropWhile is_digit (d # r)) else (0, s)
   | _ \<Rightarrow> (0, s))"

definition getzone :: "string \<Rightarrow> (int \<times> string) option" where
  "getzone s = (case s of
     CHR ''Z'' # r \<Rightarrow> Some (0, r)
   | [sg, h1, h2, col, m1, m2] \<Rightarrow> do {
       (hr, r1) \<leftarrow> getnum True [h1, h2];
       (mm, r2) \<leftarrow> getnum True [m1, m2];
       if col \<noteq> CHR '':'' \<or> hr > 24 \<or> mm > 60 then None
       else if sg = CHR ''+'' then Some ((hr * 60 + mm) * 60, '''')
       else if sg = CHR ''-'' then Some (- ((hr * 60 + mm) * 60), '''') else None }
   | _ \<Rightarrow> None)"

definition Parse_RFC3339 :: "string \<Rightarrow> time option" where
  "Parse_RFC3339 s = do {
     (year, s) \<leftarrow> getyear s; s \<leftarrow> skip_char (CHR ''-'') s;
     (month, s) \<leftarrow> getnum True s; s \<leftarrow> skip_char (CHR ''-'') s;
     (day, s) \<leftarrow> getnum True s; s \<leftarrow> skip_char (CHR ''T'') s;
     (hour, s) \<leftarrow> getnum False s; s \<leftarrow> skip_char (CHR '':'') s;
     (mi, s) \<leftarrow> getnum True s; s \<leftarrow> skip_char (CHR '':'') s;
     (sec, s) \<leftarrow> getnum True s;
     let (nsec, s) = getfraction s;
     (zone, s) \<leftarrow> getzone s;
     if s \<noteq> '''' \<or> month < 1 \<or> 12 < month \<or> 24 \<le> hour \<or> 60 \<le> mi \<or> 60 \<le> sec \<or> day < 1 \<or> daysIn month year < day then None
     else Some ((days_from_civil year month day * 86400 + hour * 3600 + mi * 60 + sec - zone) * 10 ^ 9 + nsec) }"

lemma Parse_RFC3339_examples:
  "Parse_RFC3339 ''2026-08-03T10:30:00Z'' = Some (1785753000 * 10 ^ 9)"
  "Parse_RFC3339 ''1970-01-01T3:00:00,5+01:30'' = Some (5400 * 10 ^ 9 + 500000000)"
  "Parse_RFC3339 ''2023-02-29T00:00:00Z'' = None" "Parse_RFC3339 ''not-a-date'' = None"
  by code_simp+

section \<open>Formatting, then parsing\<close>

text \<open>The first day of the year \<open>y\<close> (counted from March) of an era of 400 years, and the year of a day.\<close>

definition year_start :: "int \<Rightarrow> int" where "year_start y = 365 * y + y div 4 - y div 100"

definition year_of :: "int \<Rightarrow> int" where "year_of n = (n - n div 1460 + n div 36524 - n div 146096) div 365"

definition year_end :: "int \<Rightarrow> int" where "year_end y = (if y = 399 then 146096 else year_start (y + 1) - 1)"

lemma year_checks:
  "list_all (\<lambda>y. year_of (year_start y) = y \<and> year_of (year_end y) = y \<and>
     (year_end y - year_start y = 364 \<or> year_end y - year_start y = 365 \<and> isLeap (y + 1))) [0..399]"
  by code_simp

lemma year_check:
  assumes "0 \<le> y" "y \<le> 399"
  shows "year_of (year_start y) = y" "year_of (year_end y) = y" "year_end y - year_start y = 364 \<or> year_end y - year_start y = 365 \<and> isLeap (y + 1)"
  using year_checks assms by (auto simp: list_all_iff)

lemma div_le_diff:
  fixes a b k :: int assumes "a \<le> b" "0 < k" shows "a - a div k \<le> b - b div k"
proof -
  have "b div k \<le> (a + (b - a) * k) div k"
  proof (rule zdiv_mono1)
    have "(b - a) * 1 \<le> (b - a) * k" using assms by (intro mult_left_mono) auto
    then show "b \<le> a + (b - a) * k" by simp
  qed (use assms in simp)
  also have "\<dots> = a div k + (b - a)" using assms by simp
  finally show ?thesis by simp
qed

lemma year_of_mono: "0 \<le> a \<Longrightarrow> a \<le> b \<Longrightarrow> b \<le> 146096 \<Longrightarrow> year_of a \<le> year_of b"
proof -
  assume ab: "0 \<le> a" "a \<le> b" "b \<le> 146096"
  note d = div_le_diff [of a b 1460] zdiv_mono1 [of a b 36524]
  have "a div 146096 = (if a = 146096 then 1 else 0)" "b div 146096 = (if b = 146096 then 1 else 0)"
    using ab by (auto simp: div_pos_pos_trivial)
  moreover have "a div 36524 \<le> 3" if "a < 146096" using that by simp
  ultimately have "a - a div 1460 + a div 36524 - a div 146096 \<le> b - b div 1460 + b div 36524 - b div 146096"
    using d ab by (cases "b = 146096"; cases "a = 146096") auto
  then show ?thesis unfolding year_of_def by (rule zdiv_mono1) simp
qed

lemma year_of_range: "0 \<le> n \<Longrightarrow> n \<le> 146096 \<Longrightarrow> 0 \<le> year_of n \<and> year_of n \<le> 399"
  using year_of_mono [of 0 n] year_of_mono [of n 146096] by (simp add: year_of_def)

lemma year_bounds:
  assumes "0 \<le> n" "n \<le> 146096"
  shows "year_start (year_of n) \<le> n" "n \<le> year_end (year_of n)"
proof -
  let ?y = "year_of n"
  have y: "0 \<le> ?y" "?y \<le> 399" using year_of_range [OF assms] by auto
  show "year_start ?y \<le> n"
  proof (rule ccontr)
    assume lt: "\<not> ?thesis"
    then have "?y \<noteq> 0" using assms by (intro notI) (simp add: year_start_def)
    then have y1: "0 \<le> ?y - 1" "?y - 1 \<le> 399" using y by auto
    have "n \<le> year_end (?y - 1)" using lt y by (simp add: year_end_def)
    moreover have "year_end (?y - 1) \<le> 146096" using y by (simp add: year_end_def year_start_def)
    ultimately have "?y \<le> ?y - 1" using year_of_mono [OF assms(1), of "year_end (?y - 1)"] year_check(2) [OF y1] by simp
    then show False by simp
  qed
  show "n \<le> year_end ?y"
  proof (rule ccontr)
    assume gt: "\<not> ?thesis"
    then have ne: "?y \<noteq> 399" using assms by (intro notI) (simp add: year_end_def)
    then have y1: "0 \<le> ?y + 1" "?y + 1 \<le> 399" using y by auto
    have "year_start (?y + 1) \<le> n" using gt ne by (simp add: year_end_def)
    moreover have "0 \<le> year_start (?y + 1)" using y by (simp add: year_start_def)
    ultimately have "?y + 1 \<le> ?y" using year_of_mono [of "year_start (?y + 1)" n] assms year_check(1) [OF y1] by simp
    then show False by simp
  qed
qed

text \<open>The month and day of a day of the year (counted from March).\<close>

lemma doy_checks:
  "list_all (\<lambda>n. let mp = (5 * n + 2) div 153; d = n - (153 * mp + 2) div 5 + 1; m = (if mp < 10 then mp + 3 else mp - 9) in
     0 \<le> mp \<and> mp \<le> 11 \<and> 1 \<le> d \<and> (n < 365 \<longrightarrow> d \<le> daysIn m 1) \<and> (n = 365 \<longrightarrow> m = 2 \<and> d = 29)) [0..365]"
  by code_simp

lemma doy_check:
  assumes "0 \<le> n" "n \<le> 365"
  defines "mp \<equiv> (5 * n + 2) div 153" defines "d \<equiv> n - (153 * mp + 2) div 5 + 1" defines "m \<equiv> if mp < 10 then mp + 3 else mp - 9"
  shows "0 \<le> mp" "mp \<le> 11" "1 \<le> d" "n < 365 \<Longrightarrow> d \<le> daysIn m 1" "n = 365 \<Longrightarrow> m = 2 \<and> d = 29"
  using doy_checks assms by (auto simp: list_all_iff Let_def)

lemma isLeap_era: "isLeap (y + e * 400) = isLeap y"
proof -
  have "(y + e * 400) mod 4 = y mod 4" "(y + e * 400) mod 100 = y mod 100"
    using mod_mult_self1 [of y "e * 100" 4] mod_mult_self1 [of y "e * 4" 100] by (simp_all add: algebra_simps)
  then show ?thesis by (simp add: isLeap_def)
qed

lemma daysIn_le: "daysIn m 1 \<le> daysIn m y" "daysIn m y \<le> 31"
  by (auto simp: daysIn_def isLeap_def)

text \<open>\<open>civil_from_days\<close> yields a date of the calendar, whose day it is.\<close>

lemma civil_from_days_inverse:
  assumes "civil_from_days t = (y, m, d)"
  shows "days_from_civil y m d = t" "1 \<le> m" "m \<le> 12" "1 \<le> d" "d \<le> daysIn m y"
proof -
  define z where "z = t + 719468"
  define era where "era = z div 146097"
  define doe where "doe = z - era * 146097"
  define yoe where "yoe = year_of doe"
  define doy where "doy = doe - year_start yoe"
  define mp where "mp = (5 * doy + 2) div 153"
  have doe: "0 \<le> doe" "doe \<le> 146096" unfolding doe_def era_def by (simp_all add: minus_div_mult_eq_mod)
  have yoe: "0 \<le> yoe" "yoe \<le> 399" using year_of_range [OF doe] by (simp_all add: yoe_def)
  have len: "doy \<le> year_end yoe - year_start yoe" "0 \<le> doy" using year_bounds [OF doe] by (simp_all add: doy_def yoe_def)
  then have doy: "0 \<le> doy" "doy \<le> 365" using year_check(3) [OF yoe] by auto
  note c = doy_check [OF doy, folded mp_def]
  have "civil_from_days t = (yoe + era * 400 + (if (if mp < 10 then mp + 3 else mp - 9) \<le> 2 then 1 else 0),
      if mp < 10 then mp + 3 else mp - 9, doy - (153 * mp + 2) div 5 + 1)"
    unfolding civil_from_days_def Let_def mp_def doy_def yoe_def year_of_def year_start_def doe_def era_def z_def by (rule refl)
  then have eq: "y = yoe + era * 400 + (if m \<le> 2 then 1 else 0)" "m = (if mp < 10 then mp + 3 else mp - 9)" "d = doy - (153 * mp + 2) div 5 + 1"
    unfolding assms by simp_all
  have m: "m \<le> 2 \<longleftrightarrow> 10 \<le> mp" "(if m \<le> 2 then m + 9 else m - 3) = mp" using c(1,2) by (auto simp: eq(2))
  show "1 \<le> m" "m \<le> 12" "1 \<le> d" using c(1-3) by (auto simp: eq(2,3))
  have "(yoe + era * 400) div 400 = era" using yoe by simp
  then show "days_from_civil y m d = t"
    unfolding days_from_civil_def Let_def m(2) using eq(1,3)
    by (cases "m \<le> 2") (simp_all add: doy_def year_start_def doe_def z_def)
  show "d \<le> daysIn m y"
  proof (cases "doy = 365")
    case True
    then have "isLeap (yoe + 1)" using len year_check(3) [OF yoe] by auto
    then have "isLeap y" if "m = 2" using that isLeap_era [of "yoe + 1" era] by (simp add: eq(1) algebra_simps)
    then show ?thesis using c(5) True by (auto simp: eq(2,3) daysIn_def)
  next
    case False
    then show ?thesis using c(4) doy daysIn_le(1) [of m y] by (auto simp: eq(2,3))
  qed
qed

lemma digit_value_char: "n < 10 \<Longrightarrow> digit_value (char_of (48 + n)) = Some (int n)"
proof -
  assume n: "n < 10"
  have "(of_char (char_of (48 + n) :: char) :: int) = int (of_char (char_of (48 + n) :: char))" by (rule of_nat_of_char [symmetric])
  also have "\<dots> = int (48 + n)" using n by (simp only: of_char_of) simp
  finally show ?thesis using n by (simp add: digit_value_def)
qed

lemma getnum_dec: "n < 100 \<Longrightarrow> getnum fixed (dec_digits 2 n @ r) = Some (int n, r)"
proof -
  assume n: "n < 100"
  have "digit_value (char_of (48 + n div 10)) = Some (int (n div 10))" "digit_value (char_of (48 + n mod 10)) = Some (int (n mod 10))"
    using n by (intro digit_value_char; simp)+
  then show ?thesis using n by (simp add: getnum_def numeral_2_eq_2) (simp add: zdiv_int zmod_int)
qed

lemma digits_value:
  fixes a b c d e f n :: nat
  assumes "f = a" "b * 10 + e = n" "c * 10 + d = b" "a * 10 + r = c"
  shows "((int f * 10 + int r) * 10 + int d) * 10 + int e = int n"
  using assms by auto

lemma digits_hms:
  fixes a b c d r :: nat
  assumes "a * 3600 + b = r" "c * 60 + d = b"
  shows "int a * 3600 + int c * 60 + int d = int r"
  using assms by auto

lemma four: "(4 :: nat) = Suc (Suc (Suc (Suc 0)))" by simp

lemma getyear_dec: "n < 10000 \<Longrightarrow> getyear (dec_digits 4 n @ r) = Some (int n, r)"
proof -
  assume n: "n < 10000"
  have d: "digit_value (char_of (48 + k mod 10)) = Some (int (k mod 10))" for k by (rule digit_value_char) simp
  have "n div 10 div 10 div 10 < 10" using n by simp
  then have "n div 10 div 10 div 10 mod 10 = n div 10 div 10 div 10" by simp
  then have "((int (n div 10 div 10 div 10 mod 10) * 10 + int (n div 10 div 10 mod 10)) * 10 + int (n div 10 mod 10)) * 10 + int (n mod 10) = int n"
    by (rule digits_value) (rule div_mult_mod_eq)+
  moreover have "dec_digits 4 n = [char_of (48 + n div 10 div 10 div 10 mod 10), char_of (48 + n div 10 div 10 mod 10),
      char_of (48 + n div 10 mod 10), char_of (48 + n mod 10)]"
    by (simp only: four dec_digits.simps append.simps)
  ultimately show ?thesis by (simp add: getyear_def d)
qed

definition year_in_range :: "time \<Rightarrow> bool" where
  "year_in_range t \<longleftrightarrow> fst (civil_from_days (t div 10 ^ 9 div 86400)) \<in> {0..9999}"

lemma parse_fields:
  assumes "0 \<le> y" "y \<le> 9999" "1 \<le> m" "m \<le> 12" "1 \<le> d" "d \<le> daysIn m y" "h < 24" "mi < 60" "se < 60"
  shows "Parse_RFC3339 (dec_digits 4 (nat y) @ ''-'' @ dec_digits 2 (nat m) @ ''-'' @ dec_digits 2 (nat d) @ ''T'' @
      dec_digits 2 h @ '':'' @ dec_digits 2 mi @ '':'' @ dec_digits 2 se @ ''Z'') =
    Some ((days_from_civil y m d * 86400 + int h * 3600 + int mi * 60 + int se) * 10 ^ 9)"
proof -
  have "d \<le> 31" using assms(6) daysIn_le(2) [of m y] by simp
  then have "nat m < 100" "nat d < 100" "h < 100" "mi < 100" "se < 100" "nat y < 10000" using assms by auto
  then show ?thesis using assms unfolding Parse_RFC3339_def
    by (simp add: getyear_dec getnum_dec skip_char_def getfraction_def getzone_def)
qed

lemma Parse_Format:
  assumes "year_in_range t"
  shows "Parse_RFC3339 (Format_RFC3339 t) = Some (t div 10 ^ 9 * 10 ^ 9)"
proof -
  define s where "s = t div 10 ^ 9"
  define r where "r = nat (s mod 86400)"
  obtain y m d where c: "civil_from_days (s div 86400) = (y, m, d)" by (metis prod_cases3)
  note inv = civil_from_days_inverse [OF c]
  have y: "0 \<le> y" "y \<le> 9999" using assms c by (simp_all add: year_in_range_def s_def)
  have r: "int r = s mod 86400" "r < 86400" by (simp_all add: r_def)
  have hms: "r div 3600 < 24" "r mod 3600 div 60 < 60" "r mod 60 < 60" using r(2) by auto
  have "int (r div 3600) * 3600 + int (r mod 3600 div 60) * 60 + int (r mod 60) = int r"
  proof -
    have "r mod 3600 mod 60 = r mod 60" by (simp add: mod_mod_cancel)
    then have "r mod 3600 div 60 * 60 + r mod 60 = r mod 3600" using div_mult_mod_eq [of "r mod 3600" 60] by simp
    then show ?thesis by (rule digits_hms [OF div_mult_mod_eq])
  qed
  then have "days_from_civil y m d * 86400 + int (r div 3600) * 3600 + int (r mod 3600 div 60) * 60 + int (r mod 60) = s"
    using inv(1) r(1) div_mult_mod_eq [of s 86400] by linarith
  moreover have "Format_RFC3339 t = dec_digits 4 (nat y) @ ''-'' @ dec_digits 2 (nat m) @ ''-'' @ dec_digits 2 (nat d) @ ''T'' @
      dec_digits 2 (r div 3600) @ '':'' @ dec_digits 2 (r mod 3600 div 60) @ '':'' @ dec_digits 2 (r mod 60) @ ''Z''"
    unfolding Format_RFC3339_def Let_def s_def [symmetric] r_def [symmetric] c by simp
  ultimately show ?thesis using parse_fields [OF y inv(2-5) hms] by (simp only: s_def)
qed

end
