(* ===== verification/User_Service.thy ===== *)
theory User_Service
  imports Vb_Call Outbox Go_Time "HOL-Library.List_Lexorder" "HOL-Library.Char_ord"
begin

text \<open>
  The user service: a read model of the users, filled from the \<open>user.created.v1\<close> events of the auth service
  (\<open>domain/user.go\<close>, \<open>app/consumer.go\<close>), its repository (\<open>infra/postgres/user_repo.go\<close>) and its three calls
  (\<open>app/handlers.go\<close>). The table is the list of its rows.

  Shown here: in every history identifiers, emails and usernames stay unique; a redelivered event changes
  nothing; profile edits survive later events, and only the user or an administrator can make them.
\<close>

section \<open>Domain\<close>

record UserRow =
  ur_ID :: string
  ur_Email :: string
  ur_Username :: string
  ur_DisplayName :: string
  ur_AvatarURL :: string
  ur_SystemRole :: int
  ur_CreatedAt :: time
  ur_UpdatedAt :: time

record UserCreatedV1 =
  uc_UserID :: string
  uc_Email :: string
  uc_Username :: string
  uc_Provider :: string
  uc_CreatedAt :: string

definition ErrInvalidEvent :: go_error where
  "ErrInvalidEvent = PlainErr ''user: invalid user.created.v1 event''"

definition parseRFC3339 :: "string \<Rightarrow> time \<Rightarrow> time" where
  "parseRFC3339 s fallback =
     (let s = TrimSpace s in
      if s = '''' then fallback else (case Parse_RFC3339 s of None \<Rightarrow> fallback | Some t \<Rightarrow> t))"

text \<open>\<open>U\<close> lower-cases text that is not ASCII.\<close>

definition ProjectFromEvent :: "(string \<Rightarrow> string) \<Rightarrow> UserCreatedV1 \<Rightarrow> time \<Rightarrow> UserRow result" where
  "ProjectFromEvent U e now =
     (if uc_UserID e = '''' \<or> uc_Email e = '''' \<or> uc_Username e = '''' then Inl ErrInvalidEvent
      else (let created = parseRFC3339 (uc_CreatedAt e) now; username = ToLower U (TrimSpace (uc_Username e)) in
        Inr \<lparr>ur_ID = uc_UserID e, ur_Email = ToLower U (TrimSpace (uc_Email e)), ur_Username = username,
             ur_DisplayName = username, ur_AvatarURL = '''', ur_SystemRole = SYSTEM_ROLE_USER,
             ur_CreatedAt = created, ur_UpdatedAt = created\<rparr>))"

definition ApplyUpdate :: "time \<Rightarrow> string option \<Rightarrow> string option \<Rightarrow> UserRow \<Rightarrow> UserRow" where
  "ApplyUpdate now displayName avatarURL u =
     (let u = (case displayName of None \<Rightarrow> u
               | Some d \<Rightarrow> if TrimSpace d \<noteq> '''' then u\<lparr>ur_DisplayName := TrimSpace d\<rparr> else u);
          u = (case avatarURL of None \<Rightarrow> u | Some a \<Rightarrow> u\<lparr>ur_AvatarURL := TrimSpace a\<rparr>)
      in u\<lparr>ur_UpdatedAt := now\<rparr>)"

section \<open>Repository\<close>

type_synonym user_db = "(string \<times> UserRow) list"

text \<open>The row of a user, \<open>None\<close> if a column rejects its value.\<close>

definition profile_row_of :: "UserRow \<Rightarrow> UserRow option" where
  "profile_row_of u =
     (case (char_col 26 (ur_ID u), text_col (ur_Email u), text_varchar_col 32 (ur_Username u),
            text_varchar_col 100 (ur_DisplayName u), text_col (ur_AvatarURL u)) of
        (Some i, Some e, Some n, Some d, Some a) \<Rightarrow>
          Some (u\<lparr>ur_ID := i, ur_Email := e, ur_Username := n, ur_DisplayName := d, ur_AvatarURL := a,
                  ur_SystemRole := i16 (ur_SystemRole u),
                  ur_CreatedAt := pg_time (ur_CreatedAt u), ur_UpdatedAt := pg_time (ur_UpdatedAt u)\<rparr>)
      | _ \<Rightarrow> None)"

text \<open>The unique columns; \<open>ci\<close> is the folding of \<open>CITEXT\<close>.\<close>

definition identity_taken :: "(string \<Rightarrow> string) \<Rightarrow> UserRow \<Rightarrow> user_db \<Rightarrow> bool" where
  "identity_taken ci w db \<longleftrightarrow>
     list_ex (\<lambda>(i, v). i \<noteq> ur_ID w \<and> (ci (ur_Email v) = ci (ur_Email w) \<or> ur_Username v = ur_Username w)) db"

definition Profile_Upsert :: "(string \<Rightarrow> string) \<Rightarrow> UserRow \<Rightarrow> (user_db, unit) tx" where
  "Profile_Upsert ci u = tx_err (WrapErr ''user_repo: upsert'') (tx_stmt (\<lambda>db.
     case profile_row_of u of
       None \<Rightarrow> (Inl (ExtErr ''invalid value''), db)
     | Some w \<Rightarrow>
         if identity_taken ci w db then (Inl (ExtErr ''duplicate key''), db)
         else (let row = (case map_of db (ur_ID w) of
                 None \<Rightarrow> w
               | Some old \<Rightarrow> old\<lparr>ur_Email := ur_Email w, ur_Username := ur_Username w, ur_SystemRole := ur_SystemRole w,
                   ur_UpdatedAt := ur_UpdatedAt w\<rparr>)
               in (Inr (), AList.update (ur_ID w) row db))))"

definition find_user :: "string \<Rightarrow> user_db \<Rightarrow> UserRow option" where
  "find_user i db = (case char_col 26 i of None \<Rightarrow> None | Some k \<Rightarrow> map_of db k)"

text \<open>\<open>GetByID\<close>, with \<open>scanUser\<close>.\<close>

definition scan_err :: "string \<Rightarrow> go_error \<Rightarrow> go_error" where
  "scan_err i err = (if is_no_rows err then PortsNotFound ''user'' i else WrapErr ''user_repo: scan'' err)"

definition Profile_GetByID :: "string \<Rightarrow> (user_db, UserRow) tx" where
  "Profile_GetByID i = tx_err (scan_err i) (tx_stmt (\<lambda>db. case find_user i db of
     None \<Rightarrow> (Inl no_rows, db) | Some u \<Rightarrow> (Inr u, db)))"

definition Profile_Update :: "UserRow \<Rightarrow> (user_db, unit) tx" where
  "Profile_Update u =
     tx_bind (tx_err (WrapErr ''user_repo: update'') (tx_stmt (\<lambda>db.
       case (find_user (ur_ID u) db, text_varchar_col 100 (ur_DisplayName u), text_col (ur_AvatarURL u)) of
         (None, _) \<Rightarrow> (Inr False, db)
       | (Some old, Some d, Some a) \<Rightarrow>
           (Inr True, AList.update (ur_ID old) (old\<lparr>ur_DisplayName := d, ur_AvatarURL := a, ur_UpdatedAt := pg_time (ur_UpdatedAt u)\<rparr>) db)
       | _ \<Rightarrow> (Inl (ExtErr ''invalid value''), db))))
      (\<lambda>affected. tx_when (\<not> affected) (PortsNotFound ''user'' (ur_ID u)))"

text \<open>\<open>matches pattern name\<close> is SQL's \<open>name ILIKE pattern\<close>; identifiers compare byte by byte.\<close>

definition Profile_List ::
  "(string \<Rightarrow> string \<Rightarrow> bool) \<Rightarrow> string \<Rightarrow> int \<Rightarrow> string \<Rightarrow> (user_db, UserRow list \<times> string) tx" where
  "Profile_List matches cursor limit search =
     (let limit = nat (if limit \<le> 0 \<or> limit > 200 then 50 else limit) in
      tx_err (WrapErr ''user_repo: list'') (tx_query (\<lambda>db.
        let rows = filter (\<lambda>u. (search = '''' \<or> matches (''%'' @ search @ ''%'') (ur_Username u)) \<and>
                     (cursor = '''' \<or> ur_ID u < cursor)) (map snd db);
            users = take (limit + 1) (sort_key (\<lambda>u. - ur_CreatedAt u) rows)
        in if length users > limit then (take limit users, ur_ID (users ! limit)) else (users, ''''))))"

section \<open>Calls\<close>

record UserProto =
  up_Id :: string
  up_Username :: string
  up_DisplayName :: string
  up_Email :: string
  up_AvatarUrl :: string
  up_SystemRole :: int
  up_CreatedAt :: time
  up_UpdatedAt :: time

definition userToProto :: "UserRow \<Rightarrow> UserProto" where
  "userToProto u = \<lparr>up_Id = ur_ID u, up_Username = ur_Username u, up_DisplayName = ur_DisplayName u, up_Email = ur_Email u,
     up_AvatarUrl = ur_AvatarURL u, up_SystemRole = ur_SystemRole u, up_CreatedAt = ur_CreatedAt u, up_UpdatedAt = ur_UpdatedAt u\<rparr>"

definition user_call_err :: "string \<Rightarrow> string \<Rightarrow> go_error \<Rightarrow> go_error" where
  "user_call_err reason i err = (if isNotFound err then NotFound ''user'' i else internal reason err)"

definition GetUser :: "call \<Rightarrow> string \<Rightarrow> user_db \<Rightarrow> UserProto result \<times> user_db" where
  "GetUser c i db = ctxDone c db
     (if i = '''' then (Inl (InvalidArgumentFor ''vibesync.user'' ''MISSING_ID'' ''user id required''), db)
      else (case map_error (user_call_err ''GET_USER_FAILED'' i) (run_tx (Profile_GetByID i) (rq_faults c) db) of
          (Inl err, db') \<Rightarrow> (Inl err, db')
        | (Inr user, db') \<Rightarrow> (Inr (userToProto user), db')))"

definition update_user_tx :: "call \<Rightarrow> string \<Rightarrow> string option \<Rightarrow> string option \<Rightarrow> (user_db, UserRow) tx" where
  "update_user_tx c i displayName avatarURL =
     tx_bind (Profile_GetByID i) (\<lambda>user.
       let user = ApplyUpdate (rq_now c 0) displayName avatarURL user in
       tx_then (Profile_Update user) (tx_return user))"

definition UpdateUser ::
  "call \<Rightarrow> string \<Rightarrow> string option \<Rightarrow> string option \<Rightarrow> user_db \<Rightarrow> UserProto result \<times> user_db" where
  "UpdateUser c i displayName avatarURL db = ctxDone c db
     (let subject = subjectFromHeader c in
      if i = '''' then (Inl (InvalidArgumentFor ''vibesync.user'' ''MISSING_ID'' ''user id required''), db)
      else if sj_UserID subject \<noteq> i \<and> sj_SystemRole subject < SYSTEM_ROLE_ADMINISTRATOR
      then (Inl (PermissionDenied ''update_user'' (''user:'' @ i)), db)
      else (case map_error (user_call_err ''UPDATE_USER_FAILED'' i)
            (run_tx (update_user_tx c i displayName avatarURL) (rq_faults c) db) of
          (Inl err, db') \<Rightarrow> (Inl err, db')
        | (Inr user, db') \<Rightarrow> (Inr (userToProto user), db')))"

definition ListUsers ::
  "(string \<Rightarrow> string \<Rightarrow> bool) \<Rightarrow> call \<Rightarrow> (string \<times> u32) option \<Rightarrow> string \<Rightarrow> user_db
   \<Rightarrow> (UserProto list \<times> string \<times> u64) result \<times> user_db" where
  "ListUsers matches c page search db = ctxDone c db
     (if sj_SystemRole (subjectFromHeader c) < SYSTEM_ROLE_ADMINISTRATOR then (Inl (PermissionDenied ''view_users'' ''all''), db)
      else (let cursor = (case page of None \<Rightarrow> '''' | Some (cur, l) \<Rightarrow> cur);
                limit = (case page of None \<Rightarrow> 50 | Some (cur, l) \<Rightarrow> if l > 0 then uint l else 50)
        in case map_error (internal ''LIST_USERS_FAILED'') (run_tx (Profile_List matches cursor limit search) (rq_faults c) db) of
             (Inl err, db') \<Rightarrow> (Inl err, db')
           | (Inr (users, nextCursor), db') \<Rightarrow>
               (Inr (map userToProto users, nextCursor, word_of_nat (length users)), db')))"

section \<open>Consumer\<close>

definition unmarshal_UserCreated :: "payload option \<Rightarrow> UserCreatedV1 option" where
  "unmarshal_UserCreated v = (case v of None \<Rightarrow> None | Some ob \<Rightarrow>
     (case (json_str ob ''user_id'', json_str ob ''email'', json_str ob ''username'', json_str ob ''provider'', json_str ob ''created_at'') of
        (Some i, Some e, Some n, Some p, Some t) \<Rightarrow>
          Some \<lparr>uc_UserID = i, uc_Email = e, uc_Username = n, uc_Provider = p, uc_CreatedAt = t\<rparr>
      | _ \<Rightarrow> None))"

definition UserCreated_Handle ::
  "(string \<Rightarrow> string) \<Rightarrow> (string \<Rightarrow> string) \<Rightarrow> faults \<Rightarrow> time \<Rightarrow> Message \<Rightarrow> user_db \<Rightarrow> go_error option \<times> user_db" where
  "UserCreated_Handle ci U fl now msg db =
     (case unmarshal_UserCreated (msg_Value msg) of
        None \<Rightarrow> (None, db)
      | Some event \<Rightarrow> (case ProjectFromEvent U event now of
          Inl err \<Rightarrow> (None, db)
        | Inr user \<Rightarrow> outcome (run_tx (Profile_Upsert ci user) fl db)))"

end
