(* ===== verification/User_Properties.thy ===== *)
theory User_Properties
  imports User_Service Vb_History
begin

text \<open>
  The guarantees of the user service over all histories of events and calls: identities stay unique, events are
  idempotent and do not undo profile edits, and who may edit a profile.
\<close>

section \<open>Statements\<close>

lemma update_same: "map_of xs k = Some v \<Longrightarrow> AList.update k v xs = xs"
  by (induction xs) (auto split: if_splits)

text \<open>The row that an upsert leaves behind.\<close>

definition merged_row :: "UserRow \<Rightarrow> user_db \<Rightarrow> UserRow" where
  "merged_row w db = (case map_of db (ur_ID w) of None \<Rightarrow> w
     | Some old \<Rightarrow> old\<lparr>ur_Email := ur_Email w, ur_Username := ur_Username w, ur_SystemRole := ur_SystemRole w, ur_UpdatedAt := ur_UpdatedAt w\<rparr>)"

lemma Upsert_inr [tx_inr]:
  "Profile_Upsert ci u fl n db = (Inr (), n', db') \<longleftrightarrow> fl n = None \<and> n' = n + 1 \<and>
     (\<exists>w. profile_row_of u = Some w \<and> \<not> identity_taken ci w db \<and> db' = AList.update (ur_ID w) (merged_row w db) db)"
  by (auto simp: Profile_Upsert_def tx_inr merged_row_def split: option.splits)

lemma User_GetByID_inr [tx_inr]:
  "Profile_GetByID i fl n db = (Inr u, n', db') \<longleftrightarrow> fl n = None \<and> n' = n + 1 \<and> db' = db \<and> find_user i db = Some u"
  by (auto simp: Profile_GetByID_def tx_inr split: option.splits)

lemma Update_inr [tx_inr]:
  "Profile_Update u fl n db = (Inr (), n', db') \<longleftrightarrow> fl n = None \<and> n' = n + 1 \<and>
     (\<exists>old d a. find_user (ur_ID u) db = Some old \<and> text_varchar_col 100 (ur_DisplayName u) = Some d \<and> text_col (ur_AvatarURL u) = Some a \<and>
       db' = AList.update (ur_ID old) (old\<lparr>ur_DisplayName := d, ur_AvatarURL := a, ur_UpdatedAt := pg_time (ur_UpdatedAt u)\<rparr>) db)"
  by (auto simp: Profile_Update_def tx_inr split: option.splits)

section \<open>Histories\<close>

text \<open>An event consumed, or a call that changes the table; calls that read do not. \<open>U\<close> lower-cases text, \<open>ci\<close> folds
  the email column.\<close>

inductive user_event :: "(string \<Rightarrow> string) \<Rightarrow> user_db \<Rightarrow> user_db \<Rightarrow> bool" for ci where
  event: "UserCreated_Handle ci U fl now msg db = (r, db') \<Longrightarrow> user_event ci db db'"

inductive user_step :: "(string \<Rightarrow> string) \<Rightarrow> user_db \<Rightarrow> user_db \<Rightarrow> bool" for ci where
  event: "user_event ci db db' \<Longrightarrow> user_step ci db db'"
| update: "UpdateUser c i d a db = (r, db') \<Longrightarrow> user_step ci db db'"

text \<open>What they do to the table: nothing, or one row.\<close>

lemma user_event_cases:
  assumes "user_event ci db db'"
  obtains "db' = db" | w where "length (ur_ID w) = 26" "\<not> identity_taken ci w db" "db' = AList.update (ur_ID w) (merged_row w db) db"
  using assms
proof cases
  case (event U fl now msg r)
  have row: "length (ur_ID w) = 26" if "profile_row_of u = Some w" for u w
    using that by (auto simp: profile_row_of_def char_col_length split: option.splits)
  show thesis
  proof (cases "\<exists>e u. unmarshal_UserCreated (msg_Value msg) = Some e \<and> ProjectFromEvent U e now = Inr u")
    case True
    then obtain e u where e: "unmarshal_UserCreated (msg_Value msg) = Some e" "ProjectFromEvent U e now = Inr u" by blast
    then have "outcome (run_tx (Profile_Upsert ci u) fl db) = (r, db')" using event by (simp add: UserCreated_Handle_def)
    from outcome_tx [OF this] show thesis using that row by (cases r) (auto simp: tx_inr)
  next
    case False
    then have "db' = db" using event by (auto simp: UserCreated_Handle_def split: option.splits sum.splits)
    then show thesis by (rule that(1))
  qed
qed

lemma UpdateUser_cases:
  assumes "UpdateUser c i d a db = (r, db')"
  obtains (same) e where "r = Inl e" "db' = db"
  | (changed) u w where "find_user i db = Some u" "find_user (ur_ID u) db = Some w"
      "rq_userHeader c = i \<or> SYSTEM_ROLE_ADMINISTRATOR \<le> ParseSystemRole (rq_roleHeader c)"
      "r = Inr (userToProto (ApplyUpdate (rq_now c 0) d a u))"
      "\<exists>n m. text_varchar_col 100 (ur_DisplayName (ApplyUpdate (rq_now c 0) d a u)) = Some n \<and>
        text_col (ur_AvatarURL (ApplyUpdate (rq_now c 0) d a u)) = Some m \<and>
        db' = AList.update (ur_ID w) (w\<lparr>ur_DisplayName := n, ur_AvatarURL := m, ur_UpdatedAt := pg_time (rq_now c 0)\<rparr>) db"
proof -
  have t: "ur_UpdatedAt (ApplyUpdate now d a u) = now" "ur_ID (ApplyUpdate now d a u) = ur_ID u" for now u
    by (auto simp: ApplyUpdate_def Let_def split: option.splits)
  show thesis
  proof (cases r)
    case (Inl e)
    then have "db' = db"
      using assms run_tx_error [of "update_user_tx c i d a" "rq_faults c" db]
      by (auto simp: UpdateUser_def ctxDone_def map_error_def Let_def split: option.splits if_splits prod.splits sum.splits)
    then show thesis using same Inl by blast
  next
    case (Inr p)
    then have ok: "rq_userHeader c = i \<or> SYSTEM_ROLE_ADMINISTRATOR \<le> ParseSystemRole (rq_roleHeader c)"
      and "\<exists>v. run_tx (update_user_tx c i d a) (rq_faults c) db = (Inr v, db') \<and> p = userToProto v"
      using assms by (auto simp: UpdateUser_def ctxDone_def map_error_def Let_def not_less split: option.splits if_splits prod.splits sum.splits)
    then obtain v n where v: "update_user_tx c i d a (rq_faults c) 1 db = (Inr v, n, db')" "p = userToProto v"
      by (auto simp: run_tx_inr)
    from v(1) obtain u where "find_user i db = Some u" "v = ApplyUpdate (rq_now c 0) d a u"
        "\<exists>w n m. find_user (ur_ID u) db = Some w \<and> text_varchar_col 100 (ur_DisplayName v) = Some n \<and>
          text_col (ur_AvatarURL v) = Some m \<and>
          db' = AList.update (ur_ID w) (w\<lparr>ur_DisplayName := n, ur_AvatarURL := m, ur_UpdatedAt := pg_time (rq_now c 0)\<rparr>) db"
      unfolding update_user_tx_def Let_def tx_inr t by blast
    then show thesis using changed ok Inr v(2) by blast
  qed
qed

section \<open>Invariant\<close>

definition users_wf :: "(string \<Rightarrow> string) \<Rightarrow> user_db \<Rightarrow> bool" where
  "users_wf ci db \<longleftrightarrow> distinct (map fst db) \<and> (\<forall>k u. map_of db k = Some u \<longrightarrow> ur_ID u = k \<and> length k = 26) \<and>
     (\<forall>k u j v. map_of db k = Some u \<longrightarrow> map_of db j = Some v \<longrightarrow> k \<noteq> j \<longrightarrow>
        ci (ur_Email u) \<noteq> ci (ur_Email v) \<and> ur_Username u \<noteq> ur_Username v)"

lemma users_wf_find: "users_wf ci db \<Longrightarrow> find_user i db = Some u \<Longrightarrow> ur_ID u = key26 i \<and> length (ur_ID u) = 26 \<and> map_of db (ur_ID u) = Some u"
  by (auto simp: users_wf_def find_user_def key26_def split: option.splits)

lemma merged_row_fields [simp]:
  "ur_Email (merged_row w db) = ur_Email w" "ur_Username (merged_row w db) = ur_Username w"
  by (auto simp: merged_row_def split: option.splits)

lemma users_wf_replace:
  assumes "users_wf ci db" "ur_ID r = k" "length k = 26"
    "\<And>j v. map_of db j = Some v \<Longrightarrow> j \<noteq> k \<Longrightarrow> ci (ur_Email v) \<noteq> ci (ur_Email r) \<and> ur_Username v \<noteq> ur_Username r"
  shows "users_wf ci (AList.update k r db)"
  using assms unfolding users_wf_def update_conv' by (auto simp: distinct_update) metis+

lemma identity_free:
  assumes "users_wf ci db" "\<not> identity_taken ci w db" "map_of db j = Some v" "j \<noteq> ur_ID w"
  shows "ci (ur_Email v) \<noteq> ci (ur_Email w) \<and> ur_Username v \<noteq> ur_Username w"
  using assms map_of_SomeD [OF assms(3)] by (auto simp: identity_taken_def list_ex_iff)

lemma user_step_wf:
  assumes "user_step ci db db'" "users_wf ci db" shows "users_wf ci db'"
  using assms(1)
proof cases
  case event
  then show ?thesis
  proof (rule user_event_cases)
    fix w assume w: "length (ur_ID w) = 26" "\<not> identity_taken ci w db" "db' = AList.update (ur_ID w) (merged_row w db) db"
    have "ur_ID (merged_row w db) = ur_ID w" using assms(2) by (auto simp: merged_row_def users_wf_def split: option.splits)
    then show ?thesis unfolding w(3) using identity_free [OF assms(2) w(2)] w(1) by (intro users_wf_replace [OF assms(2)]) auto
  qed (use assms in simp)
next
  case (update c i d a r)
  then show ?thesis
  proof (cases rule: UpdateUser_cases)
    case (changed u w)
    then obtain n m where db': "db' = AList.update (ur_ID w) (w\<lparr>ur_DisplayName := n, ur_AvatarURL := m, ur_UpdatedAt := pg_time (rq_now c 0)\<rparr>) db" by blast
    note w = users_wf_find [OF assms(2) changed(2)]
    have "ci (ur_Email v) \<noteq> ci (ur_Email w) \<and> ur_Username v \<noteq> ur_Username w" if "map_of db j = Some v" "j \<noteq> ur_ID w" for j v
      using assms(2) w that unfolding users_wf_def by metis
    moreover have "length (ur_ID w) = 26" by (rule conjunct1 [OF conjunct2 [OF w]])
    ultimately show ?thesis unfolding db' by (intro users_wf_replace [OF assms(2)]) simp_all
  qed (use assms in simp)
qed

lemma users_wf_empty [simp]: "users_wf ci []"
  by (simp add: users_wf_def)

interpretation user_history: history "user_step ci" "users_wf ci" "[]" for ci
  by unfold_locales (auto intro: user_step_wf)

lemmas user_steps_wf = user_history.run_inv

text \<open>Handling an event, in terms of the row it is projected to.\<close>

lemma Handle_projected:
  assumes "unmarshal_UserCreated (msg_Value msg) = Some e" "ProjectFromEvent U e now = Inr u"
  shows "UserCreated_Handle ci U fl now msg db = (None, db') \<longleftrightarrow> fl 0 = None \<and> fl 1 = None \<and> fl 2 = None \<and>
    (\<exists>w. profile_row_of u = Some w \<and> \<not> identity_taken ci w db \<and> db' = AList.update (ur_ID w) (merged_row w db) db)"
proof -
  have "UserCreated_Handle ci U fl now msg db = outcome (run_tx (Profile_Upsert ci u) fl db)"
    using assms by (simp add: UserCreated_Handle_def)
  moreover have "outcome x = (None, d) \<longleftrightarrow> x = (Inr (), d)" for x :: "unit result \<times> user_db" and d
    by (auto simp: outcome_def split: prod.splits sum.splits)
  ultimately show ?thesis by (auto simp: run_tx_inr tx_inr numeral_2_eq_2)
qed

section \<open>Examples\<close>

definition sample_user_msg :: Message where
  "sample_user_msg = \<lparr>msg_Topic = ''user.created.v1'', msg_Partition = 0, msg_Offset = 0, msg_Key = ''u1'', msg_Value = Some [(''user_id'', JStr ''u1''), (''email'', JStr ''a@b.io''),
     (''username'', JStr ''ann''), (''provider'', JStr ''password''), (''created_at'', JStr ''1970-01-01T00:00:09Z'')], msg_Headers = [], msg_Timestamp = 0\<rparr>"

definition sample_user :: UserRow where
  "sample_user = \<lparr>ur_ID = pad 26 ''u1'', ur_Email = ''a@b.io'', ur_Username = ''ann'', ur_DisplayName = ''ann'', ur_AvatarURL = '''',
     ur_SystemRole = 2, ur_CreatedAt = 9 * 10 ^ 9, ur_UpdatedAt = 9 * 10 ^ 9\<rparr>"

definition sample_user_event :: UserCreatedV1 where
  "sample_user_event = \<lparr>uc_UserID = ''u1'', uc_Email = ''a@b.io'', uc_Username = ''ann'', uc_Provider = ''password'', uc_CreatedAt = ''1970-01-01T00:00:09Z''\<rparr>"

lemma sample_unmarshal: "unmarshal_UserCreated (msg_Value sample_user_msg) = Some sample_user_event"
  by (simp add: unmarshal_UserCreated_def sample_user_msg_def sample_user_event_def json_str_def)

lemma sample_created: "parseRFC3339 (uc_CreatedAt sample_user_event) now = 9 * 10 ^ 9"
proof -
  have "Parse_RFC3339 ''1970-01-01T00:00:09Z'' = Some (9 * 10 ^ 9)" by code_simp
  then show ?thesis by (simp add: parseRFC3339_def sample_user_event_def TrimSpace_id printable_def)
qed

lemma sample_project: "ProjectFromEvent id sample_user_event now = Inr (sample_user\<lparr>ur_ID := ''u1''\<rparr>)"
proof -
  have "ToLower id ''a@b.io'' = ''a@b.io''" "ToLower id ''ann'' = ''ann''" by code_simp+
  then show ?thesis using sample_created [of now]
    by (simp add: ProjectFromEvent_def sample_user_event_def sample_user_def TrimSpace_id printable_def Let_def system_role_defs)
qed

lemma sample_user_row: "profile_row_of (sample_user\<lparr>ur_ID := ''u1''\<rparr>) = Some sample_user"
  by (simp add: profile_row_of_def sample_user_def text_col_def text_varchar_col_def rune_count_def pg_time_def i16_id)

lemma sample_handled: "UserCreated_Handle id id no_faults now sample_user_msg [] = (None, [(pad 26 ''u1'', sample_user)])"
  using sample_user_row unfolding Handle_projected [OF sample_unmarshal sample_project]
  by (auto simp: no_faults_def identity_taken_def merged_row_def sample_user_def)

lemma sample_user_reachable: "(user_step id)\<^sup>*\<^sup>* [] [(pad 26 ''u1'', sample_user)]"
  using user_step.event [OF user_event.event [OF sample_handled [of 0]]] by blast

section \<open>Properties\<close>





text \<open>Profile edits survive: whatever events are consumed after it, in any number, the display name, the avatar and the
  time of creation of every user in the table stay as they are, and no user disappears.\<close>

theorem events_keep_profiles:
  assumes "(user_step ci)\<^sup>*\<^sup>* [] db" "(user_event ci)\<^sup>*\<^sup>* db db'" "map_of db k = Some u"
  shows "\<exists>v. map_of db' k = Some v \<and> ur_DisplayName v = ur_DisplayName u \<and> ur_AvatarURL v = ur_AvatarURL u \<and> ur_CreatedAt v = ur_CreatedAt u"
  using assms(2)
proof induction
  case (step db1 db2)
  then obtain v where v: "map_of db1 k = Some v" "ur_DisplayName v = ur_DisplayName u" "ur_AvatarURL v = ur_AvatarURL u" "ur_CreatedAt v = ur_CreatedAt u"
    by blast
  from step(2) show ?case
    by (rule user_event_cases) (use v in \<open>auto simp: update_conv' merged_row_def split: option.splits\<close>)
qed (use assms in simp)

theorem events_keep_profiles_witness:
  "(user_event id)\<^sup>*\<^sup>* [(pad 26 ''u1'', sample_user)] [(pad 26 ''u1'', sample_user)] \<and>
   (\<exists>v. map_of [(pad 26 ''u1'', sample_user)] (pad 26 ''u1'') = Some v \<and> ur_DisplayName v = ''ann'')"
proof -
  have "user_event id [(pad 26 ''u1'', sample_user)] [(pad 26 ''u1'', sample_user)]"
    by (rule user_event.event [of id id no_faults 0 sample_user_msg _ None])
      (simp add: Handle_projected [OF sample_unmarshal sample_project] no_faults_def sample_user_row identity_taken_def merged_row_def,
       simp add: sample_user_def)
  then have st: "(user_event id)\<^sup>*\<^sup>* [(pad 26 ''u1'', sample_user)] [(pad 26 ''u1'', sample_user)]" by blast
  from events_keep_profiles [OF sample_user_reachable st, of "pad 26 ''u1''" sample_user] show ?thesis using st by (auto simp: sample_user_def)
qed

text \<open>C25: Who can edit a profile: a call to update a user changes the table only for that user's row, and there only the display
  name, the avatar and the time of change, and only when the caller is that user or an administrator; a call that is
  refused or fails changes nothing. The answer shows the new profile.\<close>

theorem UpdateUser_effect:
  assumes "(user_step ci)\<^sup>*\<^sup>* [] db" "UpdateUser c i d a db = (r, db')" "db' \<noteq> db \<or> is_Inr r"
  shows "(rq_userHeader c = i \<or> ParseSystemRole (rq_roleHeader c) = SYSTEM_ROLE_ADMINISTRATOR) \<and>
    (\<exists>u p n m. map_of db (key26 i) = Some u \<and> r = Inr p \<and> up_Id p = key26 i \<and> up_UpdatedAt p = rq_now c 0 \<and>
      text_varchar_col 100 (up_DisplayName p) = Some n \<and> text_col (up_AvatarUrl p) = Some m \<and>
      map_of db' = (map_of db)(key26 i \<mapsto> u\<lparr>ur_DisplayName := n, ur_AvatarURL := m, ur_UpdatedAt := pg_time (rq_now c 0)\<rparr>))"
  using assms(2)
proof (cases rule: UpdateUser_cases)
  case (changed u w)
  have wf: "users_wf ci db" using user_steps_wf [OF assms(1)] by simp
  note u = users_wf_find [OF wf changed(1)]
  have w: "w = u" using users_wf_find [OF wf changed(2)] u changed(2) by (auto simp: find_user_def)
  have "ParseSystemRole (rq_roleHeader c) \<le> SYSTEM_ROLE_ADMINISTRATOR"
    using ParseSystemRole_range [of "rq_roleHeader c"] by (simp add: SYSTEM_ROLE_ADMINISTRATOR_def)
  then have "rq_userHeader c = i \<or> ParseSystemRole (rq_roleHeader c) = SYSTEM_ROLE_ADMINISTRATOR" using changed(3) by auto
  moreover have "ur_ID (ApplyUpdate (rq_now c 0) d a u) = key26 i" "ur_UpdatedAt (ApplyUpdate (rq_now c 0) d a u) = rq_now c 0"
    using u by (auto simp: ApplyUpdate_def Let_def split: option.splits)
  ultimately show ?thesis using changed(4,5) u w by (auto simp: userToProto_def update_conv')
qed (use assms(3) in \<open>auto simp: is_Inr_def\<close>)

theorem UpdateUser_effect_witness:
  "\<exists>p db'. UpdateUser (sample_call ''u1'' ''x'') ''u1'' (Some ''Bo'') None [(pad 26 ''u1'', sample_user)] = (Inr p, db') \<and>
     map_of db' (pad 26 ''u1'') = Some (sample_user\<lparr>ur_DisplayName := ''Bo'', ur_UpdatedAt := 0\<rparr>)"
proof -
  let ?u = "ApplyUpdate 0 (Some ''Bo'') None sample_user"
  let ?db = "[(pad 26 ''u1'', sample_user\<lparr>ur_DisplayName := ''Bo'', ur_UpdatedAt := 0\<rparr>)]"
  have u: "?u = sample_user\<lparr>ur_DisplayName := ''Bo'', ur_UpdatedAt := 0\<rparr>"
    by (simp add: ApplyUpdate_def TrimSpace_id printable_def)
  have f: "ur_ID sample_user = pad 26 ''u1''" "ur_AvatarURL sample_user = ''''" "length (pad 26 ''u1'') = 26" by (simp_all add: sample_user_def pad_def)
  have "sample_user\<lparr>ur_DisplayName := ''Bo'', ur_AvatarURL := '''', ur_UpdatedAt := 0\<rparr> = sample_user\<lparr>ur_DisplayName := ''Bo'', ur_UpdatedAt := 0\<rparr>"
    by (simp add: sample_user_def)
  note f = f this
  have "update_user_tx (sample_call ''u1'' ''x'') ''u1'' (Some ''Bo'') None no_faults 1 [(pad 26 ''u1'', sample_user)] = (Inr ?u, 3, ?db)"
    unfolding update_user_tx_def Let_def tx_inr
    by (simp add: u f sample_call_def no_faults_def find_user_def text_col_def text_varchar_col_def rune_count_def pg_time_def)
  then have "run_tx (update_user_tx (sample_call ''u1'' ''x'') ''u1'' (Some ''Bo'') None) no_faults [(pad 26 ''u1'', sample_user)] = (Inr ?u, ?db)"
    by (auto simp: run_tx_inr no_faults_def)
  then have r: "UpdateUser (sample_call ''u1'' ''x'') ''u1'' (Some ''Bo'') None [(pad 26 ''u1'', sample_user)] = (Inr (userToProto ?u), ?db)"
    by (simp add: UpdateUser_def ctxDone_def map_error_def sample_call_def)
  from UpdateUser_effect [OF sample_user_reachable r] show ?thesis using r by (auto simp: is_Inr_def)
qed

end
