(* ===== verification/Sync_Service.thy ===== *)
theory Sync_Service
  imports Room_Sync_Run Outbox
begin

text \<open>
  The sync service around the rooms: \<open>app/service.go\<close> (the room manager), \<open>app/handlers.go\<close> (the RPCs
  and the consumer of \<open>room.created.v1\<close>), \<open>infra/postgres/sync_state_repo.go\<close> (the checkpoint table),
  \<open>infra/roomclient/client.go\<close> (the permission check at the room service) and the presence set of
  \<open>infra/redis/client.go\<close>.

  The manager holds its lock over each of its methods, so the map of rooms changes in atomic steps.
  What the other processes answer is an argument: \<open>fl\<close> for the database, \<open>has\<close> for the permission
  check, the readings of the clock, the fresh subscriber channel.
\<close>

section \<open>Checkpoint table\<close>

text \<open>\<open>room_id\<close> is \<open>CHAR(26)\<close>; \<open>media_id\<close>, \<open>host_id\<close> and \<open>owner_id\<close> are \<open>VARCHAR(26)\<close>.\<close>

record sync_row =
  sr_media_id :: string
  sr_status :: int
  sr_media_time_ms :: int
  sr_wall_time_ms :: int
  sr_playback_rate :: f64
  sr_epoch :: int
  sr_host_id :: string
  sr_fencing_token :: int
  sr_owner_id :: string
  sr_updated_at :: time

type_synonym sync_table = "string \<rightharpoonup> sync_row"

definition Sync_Upsert :: "time \<Rightarrow> SyncState \<Rightarrow> (sync_table, unit) tx" where
  "Sync_Upsert now s = tx_err (WrapErr ''sync_state_repo: upsert'') (tx_stmt (\<lambda>db.
     case (char_col 26 (ss_RoomID s), varchar_col 26 (ss_MediaID s), varchar_col 26 (ss_HostID s),
           varchar_col 26 (ss_OwnerID s)) of
       (Some k, Some m, Some h, Some w) \<Rightarrow> (Inr (), db(k \<mapsto>
          \<lparr>sr_media_id = m, sr_status = i16 (ss_Status s), sr_media_time_ms = ss_MediaTimeMs s,
           sr_wall_time_ms = ss_WallTimeMs s, sr_playback_rate = ss_PlaybackRate s,
           sr_epoch = u64_to_i64 (ss_Epoch s), sr_host_id = h,
           sr_fencing_token = u64_to_i64 (ss_FencingToken s), sr_owner_id = w,
           sr_updated_at = pg_time now\<rparr>))
     | _ \<Rightarrow> (Inl (ExtErr ''value too long''), db)))"

definition Sync_Get :: "string \<Rightarrow> (sync_table, SyncState) tx" where
  "Sync_Get roomID = tx_err (WrapErr ''sync_state_repo: get'') (tx_stmt (\<lambda>db.
     case char_col 26 roomID of
       None \<Rightarrow> (Inl (ErrNoRows ''no rows in result set''), db)
     | Some k \<Rightarrow> (case db k of
         None \<Rightarrow> (Inl (ErrNoRows ''no rows in result set''), db)
       | Some w \<Rightarrow> (Inr \<lparr>ss_RoomID = k, ss_MediaID = sr_media_id w, ss_Status = i8 (sr_status w),
            ss_MediaTimeMs = sr_media_time_ms w, ss_WallTimeMs = sr_wall_time_ms w,
            ss_PlaybackRate = sr_playback_rate w, ss_Epoch = i64_to_u64 (sr_epoch w),
            ss_HostID = sr_host_id w, ss_FencingToken = i64_to_u64 (sr_fencing_token w),
            ss_EpochStarted = sr_updated_at w, ss_OwnerID = sr_owner_id w\<rparr>, db))))"

section \<open>Room manager\<close>

record SyncService =
  sv_cfg :: SyncConfig
  sv_presence :: bool
  sv_rooms :: "string \<rightharpoonup> RoomSync"
  sv_states :: sync_table
  sv_outbox :: "outbox_row list"

text \<open>The closure that loads the persisted state; its transaction only reads and is rolled back.\<close>

definition load_state :: "faults \<Rightarrow> string \<Rightarrow> sync_table \<Rightarrow> SyncState result" where
  "load_state fl roomID db = (case fl 0 of Some e \<Rightarrow> Inl (ExtErr e) | None \<Rightarrow> fst (Sync_Get roomID fl 1 db))"

definition fresh_state :: "string \<Rightarrow> SyncState" where
  "fresh_state roomID = zero_SyncState\<lparr>ss_RoomID := roomID, ss_Status := StatusPaused, ss_PlaybackRate := Fin 1\<rparr>"

definition GetOrCreate :: "faults \<Rightarrow> string \<Rightarrow> SyncService \<Rightarrow> RoomSync \<times> SyncService" where
  "GetOrCreate fl roomID sv = (case sv_rooms sv roomID of
     Some rs \<Rightarrow> (rs, sv)
   | None \<Rightarrow>
       (let state = (case load_state fl roomID (sv_states sv) of Inl e \<Rightarrow> fresh_state roomID | Inr s \<Rightarrow> s);
            rs = Start (NewRoomSync (sv_cfg sv) roomID state (sv_presence sv))
        in (rs, sv\<lparr>sv_rooms := (sv_rooms sv)(roomID \<mapsto> rs)\<rparr>)))"

definition Init :: "string \<Rightarrow> string \<Rightarrow> time \<Rightarrow> time \<Rightarrow> SyncService \<Rightarrow> SyncService" where
  "Init roomID ownerID now now' sv = (case sv_rooms sv roomID of
     Some rs \<Rightarrow> sv\<lparr>sv_rooms := (sv_rooms sv)(roomID \<mapsto> snd (AdoptOwnerIfUnset ownerID now now' rs))\<rparr>
   | None \<Rightarrow>
       (let state = (fresh_state roomID)\<lparr>ss_HostID := ownerID, ss_OwnerID := ownerID\<rparr>;
            rs = Start (NewRoomSync (sv_cfg sv) roomID state (sv_presence sv))
        in sv\<lparr>sv_rooms := (sv_rooms sv)(roomID \<mapsto> rs)\<rparr>))"

definition Manager_Shutdown :: "SyncService \<Rightarrow> SyncService" where
  "Manager_Shutdown sv = sv\<lparr>sv_rooms := (\<lambda>r. map_option Shutdown (sv_rooms sv r))\<rparr>"

definition makePersister :: "faults \<Rightarrow> time \<Rightarrow> SyncState \<Rightarrow> SyncService \<Rightarrow> unit result \<times> SyncService" where
  "makePersister fl now s sv = (case run_tx (Sync_Upsert now s) fl (sv_states sv) of
     (r, db) \<Rightarrow> (r, sv\<lparr>sv_states := db\<rparr>))"

definition makeStager :: "faults \<Rightarrow> Event \<Rightarrow> SyncService \<Rightarrow> unit result \<times> SyncService" where
  "makeStager fl event sv = (case run_tx (Append [event]) fl (sv_outbox sv) of
     (r, db) \<Rightarrow> (r, sv\<lparr>sv_outbox := db\<rparr>))"

definition put_room :: "string \<Rightarrow> RoomSync \<Rightarrow> SyncService \<Rightarrow> SyncService" where
  "put_room roomID rs sv = sv\<lparr>sv_rooms := (sv_rooms sv)(roomID \<mapsto> rs)\<rparr>"

text \<open>The branch of \<open>runLoop\<close> for the snapshot timer of a room: broadcast, stage, persist; the errors of
  the last two are only logged. \<open>it\<close>, \<open>it'\<close> are the iterations of the two snapshots.\<close>

definition snapshot_timer ::
  "(f64 \<Rightarrow> int) \<Rightarrow> faults \<Rightarrow> faults \<Rightarrow> string list \<Rightarrow> string list \<Rightarrow> time \<Rightarrow> time \<Rightarrow> time \<Rightarrow> time \<Rightarrow> time \<Rightarrow> string
   \<Rightarrow> string \<Rightarrow> SyncService \<Rightarrow> SyncService" where
  "snapshot_timer cv fl fl' it it' t1 t2 t3 t4 t5 newID roomID sv = (case sv_rooms sv roomID of
     None \<Rightarrow> sv
   | Some rs \<Rightarrow>
       (let rs = broadcastSnapshot cv it t1 t2 rs;
            sv = put_room roomID rs sv;
            sv = snd (makeStager fl (stageOutbox cv it' t3 newID t4 rs) sv)
        in snd (makePersister fl' t5 (persistState rs) sv)))"

section \<open>Permissions\<close>

definition PermUnspecified :: int where "PermUnspecified = 0"
definition PermSeek :: int where "PermSeek = 1"
definition PermPausePlay :: int where "PermPausePlay = 2"
definition PermSwitchQueue :: int where "PermSwitchQueue = 3"

definition commandPermission :: "CommandKind \<Rightarrow> int \<times> bool" where
  "commandPermission kind =
     (if kind = CmdSeek then (PermSeek, True)
      else if kind = CmdPlay \<or> kind = CmdPause \<or> kind = CmdSetRate then (PermPausePlay, True)
      else if kind = CmdLoadMedia \<or> kind = CmdNext \<or> kind = CmdPrevious then (PermSwitchQueue, True)
      else (PermUnspecified, False))"

text \<open>\<open>roomclient.Has\<close>: the answer of the room service is \<open>(is_owner, permissions)\<close>.\<close>

definition roomclient_Has ::
  "(string \<Rightarrow> string \<Rightarrow> (bool \<times> int list) result) \<Rightarrow> string \<Rightarrow> string \<Rightarrow> int \<Rightarrow> bool result" where
  "roomclient_Has getMemberPermissions roomID userID perm =
     (if roomID = '''' \<or> userID = '''' then Inl (PlainErr ''roomclient: room_id and user_id are required'')
      else (case getMemberPermissions roomID userID of
          Inl e \<Rightarrow> Inl (WrapErr ''roomclient: get member permissions'' e)
        | Inr (isOwner, perms) \<Rightarrow> if isOwner then Inr True else Inr (list_ex (\<lambda>p. p = perm) perms)))"

definition authorizeCommand ::
  "(string \<Rightarrow> string \<Rightarrow> int \<Rightarrow> bool result) \<Rightarrow> RoomSync \<Rightarrow> string \<Rightarrow> CommandKind \<Rightarrow> unit result" where
  "authorizeCommand has room userID kind =
     (if userID = HostID room \<or> userID = OwnerID room then Inr ()
      else (case commandPermission kind of (perm, ok) \<Rightarrow>
        if \<not> ok then Inl (PermissionDenied ''command'' (''room:'' @ rs_roomID room))
        else (case has (rs_roomID room) userID perm of
            Inl err \<Rightarrow> Inl (WithCause err (Internal ''PERMISSION_CHECK_FAILED'' (err_text err)))
          | Inr allowed \<Rightarrow>
              if \<not> allowed then Inl (PermissionDenied ''command'' (''room:'' @ rs_roomID room)) else Inr ())))"

section \<open>RPC handlers\<close>

text \<open>\<open>ctxErr\<close> is \<open>ctx.Err()\<close> at the start of the call, \<open>userID\<close> the header \<open>X-Vibesync-User-Id\<close>.\<close>

definition missing_room :: go_error where
  "missing_room = InvalidArgumentFor ''vibesync.sync'' ''MISSING_ROOM_ID'' ''room_id required''"

definition Heartbeat ::
  "(f64 \<Rightarrow> int) \<Rightarrow> go_error option \<Rightarrow> faults \<Rightarrow> string \<Rightarrow> string \<Rightarrow> int \<Rightarrow> int \<Rightarrow> int \<Rightarrow> time \<Rightarrow> int \<Rightarrow> SyncService
   \<Rightarrow> HeartbeatReply result \<times> SyncService" where
  "Heartbeat cv ctxErr fl roomID userID clientMediaTimeMs clientWallTimeMs t2 now t3 sv = (case ctxErr of
     Some e \<Rightarrow> (Inl e, sv)
   | None \<Rightarrow>
       if roomID = '''' then (Inl missing_room, sv)
       else if userID = '''' then (Inl (Unauthenticated ''MISSING_USER_ID''), sv)
       else (case GetOrCreate fl roomID sv of (room, sv) \<Rightarrow>
         case ProcessHeartbeat cv roomID userID clientMediaTimeMs clientWallTimeMs t2 now t3 room of
           (reply, room) \<Rightarrow> (Inr reply, put_room roomID room sv)))"

text \<open>The kind of a command is an open proto enum (\<open>int32\<close>), converted to \<open>int8\<close>.\<close>

definition Command ::
  "(f64 \<Rightarrow> int) \<Rightarrow> (string \<Rightarrow> string \<Rightarrow> int \<Rightarrow> bool result) \<Rightarrow> go_error option \<Rightarrow> faults \<Rightarrow> string \<Rightarrow> string \<Rightarrow> int
   \<Rightarrow> int option \<Rightarrow> f64 option \<Rightarrow> string \<Rightarrow> u64 \<Rightarrow> int \<Rightarrow> time \<Rightarrow> time \<Rightarrow> SyncService \<Rightarrow> command_reply result \<times> SyncService" where
  "Command cv has ctxErr fl roomID userID reqKind seekToMs rate mediaID tok nowMs now now' sv = (case ctxErr of
     Some e \<Rightarrow> (Inl e, sv)
   | None \<Rightarrow>
       if roomID = '''' then (Inl missing_room, sv)
       else if userID = '''' then (Inl (Unauthenticated ''MISSING_USER_ID''), sv)
       else (case GetOrCreate fl roomID sv of (room, sv) \<Rightarrow>
         let kind = i8 reqKind in
         case authorizeCommand has room userID kind of
           Inl e \<Rightarrow> (Inl e, sv)
         | Inr _ \<Rightarrow>
             (case ProcessCommandAuthorized cv kind seekToMs rate mediaID tok nowMs now now' room of
                (reply, room) \<Rightarrow> (Inr reply, put_room roomID room sv))))"

definition Recover_handler ::
  "(f64 \<Rightarrow> int) \<Rightarrow> go_error option \<Rightarrow> faults \<Rightarrow> string \<Rightarrow> u64 \<Rightarrow> string list \<Rightarrow> time \<Rightarrow> SyncService
   \<Rightarrow> (SyncSnapshot + frame list) result \<times> SyncService" where
  "Recover_handler cv ctxErr fl roomID sinceEpoch it now sv = (case ctxErr of
     Some e \<Rightarrow> (Inl e, sv)
   | None \<Rightarrow>
       if roomID = '''' then (Inl missing_room, sv)
       else (case GetOrCreate fl roomID sv of (room, sv) \<Rightarrow>
         case Recover cv it sinceEpoch now room of
           (Some snapshot, frames) \<Rightarrow> (Inr (Inl snapshot), sv)
         | (None, frames) \<Rightarrow> (Inr (Inr frames), sv)))"

text \<open>\<open>Subscribe\<close> up to the first send: the subscriber is registered, then a snapshot is sent; a failed
  send unregisters it (the deferred call). Afterwards the stream forwards what \<open>receive\<close> yields.\<close>

definition Subscribe ::
  "(f64 \<Rightarrow> int) \<Rightarrow> go_error option \<Rightarrow> faults \<Rightarrow> go_error option \<Rightarrow> string \<Rightarrow> nat \<Rightarrow> string list \<Rightarrow> time \<Rightarrow> SyncService
   \<Rightarrow> SyncSnapshot result \<times> SyncService" where
  "Subscribe cv ctxErr fl sendErr roomID ch it now sv = (case ctxErr of
     Some e \<Rightarrow> (Inl e, sv)
   | None \<Rightarrow>
       if roomID = '''' then (Inl missing_room, sv)
       else (case GetOrCreate fl roomID sv of (room, sv) \<Rightarrow>
         let room = RegisterSubscriber ch room; snap = Snapshot cv it now room in
         case sendErr of
           Some e \<Rightarrow> (Inl e, put_room roomID (UnregisterSubscriber ch room) sv)
         | None \<Rightarrow> (Inr snap, put_room roomID room sv)))"

section \<open>Consumer of room.created.v1\<close>

record RoomCreatedV1 =
  rc_RoomID :: string
  rc_Slug :: string
  rc_Name :: string
  rc_OwnerID :: string
  rc_Visibility :: int

definition unmarshal_RoomCreated :: "payload option \<Rightarrow> RoomCreatedV1 option" where
  "unmarshal_RoomCreated v = (case v of None \<Rightarrow> None | Some ob \<Rightarrow>
     (case (json_str ob ''room_id'', json_str ob ''slug'', json_str ob ''name'', json_str ob ''owner_id'',
            json_int (- (2 ^ 63)) (2 ^ 63 - 1) ob ''visibility'') of
        (Some r, Some s, Some n, Some w, Some v) \<Rightarrow>
          Some \<lparr>rc_RoomID = r, rc_Slug = s, rc_Name = n, rc_OwnerID = w, rc_Visibility = v\<rparr>
      | _ \<Rightarrow> None))"

definition RoomCreated_Handle :: "time \<Rightarrow> time \<Rightarrow> Message \<Rightarrow> SyncService \<Rightarrow> go_error option \<times> SyncService" where
  "RoomCreated_Handle now now' msg sv = (case unmarshal_RoomCreated (msg_Value msg) of
     None \<Rightarrow> (None, sv)
   | Some event \<Rightarrow>
       if rc_RoomID event = '''' \<or> rc_OwnerID event = '''' then (None, sv)
       else (None, Init (rc_RoomID event) (rc_OwnerID event) now now' sv))"

section \<open>Presence\<close>

text \<open>The presence set of a room, on the sorted-set commands of Redis: \<open>zadd\<close>, \<open>zrem\<close>,
  \<open>zremrangebyscore lo hi\<close> and \<open>zrangebyscore lo hi\<close> (\<open>ZRANGE key lo hi BYSCORE\<close>) are parameters.\<close>

definition Presence_Heartbeat :: "(f64 \<Rightarrow> string \<Rightarrow> 'z \<Rightarrow> 'z) \<Rightarrow> int \<Rightarrow> string \<Rightarrow> 'z \<Rightarrow> 'z" where
  "Presence_Heartbeat zadd nowMs userID z = zadd (i2f nowMs) userID z"

definition Presence_Leave :: "(string \<Rightarrow> 'z \<Rightarrow> 'z) \<Rightarrow> string \<Rightarrow> 'z \<Rightarrow> 'z" where
  "Presence_Leave zrem userID z = zrem userID z"

definition Presence_Active ::
  "(int \<Rightarrow> 'z \<Rightarrow> 'z) \<Rightarrow> (int \<Rightarrow> int \<Rightarrow> 'z \<Rightarrow> string list) \<Rightarrow> int \<Rightarrow> duration \<Rightarrow> 'z \<Rightarrow> string list \<times> 'z" where
  "Presence_Active zrembelow zrangebyscore nowMs window z =
     (let cutoff = i64 (nowMs - window sdiv 1000000);
          z = zrembelow (i64 (cutoff - 1)) z
      in (zrangebyscore cutoff (- 1) z, z))"

section \<open>Invariant of the service\<close>

definition row_ok :: "sync_row \<Rightarrow> bool" where
  "row_ok w \<longleftrightarrow> rate_ok (sr_playback_rate w) \<and> (i8 (sr_status w) = StatusPlaying \<longrightarrow> sr_playback_rate w \<noteq> Fin 0) \<and>
     in_i64 (sr_media_time_ms w) \<and> in_i64 (sr_wall_time_ms w)"

text \<open>Every room is filed under its own identifier, is running and well formed; every checkpoint decodes
  to a well-formed state; the outbox has distinct identifiers.\<close>

definition service_ok :: "SyncService \<Rightarrow> bool" where
  "service_ok sv \<longleftrightarrow>
     (\<forall>r rs. sv_rooms sv r = Some rs \<longrightarrow> rs_roomID rs = r \<and> rs_started rs \<and> room_ok rs) \<and>
     (\<forall>k w. sv_states sv k = Some w \<longrightarrow> row_ok w) \<and> outbox_ok (sv_outbox sv)"

lemma i8_in: "in_i8 (i8 x)"
  using signed_take_bit_int_greater_eq_minus_exp [of 7 x] signed_take_bit_int_less_exp [of 7 x]
  by (simp add: i8_def in_i8_def)

lemma fresh_state_ok: "state_ok (fresh_state r)" "state_ok ((fresh_state r)\<lparr>ss_HostID := h, ss_OwnerID := w\<rparr>)"
  by (simp_all add: fresh_state_def zero_SyncState_def state_ok_def rate_ok_def)

lemma Sync_Get_result:
  assumes "Sync_Get roomID fl n db = (Inr s, n', db')"
  obtains k w where "char_col 26 roomID = Some k" "db k = Some w"
    "s = \<lparr>ss_RoomID = k, ss_MediaID = sr_media_id w, ss_Status = i8 (sr_status w),
          ss_MediaTimeMs = sr_media_time_ms w, ss_WallTimeMs = sr_wall_time_ms w,
          ss_PlaybackRate = sr_playback_rate w, ss_Epoch = i64_to_u64 (sr_epoch w),
          ss_HostID = sr_host_id w, ss_FencingToken = i64_to_u64 (sr_fencing_token w),
          ss_EpochStarted = sr_updated_at w, ss_OwnerID = sr_owner_id w\<rparr>"
  using assms by (auto simp: Sync_Get_def tx_err_def tx_stmt_def split: option.splits prod.splits sum.splits)

lemma load_state_ok:
  assumes "\<forall>k w. db k = Some w \<longrightarrow> row_ok w" "load_state fl roomID db = Inr s" shows "state_ok s"
proof -
  have "Sync_Get roomID fl 1 db = (Inr s, snd (Sync_Get roomID fl 1 db))"
    using assms(2) by (auto simp: load_state_def prod_eq_iff split: option.splits)
  then obtain n' db' where "Sync_Get roomID fl 1 db = (Inr s, n', db')" by (metis prod.collapse)
  then show ?thesis
    using assms(1) by (auto elim!: Sync_Get_result simp: state_ok_def row_ok_def i8_in)
qed

lemma Start_ids [simp]: "rs_roomID (Start rs) = rs_roomID rs" "rs_state (Start rs) = rs_state rs" "rs_started (Start rs)"
  "rs_cfg (Start rs) = rs_cfg rs"
  by (simp_all add: Start_def)

lemma Start_ok: "room_ok rs \<Longrightarrow> room_ok (Start rs)"
  using room_step_ok [OF room_step.start] .

lemma NewRoomSync_roomID [simp]: "rs_roomID (NewRoomSync cfg r s p) = r"
  by (simp add: NewRoomSync_def)

lemma GetOrCreate_ok:
  assumes "service_ok sv" "GetOrCreate fl roomID sv = (rs, sv')"
  shows "service_ok sv'" "rs_roomID rs = roomID" "rs_started rs" "room_ok rs" "sv_rooms sv' roomID = Some rs"
proof -
  have "state_ok (case load_state fl roomID (sv_states sv) of Inl e \<Rightarrow> fresh_state roomID | Inr s \<Rightarrow> s)"
    using load_state_ok [of "sv_states sv" fl roomID] assms(1) fresh_state_ok
    by (auto simp: service_ok_def split: sum.split)
  from Start_ok [OF NewRoomSync_ok [OF this]]
  show "service_ok sv'" "rs_roomID rs = roomID" "rs_started rs" "room_ok rs" "sv_rooms sv' roomID = Some rs"
    using assms by (auto simp: GetOrCreate_def service_ok_def Let_def split: option.splits if_splits)
qed

lemma put_room_ok:
  "service_ok sv \<Longrightarrow> rs_roomID rs = r \<Longrightarrow> rs_started rs \<Longrightarrow> room_ok rs \<Longrightarrow> service_ok (put_room r rs sv)"
  by (auto simp: service_ok_def put_room_def)

lemma room_step_started: "room_step cv rs rs' \<Longrightarrow> rs_started rs \<Longrightarrow> rs_started rs'"
proof (induction rule: room_step.induct)
  case (tick rs it it' nowMs now now1 now2)
  have "rs_started (migrateHostLocked u now rs) = rs_started rs" for u rs
    by (simp add: migrateHostLocked_def Let_def)
  then have "rs_started (checkHostMigrationLocked it' now now2 rs) = rs_started rs" for rs
    by (simp add: checkHostMigrationLocked_def Let_def)
  moreover have "rs_started (snd (drift_correction cv it now nowMs now1 rs)) = rs_started rs" for rs
    by (simp add: drift_correction_def Let_def case_prod_beta)
  ultimately show ?case using tick by (simp add: tick_def case_prod_beta)
qed (auto simp: Start_def Shutdown_def AdoptOwnerIfUnset_def ProcessHeartbeat_def ProcessCommand_def
    ProcessCommandAuthorized_def applyCommandLocked_def RegisterSubscriber_def UnregisterSubscriber_def
    receive_def Let_def split: option.splits list.splits)

text \<open>A step of a room inside the service.\<close>

lemma room_step_service_ok:
  assumes "service_ok sv" "sv_rooms sv r = Some rs" "room_step cv rs rs'"
  shows "service_ok (put_room r rs' sv)"
  using assms room_step_ok [OF assms(3)] room_step_roomID [OF assms(3)] room_step_started [OF assms(3)]
  by (intro put_room_ok) (auto simp: service_ok_def)

lemma Sync_Upsert_ok: "state_ok s \<Longrightarrow> tx_post (\<lambda>db. \<forall>k w. db k = Some w \<longrightarrow> row_ok w) (Sync_Upsert now s) (\<lambda>_ db. \<forall>k w. db k = Some w \<longrightarrow> row_ok w)"
  unfolding Sync_Upsert_def
  by (intro tx_post_err tx_post_stmt)
    (auto simp: state_ok_def row_ok_def i8_i16 split: option.splits if_splits)

lemma makePersister_ok:
  assumes "service_ok sv" "state_ok s" shows "service_ok (snd (makePersister fl now s sv))"
  using assms run_tx_invariant [OF Sync_Upsert_ok [OF assms(2)], of "sv_states sv" now fl]
  by (auto simp: makePersister_def service_ok_def split: prod.splits)

lemma makeStager_ok: "service_ok sv \<Longrightarrow> service_ok (snd (makeStager fl e sv))"
  using run_tx_invariant [OF Append_ok, of "sv_outbox sv" "[e]" fl]
  by (auto simp: makeStager_def service_ok_def split: prod.splits)

section \<open>Histories of the service\<close>

inductive service_step :: "(f64 \<Rightarrow> int) \<Rightarrow> SyncService \<Rightarrow> SyncService \<Rightarrow> bool" for cv where
  room: "sv_rooms sv r = Some rs \<Longrightarrow> room_step cv rs rs' \<Longrightarrow> service_step cv sv (put_room r rs' sv)"
| get: "service_step cv sv (snd (GetOrCreate fl roomID sv))"
| subscribe: "(\<forall>rs. sv_rooms sv roomID = Some rs \<longrightarrow> rs_subscribers rs ch = None) \<Longrightarrow>
    service_step cv sv (snd (Subscribe cv ctxErr fl sendErr roomID ch it now sv))"
| heartbeat: "service_step cv sv (snd (Heartbeat cv ctxErr fl roomID userID mt wt t2 now t3 sv))"
| command: "in_i64 nowMs \<Longrightarrow> \<forall>x. seek = Some x \<longrightarrow> in_i64 x \<Longrightarrow>
    service_step cv sv (snd (Command cv has ctxErr fl roomID userID kind seek rate mediaID tok nowMs now now' sv))"
| recover: "service_step cv sv (snd (Recover_handler cv ctxErr fl roomID since it now sv))"
| created: "service_step cv sv (snd (RoomCreated_Handle now now' msg sv))"
| snapshot: "(\<forall>rs. sv_rooms sv roomID = Some rs \<longrightarrow> rs_running rs \<and> iteration it rs \<and> iteration it' rs) \<Longrightarrow>
    service_step cv sv (snapshot_timer cv fl fl' it it' t1 t2 t3 t4 t5 newID roomID sv)"
| shutdown: "service_step cv sv (Manager_Shutdown sv)"

lemma with_room_ok:
  assumes "service_ok sv" "GetOrCreate fl roomID sv = (rs, sv1)" "room_step cv rs rs'"
  shows "service_ok (put_room roomID rs' sv1)"
  by (rule room_step_service_ok [OF GetOrCreate_ok(1,5) [OF assms(1,2)] assms(3)])

lemma Command_ok:
  assumes "service_ok sv" "in_i64 nowMs" "\<forall>x. seek = Some x \<longrightarrow> in_i64 x"
  shows "service_ok (snd (Command cv has ctxErr fl roomID userID kind seek rate mediaID tok nowMs now now' sv))"
proof -
  obtain rs sv1 where g: "GetOrCreate fl roomID sv = (rs, sv1)" by fastforce
  have "service_ok (put_room roomID (snd (ProcessCommandAuthorized cv (i8 kind) seek rate mediaID tok nowMs now now' rs)) sv1)"
    by (rule with_room_ok [OF assms(1) g room_step.command_authorized [OF assms(2,3)]])
  then show ?thesis
    using assms(1) GetOrCreate_ok(1) [OF assms(1) g]
    by (auto simp: Command_def g Let_def split: option.splits sum.splits prod.splits)
qed

lemma Heartbeat_ok:
  assumes "service_ok sv" shows "service_ok (snd (Heartbeat cv ctxErr fl roomID userID mt wt t2 now t3 sv))"
proof -
  obtain rs sv1 where g: "GetOrCreate fl roomID sv = (rs, sv1)" by fastforce
  have "service_ok (put_room roomID (snd (ProcessHeartbeat cv roomID userID mt wt t2 now t3 rs)) sv1)"
    by (rule with_room_ok [OF assms g room_step.heartbeat])
  then show ?thesis using assms by (auto simp: Heartbeat_def g split: option.splits prod.splits)
qed

lemma Subscribe_ok:
  assumes "service_ok sv" "\<forall>rs. sv_rooms sv roomID = Some rs \<longrightarrow> rs_subscribers rs ch = None"
  shows "service_ok (snd (Subscribe cv ctxErr fl sendErr roomID ch it now sv))"
proof -
  obtain rs sv1 where g: "GetOrCreate fl roomID sv = (rs, sv1)" by fastforce
  have "rs_subscribers rs ch = None"
    using g assms(2) by (auto simp: GetOrCreate_def NewRoomSync_def Start_def Let_def split: option.splits)
  note r = room_step.register [OF this]
  have reg: "service_ok (put_room roomID (RegisterSubscriber ch rs) sv1)"
    by (rule with_room_ok [OF assms(1) g r])
  moreover have "service_ok (put_room roomID (UnregisterSubscriber ch (RegisterSubscriber ch rs)) sv1)"
    using room_step_service_ok [OF reg _ room_step.unregister, of roomID] by (simp add: put_room_def)
  ultimately show ?thesis using assms(1) by (auto simp: Subscribe_def g Let_def split: option.splits)
qed

lemma Init_ok:
  assumes "service_ok sv" shows "service_ok (Init roomID ownerID now now' sv)"
proof (cases "sv_rooms sv roomID")
  case None
  then show ?thesis
    using assms Start_ok [OF NewRoomSync_ok [OF fresh_state_ok(2)]]
    by (auto simp: Init_def service_ok_def Let_def)
next
  case (Some rs)
  have "room_step no_cv' rs (snd (AdoptOwnerIfUnset ownerID now now' rs))" for no_cv'
    by (rule room_step.adopt)
  from room_step_service_ok [OF assms Some this] Some show ?thesis by (simp add: Init_def put_room_def)
qed

lemma RoomCreated_Handle_ok: "service_ok sv \<Longrightarrow> service_ok (snd (RoomCreated_Handle now now' msg sv))"
  by (auto simp: RoomCreated_Handle_def Init_ok split: option.splits)

lemma snapshot_timer_ok:
  assumes "service_ok sv" "\<forall>rs. sv_rooms sv roomID = Some rs \<longrightarrow> rs_running rs \<and> iteration it rs \<and> iteration it' rs"
  shows "service_ok (snapshot_timer cv fl fl' it it' t1 t2 t3 t4 t5 newID roomID sv)"
proof (cases "sv_rooms sv roomID")
  case None
  then show ?thesis using assms by (simp add: snapshot_timer_def)
next
  case (Some rs)
  let ?rs = "broadcastSnapshot cv it t1 t2 rs"
  have st: "room_step cv rs ?rs" using assms(2) Some by (intro room_step.snapshot) auto
  note ok = room_step_service_ok [OF assms(1) Some this]
  have "room_ok ?rs" using room_step_ok [OF st] assms(1) Some by (simp add: service_ok_def)
  then have "state_ok (persistState ?rs)" by (simp add: persistState_def room_ok_def)
  then have "service_ok (snd (makePersister fl' t5 (persistState ?rs)
      (snd (makeStager fl (stageOutbox cv it' t3 newID t4 ?rs) (put_room roomID ?rs sv)))))"
    by (intro makePersister_ok makeStager_ok ok)
  then show ?thesis using Some by (simp add: snapshot_timer_def Let_def)
qed

lemma Manager_Shutdown_ok:
  assumes "service_ok sv" shows "service_ok (Manager_Shutdown sv)"
proof -
  have "rs_roomID (Shutdown rs) = rs_roomID rs \<and> rs_started (Shutdown rs) = rs_started rs" for rs
    by (simp add: Shutdown_def)
  then show ?thesis
    using assms room_step_ok [OF room_step.shutdown] by (auto simp: service_ok_def Manager_Shutdown_def)
qed

lemma service_step_ok: "service_step cv sv sv' \<Longrightarrow> service_ok sv \<Longrightarrow> service_ok sv'"
proof (induction rule: service_step.induct)
  case (get sv fl roomID)
  then show ?case using GetOrCreate_ok(1) [OF get] by (metis prod.collapse)
next
  case (recover sv ctxErr fl roomID since it now)
  have "service_ok (snd (GetOrCreate fl roomID sv))" using GetOrCreate_ok(1) [OF recover] by (metis prod.collapse)
  then show ?case using recover
    by (auto simp: Recover_handler_def split: option.splits prod.splits)
qed (auto simp: room_step_service_ok Subscribe_ok Heartbeat_ok Command_ok RoomCreated_Handle_ok snapshot_timer_ok Manager_Shutdown_ok)

definition new_service :: "SyncConfig \<Rightarrow> bool \<Rightarrow> sync_table \<Rightarrow> outbox_row list \<Rightarrow> SyncService" where
  "new_service cfg pres states ob = \<lparr>sv_cfg = cfg, sv_presence = pres, sv_rooms = Map.empty,
     sv_states = states, sv_outbox = ob\<rparr>"

interpretation service_run: invariant_system "service_step cv" service_ok for cv
  by unfold_locales (rule service_step_ok)

section \<open>Properties\<close>

text \<open>C10: In every history of the service, from a start on any well-formed database, with any database
  faults, any answers of the permission service and any client input, every room is filed under its
  own identifier, its loop was started, it satisfies the room invariant, every checkpoint in the
  table decodes to a well-formed state and the staged events have distinct identifiers.\<close>

theorem service_invariant:
  assumes "(service_step cv)\<^sup>*\<^sup>* (new_service cfg pres states ob) sv"
    and "\<forall>k w. states k = Some w \<longrightarrow> row_ok w" "outbox_ok ob"
  shows "service_ok sv"
proof (rule service_run.run_inv [OF assms(1)])
  show "service_ok (new_service cfg pres states ob)" using assms(2,3) by (simp add: service_ok_def new_service_def)
qed

text \<open>C8: Authorization of commands. A command that gets past the handler (a reply, accepted or not) came
  from an identified user who is the room's host or owner, or to whom the permission service
  confirmed, for this room, the permission that belongs to the kind of the command. In every other
  case, also when the permission service fails, the call returns an error and no room changes (at
  most the room has been loaded).\<close>

theorem Command_authorization:
  assumes "service_ok sv"
    and "Command cv has ctxErr fl roomID userID reqKind seek rate mediaID tok nowMs now now' sv = (r, sv')"
  shows "case r of
      Inr reply \<Rightarrow> userID \<noteq> '''' \<and>
        (userID = HostID (fst (GetOrCreate fl roomID sv)) \<or> userID = OwnerID (fst (GetOrCreate fl roomID sv)) \<or>
         (\<exists>perm. commandPermission (i8 reqKind) = (perm, True) \<and> has roomID userID perm = Inr True))
    | Inl e \<Rightarrow> sv' = sv \<or> sv' = snd (GetOrCreate fl roomID sv)"
proof -
  obtain rs sv1 where g: "GetOrCreate fl roomID sv = (rs, sv1)" by fastforce
  have "rs_roomID rs = roomID" using GetOrCreate_ok(2) [OF assms(1) g] .
  then show ?thesis
    using assms(2)
    by (auto simp: Command_def g Let_def authorizeCommand_def split: option.splits sum.splits prod.splits if_splits)
qed

text \<open>C15: Restart recovery. When the checkpoint of a room was written, a service that starts on the same
  table continues the room with the same state: media, position, rate, epoch, fencing token, host and
  owner. (The room id comes back padded to 26 characters, the start of the epoch is the time of the
  write.)\<close>

theorem restart_restores_state:
  assumes "makePersister fl now s sv = (Inr (), sv1)" "in_i8 (ss_Status s)"
    and "length (ss_RoomID s) \<le> 26" "length (ss_MediaID s) \<le> 26" "length (ss_HostID s) \<le> 26" "length (ss_OwnerID s) \<le> 26"
    and "sv_rooms sv2 (ss_RoomID s) = None" "sv_states sv2 = sv_states sv1"
  shows "rs_state (fst (GetOrCreate no_faults (ss_RoomID s) sv2)) =
    s\<lparr>ss_RoomID := pad 26 (ss_RoomID s), ss_EpochStarted := pg_time now\<rparr>"
proof -
  have "sv_states sv1 (pad 26 (ss_RoomID s)) = Some
      \<lparr>sr_media_id = ss_MediaID s, sr_status = i16 (ss_Status s), sr_media_time_ms = ss_MediaTimeMs s,
       sr_wall_time_ms = ss_WallTimeMs s, sr_playback_rate = ss_PlaybackRate s, sr_epoch = u64_to_i64 (ss_Epoch s),
       sr_host_id = ss_HostID s, sr_fencing_token = u64_to_i64 (ss_FencingToken s), sr_owner_id = ss_OwnerID s,
       sr_updated_at = pg_time now\<rparr>"
    using assms(1,3-6)
    by (auto simp: makePersister_def run_tx_def Sync_Upsert_def tx_err_def tx_stmt_def
        split: option.splits prod.splits sum.splits)
  then have "load_state no_faults (ss_RoomID s) (sv_states sv2) =
      Inr (s\<lparr>ss_RoomID := pad 26 (ss_RoomID s), ss_EpochStarted := pg_time now\<rparr>)"
    using assms(2,3,8) by (simp add: load_state_def Sync_Get_def tx_err_def tx_stmt_def i8_i16)
  then show ?thesis using assms(7) by (simp add: GetOrCreate_def Let_def)
qed

text \<open>A database error while a room is loaded is treated as a missing checkpoint: the room starts again
  at epoch 0 and fencing token 0, whatever the table holds, and accepts a command with any token.\<close>

theorem load_failure_unfences:
  assumes "sv_rooms sv roomID = None" "fl 0 = Some e \<or> fl 1 = Some e"
  shows "rs_state (fst (GetOrCreate fl roomID sv)) = fresh_state roomID \<and>
    fst (ProcessCommandAuthorized cv kind seek rate mediaID tok nowMs now now' (fst (GetOrCreate fl roomID sv))) = (1, True, '''')"
proof -
  have "\<exists>e. load_state fl roomID (sv_states sv) = Inl e"
    using assms(2) by (auto simp: load_state_def Sync_Get_def tx_err_def tx_stmt_def split: option.splits)
  then have "rs_state (fst (GetOrCreate fl roomID sv)) = fresh_state roomID"
    using assms(1) by (auto simp: GetOrCreate_def Let_def)
  then show ?thesis
    by (simp add: ProcessCommandAuthorized_def applyCommandLocked_def Let_def fresh_state_def zero_SyncState_def)
qed

text \<open>Handling \<open>room.created.v1\<close> makes a room controllable and is idempotent: afterwards the room
  exists and has a host; if it had no owner before, the owner is the event's; and a redelivery of the
  event changes nothing.\<close>

theorem room_created_idempotent:
  assumes "unmarshal_RoomCreated (msg_Value msg) = Some ev" "rc_RoomID ev \<noteq> ''''" "rc_OwnerID ev \<noteq> ''''"
    and "sv' = snd (RoomCreated_Handle now now' msg sv)"
  shows "(\<exists>rs. sv_rooms sv' (rc_RoomID ev) = Some rs \<and> HostID rs \<noteq> '''' \<and>
      ((\<forall>rs0. sv_rooms sv (rc_RoomID ev) = Some rs0 \<longrightarrow> OwnerID rs0 = '''') \<longrightarrow> OwnerID rs = rc_OwnerID ev)) \<and>
    RoomCreated_Handle now2 now3 msg sv' = (None, sv')"
proof -
  have sv': "sv' = Init (rc_RoomID ev) (rc_OwnerID ev) now now' sv"
    using assms by (simp add: RoomCreated_Handle_def)
  have "\<exists>rs. sv_rooms sv' (rc_RoomID ev) = Some rs \<and> HostID rs \<noteq> '''' \<and> OwnerID rs \<noteq> '''' \<and>
      ((\<forall>rs0. sv_rooms sv (rc_RoomID ev) = Some rs0 \<longrightarrow> OwnerID rs0 = '''') \<longrightarrow> OwnerID rs = rc_OwnerID ev)"
    unfolding sv' using assms(3)
    by (cases "sv_rooms sv (rc_RoomID ev)")
      (auto simp: Init_def Let_def HostID_def OwnerID_def AdoptOwnerIfUnset_def)
  then obtain rs where rs: "sv_rooms sv' (rc_RoomID ev) = Some rs" "HostID rs \<noteq> ''''" "OwnerID rs \<noteq> ''''"
      "(\<forall>rs0. sv_rooms sv (rc_RoomID ev) = Some rs0 \<longrightarrow> OwnerID rs0 = '''') \<longrightarrow> OwnerID rs = rc_OwnerID ev" by blast
  have "Init (rc_RoomID ev) (rc_OwnerID ev) now2 now3 sv' = sv'"
    using rs(1-3) assms(3) by (simp add: Init_def AdoptOwnerIfUnset_def Let_def HostID_def OwnerID_def map_upd_triv)
  then have "RoomCreated_Handle now2 now3 msg sv' = (None, sv')" using assms(1-3) by (simp add: RoomCreated_Handle_def)
  with rs show ?thesis by blast
qed

text \<open>\<open>Active\<close> of the presence adapter never returns anybody: it asks Redis for the members whose score
  lies between the cutoff and -1, an empty range for every cutoff after 1970.\<close>

theorem presence_active_empty:
  assumes "\<forall>lo hi z m. m \<in> set (zrangebyscore lo hi z) \<longrightarrow> (\<exists>s. score z m = Some s \<and> fle (i2f lo) s \<and> fle s (i2f hi))"
    and "0 \<le> nowMs - window sdiv 1000000" "nowMs - window sdiv 1000000 \<le> 2 ^ 53"
  shows "fst (Presence_Active zrembelow zrangebyscore nowMs window z) = []"
proof -
  let ?c = "nowMs - window sdiv 1000000"
  have c: "i64 ?c = ?c" using assms(2,3) by (intro i64_id) (simp add: in_i64_def)
  have "m \<notin> set (zrangebyscore ?c (- 1) z')" for m z'
  proof
    assume "m \<in> set (zrangebyscore ?c (- 1) z')"
    then obtain s where s: "fle (i2f ?c) s" "fle s (i2f (- 1))" using assms(1) by blast
    have "i2f ?c = Fin (of_int ?c)" "i2f (- 1) = Fin (of_int (- 1))"
      using assms(2,3) by (intro i2f_small; simp)+
    then have "(of_int ?c :: rat) \<le> of_int (- 1)"
      using fle_trans [OF s] by (simp only: fle_Fin)
    then show False using assms(2) by (simp only: of_int_le_iff)
  qed
  then have "zrangebyscore ?c (- 1) z' = []" for z' by (metis last_in_set)
  then show ?thesis by (simp add: Presence_Active_def Let_def c)
qed

section \<open>Witnesses\<close>

definition sample_service :: SyncService where
  "sample_service = put_room ''r1'' (Start (NewRoomSync default_SyncConfig ''r1''
     ((fresh_state ''r1'')\<lparr>ss_HostID := ''ann'', ss_OwnerID := ''ann''\<rparr>) False))
     (new_service default_SyncConfig False Map.empty [])"

lemma sample_service_run: "service_step cv (new_service default_SyncConfig False Map.empty []) sample_service"
proof -
  let ?msg = "\<lparr>msg_Topic = ''room.created.v1'', msg_Partition = 0, msg_Offset = 0, msg_Key = ''r1'',
    msg_Value = Some [(''room_id'', JStr ''r1''), (''owner_id'', JStr ''ann'')], msg_Headers = [], msg_Timestamp = 0\<rparr>"
  have "snd (RoomCreated_Handle 0 0 ?msg (new_service default_SyncConfig False Map.empty [])) = sample_service"
    by (simp add: RoomCreated_Handle_def unmarshal_RoomCreated_def json_get Init_def new_service_def
        sample_service_def put_room_def Let_def)
  then show ?thesis using service_step.created [of cv _ 0 0 ?msg] by metis
qed

lemma sample_service_ok: "service_ok sample_service"
  by (rule service_step_ok [OF sample_service_run]) (simp add: service_ok_def new_service_def outbox_ok_def)

theorem service_invariant_witness: "service_ok sample_service \<and> sv_rooms sample_service ''r1'' \<noteq> None"
proof
  have "(service_step (\<lambda>_. 0))\<^sup>*\<^sup>* (new_service default_SyncConfig False Map.empty []) sample_service"
    using sample_service_run [of "\<lambda>_. 0"] by blast
  then show "service_ok sample_service" by (rule service_invariant) (simp_all add: outbox_ok_def)
  show "sv_rooms sample_service ''r1'' \<noteq> None" by (simp add: sample_service_def put_room_def)
qed

lemma sample_get: "fst (GetOrCreate fl ''r1'' sample_service) = Start (NewRoomSync default_SyncConfig ''r1''
     ((fresh_state ''r1'')\<lparr>ss_HostID := ''ann'', ss_OwnerID := ''ann''\<rparr>) False)"
  by (simp add: GetOrCreate_def sample_service_def put_room_def)

text \<open>A guest without the seek permission is refused; with it the command is applied.\<close>

theorem Command_authorization_witness:
  "(\<exists>e. fst (Command (\<lambda>_. 0) (\<lambda>r u p. Inr (p = PermPausePlay)) None no_faults ''r1'' ''bob'' CmdSeek (Some 5) None [] 0 1000 0 0 sample_service) = Inl e) \<and>
   (\<exists>reply. fst (Command (\<lambda>_. 0) (\<lambda>r u p. Inr (p = PermPausePlay)) None no_faults ''r1'' ''bob'' CmdPlay None None [] 0 1000 0 0 sample_service) = Inr reply \<and>
      (\<exists>perm. commandPermission (i8 CmdPlay) = (perm, True) \<and> (\<lambda>r u p. Inr (p = PermPausePlay) :: bool result) ''r1'' ''bob'' perm = Inr True))"
proof -
  let ?has = "\<lambda>r u p. Inr (p = PermPausePlay) :: bool result"
  let ?s = "Command (\<lambda>_. 0) ?has None no_faults ''r1'' ''bob'' CmdSeek (Some 5) None [] 0 1000 0 0 sample_service"
  let ?p = "Command (\<lambda>_. 0) ?has None no_faults ''r1'' ''bob'' CmdPlay None None [] 0 1000 0 0 sample_service"
  have host: "HostID (fst (GetOrCreate no_faults ''r1'' sample_service)) = ''ann''"
    "OwnerID (fst (GetOrCreate no_faults ''r1'' sample_service)) = ''ann''"
    by (simp_all add: sample_get HostID_def OwnerID_def)
  have i: "i8 CmdSeek = CmdSeek" "i8 CmdPlay = CmdPlay" by (simp_all add: i8_id)
  have "\<exists>e. fst ?s = Inl e"
  proof (cases "fst ?s")
    case (Inr reply)
    then have "?s = (Inr reply, snd ?s)" by (metis prod.collapse)
    from Command_authorization [OF sample_service_ok this] host i show ?thesis
      by (simp add: commandPermission_def PermSeek_def PermPausePlay_def)
  qed simp
  moreover have "\<exists>reply. fst ?p = Inr reply"
    by (simp add: Command_def GetOrCreate_def sample_service_def put_room_def authorizeCommand_def HostID_def
        OwnerID_def i [simplified] commandPermission_def case_prod_beta Let_def) (metis prod_cases3)
  ultimately show ?thesis using i by (auto simp: commandPermission_def)
qed

theorem restart_restores_state_witness:
  "rs_state (fst (GetOrCreate no_faults ''r1'' (new_service default_SyncConfig False
      (sv_states (snd (makePersister no_faults 1000 sample_state sample_service))) []))) =
   sample_state\<lparr>ss_RoomID := pad 26 ''r1'', ss_EpochStarted := 1000\<rparr>"
proof -
  let ?p = "makePersister no_faults 1000 sample_state sample_service"
  have s: "ss_RoomID sample_state = ''r1''" "ss_MediaID sample_state = ''''" "ss_HostID sample_state = ''ann''"
    "ss_OwnerID sample_state = ''''" "ss_Status sample_state = 2"
    by (simp_all add: sample_state_def zero_SyncState_def)
  have "fst ?p = Inr ()"
    by (simp add: makePersister_def run_tx_def Sync_Upsert_def tx_err_def tx_stmt_def s)
  then have "?p = (Inr (), snd ?p)" by (metis prod.collapse)
  from restart_restores_state [OF this, of "new_service default_SyncConfig False (sv_states (snd ?p)) []"]
  show ?thesis by (simp add: s new_service_def pg_time_def)
qed

theorem load_failure_unfences_witness:
  "rs_state (fst (GetOrCreate (\<lambda>n. Some ''down'') ''r2'' sample_service)) = fresh_state ''r2''"
  using load_failure_unfences [of sample_service "''r2''" "\<lambda>n. Some ''down''" "''down''"]
  by (simp add: sample_service_def put_room_def new_service_def)

theorem room_created_idempotent_witness:
  "let msg = Publish 0 (sample_event\<lparr>ev_Payload := Some [(''room_id'', JStr ''r9''), (''owner_id'', JStr ''bob'')]\<rparr>);
       sv' = snd (RoomCreated_Handle 0 0 msg sample_service)
   in RoomCreated_Handle 5 5 msg sv' = (None, sv') \<and> (\<exists>rs. sv_rooms sv' ''r9'' = Some rs \<and> HostID rs \<noteq> '''')"
proof -
  let ?msg = "Publish 0 (sample_event\<lparr>ev_Payload := Some [(''room_id'', JStr ''r9''), (''owner_id'', JStr ''bob'')]\<rparr>)"
  have "unmarshal_RoomCreated (msg_Value ?msg) =
      Some \<lparr>rc_RoomID = ''r9'', rc_Slug = [], rc_Name = [], rc_OwnerID = ''bob'', rc_Visibility = 0\<rparr>"
    by (simp add: Publish_def Let_def unmarshal_RoomCreated_def json_get)
  from room_created_idempotent [OF this _ _ refl, of 0 0 sample_service 5 5] show ?thesis
    by (auto simp: Let_def)
qed

theorem presence_active_empty_witness:
  "fst (Presence_Active (\<lambda>c z. z) (\<lambda>lo hi z. if fle (i2f lo) (Fin 1700000000000) \<and> fle (Fin 1700000000000) (i2f hi) then [''ann''] else [])
     1700000000000 (5 * second) ()) = []"
  by (rule presence_active_empty [where score = "\<lambda>z m. Some (Fin 1700000000000)"])
    (auto simp: second_def split: if_splits)

end
