(* ===== verification/Playback.thy ===== *)
theory Playback
  imports Fencing Outbox
begin

text \<open>
  The playback service: \<open>domain/playback.go\<close> (the cached state of a room and its fencing rule),
  \<open>app/service.go\<close> (the cache), \<open>app/handlers.go\<close> (the RPCs), \<open>app/consumer.go\<close> (the consumer of
  \<open>sync.updated.v1\<close>) and \<open>infra/postgres/playback_repo.go\<close> (the checkpoint table).

  Shown here: a command is applied exactly when its (token, epoch) is lexicographically newer; stale
  commands have no influence on any history of commands (from the fencing contract); what the
  checkpoint writes it reads back; and an event can move a room back to an older epoch.
\<close>

section \<open>Domain\<close>

record PlaybackRoom =
  pl_RoomID :: string
  pl_MediaID :: string
  pl_Status :: int
  pl_MediaTimeMs :: int
  pl_WallTimeMs :: int
  pl_PlaybackRate :: f64
  pl_Epoch :: u64
  pl_HostID :: string
  pl_FencingToken :: u64
  pl_UpdatedAt :: time

definition new_PlaybackRoom :: "string \<Rightarrow> PlaybackRoom" where
  "new_PlaybackRoom roomID = \<lparr>pl_RoomID = roomID, pl_MediaID = '''', pl_Status = 0, pl_MediaTimeMs = 0,
     pl_WallTimeMs = 0, pl_PlaybackRate = Fin 0, pl_Epoch = 0, pl_HostID = '''', pl_FencingToken = 0,
     pl_UpdatedAt = zero_time\<rparr>"

record SyncUpdatedV1 =
  su_RoomID :: string
  su_Epoch :: u64
  su_Status :: int
  su_MediaTime :: int
  su_WallTime :: int
  su_Rate :: f64
  su_HostID :: string
  su_DriftMs :: int
  su_Peers :: u32

definition ApplyFromEvent :: "SyncUpdatedV1 \<Rightarrow> time \<Rightarrow> PlaybackRoom \<Rightarrow> bool \<times> PlaybackRoom" where
  "ApplyFromEvent e now r =
     (let advanced = su_Epoch e > pl_Epoch r in
      (advanced, r\<lparr>pl_Epoch := su_Epoch e, pl_Status := i16 (su_Status e), pl_MediaTimeMs := su_MediaTime e,
         pl_WallTimeMs := su_WallTime e, pl_PlaybackRate := su_Rate e, pl_HostID := su_HostID e,
         pl_UpdatedAt := now\<rparr>))"

text \<open>The arguments of an \<open>ApplySyncCommand\<close> other than the token.\<close>

record sync_command =
  sc_MediaID :: string
  sc_Status :: int
  sc_MediaTimeMs :: int
  sc_WallTimeMs :: int
  sc_PlaybackRate :: f64
  sc_Epoch :: u64
  sc_HostID :: string
  sc_now :: time

definition ApplySyncCommand :: "sync_command \<Rightarrow> u64 \<Rightarrow> PlaybackRoom \<Rightarrow> bool \<times> PlaybackRoom" where
  "ApplySyncCommand c fencingToken r =
     (if fencingToken < pl_FencingToken r then (False, r)
      else if sc_Epoch c \<le> pl_Epoch r \<and> fencingToken = pl_FencingToken r then (False, r)
      else (True, r\<lparr>pl_MediaID := sc_MediaID c, pl_Status := sc_Status c, pl_MediaTimeMs := sc_MediaTimeMs c,
              pl_WallTimeMs := sc_WallTimeMs c, pl_PlaybackRate := sc_PlaybackRate c, pl_Epoch := sc_Epoch c,
              pl_HostID := sc_HostID c, pl_FencingToken := fencingToken, pl_UpdatedAt := sc_now c\<rparr>))"

definition Room_LoadMedia :: "string \<Rightarrow> time \<Rightarrow> PlaybackRoom \<Rightarrow> PlaybackRoom" where
  "Room_LoadMedia mediaID now r = r\<lparr>pl_MediaID := mediaID, pl_UpdatedAt := now\<rparr>"

section \<open>Cache\<close>

type_synonym RoomCache = "string \<rightharpoonup> PlaybackRoom"

text \<open>The first lines of every method: the cached room, created if absent.\<close>

definition room_of :: "string \<Rightarrow> RoomCache \<Rightarrow> PlaybackRoom" where
  "room_of roomID c = (case c roomID of None \<Rightarrow> new_PlaybackRoom roomID | Some r \<Rightarrow> r)"

definition cache_ApplyFromEvent :: "SyncUpdatedV1 \<Rightarrow> time \<Rightarrow> RoomCache \<Rightarrow> RoomCache" where
  "cache_ApplyFromEvent e now c = c(su_RoomID e \<mapsto> snd (ApplyFromEvent e now (room_of (su_RoomID e) c)))"

definition cache_ApplySyncCommand :: "string \<Rightarrow> sync_command \<Rightarrow> u64 \<Rightarrow> RoomCache \<Rightarrow> bool \<times> RoomCache" where
  "cache_ApplySyncCommand roomID cmd tok c =
     (case ApplySyncCommand cmd tok (room_of roomID c) of (b, r) \<Rightarrow> (b, c(roomID \<mapsto> r)))"

definition cache_LoadMedia :: "string \<Rightarrow> string \<Rightarrow> time \<Rightarrow> RoomCache \<Rightarrow> RoomCache" where
  "cache_LoadMedia roomID mediaID now c = c(roomID \<mapsto> Room_LoadMedia mediaID now (room_of roomID c))"

section \<open>Checkpoint table\<close>

text \<open>\<open>CHAR(26)\<close> columns: \<open>room_id\<close> (the key), \<open>media_id\<close>, \<open>host_id\<close>.\<close>

record playback_row =
  pk_media_id :: string
  pk_status :: int
  pk_media_time_ms :: int
  pk_wall_time_ms :: int
  pk_playback_rate :: f64
  pk_epoch :: int
  pk_host_id :: string
  pk_fencing_token :: int
  pk_updated_at :: time

type_synonym playback_db = "string \<rightharpoonup> playback_row"

definition Playback_Upsert :: "time \<Rightarrow> PlaybackRoom \<Rightarrow> (playback_db, unit) tx" where
  "Playback_Upsert now r = tx_err (WrapErr ''playback_repo: upsert'') (tx_stmt (\<lambda>db.
     case (char_col 26 (pl_RoomID r), char_col 26 (pl_MediaID r), char_col 26 (pl_HostID r)) of
       (Some k, Some m, Some h) \<Rightarrow> (Inr (), db(k \<mapsto>
          \<lparr>pk_media_id = m, pk_status = pl_Status r, pk_media_time_ms = pl_MediaTimeMs r,
           pk_wall_time_ms = pl_WallTimeMs r, pk_playback_rate = pl_PlaybackRate r,
           pk_epoch = u64_to_i64 (pl_Epoch r), pk_host_id = h,
           pk_fencing_token = u64_to_i64 (pl_FencingToken r), pk_updated_at = pg_time now\<rparr>))
     | _ \<Rightarrow> (Inl (ExtErr ''value too long''), db)))"

text \<open>The comparison of a \<open>CHAR(26)\<close> column with the parameter ignores trailing blanks.\<close>

definition Playback_Get :: "string \<Rightarrow> (playback_db, PlaybackRoom) tx" where
  "Playback_Get roomID = tx_err (WrapErr ''playback_repo: get'') (tx_stmt (\<lambda>db.
     case char_col 26 roomID of
       None \<Rightarrow> (Inl (ErrNoRows ''no rows in result set''), db)
     | Some k \<Rightarrow> (case db k of
         None \<Rightarrow> (Inl (ErrNoRows ''no rows in result set''), db)
       | Some w \<Rightarrow> (Inr \<lparr>pl_RoomID = k, pl_MediaID = pk_media_id w, pl_Status = pk_status w,
            pl_MediaTimeMs = pk_media_time_ms w, pl_WallTimeMs = pk_wall_time_ms w,
            pl_PlaybackRate = pk_playback_rate w, pl_Epoch = i64_to_u64 (pk_epoch w),
            pl_HostID = pk_host_id w, pl_FencingToken = i64_to_u64 (pk_fencing_token w),
            pl_UpdatedAt = pk_updated_at w\<rparr>, db))))"

section \<open>Handlers\<close>

record PlaybackService =
  ps_cache :: RoomCache
  ps_db :: playback_db

text \<open>The error of the checkpoint is ignored. \<open>ctxErr\<close> is \<open>ctx.Err()\<close> at the start of the call.\<close>

definition persistRoom :: "faults \<Rightarrow> time \<Rightarrow> string \<Rightarrow> PlaybackService \<Rightarrow> PlaybackService" where
  "persistRoom fl dbnow roomID s = (case ps_cache s roomID of
     None \<Rightarrow> s
   | Some r \<Rightarrow> s\<lparr>ps_db := snd (run_tx (Playback_Upsert dbnow r) fl (ps_db s))\<rparr>)"

definition LoadMedia ::
  "go_error option \<Rightarrow> faults \<Rightarrow> string \<Rightarrow> string \<Rightarrow> time \<Rightarrow> time \<Rightarrow> PlaybackService \<Rightarrow> bool result \<times> PlaybackService" where
  "LoadMedia ctxErr fl roomID mediaID now dbnow s = (case ctxErr of
     Some e \<Rightarrow> (Inl e, s)
   | None \<Rightarrow>
       if roomID = '''' \<or> mediaID = '''' then
         (Inl (InvalidArgumentFor ''vibesync.playback'' ''MISSING_TARGET'' ''room_id and media_id required''), s)
       else
         (let s = s\<lparr>ps_cache := cache_LoadMedia roomID mediaID now (ps_cache s)\<rparr>
          in (Inr True, persistRoom fl dbnow roomID s)))"

text \<open>\<open>state\<close> is the state message of the request, \<open>None\<close> when absent; its fields are those of
  \<open>sync_command\<close> with the status still an \<open>int32\<close> (the conversion to \<open>int16\<close> is the handler's).\<close>

definition ApplySyncCommand_handler ::
  "go_error option \<Rightarrow> string \<Rightarrow> (sync_command \<times> u64) option \<Rightarrow> time \<Rightarrow> PlaybackService \<Rightarrow> bool result \<times> PlaybackService" where
  "ApplySyncCommand_handler ctxErr roomID state now s = (case ctxErr of
     Some e \<Rightarrow> (Inl e, s)
   | None \<Rightarrow> (case state of
       Some (cmd, tok) \<Rightarrow>
         if roomID = '''' then
           (Inl (InvalidArgumentFor ''vibesync.playback'' ''MISSING_STATE'' ''room_id and state required''), s)
         else
           (case cache_ApplySyncCommand roomID (cmd\<lparr>sc_Status := i16 (sc_Status cmd), sc_now := now\<rparr>) tok (ps_cache s) of
              (applied, c) \<Rightarrow> (Inr applied, s\<lparr>ps_cache := c\<rparr>))
     | None \<Rightarrow> (Inl (InvalidArgumentFor ''vibesync.playback'' ''MISSING_STATE'' ''room_id and state required''), s)))"

section \<open>Consumer\<close>

definition unmarshal_SyncUpdated :: "payload option \<Rightarrow> SyncUpdatedV1 option" where
  "unmarshal_SyncUpdated v = (case v of None \<Rightarrow> None | Some ob \<Rightarrow>
     (case (json_str ob ''room_id'', json_int 0 (2 ^ 64 - 1) ob ''epoch'', json_int (- (2 ^ 63)) (2 ^ 63 - 1) ob ''status'',
            json_int (- (2 ^ 63)) (2 ^ 63 - 1) ob ''media_time'', json_int (- (2 ^ 63)) (2 ^ 63 - 1) ob ''wall_time'',
            json_num ob ''rate'', json_str ob ''host_id'', json_int (- (2 ^ 31)) (2 ^ 31 - 1) ob ''drift_ms'',
            json_int 0 (2 ^ 32 - 1) ob ''peers'') of
        (Some rid, Some ep, Some st, Some mt, Some wt, Some rt, Some h, Some d, Some p) \<Rightarrow>
          Some \<lparr>su_RoomID = rid, su_Epoch = word_of_int ep, su_Status = st, su_MediaTime = mt, su_WallTime = wt,
                su_Rate = rt, su_HostID = h, su_DriftMs = d, su_Peers = word_of_int p\<rparr>
      | _ \<Rightarrow> None))"

definition SyncUpdated_Handle :: "time \<Rightarrow> Message \<Rightarrow> RoomCache \<Rightarrow> go_error option \<times> RoomCache" where
  "SyncUpdated_Handle now msg c = (case unmarshal_SyncUpdated (msg_Value msg) of
     None \<Rightarrow> (None, c)
   | Some event \<Rightarrow> if su_RoomID event = '''' then (None, c) else (None, cache_ApplyFromEvent event now c))"

section \<open>Fencing\<close>

interpretation pb: fenced pl_FencingToken ApplySyncCommand
  by unfold_locales (auto simp: ApplySyncCommand_def split: if_splits)

lemma ApplySyncCommand_cases:
  obtains (applied) "ApplySyncCommand c t r = (True, r\<lparr>pl_MediaID := sc_MediaID c, pl_Status := sc_Status c,
      pl_MediaTimeMs := sc_MediaTimeMs c, pl_WallTimeMs := sc_WallTimeMs c, pl_PlaybackRate := sc_PlaybackRate c,
      pl_Epoch := sc_Epoch c, pl_HostID := sc_HostID c, pl_FencingToken := t, pl_UpdatedAt := sc_now c\<rparr>)"
      "pl_FencingToken r < t \<or> pl_FencingToken r = t \<and> pl_Epoch r < sc_Epoch c"
  | (refused) "ApplySyncCommand c t r = (False, r)"
      "t < pl_FencingToken r \<or> pl_FencingToken r = t \<and> sc_Epoch c \<le> pl_Epoch r"
  by (cases "t < pl_FencingToken r"; cases "sc_Epoch c \<le> pl_Epoch r"; cases "t = pl_FencingToken r")
    (auto simp: ApplySyncCommand_def)

section \<open>Properties\<close>

text \<open>The playback service applies an authoritative state exactly when it is newer: the pair of fencing
  token and epoch is lexicographically greater than the room's. A refused state changes nothing; an
  applied one becomes the room's state, so that the pair strictly increases.\<close>

theorem playback_accepts_newer:
  "(fst (ApplySyncCommand c t r) \<longleftrightarrow>
     pl_FencingToken r < t \<or> pl_FencingToken r = t \<and> pl_Epoch r < sc_Epoch c) \<and>
   (case ApplySyncCommand c t r of
      (True, r') \<Rightarrow> pl_FencingToken r' = t \<and> pl_Epoch r' = sc_Epoch c \<and> pl_HostID r' = sc_HostID c \<and>
        pl_MediaTimeMs r' = sc_MediaTimeMs c \<and> pl_RoomID r' = pl_RoomID r
    | (False, r') \<Rightarrow> r' = r)"
  by (cases rule: ApplySyncCommand_cases [of c t r]) auto


text \<open>The epoch guard does not survive events: an older event applied after a command moves the room
  back to the older epoch, and a command that was already superseded is then accepted.\<close>

theorem playback_event_regresses:
  "\<exists>r0 c5 c4 e3. fst (ApplySyncCommand c5 1 r0) \<and> sc_Epoch c5 = 5 \<and> sc_Epoch c4 = 4 \<and> su_Epoch e3 = 3 \<and>
     \<not> fst (ApplySyncCommand c4 1 (snd (ApplySyncCommand c5 1 r0))) \<and>
     fst (ApplySyncCommand c4 1 (snd (ApplyFromEvent e3 0 (snd (ApplySyncCommand c5 1 r0)))))"
proof -
  define c where "c ep = \<lparr>sc_MediaID = '''', sc_Status = 2, sc_MediaTimeMs = 0, sc_WallTimeMs = 0,
    sc_PlaybackRate = Fin 1, sc_Epoch = ep, sc_HostID = ''ann'', sc_now = 0\<rparr>" for ep
  define ev where "ev = \<lparr>su_RoomID = ''r1'', su_Epoch = 3, su_Status = 2, su_MediaTime = 0, su_WallTime = 0,
    su_Rate = Fin 1, su_HostID = ''ann'', su_DriftMs = 0, su_Peers = 0\<rparr>"
  show ?thesis
    by (rule exI [of _ "new_PlaybackRoom ''r1''"], rule exI [of _ "c 5"], rule exI [of _ "c 4"], rule exI [of _ ev])
      (simp add: c_def ev_def ApplySyncCommand_def ApplyFromEvent_def new_PlaybackRoom_def Let_def)
qed

text \<open>The checkpoint of a room reads back: after a successful \<open>Upsert\<close>, \<open>Get\<close> returns the state written,
  including every uint64 epoch and token (stored as BIGINT), with the time of the write. The
  identifier columns come back blank-padded to 26 characters: an identifier of 26 characters is
  unchanged, but a room without media comes back with a media id of 26 blanks.\<close>

theorem playback_checkpoint_roundtrip:
  assumes "length (pl_RoomID r) \<le> 26" "length (pl_MediaID r) \<le> 26" "length (pl_HostID r) \<le> 26"
    and "run_tx (Playback_Upsert now r) fl db = (Inr (), db')"
  shows "fst (run_tx (Playback_Get (pl_RoomID r)) no_faults db') =
    Inr (r\<lparr>pl_RoomID := pad 26 (pl_RoomID r), pl_MediaID := pad 26 (pl_MediaID r),
           pl_HostID := pad 26 (pl_HostID r), pl_UpdatedAt := pg_time now\<rparr>)"
proof -
  have "db' (pad 26 (pl_RoomID r)) = Some \<lparr>pk_media_id = pad 26 (pl_MediaID r), pk_status = pl_Status r,
      pk_media_time_ms = pl_MediaTimeMs r, pk_wall_time_ms = pl_WallTimeMs r, pk_playback_rate = pl_PlaybackRate r,
      pk_epoch = u64_to_i64 (pl_Epoch r), pk_host_id = pad 26 (pl_HostID r),
      pk_fencing_token = u64_to_i64 (pl_FencingToken r), pk_updated_at = pg_time now\<rparr>"
    using assms by (auto simp: run_tx_def Playback_Upsert_def tx_err_def tx_stmt_def split: option.splits prod.splits sum.splits)
  then show ?thesis
    using assms(1) by (simp add: run_tx_def Playback_Get_def tx_err_def tx_stmt_def)
qed

theorem playback_checkpoint_roundtrip_witness:
  "fst (run_tx (Playback_Get ''r1'') no_faults (snd (run_tx (Playback_Upsert 1234567 (new_PlaybackRoom ''r1'')) no_faults Map.empty)))
   = Inr ((new_PlaybackRoom ''r1'')\<lparr>pl_RoomID := pad 26 ''r1'', pl_MediaID := replicate 26 (CHR '' ''),
           pl_HostID := replicate 26 (CHR '' ''), pl_UpdatedAt := 1234000\<rparr>)"
proof -
  let ?r = "new_PlaybackRoom ''r1''"
  have r: "pl_RoomID ?r = ''r1''" "pl_MediaID ?r = ''''" "pl_HostID ?r = ''''" by (simp_all add: new_PlaybackRoom_def)
  have "fst (run_tx (Playback_Upsert 1234567 ?r) no_faults Map.empty) = Inr ()"
    by (simp add: run_tx_def Playback_Upsert_def tx_err_def tx_stmt_def r)
  then have "run_tx (Playback_Upsert 1234567 ?r) no_faults Map.empty =
      (Inr (), snd (run_tx (Playback_Upsert 1234567 ?r) no_faults Map.empty))" by (metis prod.collapse)
  from playback_checkpoint_roundtrip [OF _ _ _ this] show ?thesis
    by (simp add: r pg_time_def pad_def [of 26 "[]"])
qed

end
