(* ===== verification/Event_Flow.thy ===== *)
theory Event_Flow
  imports Auth_Key_Properties User_Properties Room_Properties Sync_Service Playback
begin

text \<open>
  Events between services: what a service stages in its outbox, the relay's message for that row, and what the
  consumer in the other service makes of it. Here are the lemmas; the properties are in \<open>Spec2Isabelle\<close>.
\<close>

section \<open>Registered users\<close>

lemma of_char_lower: "(of_char (ascii_lower c) :: nat) = (if 65 \<le> (of_char c :: nat) \<and> (of_char c :: nat) \<le> 90 then of_char c + 32 else of_char c)"
  by (simp add: ascii_lower_def Let_def of_char_of)

lemma ascii_lower_idem [simp]: "ascii_lower (ascii_lower c) = ascii_lower c"
  unfolding ascii_lower_def [of "ascii_lower c"] Let_def of_char_lower by auto

lemma printable_lower [simp]: "printable (ascii_lower c) = printable c"
  by (auto simp: printable_def of_char_lower)

text \<open>Text of printable ASCII: trimming keeps it and lower-casing is letter by letter.\<close>

lemma lower_printable: "list_all printable s \<Longrightarrow> ToLower U s = map ascii_lower s"
  by (auto simp: ToLower_def list_all_iff printable_def)

lemma trim_printable: "list_all printable s \<Longrightarrow> TrimSpace s = s"
  by (cases "s = []") (auto simp: TrimSpace_Nil list_all_iff intro: TrimSpace_id)

lemma lower_trim_stable:
  assumes "list_all printable s" "e = TrimSpace (ToLower U s)"
  shows "ToLower V (TrimSpace e) = e" "list_all printable e"
proof -
  have p: "list_all printable (map ascii_lower s)" using assms(1) by (simp add: list_all_iff)
  have e: "e = map ascii_lower s" using assms trim_printable [OF p] by (simp add: lower_printable)
  show "ToLower V (TrimSpace e) = e" using p by (simp add: e trim_printable lower_printable)
  show "list_all printable e" using p by (simp add: e)
qed

lemma username_lower: "usernameRe s \<Longrightarrow> ToLower V (TrimSpace s) = s" and username_printable: "usernameRe s \<Longrightarrow> list_all printable s"
proof -
  assume u: "usernameRe s"
  have c: "ascii_lower c = c \<and> printable c" if "username_char c \<or> lower_letter c" for c
    using that by (auto simp: username_char_def digit_char_def lower_letter_def ascii_lower_def printable_def Let_def)
  then show p: "list_all printable s" using u by (auto simp: usernameRe_def list_all_iff split: list.splits)
  have "map ascii_lower s = s" using u c by (cases s) (auto simp: usernameRe_def list_all_iff intro: map_idI)
  then show "ToLower V (TrimSpace s) = s" using p by (simp add: trim_printable lower_printable)
qed

lemma rune_count_le: "rune_count s \<le> length s"
  by (simp add: rune_count_def)

lemma printable_text: "list_all printable s \<Longrightarrow> text_col s = Some s" "list_all printable s \<Longrightarrow> length s \<le> n \<Longrightarrow> text_varchar_col n s = Some s"
proof -
  have "CHR 0x00 \<notin> set s" if "list_all printable s" using that by (auto simp: list_all_iff printable_def)
  then show "list_all printable s \<Longrightarrow> text_col s = Some s" "list_all printable s \<Longrightarrow> length s \<le> n \<Longrightarrow> text_varchar_col n s = Some s"
    using rune_count_le [of s] by (auto simp: text_col_def text_varchar_col_def Let_def)
qed

lemma pg_time_seconds: "pg_time (n * 10 ^ 9) = n * 10 ^ 9"
proof -
  have "n * 10 ^ 9 = (n * 10 ^ 6) * 1000" by simp
  then have "n * 10 ^ 9 div 1000 = n * 10 ^ 6" by (metis nonzero_mult_div_cancel_right zero_neq_numeral)
  then show ?thesis by (simp add: pg_time_def)
qed

text \<open>What a registration stages.\<close>

lemma Register_stages:
  assumes "Register env c req db = (Inr a, db')"
  obtains user hash w row where "NewUser (rq_lower c) (rq_now c 0)
      \<lparr>nu_Email = rg_Email req, nu_Username = rg_Username req, nu_DisplayName = rg_DisplayName req, nu_AvatarURL = ''''\<rparr> = Inr user"
    "user_row_of ((SetPassword (rq_now c 1) hash user)\<lparr>us_ID := rq_newID c 0\<rparr>) = Some w" "au_users db' = au_users db @ [(us_ID w, w)]"
    "outbox_row_of (user_created (rq_newID c 1) ((SetPassword (rq_now c 1) hash user)\<lparr>us_ID := rq_newID c 0\<rparr>) ''password'' (rq_now c 0))
       (rq_newID c 0) = Some row" "rq_newID c 0 \<noteq> '''' \<longrightarrow> au_outbox db' = au_outbox db @ [row]"
proof -
  obtain user hash n1 n2 n3 db1 db2 s m n' where
    user: "NewUser (rq_lower c) (rq_now c 0)
      \<lparr>nu_Email = rg_Email req, nu_Username = rg_Username req, nu_DisplayName = rg_DisplayName req, nu_AvatarURL = ''''\<rparr> = Inr user"
    and cr: "User_Create (ae_ci env) ((SetPassword (rq_now c 1) hash user)\<lparr>us_ID := rq_newID c 0\<rparr>) (rq_faults c) n1 db = (Inr (), n2, db1)"
    and ap: "Auth_Append [user_created (rq_newID c 1) ((SetPassword (rq_now c 1) hash user)\<lparr>us_ID := rq_newID c 0\<rparr>) ''password'' (rq_now c 0)]
        (rq_faults c) n2 db1 = (Inr (), n3, db2)"
    and s: "issueSessionForUser env c 2 2 1 ((SetPassword (rq_now c 1) hash user)\<lparr>us_ID := rq_newID c 0\<rparr>) (rg_DeviceLabel req)
       (rq_faults c) n3 db2 = (Inr (s, m), n', db')"
    using assms by (auto simp: Register_def ctxDone_def respond_inr run_tx_inr register_tx_def User_GetByEmail_def Let_def tx_inr SetPassword_def
      split: option.splits if_splits sum.splits)
  obtain w where w: "user_row_of ((SetPassword (rq_now c 1) hash user)\<lparr>us_ID := rq_newID c 0\<rparr>) = Some w"
      "db1 = db\<lparr>au_users := au_users db @ [(us_ID w, w)]\<rparr>"
    using cr by (auto simp: User_Create_def tx_inr split: option.splits)
  obtain row where row: "outbox_row_of (user_created (rq_newID c 1) ((SetPassword (rq_now c 1) hash user)\<lparr>us_ID := rq_newID c 0\<rparr>) ''password'' (rq_now c 0))
       (rq_newID c 0) = Some row" "db2 = db1\<lparr>au_outbox := au_outbox db1 @ [row]\<rparr>"
    using ap by (auto simp: Auth_Append_def Append_def append_one_def insert_outbox_def tx_inr user_created_def Let_def split: option.splits if_splits)
  have "au_users db' = au_users db2 \<and> au_outbox db' = au_outbox db2" using s by (rule issueSession_success) simp
  then show thesis using that [OF user w(1) _ row(1)] w(2) row(2) by simp
qed

lemma outbox_row_payload: "outbox_row_of e k = Some row \<Longrightarrow> Some (ob_payload row) = ev_Payload e"
  by (auto simp: outbox_row_of_def split: option.splits)

lemma user_created_unmarshal:
  assumes "outbox_row_of (user_created i u p t) k = Some row"
  shows "unmarshal_UserCreated (msg_Value (PublishOne now row)) =
    Some \<lparr>uc_UserID = us_ID u, uc_Email = us_Email u, uc_Username = us_Username u, uc_Provider = p, uc_CreatedAt = Format_RFC3339 t\<rparr>"
proof -
  have "Some (ob_payload row) = ev_Payload (user_created i u p t)" by (rule outbox_row_payload [OF assms])
  then show ?thesis
    by (simp add: user_created_def json_marshal_def json_ok_def PublishOne_def Publish_def unmarshal_UserCreated_def json_str_def)
qed

lemma parse_formatted:
  assumes "year_in_range t" shows "parseRFC3339 (Format_RFC3339 t) fallback = t div 10 ^ 9 * 10 ^ 9"
proof -
  have d: "printable (char_of (48 + n mod 10) :: char)" for n :: nat
    by (simp add: printable_def of_char_of)
  have "list_all printable (dec_digits w n)" for w n by (induction w arbitrary: n) (auto simp: d)
  then have "list_all printable (Format_RFC3339 t)"
    by (simp add: Format_RFC3339_def Let_def list_all_append printable_def split: prod.splits)
  moreover have "Format_RFC3339 t \<noteq> []" by (simp add: Format_RFC3339_def Let_def split: prod.splits)
  ultimately show ?thesis using Parse_Format [OF assms] by (simp add: parseRFC3339_def trim_printable Let_def)
qed

text \<open>The row of the read model for a user of the auth service.\<close>

definition read_model_row :: "User \<Rightarrow> time \<Rightarrow> UserRow" where
  "read_model_row u t = \<lparr>ur_ID = us_ID u, ur_Email = us_Email u, ur_Username = us_Username u, ur_DisplayName = us_Username u, ur_AvatarURL = '''',
     ur_SystemRole = SYSTEM_ROLE_USER, ur_CreatedAt = t, ur_UpdatedAt = t\<rparr>"

lemma read_model_row_sel [simp]:
  "ur_ID (read_model_row u t) = us_ID u" "ur_Email (read_model_row u t) = us_Email u" "ur_Username (read_model_row u t) = us_Username u"
  by (simp_all add: read_model_row_def)

lemma registered_row:
  assumes "NewUser U t p = Inr user" "user_row_of ((SetPassword t' hash user)\<lparr>us_ID := i\<rparr>) = Some w" "list_all printable (nu_Email p)"
    "i \<noteq> ''''" "e = \<lparr>uc_UserID = i, uc_Email = us_Email user, uc_Username = us_Username user, uc_Provider = pr, uc_CreatedAt = Format_RFC3339 t\<rparr>"
    "year_in_range t"
  shows "\<exists>u. ProjectFromEvent V e now = Inr u \<and> profile_row_of u = Some (read_model_row w (t div 10 ^ 9 * 10 ^ 9))"
proof -
  have v: "emailRe (us_Email user)" "usernameRe (us_Username user)" using NewUser_valid [OF assms(1)] by auto
  have email: "us_Email user = TrimSpace (ToLower U (nu_Email p))" using assms(1) by (auto simp: NewUser_def Let_def split: if_splits)
  note em = lower_trim_stable [OF assms(3) email]
  note un = username_lower [OF v(2)] username_printable [OF v(2)]
  have len: "length (us_Username user) \<le> 32" using v(2) by (auto simp: usernameRe_def split: list.splits)
  have ne: "us_Email user \<noteq> ''''" "us_Username user \<noteq> ''''" using v by (auto simp: emailRe_def usernameRe_def)
  have w: "char_col 26 i = Some (us_ID w)" "us_Email w = us_Email user" "us_Username w = us_Username user"
    using assms(2) printable_text [OF em(2)] printable_text(2) [OF un(2) len]
    by (auto simp: user_row_of_def SetPassword_def split: option.splits if_splits)
  have cols: "text_col (us_Email user) = Some (us_Email user)" "text_varchar_col 32 (us_Username user) = Some (us_Username user)"
      "text_varchar_col 100 (us_Username user) = Some (us_Username user)"
    using printable_text(1) [OF em(2)] printable_text(2) [OF un(2)] len by auto
  have i16: "i16 SYSTEM_ROLE_USER = SYSTEM_ROLE_USER" by (simp add: SYSTEM_ROLE_USER_def i16_id)
  have nil: "text_col '''' = Some ''''" by (simp add: text_col_def)
  have s: "pg_time (t div 10 ^ 9 * 10 ^ 9) = t div 10 ^ 9 * 10 ^ 9" by (rule pg_time_seconds)
  show ?thesis using assms(4) ne em(1) un(1) w cols nil s
    by (simp add: ProjectFromEvent_def assms(5) parse_formatted [OF assms(6)] profile_row_of_def read_model_row_def Let_def i16)
qed

section \<open>Created rooms\<close>

lemma create_outbox:
  "RoomRepo_Create room fl n db = (Inr (), n', db') \<Longrightarrow> db_outbox db' = db_outbox db"
  "Member_Upsert m fl n db = (Inr (), n', db') \<Longrightarrow> db_outbox db' = db_outbox db"
  "IncrementRoomMemberCount i k fl n db = (Inr (), n', db') \<Longrightarrow> db_outbox db' = db_outbox db"
  "Invite_Create code i ex fl n db = (Inr (), n', db') \<Longrightarrow> db_outbox db' = db_outbox db"
  by (auto simp: RoomRepo_Create_def Member_Upsert_def IncrementRoomMemberCount_def Invite_Create_def tx_inr Let_def
      split: if_splits option.splits prod.splits)

lemma CreateRoom_stages:
  assumes "CreateRoom c req db = (Inr p, db')" "rq_newID c 0 \<noteq> ''''"
  obtains row and room :: Room where "db_outbox db' = db_outbox db @ [row]" "rm_ID room = rq_newID c 0" "rm_OwnerID room = rq_userHeader c"
    "outbox_row_of (room_event (rq_newID c 1) ''room.created.v1'' (rm_ID room)
          [(''room_id'', JStr (rm_ID room)), (''slug'', JStr (rm_Slug room)), (''name'', JStr (rm_Name room)),
           (''owner_id'', JStr (rm_OwnerID room)), (''visibility'', JInt (rm_Visibility room))] (rq_now c 2)) (rq_newID c 0) = Some row"
    "in_i64 (rm_Visibility room)"
proof -
  obtain room n where room: "NewRoom (rq_lower c) (rq_rand c 0) (rq_now c 0) (rq_newID c 0) (rq_userHeader c)
            \<lparr>np_Name = cr_Name req, np_Description = cr_Description req, np_Visibility = i8 (cr_Visibility req),
             np_MaxMembers = map_option uint (cr_MaxMembers req)\<rparr> = Inr room"
      "create_tx c (subjectFromHeader c) room (rq_faults c) 1 db = (Inr (), n, db')"
    using assms(1) by (auto simp: CreateRoom_def ctxDone_def Let_def map_error_def run_tx_inr split: option.splits if_splits sum.splits prod.splits)
  note r = NewRoom_count [OF room(1)]
  obtain db1 n1 where ap: "Room_Append [room_event (rq_newID c 1) ''room.created.v1'' (rm_ID room)
          [(''room_id'', JStr (rm_ID room)), (''slug'', JStr (rm_Slug room)), (''name'', JStr (rm_Name room)),
           (''owner_id'', JStr (rm_OwnerID room)), (''visibility'', JInt (rm_Visibility room))] (rq_now c 2)] (rq_faults c) n1 db1 = (Inr (), n, db')"
      and ob: "db_outbox db1 = db_outbox db"
    using room(2) by (auto simp: create_tx_def tx_inr_then tx_inr_return dest!: create_outbox split: if_splits)
  obtain row where "outbox_row_of (room_event (rq_newID c 1) ''room.created.v1'' (rm_ID room)
          [(''room_id'', JStr (rm_ID room)), (''slug'', JStr (rm_Slug room)), (''name'', JStr (rm_Name room)),
           (''owner_id'', JStr (rm_OwnerID room)), (''visibility'', JInt (rm_Visibility room))] (rq_now c 2)) (rq_newID c 0) = Some row"
      "db_outbox db' = db_outbox db1 @ [row]"
    using ap assms(2) r by (auto simp: Room_Append_def Append_def append_one_def insert_outbox_def tx_inr room_event_def Let_def split: option.splits if_splits)
  moreover have "in_i64 (rm_Visibility room)"
    using room(1) signed_take_bit_int_less_exp [of 7 "cr_Visibility req"] signed_take_bit_int_greater_eq_minus_exp [of 7 "cr_Visibility req"]
    by (auto simp: NewRoom_def Let_def i8_def in_i64_def VisibilityPublic_def split: if_splits)
  ultimately show thesis using that [of row room] r ob by simp
qed

section \<open>Playback states\<close>

text \<open>What the playback service reads from the event that a room stages.\<close>

lemma trunc_rat_bounds: "rat_of_int a \<le> x \<Longrightarrow> x \<le> rat_of_int b \<Longrightarrow> a \<le> trunc_rat x \<and> trunc_rat x \<le> b"
  by (auto simp: trunc_rat_def le_floor_iff floor_le_iff minus_le_iff) linarith+

lemma clampInt32_range:
  assumes "\<forall>v. in_i32 (cv v)" shows "in_i32 (clampInt32 cv x)"
proof (cases x)
  case (Fin r)
  have "in_i32 (f2i cv 32 (Fin r))" if "- 2147483647 \<le> r" "r \<le> 2147483647"
    using trunc_rat_bounds [of "- 2147483647" r 2147483647] that by (simp add: f2i_def in_i32_def)
  then show ?thesis by (auto simp: Fin clampInt32_def not_less in_i32_def)
qed (use assms in \<open>auto simp: clampInt32_def f2i_def in_i32_def\<close>)

lemma staged_unmarshal:
  assumes "outbox_row_of (stageOutbox cv it now i now' rs) k = Some row" "state_ok (rs_state rs)" "\<forall>v. in_i32 (cv v)"
  shows "\<exists>d p. unmarshal_SyncUpdated (msg_Value (PublishOne t row)) =
    Some \<lparr>su_RoomID = rs_roomID rs, su_Epoch = ss_Epoch (rs_state rs), su_Status = ss_Status (rs_state rs),
      su_MediaTime = ss_MediaTimeMs (rs_state rs), su_WallTime = ss_WallTimeMs (rs_state rs), su_Rate = ss_PlaybackRate (rs_state rs),
      su_HostID = ss_HostID (rs_state rs), su_DriftMs = d, su_Peers = p\<rparr>"
proof -
  let ?sn = "buildSnapshotLocked cv it now rs"
  have st: "sn_State ?sn = stateToProtoLocked rs" by (simp add: buildSnapshotLocked_def Let_def)
  have "in_i32 (sn_DriftEstimateMs ?sn)" using clampInt32_range [OF assms(3)] by (simp add: buildSnapshotLocked_def Let_def)
  then have d: "- (2 ^ 31) \<le> sn_DriftEstimateMs ?sn" "sn_DriftEstimateMs ?sn \<le> 2 ^ 31 - 1" by (simp_all add: in_i32_def)
  have ok: "in_i64 (ss_Status (rs_state rs))" "in_i64 (ss_MediaTimeMs (rs_state rs))" "in_i64 (ss_WallTimeMs (rs_state rs))"
    using assms(2) by (auto simp: state_ok_def in_i8_def in_i64_def)
  have "Some (ob_payload row) = ev_Payload (stageOutbox cv it now i now' rs)" by (rule outbox_row_payload [OF assms(1)])
  then have v: "msg_Value (PublishOne t row) = ev_Payload (stageOutbox cv it now i now' rs)" by (simp add: PublishOne_def Publish_def Let_def)
  obtain ob where ob: "ev_Payload (stageOutbox cv it now i now' rs) = Some ob"
    using \<open>Some (ob_payload row) = _\<close> by metis
  have e: "uint (ss_Epoch (rs_state rs)) \<le> 2 ^ 64 - 1" using uint_bounded [of "ss_Epoch (rs_state rs)"] by simp
  have pr: "uint (sn_ActivePeers ?sn) \<le> 2 ^ 32 - 1" using uint_bounded [of "sn_ActivePeers ?sn"] by simp
  show ?thesis using ob d ok e pr unfolding v
    by (auto simp: stageOutbox_def json_marshal_def unmarshal_SyncUpdated_def json_get json_num_def st stateToProtoLocked_def Let_def in_i64_def
        split: if_splits)
qed

end
