(* ===== verification/Provider_Service.thy ===== *)
theory Provider_Service
  imports Vb_Call Vb_Sql "HOL-Library.Monad_Syntax"
begin

text \<open>
  The provider service: search and resolution of external media (\<open>app/handlers.go\<close>), its cache of resolutions
  (\<open>infra/postgres/resolution_cache_repo.go\<close>), the adapters of Spotify and YouTube (\<open>infra/spotify/client.go\<close>,
  \<open>infra/youtube/client.go\<close>), of the auth service (\<open>infra/authclient/client.go\<close>) and of Redis
  (\<open>infra/redis/client.go\<close>), and the parser of ISO 8601 durations (\<open>domain/provider.go\<close>). The web, Redis and
  the decoding of JSON bodies are parameters.
\<close>

section \<open>Domain\<close>

record SearchResult =
  sr_ExternalRef :: string
  sr_Title :: string
  sr_Artist :: string
  sr_CoverURL :: string
  sr_DurationMs :: int

record ResolvedMedia =
  re_ExternalRef :: string
  re_Title :: string
  re_Artist :: string
  re_CoverURL :: string
  re_PlayableURL :: string
  re_DurationMs :: int

text \<open>\<open>ParseISODuration\<close>; the reasons of its errors.\<close>

datatype iso_error = MissingP | DuplicateT | UnsupportedUnit | MissingNumber | TrailingNumber | NoComponents

definition unitMillis :: "char \<Rightarrow> bool \<Rightarrow> int option" where
  "unitMillis r inTime =
     (if r = CHR ''D'' then (if inTime then None else Some (24 * 3600000))
      else if r = CHR ''H'' then (if \<not> inTime then None else Some 3600000)
      else if r = CHR ''M'' then (if \<not> inTime then None else Some 60000)
      else if r = CHR ''S'' then (if \<not> inTime then None else Some 1000) else None)"

text \<open>The loop over the text: the total, the current number, and the flags \<open>digits\<close>, \<open>inTime\<close> and \<open>sawUnit\<close>; int64
  arithmetic wraps.\<close>

fun iso_loop :: "int \<Rightarrow> int \<Rightarrow> bool \<Rightarrow> bool \<Rightarrow> bool \<Rightarrow> string \<Rightarrow> iso_error + int" where
  "iso_loop tot num digits inTime sawUnit [] =
     (if digits then Inl TrailingNumber else if \<not> sawUnit then Inl NoComponents else Inr tot)"
| "iso_loop tot num digits inTime sawUnit (r # rs) =
     (if r = CHR ''T'' then (if inTime then Inl DuplicateT else iso_loop tot num digits True sawUnit rs)
      else (case digit_value r of
        Some d \<Rightarrow> iso_loop tot (i64 (i64 (num * 10) + d)) True inTime sawUnit rs
      | None \<Rightarrow> (case unitMillis r inTime of
          None \<Rightarrow> Inl UnsupportedUnit
        | Some ms \<Rightarrow> if \<not> digits then Inl MissingNumber
            else iso_loop (i64 (tot + i64 (num * ms))) 0 False inTime True rs)))"

definition ParseISODuration :: "string \<Rightarrow> iso_error + int" where
  "ParseISODuration s = (case s of
     CHR ''P'' # rest \<Rightarrow> if rest = '''' then Inl MissingP else iso_loop 0 0 False False False rest
   | _ \<Rightarrow> Inl MissingP)"

section \<open>Escaping in URLs\<close>

text \<open>\<open>url.PathEscape\<close> and \<open>url.QueryEscape\<close>.\<close>

definition hex_digit :: "nat \<Rightarrow> char" where "hex_digit n = (if n < 10 then char_of (48 + n) else char_of (55 + n))"

definition percent :: "char \<Rightarrow> string" where
  "percent c = [CHR ''%'', hex_digit (of_char c div 16), hex_digit (of_char c mod 16)]"

definition unreserved :: "char \<Rightarrow> bool" where
  "unreserved c \<longleftrightarrow> (let n = of_char c :: nat in 48 \<le> n \<and> n \<le> 57 \<or> 65 \<le> n \<and> n \<le> 90 \<or> 97 \<le> n \<and> n \<le> 122) \<or> c \<in> set ''-_.~''"

definition PathEscape :: "string \<Rightarrow> string" where
  "PathEscape s = concat (map (\<lambda>c. if unreserved c \<or> c \<in> set ''$&+:=@'' then [c] else percent c) s)"

definition QueryEscape :: "string \<Rightarrow> string" where
  "QueryEscape s = concat (map (\<lambda>c. if unreserved c then [c] else if c = CHR '' '' then ''+'' else percent c) s)"

section \<open>The web\<close>

text \<open>A request; the answer is an error, or a status with the outcome of reading the body (at most 1 MiB of it).\<close>

record http_request =
  hr_Method :: string
  hr_URL :: string
  hr_Authorization :: string
  hr_Body :: string

type_synonym http_client = "http_request \<Rightarrow> (int \<times> string result) result"

definition maxBodyBytes :: nat where "maxBodyBytes = 2 ^ 20"

text \<open>\<open>http.Do\<close> and \<open>io.ReadAll\<close> with the texts the adapters wrap around their errors.\<close>

definition fetch :: "http_client \<Rightarrow> string \<Rightarrow> string \<Rightarrow> http_request \<Rightarrow> (int \<times> string) result" where
  "fetch http req_msg resp_msg rq = (case http rq of
     Inl e \<Rightarrow> Inl (WrapErr req_msg e)
   | Inr (status, body) \<Rightarrow> (case body of Inl e \<Rightarrow> Inl (WrapErr resp_msg e) | Inr b \<Rightarrow> Inr (status, take maxBodyBytes b)))"

definition snippet :: "string \<Rightarrow> string" where
  "snippet body = take 200 (TrimSpace body)"

section \<open>Spotify\<close>

record track =
  tr_ID :: string
  tr_Name :: string
  tr_Artists :: "string list"
  tr_Images :: "string list"
  tr_DurationMS :: int

text \<open>\<open>json.Unmarshal\<close> into the adapters' structs: the token with its lifetime, a track, the tracks of a search, and
  title, author and thumbnail of a video.\<close>

record decoders =
  jd_token :: "string \<Rightarrow> (string \<times> int) option"
  jd_track :: "string \<Rightarrow> track option"
  jd_search :: "string \<Rightarrow> track list option"
  jd_oembed :: "string \<Rightarrow> (string \<times> string \<times> string) option"

text \<open>Redis: \<open>GET\<close> (\<open>None\<close> for a missing key) and \<open>SET\<close> with a time to live.\<close>

record 'k redis =
  rd_get :: "string \<Rightarrow> 'k \<Rightarrow> string option result"
  rd_set :: "string \<Rightarrow> string \<Rightarrow> duration \<Rightarrow> 'k \<Rightarrow> unit result \<times> 'k"

text \<open>\<open>%q\<close> of a key, for keys of printable characters without quotes and backslashes.\<close>

definition quoted :: "string \<Rightarrow> string" where "quoted key = CHR 0x22 # key @ [CHR 0x22]"

definition redis_Get :: "'k redis \<Rightarrow> string \<Rightarrow> 'k \<Rightarrow> string result" where
  "redis_Get rd key k = (case rd_get rd key k of
     Inl e \<Rightarrow> Inl (WrapErr (''redis: get '' @ quoted key) e) | Inr None \<Rightarrow> Inr '''' | Inr (Some v) \<Rightarrow> Inr v)"

definition redis_Set :: "'k redis \<Rightarrow> string \<Rightarrow> string \<Rightarrow> duration \<Rightarrow> 'k \<Rightarrow> unit result \<times> 'k" where
  "redis_Set rd key v ttl k = (case rd_set rd key v ttl k of
     (Inl e, k') \<Rightarrow> (Inl (WrapErr (''redis: set '' @ quoted key) e), k') | (Inr u, k') \<Rightarrow> (Inr u, k'))"

text \<open>The client: the web, the basic authorization of the application, and the cache (nil disables it).\<close>

record 'k spotify =
  sp_http :: http_client
  sp_basic :: string
  sp_cache :: "'k redis option"
  sp_json :: decoders

definition clientCredsCacheKey :: string where "clientCredsCacheKey = ''provider-service:spotify:client-credentials-token''"
definition tokenCacheMargin :: duration where "tokenCacheMargin = 60 * second"

definition cached_token :: "'k spotify \<Rightarrow> 'k \<Rightarrow> string option" where
  "cached_token c k = (case sp_cache c of
     None \<Rightarrow> None
   | Some rd \<Rightarrow> (case redis_Get rd clientCredsCacheKey k of Inr tok \<Rightarrow> if tok \<noteq> '''' then Some tok else None | Inl e \<Rightarrow> None))"

definition token_ttl :: "int \<Rightarrow> duration" where
  "token_ttl expires_in =
     (let ttl = i64 (i64 (expires_in * second) - tokenCacheMargin) in if ttl < 60 * second then 60 * second else ttl)"

definition store_token :: "'k spotify \<Rightarrow> string \<Rightarrow> int \<Rightarrow> 'k \<Rightarrow> 'k" where
  "store_token c tok expires_in k = (case sp_cache c of
     None \<Rightarrow> k | Some rd \<Rightarrow> snd (redis_Set rd clientCredsCacheKey tok (token_ttl expires_in) k))"

definition getClientCredentialsToken :: "'k spotify \<Rightarrow> 'k \<Rightarrow> string result \<times> 'k" where
  "getClientCredentialsToken c k = (case cached_token c k of
     Some tok \<Rightarrow> (Inr tok, k)
   | None \<Rightarrow>
       (case fetch (sp_http c) ''spotify: token request'' ''spotify: token response''
          \<lparr>hr_Method = ''POST'', hr_URL = ''https://accounts.spotify.com/api/token'', hr_Authorization = sp_basic c,
           hr_Body = ''grant_type=client_credentials''\<rparr> of
          Inl e \<Rightarrow> (Inl e, k)
        | Inr (status, body) \<Rightarrow>
            if status \<noteq> 200 then (Inl (PlainErr (''spotify: token: status '' @ dec_int status @ '': '' @ snippet body)), k)
            else (case jd_token (sp_json c) body of
                None \<Rightarrow> (Inl (WrapErr ''spotify: token decode'' (ExtErr ''json'')), k)
              | Some (tok, expires_in) \<Rightarrow>
                  if tok = '''' then (Inl (PlainErr ''spotify: token: empty access_token''), k)
                  else (Inr tok, store_token c tok expires_in k))))"

definition artistName :: "string list \<Rightarrow> string" where
  "artistName names = (case names of [] \<Rightarrow> '''' | a # _ \<Rightarrow> a)"

definition coverURL :: "string list \<Rightarrow> string" where
  "coverURL imgs = (case imgs of [] \<Rightarrow> '''' | i # _ \<Rightarrow> i)"

definition Spotify_Search :: "'k spotify \<Rightarrow> string \<Rightarrow> int \<Rightarrow> 'k \<Rightarrow> SearchResult list result \<times> 'k" where
  "Spotify_Search c query limit k = (case getClientCredentialsToken c k of
     (Inl e, k') \<Rightarrow> (Inl e, k')
   | (Inr token, k') \<Rightarrow>
       ((case fetch (sp_http c) ''spotify: search request'' ''spotify: search response''
          \<lparr>hr_Method = ''GET'', hr_URL = ''https://api.spotify.com/v1/search?limit='' @ QueryEscape (dec_int limit) @ ''&q='' @ QueryEscape query @
             ''&type=track'', hr_Authorization = ''Bearer '' @ token, hr_Body = ''''\<rparr> of
          Inl e \<Rightarrow> Inl e
        | Inr (status, body) \<Rightarrow>
            if status \<noteq> 200 then Inl (PlainErr (''spotify: search: status '' @ dec_int status @ '': '' @ snippet body))
            else (case jd_search (sp_json c) body of
                None \<Rightarrow> Inl (WrapErr ''spotify: search decode'' (ExtErr ''json''))
              | Some items \<Rightarrow> Inr (map (\<lambda>it. \<lparr>sr_ExternalRef = tr_ID it, sr_Title = tr_Name it, sr_Artist = artistName (tr_Artists it),
                    sr_CoverURL = coverURL (tr_Images it), sr_DurationMs = tr_DurationMS it\<rparr>) items))), k'))"

definition spotify_track :: "'k spotify \<Rightarrow> string \<Rightarrow> string \<Rightarrow> ResolvedMedia result" where
  "spotify_track c externalRef token =
     (case fetch (sp_http c) ''spotify: track request'' ''spotify: track response''
        \<lparr>hr_Method = ''GET'', hr_URL = ''https://api.spotify.com/v1/tracks/'' @ PathEscape externalRef,
         hr_Authorization = ''Bearer '' @ token, hr_Body = ''''\<rparr> of
        Inl e \<Rightarrow> Inl e
      | Inr (status, body) \<Rightarrow>
          if status = 404 then Inl (PortsNotFound ''spotify track'' externalRef)
          else if status \<noteq> 200 then Inl (PlainErr (''spotify: track: status '' @ dec_int status @ '': '' @ snippet body))
          else (case jd_track (sp_json c) body of
              None \<Rightarrow> Inl (WrapErr ''spotify: track decode'' (ExtErr ''json''))
            | Some t \<Rightarrow>
                if tr_ID t = '''' then Inl (PortsNotFound ''spotify track'' externalRef)
                else Inr \<lparr>re_ExternalRef = tr_ID t, re_Title = tr_Name t, re_Artist = artistName (tr_Artists t), re_CoverURL = coverURL (tr_Images t),
                  re_PlayableURL = ''https://open.spotify.com/track/'' @ tr_ID t, re_DurationMs = tr_DurationMS t\<rparr>))"

definition Spotify_Resolve :: "'k spotify \<Rightarrow> string \<Rightarrow> string \<Rightarrow> 'k \<Rightarrow> ResolvedMedia result \<times> 'k" where
  "Spotify_Resolve c externalRef userToken k =
     (if userToken \<noteq> '''' then (spotify_track c externalRef userToken, k)
      else (case getClientCredentialsToken c k of
          (Inl e, k') \<Rightarrow> (Inl e, k')
        | (Inr token, k') \<Rightarrow> (spotify_track c externalRef token, k')))"

section \<open>YouTube\<close>

record youtube =
  yt_http :: http_client
  yt_baseURL :: string
  yt_json :: decoders

definition ErrSearchUnsupported :: go_error where
  "ErrSearchUnsupported = PlainErr ''provider: search is not supported for this provider''"

definition YouTube_Search :: "youtube \<Rightarrow> string \<Rightarrow> int \<Rightarrow> SearchResult list result" where
  "YouTube_Search c query limit = Inl ErrSearchUnsupported"

definition YouTube_Resolve :: "youtube \<Rightarrow> string \<Rightarrow> ResolvedMedia result" where
  "YouTube_Resolve c externalRef =
     (case fetch (yt_http c) ''youtube: request'' ''youtube: response''
        \<lparr>hr_Method = ''GET'', hr_URL = yt_baseURL c @ ''/oembed?format=json&url='' @ QueryEscape (''https://www.youtube.com/watch?v='' @ externalRef),
         hr_Authorization = '''', hr_Body = ''''\<rparr> of
        Inl e \<Rightarrow> Inl e
      | Inr (status, body) \<Rightarrow>
          if status \<in> {400, 401, 403, 404} then Inl (PortsNotFound ''youtube video'' externalRef)
          else if status \<noteq> 200 then Inl (PlainErr (''youtube: status '' @ dec_int status @ '': '' @ snippet body))
          else (case jd_oembed (yt_json c) body of
              None \<Rightarrow> Inl (WrapErr ''youtube: decode'' (ExtErr ''json''))
            | Some (title, author, thumbnail) \<Rightarrow>
                Inr \<lparr>re_ExternalRef = externalRef, re_Title = title, re_Artist = author, re_CoverURL = thumbnail,
                  re_PlayableURL = ''https://www.youtube.com/watch?v='' @ externalRef, re_DurationMs = 0\<rparr>))"

section \<open>The auth client\<close>

text \<open>\<open>rpc\<close> is the auth service's \<open>GetProviderToken\<close> over Connect.\<close>

definition GetUserToken :: "(string \<Rightarrow> string \<Rightarrow> string result) \<Rightarrow> string \<Rightarrow> string \<Rightarrow> string result" where
  "GetUserToken rpc userID provider =
     (if userID = '''' \<or> provider = '''' then Inl (PlainErr ''authclient: user_id and provider are required'')
      else (case rpc userID provider of
          Inl e \<Rightarrow> Inl (WrapErr ''authclient: get provider token'' e)
        | Inr token \<Rightarrow> if token = '''' then Inl (PlainErr ''authclient: get provider token: empty access token'') else Inr token))"

section \<open>The resolution cache\<close>

record resolution =
  rz_title :: string
  rz_artist :: string
  rz_cover_url :: string
  rz_duration_ms :: int
  rz_resolved_at :: time

type_synonym provider_db = "((string \<times> string) \<times> resolution) list"

definition Resolution_Get :: "string \<Rightarrow> string \<Rightarrow> (provider_db, ResolvedMedia) tx" where
  "Resolution_Get provider externalRef =
     tx_err (\<lambda>err. if is_no_rows err then PortsNotFound ''resolution'' (provider @ '':'' @ externalRef)
                   else WrapErr ''resolution_cache_repo: get'' err)
      (tx_stmt (\<lambda>db. case map_of db (provider, externalRef) of
          None \<Rightarrow> (Inl no_rows, db)
        | Some r \<Rightarrow> (Inr \<lparr>re_ExternalRef = externalRef, re_Title = rz_title r, re_Artist = rz_artist r, re_CoverURL = rz_cover_url r,
            re_PlayableURL = '''', re_DurationMs = rz_duration_ms r\<rparr>, db)))"

definition Resolution_Upsert :: "time \<Rightarrow> string \<Rightarrow> ResolvedMedia \<Rightarrow> (provider_db, unit) tx" where
  "Resolution_Upsert dbnow provider m = tx_err (WrapErr ''resolution_cache_repo: upsert'') (tx_stmt (\<lambda>db.
     case (text_varchar_col 32 provider, text_varchar_col 255 (re_ExternalRef m), text_varchar_col 255 (re_Title m),
           text_varchar_col 255 (re_Artist m), text_col (re_CoverURL m)) of
       (Some p, Some r, Some t, Some a, Some u) \<Rightarrow>
         (Inr (), AList.update (p, r) \<lparr>rz_title = t, rz_artist = a, rz_cover_url = u, rz_duration_ms = re_DurationMs m, rz_resolved_at = dbnow\<rparr> db)
     | _ \<Rightarrow> (Inl (ExtErr ''invalid value''), db)))"

section \<open>Calls\<close>

definition PROVIDER_NAME_SPOTIFY :: int where "PROVIDER_NAME_SPOTIFY = 1"
definition PROVIDER_NAME_YOUTUBE :: int where "PROVIDER_NAME_YOUTUBE = 2"

lemmas provider_names = PROVIDER_NAME_SPOTIFY_def PROVIDER_NAME_YOUTUBE_def

text \<open>The service: the adapters (nil when disabled) and the source of user tokens.\<close>

record 'k provider_env =
  pe_spotify :: "'k spotify option"
  pe_youtube :: "youtube option"
  pe_tokens :: "string \<Rightarrow> string \<Rightarrow> string result"

definition defaultSearchLimit :: int where "defaultSearchLimit = 20"
definition maxSearchLimit :: int where "maxSearchLimit = 50"

text \<open>The limit of the page message, 0 when it is absent.\<close>

definition searchLimit :: "u32 \<Rightarrow> int" where
  "searchLimit l = (let limit = (if l > 0 then uint l else defaultSearchLimit) in if limit > maxSearchLimit then maxSearchLimit else limit)"

definition ErrInvalidProvider :: go_error where
  "ErrInvalidProvider = InvalidArgumentFor ''vibesync.provider'' ''INVALID_PROVIDER'' ''provider must be PROVIDER_NAME_SPOTIFY or PROVIDER_NAME_YOUTUBE''"

definition provider_disabled :: "string \<Rightarrow> go_error" where
  "provider_disabled name = FailedPrecondition ''vibesync.provider'' ''PROVIDER_DISABLED'' (name @ '' provider is not enabled'')"

definition providerSlug :: "int \<Rightarrow> string result" where
  "providerSlug p = (if p = PROVIDER_NAME_SPOTIFY then Inr ''spotify'' else if p = PROVIDER_NAME_YOUTUBE then Inr ''youtube''
     else Inl ErrInvalidProvider)"

definition searchProvider :: "'k provider_env \<Rightarrow> int \<Rightarrow> (string \<Rightarrow> int \<Rightarrow> 'k \<Rightarrow> SearchResult list result \<times> 'k) result" where
  "searchProvider s p =
     (if p = PROVIDER_NAME_SPOTIFY then (case pe_spotify s of None \<Rightarrow> Inl (provider_disabled ''spotify'') | Some c \<Rightarrow> Inr (Spotify_Search c))
      else if p = PROVIDER_NAME_YOUTUBE
      then (case pe_youtube s of None \<Rightarrow> Inl (provider_disabled ''youtube'') | Some c \<Rightarrow> Inr (\<lambda>q l k. (YouTube_Search c q l, k)))
      else Inl ErrInvalidProvider)"

record SearchResultProto =
  sp_ExternalRef :: string
  sp_Title :: string
  sp_Artist :: string
  sp_CoverUrl :: string
  sp_DurationMs :: u64

definition searchResultToProto :: "SearchResult \<Rightarrow> SearchResultProto" where
  "searchResultToProto r = \<lparr>sp_ExternalRef = sr_ExternalRef r, sp_Title = sr_Title r, sp_Artist = sr_Artist r, sp_CoverUrl = sr_CoverURL r,
     sp_DurationMs = i64_to_u64 (sr_DurationMs r)\<rparr>"

text \<open>\<open>Search\<close>: the results and their number.\<close>

definition Search :: "'k provider_env \<Rightarrow> go_error option \<Rightarrow> int \<Rightarrow> string \<Rightarrow> u32 \<Rightarrow> 'k \<Rightarrow> (SearchResultProto list \<times> u64) result \<times> 'k" where
  "Search s ctxErr provider query limit k = (case ctxErr of
     Some e \<Rightarrow> (Inl e, k)
   | None \<Rightarrow>
       if query = '''' then (Inl (InvalidArgumentFor ''vibesync.provider'' ''MISSING_QUERY'' ''query is required''), k)
       else (case searchProvider s provider of
           Inl e \<Rightarrow> (Inl e, k)
         | Inr search \<Rightarrow> (case search query (searchLimit limit) k of
             (Inl e, k') \<Rightarrow>
               (Inl (if e = ErrSearchUnsupported
                     then Error_New KindUnimplemented ''vibesync.provider'' ''SEARCH_UNSUPPORTED''
                       ''search is not available for this provider; add YouTube videos by pasting a URL''
                     else internal ''SEARCH_FAILED'' e), k')
           | (Inr results, k') \<Rightarrow> (Inr (map searchResultToProto results, word_of_nat (length results)), k'))))"

definition fillPlayableURL :: "int \<Rightarrow> ResolvedMedia \<Rightarrow> ResolvedMedia" where
  "fillPlayableURL p m =
     (if re_PlayableURL m \<noteq> '''' then m
      else if p = PROVIDER_NAME_SPOTIFY then m\<lparr>re_PlayableURL := ''https://open.spotify.com/track/'' @ re_ExternalRef m\<rparr>
      else if p = PROVIDER_NAME_YOUTUBE then m\<lparr>re_PlayableURL := ''https://www.youtube.com/watch?v='' @ re_ExternalRef m\<rparr>
      else m)"

record ResolveResponse =
  rp_Title :: string
  rp_Artist :: string
  rp_CoverUrl :: string
  rp_DurationMs :: u64
  rp_PlayableUrl :: string

definition resolveResponse :: "ResolvedMedia \<Rightarrow> ResolveResponse" where
  "resolveResponse m = \<lparr>rp_Title = re_Title m, rp_Artist = re_Artist m, rp_CoverUrl = re_CoverURL m, rp_DurationMs = i64_to_u64 (re_DurationMs m),
     rp_PlayableUrl = re_PlayableURL m\<rparr>"

text \<open>The switch over the provider on a cache miss: the error to return at once, or the outcome of the adapter.\<close>

definition resolve_external ::
  "'k provider_env \<Rightarrow> call \<Rightarrow> int \<Rightarrow> string \<Rightarrow> string \<Rightarrow> 'k \<Rightarrow> ResolvedMedia result result \<times> 'k" where
  "resolve_external s c provider slug externalRef k =
     (if provider = PROVIDER_NAME_SPOTIFY then (case pe_spotify s of
          None \<Rightarrow> (Inl (provider_disabled ''spotify''), k)
        | Some sp \<Rightarrow>
            (case (if rq_userHeader c \<noteq> '''' then pe_tokens s (rq_userHeader c) slug else Inr '''') of
               Inl e \<Rightarrow> (Inl (internal ''USER_TOKEN_FETCH_FAILED'' e), k)
             | Inr userToken \<Rightarrow> (case Spotify_Resolve sp externalRef userToken k of (r, k') \<Rightarrow> (Inr r, k'))))
      else (case pe_youtube s of
          None \<Rightarrow> (Inl (provider_disabled ''youtube''), k)
        | Some yt \<Rightarrow> (Inr (YouTube_Resolve yt externalRef), k)))"

text \<open>\<open>fl\<close> are the faults of the transaction that writes the cache.\<close>

definition Resolve ::
  "'k provider_env \<Rightarrow> call \<Rightarrow> faults \<Rightarrow> int \<Rightarrow> string \<Rightarrow> provider_db \<Rightarrow> 'k \<Rightarrow> ResolveResponse result \<times> provider_db \<times> 'k" where
  "Resolve s c fl provider externalRef db k = (case rq_ctxErr c of
     Some e \<Rightarrow> (Inl e, db, k)
   | None \<Rightarrow>
       if externalRef = '''' then (Inl (InvalidArgumentFor ''vibesync.provider'' ''MISSING_EXTERNAL_REF'' ''external_ref is required''), db, k)
       else (case providerSlug provider of
           Inl e \<Rightarrow> (Inl e, db, k)
         | Inr slug \<Rightarrow> (case run_tx (Resolution_Get slug externalRef) (rq_faults c) db of
             (Inr cached, db') \<Rightarrow> (Inr (resolveResponse (fillPlayableURL provider cached)), db', k)
           | (Inl err, db') \<Rightarrow>
               if \<not> isNotFound err then (Inl (internal ''RESOLVE_CACHE_READ_FAILED'' err), db', k)
               else (case resolve_external s c provider slug externalRef k of
                   (Inl e, k') \<Rightarrow> (Inl e, db', k')
                 | (Inr (Inl e), k') \<Rightarrow>
                     (Inl (if isNotFound e then NotFound (slug @ '' media'') externalRef else internal ''RESOLVE_FAILED'' e), db', k')
                 | (Inr (Inr media), k') \<Rightarrow>
                     (case run_tx (Resolution_Upsert (rq_dbnow c) slug media) fl db' of
                        (Inl e, db'') \<Rightarrow> (Inl (internal ''RESOLVE_CACHE_WRITE_FAILED'' e), db'', k')
                      | (Inr _, db'') \<Rightarrow> (Inr (resolveResponse (fillPlayableURL provider media)), db'', k'))))))"

end
