(* ===== verification/Provider_Properties.thy ===== *)
theory Provider_Properties
  imports Provider_Service Go_Time
begin

text \<open>
  What the provider service promises: a resolution is answered from the cache the second time, the size of a search is
  bounded, tokens are cached for at least a minute, and ISO 8601 durations are read back as they were written.
\<close>

section \<open>The cache of resolutions\<close>

lemma text_varchar_col_short:
  "text_varchar_col n s = Some t \<Longrightarrow> rune_count s \<le> n \<Longrightarrow> t = s"
  by (simp add: text_varchar_col_def Let_def split: if_splits)

lemma text_col_Some: "text_col s = Some t \<longleftrightarrow> t = s \<and> CHR 0x00 \<notin> set s"
  by (auto simp: text_col_def)

text \<open>A successful write leaves the columns, cut to their width, under the reference the adapter returned.\<close>

lemma Resolution_Upsert_inr [tx_inr]:
  "Resolution_Upsert dbnow provider m fl n db = (Inr u, n', db') \<longleftrightarrow>
     fl n = None \<and> n' = n + 1 \<and>
     (\<exists>p r t a v. text_varchar_col 32 provider = Some p \<and> text_varchar_col 255 (re_ExternalRef m) = Some r \<and>
        text_varchar_col 255 (re_Title m) = Some t \<and> text_varchar_col 255 (re_Artist m) = Some a \<and> text_col (re_CoverURL m) = Some v \<and>
        db' = AList.update (p, r) \<lparr>rz_title = t, rz_artist = a, rz_cover_url = v, rz_duration_ms = re_DurationMs m, rz_resolved_at = dbnow\<rparr> db)"
  by (auto simp: Resolution_Upsert_def tx_inr split: option.splits)

lemma Resolution_Get_run:
  "run_tx (Resolution_Get provider r) no_faults db = (case map_of db (provider, r) of
     None \<Rightarrow> (Inl (PortsNotFound ''resolution'' (provider @ '':'' @ r)), db)
   | Some z \<Rightarrow> (Inr \<lparr>re_ExternalRef = r, re_Title = rz_title z, re_Artist = rz_artist z, re_CoverURL = rz_cover_url z,
       re_PlayableURL = '''', re_DurationMs = rz_duration_ms z\<rparr>, db))"
  by (auto simp: Resolution_Get_def run_tx_def tx_err_def tx_stmt_def no_rows_def split: option.split)

lemma Resolution_Get_inr:
  "run_tx (Resolution_Get provider r) fl db = (Inr m, db') \<Longrightarrow>
     db' = db \<and> (\<exists>z. map_of db (provider, r) = Some z \<and>
       m = \<lparr>re_ExternalRef = r, re_Title = rz_title z, re_Artist = rz_artist z, re_CoverURL = rz_cover_url z,
         re_PlayableURL = '''', re_DurationMs = rz_duration_ms z\<rparr>)"
  by (auto simp: run_tx_inr Resolution_Get_def tx_inr split: option.splits)

lemma Resolution_Get_tables: "snd (run_tx (Resolution_Get provider r) fl db) = db"
  by (auto simp: Resolution_Get_def run_tx_def tx_err_def tx_stmt_def split: option.split prod.split sum.split)

text \<open>The answer to a hit.\<close>

definition cached_response :: "int \<Rightarrow> string \<Rightarrow> resolution \<Rightarrow> ResolveResponse" where
  "cached_response p r z = resolveResponse (fillPlayableURL p
     \<lparr>re_ExternalRef = r, re_Title = rz_title z, re_Artist = rz_artist z, re_CoverURL = rz_cover_url z, re_PlayableURL = '''',
      re_DurationMs = rz_duration_ms z\<rparr>)"

lemma Resolve_hit:
  assumes "providerSlug p = Inr slug" "r \<noteq> ''''" "rq_ctxErr c = None" "rq_faults c = no_faults" "map_of db (slug, r) = Some z"
  shows "Resolve s c fl p r db k = (Inr (cached_response p r z), db, k)"
  using assms by (simp add: Resolve_def Resolution_Get_run cached_response_def)

text \<open>The address an adapter returns is the one \<^const>\<open>fillPlayableURL\<close> builds.\<close>

definition canonical :: "int \<Rightarrow> ResolvedMedia \<Rightarrow> bool" where
  "canonical p m \<longleftrightarrow> re_PlayableURL m = re_PlayableURL (fillPlayableURL p (m\<lparr>re_PlayableURL := ''''\<rparr>))"

lemma spotify_track_canonical: "spotify_track c r tok = Inr m \<Longrightarrow> canonical PROVIDER_NAME_SPOTIFY m"
  by (auto simp: spotify_track_def canonical_def fillPlayableURL_def Let_def split: sum.splits prod.splits if_splits option.splits)

lemma YouTube_Resolve_canonical: "YouTube_Resolve c r = Inr m \<Longrightarrow> canonical PROVIDER_NAME_YOUTUBE m \<and> re_ExternalRef m = r"
  by (auto simp: YouTube_Resolve_def canonical_def fillPlayableURL_def provider_names split: sum.splits prod.splits if_splits option.splits)

lemma Spotify_Resolve_track: "Spotify_Resolve c r ut k = (Inr m, k') \<Longrightarrow> \<exists>tok. spotify_track c r tok = Inr m"
  by (auto simp: Spotify_Resolve_def split: if_splits prod.splits sum.splits)

text \<open>The tracks of Spotify carry the identifier they were asked for: no relinking.\<close>

definition faithful_refs :: "'k provider_env \<Rightarrow> string \<Rightarrow> bool" where
  "faithful_refs s r \<longleftrightarrow> (\<forall>c tok m. pe_spotify s = Some c \<longrightarrow> spotify_track c r tok = Inr m \<longrightarrow> re_ExternalRef m = r)"

lemma resolve_external_canonical:
  assumes "resolve_external s c p slug r k = (Inr (Inr m), k')" "providerSlug p = Inr slug" "faithful_refs s r"
  shows "canonical p m \<and> re_ExternalRef m = r"
proof (cases "p = PROVIDER_NAME_SPOTIFY")
  case True
  then obtain sp ut where "pe_spotify s = Some sp" "Spotify_Resolve sp r ut k = (Inr m, k')"
    using assms(1) by (auto simp: resolve_external_def split: option.splits sum.splits prod.splits)
  then show ?thesis using Spotify_Resolve_track spotify_track_canonical assms(3) True unfolding faithful_refs_def by metis
next
  case False
  then obtain yt where "YouTube_Resolve yt r = Inr m" "p = PROVIDER_NAME_YOUTUBE"
    using assms(1,2) by (auto simp: resolve_external_def providerSlug_def split: option.splits if_splits)
  then show ?thesis using YouTube_Resolve_canonical by blast
qed

lemma slug_text: "providerSlug p = Inr slug \<Longrightarrow> text_varchar_col 32 slug = Some slug"
proof -
  have "text_varchar_col 32 ''spotify'' = Some ''spotify''" "text_varchar_col 32 ''youtube'' = Some ''youtube''" by code_simp+
  moreover assume "providerSlug p = Inr slug"
  ultimately show ?thesis by (auto simp: providerSlug_def split: if_splits)
qed

lemma fresh_response:
  assumes "canonical p m" "providerSlug p = Inr slug" "re_ExternalRef m = r"
    "z = \<lparr>rz_title = re_Title m, rz_artist = re_Artist m, rz_cover_url = re_CoverURL m, rz_duration_ms = re_DurationMs m, rz_resolved_at = t\<rparr>"
  shows "resolveResponse (fillPlayableURL p m) = cached_response p r z"
  using assms by (auto simp: canonical_def cached_response_def fillPlayableURL_def resolveResponse_def providerSlug_def split: if_splits)

text \<open>Every successful resolution leaves a row from which the same answer is built.\<close>

lemma Resolve_leaves_row:
  assumes res: "Resolve s c fl p r db k = (Inr resp, db', k')" and refs: "faithful_refs s r"
    and fit: "rune_count r \<le> 255" "rune_count (rp_Title resp) \<le> 255" "rune_count (rp_Artist resp) \<le> 255"
  obtains slug z where "providerSlug p = Inr slug" "r \<noteq> ''''" "map_of db' (slug, r) = Some z" "resp = cached_response p r z"
proof -
  obtain slug where slug: "providerSlug p = Inr slug" "r \<noteq> ''''"
    using res by (auto simp: Resolve_def split: option.splits if_splits sum.splits)
  show thesis
  proof (cases "run_tx (Resolution_Get slug r) (rq_faults c) db")
    case (Pair x db1)
    have db1: "db1 = db" using Resolution_Get_tables [of slug r "rq_faults c" db] Pair by simp
    show thesis
    proof (cases x)
      case (Inr m)
      then obtain z where "map_of db (slug, r) = Some z" "resolveResponse (fillPlayableURL p m) = cached_response p r z"
        using Resolution_Get_inr [of slug r "rq_faults c" db m db1] Pair unfolding cached_response_def by metis
      moreover have "resp = resolveResponse (fillPlayableURL p m)" "db' = db"
        using res slug Pair Inr db1 by (auto simp: Resolve_def split: option.splits)
      ultimately show thesis using that [OF slug] by simp
    next
      case (Inl e)
      then obtain m u where m: "resolve_external s c p slug r k = (Inr (Inr m), k')"
        "run_tx (Resolution_Upsert (rq_dbnow c) slug m) fl db = (Inr u, db')" "resp = resolveResponse (fillPlayableURL p m)"
        using res slug Pair db1 by (auto simp: Resolve_def split: option.splits if_splits sum.splits prod.splits)
      have c: "canonical p m" "re_ExternalRef m = r" using resolve_external_canonical [OF m(1) slug(1) refs] by simp_all
      have "re_Title m = rp_Title resp" "re_Artist m = rp_Artist resp"
        by (simp_all add: m(3) resolveResponse_def fillPlayableURL_def)
      then have "db' = AList.update (slug, r) \<lparr>rz_title = re_Title m, rz_artist = re_Artist m, rz_cover_url = re_CoverURL m,
          rz_duration_ms = re_DurationMs m, rz_resolved_at = rq_dbnow c\<rparr> db"
        using m(2) fit c(2) slug_text [OF slug(1)]
        by (auto simp: run_tx_inr tx_inr text_col_Some dest!: text_varchar_col_short)
      then show thesis using that [OF slug] fresh_response [OF c(1) slug(1) c(2) refl] m(3) by (simp add: update_Some_unfold)
    qed
  qed
qed


definition sample_provider :: "unit provider_env" where
  "sample_provider = \<lparr>pe_spotify = None,
     pe_youtube = Some \<lparr>yt_http = (\<lambda>rq. Inr (200, Inr ''{}'')), yt_baseURL = ''https://www.youtube.com'',
       yt_json = \<lparr>jd_token = (\<lambda>b. None), jd_track = (\<lambda>b. None), jd_search = (\<lambda>b. None),
         jd_oembed = (\<lambda>b. Some (''title'', ''channel'', ''thumb''))\<rparr>\<rparr>,
     pe_tokens = (\<lambda>u p. Inl (PlainErr ''none''))\<rparr>"

definition offline_provider :: "unit provider_env" where
  "offline_provider = \<lparr>pe_spotify = None, pe_youtube = None, pe_tokens = (\<lambda>u p. Inl (PlainErr ''none''))\<rparr>"

definition sample_resolve_call :: call where
  "sample_resolve_call = \<lparr>rq_ctxErr = None, rq_userHeader = ''u1'', rq_roleHeader = '''', rq_faults = no_faults, rq_dbnow = 7, rq_now = (\<lambda>i. 0),
     rq_newID = (\<lambda>i. ''id''), rq_rand = (\<lambda>i j. 0), rq_lower = id\<rparr>"

definition sample_response :: ResolveResponse where
  "sample_response = \<lparr>rp_Title = ''title'', rp_Artist = ''channel'', rp_CoverUrl = ''thumb'', rp_DurationMs = 0,
     rp_PlayableUrl = ''https://www.youtube.com/watch?v=abc''\<rparr>"

definition sample_resolutions :: provider_db where
  "sample_resolutions = [((''youtube'', ''abc''), \<lparr>rz_title = ''title'', rz_artist = ''channel'', rz_cover_url = ''thumb'', rz_duration_ms = 0,
     rz_resolved_at = 7\<rparr>)]"

lemma sample_resolution_columns:
  "text_varchar_col 32 ''youtube'' = Some ''youtube''" "text_varchar_col 255 ''abc'' = Some ''abc''"
  "text_varchar_col 255 ''title'' = Some ''title''" "text_varchar_col 255 ''channel'' = Some ''channel''" "text_col ''thumb'' = Some ''thumb''"
  by code_simp+

lemma sample_call_fields:
  "rq_ctxErr sample_resolve_call = None" "rq_faults sample_resolve_call = no_faults" "rq_dbnow sample_resolve_call = 7"
  by (simp_all add: sample_resolve_call_def)

lemma sample_upsert:
  "run_tx (Resolution_Upsert 7 ''youtube'' \<lparr>re_ExternalRef = ''abc'', re_Title = ''title'', re_Artist = ''channel'', re_CoverURL = ''thumb'',
     re_PlayableURL = u, re_DurationMs = 0\<rparr>) no_faults [] = (Inr (), sample_resolutions)"
  by (simp add: run_tx_def Resolution_Upsert_def tx_err_def tx_stmt_def sample_resolution_columns sample_resolutions_def)

lemma sample_resolve:
  "Resolve sample_provider sample_resolve_call no_faults PROVIDER_NAME_YOUTUBE ''abc'' [] () = (Inr sample_response, sample_resolutions, ())"
proof -
  have "providerSlug PROVIDER_NAME_YOUTUBE = Inr ''youtube''" by (simp add: providerSlug_def provider_names)
  moreover have "resolve_external sample_provider sample_resolve_call PROVIDER_NAME_YOUTUBE ''youtube'' ''abc'' () =
      (Inr (Inr \<lparr>re_ExternalRef = ''abc'', re_Title = ''title'', re_Artist = ''channel'', re_CoverURL = ''thumb'',
        re_PlayableURL = ''https://www.youtube.com/watch?v=abc'', re_DurationMs = 0\<rparr>), ())"
    by (simp add: resolve_external_def provider_names sample_provider_def YouTube_Resolve_def fetch_def)
  ultimately show ?thesis
    by (simp add: Resolve_def sample_call_fields Resolution_Get_run sample_upsert)
      (simp add: fillPlayableURL_def resolveResponse_def sample_response_def i64_to_u64_def)
qed


text \<open>When Spotify answers with another identifier than the one it was asked for (a relinked track), the row is stored
  under that one: the requested reference is never found in the cache.\<close>

theorem relinked_track_never_cached:
  assumes "\<forall>c tok m. pe_spotify s = Some c \<longrightarrow> spotify_track c r tok = Inr m \<longrightarrow> text_varchar_col 255 (re_ExternalRef m) \<noteq> Some r"
    and "map_of db (''spotify'', r) = None"
  shows "map_of (fst (snd (Resolve s c fl PROVIDER_NAME_SPOTIFY r db k))) (''spotify'', r) = None"
proof -
  have slug: "providerSlug PROVIDER_NAME_SPOTIFY = Inr ''spotify''" by (simp add: providerSlug_def)
  have up: "map_of db1 (''spotify'', r) = None"
    if "run_tx (Resolution_Upsert t ''spotify'' m) fl db = (x, db1)" "text_varchar_col 255 (re_ExternalRef m) \<noteq> Some r" for t m x db1
    using that assms(2) by (cases x) (auto simp: run_tx_inr tx_inr update_conv' run_tx_def split: option.splits sum.splits prod.splits)
  have ext: "text_varchar_col 255 (re_ExternalRef m) \<noteq> Some r"
    if res: "resolve_external s c PROVIDER_NAME_SPOTIFY ''spotify'' r k = (Inr (Inr m), k')" for m k'
  proof -
    obtain sp ut where "pe_spotify s = Some sp" "Spotify_Resolve sp r ut k = (Inr m, k')"
      using res unfolding resolve_external_def by (auto split: option.splits sum.splits prod.splits)
    then show ?thesis using Spotify_Resolve_track assms(1) by metis
  qed
  have get: "snd (run_tx (Resolution_Get ''spotify'' r) (rq_faults c) db) = db" by (rule Resolution_Get_tables)
  show ?thesis using up ext get assms(2) unfolding Resolve_def slug
    by (auto split: option.splits sum.splits prod.splits elim: up)
qed

section \<open>Limits\<close>

lemma searchLimit_bounds: "1 \<le> searchLimit l \<and> searchLimit l \<le> maxSearchLimit"
  by (auto simp: searchLimit_def maxSearchLimit_def defaultSearchLimit_def word_less_def word_le_def Let_def)

lemma token_ttl_minute: "60 * second \<le> token_ttl n"
  by (simp add: token_ttl_def Let_def)

text \<open>A token that lives less than a minute stays in the cache longer than it is valid.\<close>

lemma token_outlives_itself: "n < 60 \<Longrightarrow> n * second < token_ttl n"
  using token_ttl_minute [of n] by (simp add: second_def)

section \<open>Durations\<close>

text \<open>The text of a duration of days, hours, minutes and seconds.\<close>

definition iso_text :: "nat \<Rightarrow> nat \<Rightarrow> nat \<Rightarrow> nat \<Rightarrow> string" where
  "iso_text d h m s = ''P'' @ dec_nat d @ ''DT'' @ dec_nat h @ ''H'' @ dec_nat m @ ''M'' @ dec_nat s @ ''S''"

lemma digit_not_T: "j < 10 \<Longrightarrow> char_of (48 + j :: nat) \<noteq> CHR ''T''"
proof -
  assume j: "j < 10"
  have "of_char (char_of (48 + j) :: char) = 48 + j" using j by (simp only: of_char_of) simp
  moreover have "of_char (CHR ''T'') = (84 :: nat)" by simp
  moreover have "48 + j \<noteq> 84" using j by simp
  ultimately show ?thesis by metis
qed

lemma iso_loop_digits:
  "int n < 2 ^ 63 \<Longrightarrow> iso_loop t 0 dg it sw (dec_nat n @ r) = iso_loop t (int n) True it sw r"
proof (induction n arbitrary: dg r rule: dec_nat.induct)
  case (1 n)
  show ?case
  proof (cases "n < 10")
    case True
    then show ?thesis using digit_not_T [of n] digit_value_char [of n] 1(2) by (simp add: dec_nat.simps [of n] i64_id in_i64_def)
  next
    case False
    have "iso_loop t 0 dg it sw (dec_nat n @ r) = iso_loop t (int (n div 10)) True it sw (char_of (48 + n mod 10) # r)"
      using 1 False by (simp add: dec_nat.simps [of n])
    moreover have "int (n div 10) * 10 + int (n mod 10) = int n" by presburger
    moreover have "i64 (int (n div 10) * 10) = int (n div 10) * 10" "i64 (int n) = int n"
      using 1(2) calculation by (intro i64_id; simp add: in_i64_def; linarith)+
    ultimately show ?thesis using digit_not_T [of "n mod 10"] digit_value_char [of "n mod 10"] by simp
  qed
qed


lemma iso_unit:
  assumes "r \<noteq> CHR ''T''" "digit_value r = None" "unitMillis r it = Some ms" "in_i64 (num * ms)" "in_i64 (t + num * ms)"
  shows "iso_loop t num True it sw (r # rs) = iso_loop (t + num * ms) 0 False it True rs"
  using assms by (simp add: i64_id)

lemma iso_component:
  assumes "r \<noteq> CHR ''T''" "digit_value r = None" "unitMillis r it = Some ms" "1 \<le> ms" "0 \<le> t" "t + int n * ms < 2 ^ 63"
  shows "iso_loop t 0 dg it sw (dec_nat n @ r # rs) = iso_loop (t + int n * ms) 0 False it True rs"
proof -
  have "int n * 1 \<le> int n * ms" using assms(4) by (intro mult_left_mono) simp_all
  then have "int n < 2 ^ 63" "0 \<le> int n * ms" using assms(4-6) by linarith+
  then have "in_i64 (int n * ms)" "in_i64 (t + int n * ms)" using assms(5,6) by (auto simp: in_i64_def)
  then show ?thesis using assms(1-3) \<open>int n < 2 ^ 63\<close> by (simp add: iso_loop_digits i64_id)
qed

text \<open>A duration is read back as it was written, to the millisecond, as long as the sum fits into 63 bits.\<close>

theorem ParseISODuration_roundtrip:
  assumes "int d * 86400000 + int h * 3600000 + int m * 60000 + int s * 1000 < 2 ^ 63"
  shows "ParseISODuration (iso_text d h m s) = Inr (int d * 86400000 + int h * 3600000 + int m * 60000 + int s * 1000)"
proof -
  have D: "unitMillis CHR ''D'' False = Some 86400000" "unitMillis CHR ''H'' True = Some 3600000"
    "unitMillis CHR ''M'' True = Some 60000" "unitMillis CHR ''S'' True = Some 1000" by (simp_all add: unitMillis_def)
  have V: "digit_value CHR ''D'' = None" "digit_value CHR ''H'' = None" "digit_value CHR ''M'' = None" "digit_value CHR ''S'' = None"
    by code_simp+
  have "0 \<le> int d * 86400000" "0 \<le> int h * 3600000" "0 \<le> int m * 60000" "0 \<le> int s * 1000" by simp_all
  then have "iso_loop 0 0 False False False (dec_nat d @ CHR ''D'' # CHR ''T'' # dec_nat h @ CHR ''H'' # dec_nat m @ CHR ''M'' # dec_nat s @ ''S'') =
      Inr (0 + int d * 86400000 + int h * 3600000 + int m * 60000 + int s * 1000)"
    using assms iso_component [OF _ V(1) D(1), of 0 d] iso_component [OF _ V(2) D(2), of "int d * 86400000" h]
      iso_component [OF _ V(3) D(3), of "int d * 86400000 + int h * 3600000" m]
      iso_component [OF _ V(4) D(4), of "int d * 86400000 + int h * 3600000 + int m * 60000" s]
    by simp
  moreover have "dec_nat d \<noteq> []" by (simp add: dec_nat.simps [of d])
  ultimately show ?thesis by (simp add: ParseISODuration_def iso_text_def)
qed

theorem ParseISODuration_roundtrip_witness:
  "iso_text 0 0 4 13 = ''P0DT0H4M13S'' \<and> ParseISODuration (iso_text 0 0 4 13) = Inr 253000"
  using ParseISODuration_roundtrip [of 0 0 4 13] by (simp add: iso_text_def dec_nat.simps char_of_def bit_0)

text \<open>Beyond that the sum wraps without an error.\<close>

lemma ParseISODuration_wraps: "ParseISODuration ''P106751991168D'' = Inr (- 9223372036794351616)"
  by code_simp

end
