(* ===== verification/Relay_Run.thy ===== *)
theory Relay_Run
  imports Outbox
begin

text \<open>
  The relay of the outbox as a running program (\<open>infra/events/relay.go\<close> of the room service; the auth service, the sync
  service and the media service carry copies): the defaults of \<open>NewRelay\<close>, the leader-elected loop \<open>Run\<close> around \<open>drainOnce\<close>,
  and the lock in Redis (\<open>RedisLocker\<close>), whose commands of several replicas interleave.
\<close>

section \<open>Options\<close>

record RelayOptions =
  ro_BatchSize :: int
  ro_PollEvery :: duration
  ro_LockTTL :: duration

definition NewRelay :: "RelayOptions \<Rightarrow> RelayOptions" where
  "NewRelay opts = \<lparr>ro_BatchSize = relay_batch (ro_BatchSize opts),
     ro_PollEvery = (if ro_PollEvery opts \<le> 0 then second else ro_PollEvery opts),
     ro_LockTTL = (if ro_LockTTL opts \<le> 0 then 30 * second else ro_LockTTL opts)\<rparr>"

section \<open>The loop\<close>

type_synonym relay_state = "outbox_row list \<times> Message list"

text \<open>What one turn of the loop meets: the transactions that stage events before it, the state of the context at the top of the
  loop, the error of \<open>Acquire\<close>, faults, rows locked by another relay and clock of the drain, and whether the context is
  cancelled while the relay sleeps.\<close>

record cycle =
  cy_staged :: "(Event list \<times> faults) list"
  cy_ctxErr :: "go_error option"
  cy_acquireErr :: "go_error option"
  cy_faults :: faults
  cy_locked :: "string set"
  cy_now :: time
  cy_done :: "go_error option"

definition stage_all :: "(Event list \<times> faults) list \<Rightarrow> relay_state \<Rightarrow> relay_state" where
  "stage_all txs st = (fold (\<lambda>(es, fl) rows. snd (run_tx (Append es) fl rows)) txs (fst st), snd st)"

text \<open>The \<open>select\<close> on the context and the timer.\<close>

definition sleep :: "cycle \<Rightarrow> go_error + bool" where
  "sleep c = (case cy_done c of Some e \<Rightarrow> Inl e | None \<Rightarrow> Inr False)"

text \<open>One turn: \<open>Run\<close> returns with an error, or goes on; \<open>Inr True\<close> if it did not sleep.\<close>

definition relay_cycle :: "RelayOptions \<Rightarrow> cycle \<Rightarrow> relay_state \<Rightarrow> (go_error + bool) \<times> relay_state" where
  "relay_cycle r c st = (case cy_ctxErr c of
     Some e \<Rightarrow> (Inl e, st)
   | None \<Rightarrow> (case cy_acquireErr c of
       Some e \<Rightarrow> (sleep c, st)
     | None \<Rightarrow> (case drainOnce (cy_faults c) (cy_locked c) (ro_BatchSize r) (cy_now c) st of
         (res, st') \<Rightarrow>
           (let published = (case res of Inl e \<Rightarrow> 0 | Inr p \<Rightarrow> p) in
            if published = 0 then (sleep c, st') else (Inr True, st')))))"

text \<open>\<open>Run\<close>, from turn \<open>n\<close> on; \<open>None\<close> if it never returns.\<close>

partial_function (option) Run :: "RelayOptions \<Rightarrow> (nat \<Rightarrow> cycle) \<Rightarrow> nat \<Rightarrow> relay_state \<Rightarrow> (go_error \<times> relay_state) option" where
  "Run r env n st = (case relay_cycle r (env n) (stage_all (cy_staged (env n)) st) of
     (Inl e, st') \<Rightarrow> Some (e, st')
   | (Inr busy, st') \<Rightarrow> Run r env (Suc n) st')"

section \<open>Turns keep the delivery guarantee\<close>

lemma stage_all_ok: "relay_ok st \<Longrightarrow> relay_ok (stage_all txs st)"
proof (induction txs arbitrary: st)
  case Nil
  then show ?case by (simp add: stage_all_def)
next
  case (Cons tx txs)
  obtain es fl rows klog where eq: "tx = (es, fl)" "st = (rows, klog)" by (cases tx, cases st) simp
  have "outbox_step (rows, klog) (snd (run_tx (Append es) fl rows), klog)" by (rule outbox_step.stage [OF prod.collapse [symmetric]])
  then have "relay_ok (snd (run_tx (Append es) fl rows), klog)" using outbox_step_ok Cons.prems eq(2) by blast
  from Cons.IH [OF this] show ?case by (simp add: stage_all_def eq)
qed

lemma relay_cycle_ok: "relay_cycle r c st = (x, st') \<Longrightarrow> relay_ok st \<Longrightarrow> relay_ok st'"
  by (cases st, cases st')
    (auto simp: relay_cycle_def Let_def split: option.splits prod.splits if_splits intro: drainOnce_relay_ok)

text \<open>\<open>Run\<close> returns only because the context was cancelled, with its error.\<close>

definition cancelled :: "cycle \<Rightarrow> go_error \<Rightarrow> bool" where
  "cancelled c e \<longleftrightarrow> cy_ctxErr c = Some e \<or> cy_done c = Some e"

lemma relay_cycle_error: "relay_cycle r c st = (Inl e, st') \<Longrightarrow> cancelled c e"
  by (auto simp: relay_cycle_def cancelled_def sleep_def Let_def split: option.splits prod.splits if_splits)

lemma Run_cancelled_turn:
  assumes "Run r env n st = Some y"
  shows "\<exists>m\<ge>n. cancelled (env m) (fst y)"
proof (rule Run.raw_induct [where P = "\<lambda>r env n st y. \<exists>m\<ge>n. cancelled (env m) (fst y)", OF _ assms], goal_cases)
  case (1 f r env n st y)
  obtain x st1 where c: "relay_cycle r (env n) (stage_all (cy_staged (env n)) st) = (x, st1)" by (cases "relay_cycle r (env n) (stage_all (cy_staged (env n)) st)")
  show ?case
  proof (cases x)
    case (Inl e)
    then have "cancelled (env n) e" using relay_cycle_error c by blast
    then show ?thesis using Inl 1(2) c by auto
  next
    case (Inr b)
    then have "f r env (Suc n) st1 = Some y" using 1(2) c by simp
    from 1(1) [OF this] show ?thesis by (meson Suc_leD)
  qed
qed

text \<open>What every turn keeps, \<open>Run\<close> keeps.\<close>

lemma Run_invariant:
  assumes run: "Run r env n st = Some y" and st: "I st"
    and turn: "\<And>m st x st'. I st \<Longrightarrow> relay_cycle r (env m) (stage_all (cy_staged (env m)) st) = (x, st') \<Longrightarrow> I st'"
  shows "I (snd y)"
proof -
  have "(\<forall>m st x st'. I st \<longrightarrow> relay_cycle r (env m) (stage_all (cy_staged (env m)) st) = (x, st') \<longrightarrow> I st') \<longrightarrow> I st \<longrightarrow> I (snd y)"
  proof (rule Run.raw_induct [where P = "\<lambda>r env n st y.
      (\<forall>m st x st'. I st \<longrightarrow> relay_cycle r (env m) (stage_all (cy_staged (env m)) st) = (x, st') \<longrightarrow> I st') \<longrightarrow> I st \<longrightarrow> I (snd y)", OF _ run], goal_cases)
    case (1 f r env n st y)
    obtain x st1 where c: "relay_cycle r (env n) (stage_all (cy_staged (env n)) st) = (x, st1)" by (cases "relay_cycle r (env n) (stage_all (cy_staged (env n)) st)")
    then have "f r env (Suc n) st1 = Some y \<or> y = (projl x, st1)" using 1(2) by (cases x) auto
    then show ?case using 1(1) [of r env "Suc n" st1 y] c by (metis snd_conv)
  qed
  then show ?thesis using st turn by blast
qed

lemma Run_ok: "Run r env n st = Some y \<Longrightarrow> relay_ok st \<Longrightarrow> relay_ok (snd y)"
  using Run_invariant [of r env n st y relay_ok] relay_cycle_ok stage_all_ok by blast

lemma Run_step:
  "relay_cycle r (env n) (stage_all (cy_staged (env n)) st) = (Inr b, st') \<Longrightarrow> Run r env n st = Run r env (Suc n) st'"
  by (subst Run.simps) simp

lemma Run_stop:
  "relay_cycle r (env n) (stage_all (cy_staged (env n)) st) = (Inl e, st') \<Longrightarrow> Run r env n st = Some (e, st')"
  by (subst Run.simps) simp

lemma Run_cancelled:
  assumes "cy_ctxErr (env m) = Some e" "n \<le> m"
  shows "\<exists>y. Run r env n st = Some y"
  using assms(2)
proof (induction "m - n" arbitrary: n st)
  case 0
  then have "n = m" by simp
  then show ?case using assms(1) Run_stop [of r env n st e] by (simp add: relay_cycle_def)
next
  case (Suc d)
  obtain x st1 where c: "relay_cycle r (env n) (stage_all (cy_staged (env n)) st) = (x, st1)" by (cases "relay_cycle r (env n) (stage_all (cy_staged (env n)) st)")
  show ?case
  proof (cases x)
    case (Inl e')
    then show ?thesis using Run_stop c by blast
  next
    case (Inr b)
    then show ?thesis using Run_step [of r env n st b st1] c Suc by simp
  qed
qed


section \<open>How long it is busy\<close>

lemma drainOnce_count:
  assumes "drainOnce fl locked b now (rows, klog) = (Inr p, rows', klog')" "outbox_ok rows"
  shows "0 \<le> p \<and> int (length (unpublished rows')) = int (length (unpublished rows)) - p"
proof -
  let ?p = "FetchUnpublished locked b rows"
  have sub: "set ?p \<subseteq> set (unpublished rows)" using set_FetchUnpublished [of locked b rows] by (auto simp: unpublished_def)
  have d: "distinct ?p" by (rule distinct_FetchUnpublished [OF assms(2)])
  have le: "length ?p \<le> length (unpublished rows)"
    using card_mono [OF _ sub] distinct_card [OF d] card_length [of "unpublished rows"] by (simp add: le_trans)
  obtain e n rows1 klog1 where l: "drain_loop fl now 2 ?p (rows, klog) = (e, n, rows1, klog1)" by (metis prod_cases4)
  then have m: "e = None \<longrightarrow> rows1 = mark_all now (map ob_id ?p) rows" using drain_loop_log [OF l] by blast
  have "p = 0 \<and> rows' = rows \<or> p = int (length ?p) \<and> rows' = mark_all now (map ob_id ?p) rows"
    using assms(1) l m by (auto simp: drainOnce_def Let_def split: option.splits if_splits)
  then show ?thesis using unpublished_mark_all [OF assms(2) sub d, of now] le by auto
qed

lemma drainOnce_ok: "outbox_ok rows \<Longrightarrow> drainOnce fl locked b now (rows, klog) = (r, rows', klog') \<Longrightarrow> outbox_ok rows'"
  using drainOnce_cases [of fl locked b now rows klog r rows' klog'] outbox_ok_mark_all by metis

text \<open>A turn without sleep published a row; a turn with sleep or a return adds none.\<close>

lemma relay_cycle_count:
  assumes "relay_cycle r c (rows, klog) = (x, rows', klog')" "outbox_ok rows"
  shows "outbox_ok rows' \<and> length (unpublished rows') + (if x = Inr True then 1 else 0) \<le> length (unpublished rows)"
proof -
  obtain res rows1 klog1 where d: "drainOnce (cy_faults c) (cy_locked c) (ro_BatchSize r) (cy_now c) (rows, klog) = (res, rows1, klog1)"
    by (metis prod_cases3)
  have ok: "outbox_ok rows1" by (rule drainOnce_ok [OF assms(2) d])
  have "res = Inl e \<Longrightarrow> rows1 = rows" for e using drainOnce_cases [OF d] by blast
  moreover have "res = Inr p \<Longrightarrow> 0 \<le> p \<and> int (length (unpublished rows1)) = int (length (unpublished rows)) - p" for p
    using drainOnce_count [of _ _ _ _ rows klog p rows1 klog1] d assms(2) by blast
  moreover have "rows' = rows \<and> x \<noteq> Inr True \<or> rows' = rows1 \<and> (x = Inr True \<longrightarrow> (\<exists>p. res = Inr p \<and> p \<noteq> 0))"
  proof (cases "cy_ctxErr c = None \<and> cy_acquireErr c = None")
    case True
    then have "relay_cycle r c (rows, klog) = (let p = (case res of Inl e \<Rightarrow> 0 | Inr p \<Rightarrow> p) in if p = 0 then (sleep c, rows1, klog1) else (Inr True, rows1, klog1))"
      by (simp add: relay_cycle_def d)
    then show ?thesis using assms(1) by (cases res) (simp_all add: sleep_def split: if_splits option.splits)
  next
    case False
    then show ?thesis using assms(1) by (cases "cy_ctxErr c"; cases "cy_acquireErr c"; cases "cy_done c") (auto simp: relay_cycle_def sleep_def)
  qed
  ultimately show ?thesis using assms(2) ok by (cases res) auto
qed

definition staged_events :: "cycle \<Rightarrow> nat" where
  "staged_events c = sum_list (map (\<lambda>(es, fl). length es) (cy_staged c))"

lemma Append_count:
  assumes "outbox_ok rows" 
  shows "outbox_ok (snd (run_tx (Append es) fl rows)) \<and>
    length (unpublished (snd (run_tx (Append es) fl rows))) \<le> length (unpublished rows) + length es"
proof -
  obtain res rows' where t: "run_tx (Append es) fl rows = (res, rows')" by (cases "run_tx (Append es) fl rows")
  have ok: "outbox_ok rows'" using run_tx_invariant [OF Append_ok assms t] .
  show ?thesis
  proof (cases res)
    case (Inl e)
    then show ?thesis using t run_tx_error assms by fastforce
  next
    case (Inr u)
    then obtain n n' where "Append es fl n rows = (Inr (), n', rows')" using t by (auto simp: run_tx_inr)
    from Append_grows [OF this] obtain new where new: "rows' = rows @ new"
      "list_all2 (\<lambda>e r. outbox_row_of e (if ev_Key e = '''' then ev_AggregateID e else ev_Key e) = Some r) es new" by blast
    have "length es = length new" by (rule list_all2_lengthD [OF new(2)])
    then show ?thesis using t ok new(1) by (simp add: unpublished_def)
  qed
qed

lemma stage_all_count:
  "outbox_ok (fst st) \<Longrightarrow> outbox_ok (fst (stage_all txs st)) \<and>
     length (unpublished (fst (stage_all txs st))) \<le> length (unpublished (fst st)) + sum_list (map (\<lambda>(es, fl). length es) txs)"
proof (induction txs arbitrary: st)
  case Nil
  then show ?case by (simp add: stage_all_def)
next
  case (Cons tx txs)
  obtain es fl where tx: "tx = (es, fl)" by (cases tx)
  show ?case using Append_count [OF Cons.prems, of es fl] Cons.IH [of "(snd (run_tx (Append es) fl (fst st)), snd st)"]
    by (simp add: stage_all_def tx)
qed

text \<open>The turns without sleep among the next \<open>k\<close> turns of \<open>Run\<close>.\<close>

fun busy_turns :: "RelayOptions \<Rightarrow> (nat \<Rightarrow> cycle) \<Rightarrow> nat \<Rightarrow> nat \<Rightarrow> relay_state \<Rightarrow> nat" where
  "busy_turns r env n 0 st = 0"
| "busy_turns r env n (Suc k) st = (case relay_cycle r (env n) (stage_all (cy_staged (env n)) st) of
     (Inl e, st') \<Rightarrow> 0
   | (Inr busy, st') \<Rightarrow> (if busy then 1 else 0) + busy_turns r env (Suc n) k st')"

lemma busy_turns_bound:
  "outbox_ok (fst st) \<Longrightarrow> busy_turns r env n k st \<le> length (unpublished (fst st)) + (\<Sum>i = n..<n + k. staged_events (env i))"
proof (induction k arbitrary: n st)
  case 0
  then show ?case by simp
next
  case (Suc k)
  let ?st = "stage_all (cy_staged (env n)) st"
  obtain x st1 where c: "relay_cycle r (env n) ?st = (x, st1)" by (cases "relay_cycle r (env n) ?st")
  have s: "outbox_ok (fst ?st)" "length (unpublished (fst ?st)) \<le> length (unpublished (fst st)) + staged_events (env n)"
    using stage_all_count [OF Suc.prems] by (simp_all add: staged_events_def)
  have t: "outbox_ok (fst st1)" "length (unpublished (fst st1)) + (if x = Inr True then 1 else 0) \<le> length (unpublished (fst ?st))"
    using relay_cycle_count [of r "env n" "fst ?st" "snd ?st" x "fst st1" "snd st1"] c s(1) by simp_all
  show ?case using Suc.IH [OF t(1), of "Suc n"] s(2) t(2) c
    by (cases x) (auto simp: sum.atLeast_Suc_lessThan split: if_splits)
qed


section \<open>Draining\<close>

text \<open>A turn in which nothing goes wrong and no other relay holds rows.\<close>

definition undisturbed :: "cycle \<Rightarrow> bool" where
  "undisturbed c \<longleftrightarrow> cy_ctxErr c = None \<and> cy_acquireErr c = None \<and> cy_faults c = no_faults \<and> cy_locked c = {} \<and> cy_done c = None"

lemma undisturbed_turn:
  assumes "undisturbed c"
  obtains b where "relay_cycle r c st = (Inr b, drain_state (ro_BatchSize r) (cy_now c) st)"
proof -
  obtain rows klog where st: "st = (rows, klog)" by (cases st)
  have "\<exists>b. relay_cycle r c st = (Inr b, drain_state (ro_BatchSize r) (cy_now c) st)"
    using assms by (simp add: st relay_cycle_def undisturbed_def sleep_def drain_state_def drainOnce_no_faults Let_def) blast
  then show thesis using that by blast
qed

lemma Run_undisturbed:
  assumes "\<forall>i<k. undisturbed (env (n + i)) \<and> cy_staged (env (n + i)) = []" "outbox_ok (fst st)"
  obtains st' where "Run r env n st = Run r env (n + k) st'" "outbox_ok (fst st')"
    "length (unpublished (fst st')) = length (unpublished (fst st)) - k * nat (ro_BatchSize r)"
  using assms
proof (induction k arbitrary: n st thesis)
  case 0
  then show ?case by simp
next
  case (Suc k)
  let ?st = "drain_state (ro_BatchSize r) (cy_now (env n)) st"
  have "undisturbed (env n)" "cy_staged (env n) = []" using Suc.prems(2) by (metis add_0_right zero_less_Suc)+
  then obtain b where "relay_cycle r (env n) (stage_all (cy_staged (env n)) st) = (Inr b, ?st)"
    using undisturbed_turn [of "env n" r st] by (auto simp: stage_all_def)
  then have run: "Run r env n st = Run r env (Suc n) ?st" by (rule Run_step)
  have "\<forall>i<k. undisturbed (env (Suc n + i)) \<and> cy_staged (env (Suc n + i)) = []" using Suc.prems(2) by auto
  then obtain st' where "Run r env (Suc n) ?st = Run r env (Suc n + k) st'" "outbox_ok (fst st')"
    "length (unpublished (fst st')) = length (unpublished (fst ?st)) - k * nat (ro_BatchSize r)"
    using Suc.IH drain_state_step(1) [OF Suc.prems(3)] by blast
  then show ?case using Suc.prems(1) [of st'] run drain_state_step(2) [OF Suc.prems(3), of "ro_BatchSize r"] by simp
qed

lemma Run_keeps_drained:
  assumes "Run r env n st = Some y" "\<forall>i. cy_staged (env i) = []" "outbox_ok (fst st)" "unpublished (fst st) = []"
  shows "unpublished (fst (snd y)) = []"
proof -
  have "outbox_ok (fst (snd y)) \<and> unpublished (fst (snd y)) = []"
  proof (rule Run_invariant [OF assms(1), where I = "\<lambda>st. outbox_ok (fst st) \<and> unpublished (fst st) = []"])
    fix m st x st'
    assume st: "outbox_ok (fst st) \<and> unpublished (fst st) = []"
      and "relay_cycle r (env m) (stage_all (cy_staged (env m)) st) = (x, st')"
    then have "relay_cycle r (env m) (fst st, snd st) = (x, fst st', snd st')" using assms(2) by (simp add: stage_all_def)
    from relay_cycle_count [OF this] st show "outbox_ok (fst st') \<and> unpublished (fst st') = []" by simp
  qed (use assms in simp)
  then show ?thesis by simp
qed

section \<open>Properties\<close>

text \<open>C27: The loop of the relay ends exactly by cancellation: if the context is cancelled at some turn, \<open>Run\<close> returns, with the
  error of the context, and rows marked published are still only those whose message was handed to Kafka; if it is never
  cancelled, \<open>Run\<close> never returns. In between it cannot spin: of any number of turns, at most as many go without a sleep as
  there were unpublished rows plus events staged meanwhile, whatever fails and however often the lock is lost.\<close>

theorem Run_terminates:
  "(n \<le> m \<and> cy_ctxErr (env m) = Some e \<longrightarrow>
      (\<exists>e' st'. Run r env n st = Some (e', st') \<and> (\<exists>j\<ge>n. cancelled (env j) e') \<and> (relay_ok st \<longrightarrow> relay_ok st'))) \<and>
   ((\<forall>j\<ge>n. \<forall>e. \<not> cancelled (env j) e) \<longrightarrow> Run r env n st = None) \<and>
   (outbox_ok (fst st) \<longrightarrow> busy_turns r env n k st \<le> length (unpublished (fst st)) + (\<Sum>i = n..<n + k. staged_events (env i)))"
proof (intro conjI impI)
  assume "n \<le> m \<and> cy_ctxErr (env m) = Some e"
  then obtain y where "Run r env n st = Some y" using Run_cancelled by blast
  moreover have "(\<exists>j\<ge>n. cancelled (env j) (fst y)) \<and> (relay_ok st \<longrightarrow> relay_ok (snd y))"
    using Run_cancelled_turn Run_ok calculation by blast
  ultimately show "\<exists>e' st'. Run r env n st = Some (e', st') \<and> (\<exists>j\<ge>n. cancelled (env j) e') \<and> (relay_ok st \<longrightarrow> relay_ok st')"
    by (cases y) simp
next
  assume "\<forall>j\<ge>n. \<forall>e. \<not> cancelled (env j) e"
  then show "Run r env n st = None" using Run_cancelled_turn by (metis option.exhaust)
qed (rule busy_turns_bound)



text \<open>One staged event; the context is cancelled at the second turn.\<close>

definition quiet_cycle :: cycle where
  "quiet_cycle = \<lparr>cy_staged = [], cy_ctxErr = None, cy_acquireErr = None, cy_faults = no_faults, cy_locked = {}, cy_now = 0, cy_done = None\<rparr>"

definition sample_cycles :: "nat \<Rightarrow> cycle" where
  "sample_cycles n = (if n = 0 then quiet_cycle else quiet_cycle\<lparr>cy_ctxErr := Some (PlainErr ''context canceled'')\<rparr>)"

definition sample_opts :: RelayOptions where
  "sample_opts = \<lparr>ro_BatchSize = 0, ro_PollEvery = 0, ro_LockTTL = 0\<rparr>"

lemma sample_cycles_simps:
  "undisturbed (sample_cycles 0)" "cy_staged (sample_cycles i) = []" "cy_ctxErr (sample_cycles 1) = Some (PlainErr ''context canceled'')"
  "cancelled (sample_cycles j) e \<Longrightarrow> e = PlainErr ''context canceled''"
  by (auto simp: sample_cycles_def quiet_cycle_def undisturbed_def cancelled_def split: if_splits)

theorem Run_terminates_witness:
  "(\<exists>st'. Run (NewRelay sample_opts) sample_cycles 0 (sample_rows, []) = Some (PlainErr ''context canceled'', st') \<and> relay_ok st') \<and>
   busy_turns (NewRelay sample_opts) sample_cycles 0 5 (sample_rows, []) \<le> 1 \<and>
   Run (NewRelay sample_opts) (\<lambda>n. quiet_cycle) 0 (sample_rows, []) = None"
proof -
  have "length (unpublished sample_rows) = 1 \<and> distinct (map ob_id sample_rows)" "list_all (\<lambda>r. \<not> ob_published r) sample_rows" by code_simp+
  then have rows: "length (unpublished sample_rows) = 1" "outbox_ok sample_rows" "relay_ok (sample_rows, [])"
    by (auto simp: outbox_ok_def relay_ok_def list_all_iff)
  note t = Run_terminates [of 0 1 sample_cycles "PlainErr ''context canceled''" "NewRelay sample_opts" "(sample_rows, [])" 5]
  obtain e' st' j where "Run (NewRelay sample_opts) sample_cycles 0 (sample_rows, []) = Some (e', st')" "cancelled (sample_cycles j) e'" "relay_ok st'"
    using t sample_cycles_simps(3) rows(3) by auto
  moreover have "busy_turns (NewRelay sample_opts) sample_cycles 0 5 (sample_rows, []) \<le> 1"
    using t rows by (simp add: staged_events_def sample_cycles_simps)
  moreover have "\<not> cancelled quiet_cycle e" for e by (simp add: cancelled_def quiet_cycle_def)
  then have "Run (NewRelay sample_opts) (\<lambda>n. quiet_cycle) 0 (sample_rows, []) = None"
    using Run_terminates [of 0 1 "\<lambda>n. quiet_cycle" "PlainErr ''x''" "NewRelay sample_opts" "(sample_rows, [])" 0] by simp
  ultimately show ?thesis using sample_cycles_simps(4) by metis
qed


end
