(* ===== verification/Relay_Lock.thy ===== *)
theory Relay_Lock
  imports Relay_Run
begin

text \<open>
  The leader election of the relays (\<open>RedisLocker\<close> in \<open>infra/events/relay.go\<close> of the room service): \<open>SET NX\<close> with a time to
  live, and a release in two commands, \<open>GET\<close> and \<open>DEL\<close>. The commands of the replicas interleave; time passes between any
  two of them.
\<close>

section \<open>The key in Redis\<close>

text \<open>Value and expiry of the key; the value is a \<open>uint64\<close> in decimal.\<close>

type_synonym redis_key = "(u64 \<times> time) option"

definition redis_live :: "time \<Rightarrow> redis_key \<Rightarrow> u64 option" where
  "redis_live now k = (case k of Some (v, expiry) \<Rightarrow> if now < expiry then Some v else None | None \<Rightarrow> None)"

definition SetNX :: "time \<Rightarrow> u64 \<Rightarrow> duration \<Rightarrow> redis_key \<Rightarrow> bool \<times> redis_key" where
  "SetNX now v ttl k = (case redis_live now k of Some w \<Rightarrow> (False, k) | None \<Rightarrow> (True, Some (v, now + ttl)))"

section \<open>The locker\<close>

definition ErrNotLeader :: go_error where "ErrNotLeader = PlainErr ''relay: not leader''"

text \<open>\<open>clock\<close> is the wall clock of the replica, \<open>now\<close> the one of Redis; \<open>fault\<close> the error of the command.\<close>

definition Acquire :: "string option \<Rightarrow> time \<Rightarrow> time \<Rightarrow> duration \<Rightarrow> redis_key \<Rightarrow> u64 result \<times> redis_key" where
  "Acquire fault clock now ttl k =
     (let token = i64_to_u64 (i64 clock) in
      case fault of
        Some e \<Rightarrow> (Inl (WrapErr ''redis_locker: setnx'' (ExtErr e)), k)
      | None \<Rightarrow> (case SetNX now token ttl k of
          (False, k') \<Rightarrow> (Inl ErrNotLeader, k')
        | (True, k') \<Rightarrow> (Inr token, k')))"

text \<open>\<open>release\<close> up to the comparison: finished, or the key is to be deleted. A value beyond \<open>int64\<close> does not parse.\<close>

datatype release_next = Released "unit result" | DeleteKey

definition release_get :: "string option \<Rightarrow> time \<Rightarrow> u64 \<Rightarrow> redis_key \<Rightarrow> release_next" where
  "release_get fault now token k = (case fault of
     Some e \<Rightarrow> Released (Inl (ExtErr e))
   | None \<Rightarrow> (case redis_live now k of
       None \<Rightarrow> Released (Inr ())
     | Some got \<Rightarrow>
         if uint got \<ge> 2 ^ 63 then Released (Inl (ExtErr ''value out of range''))
         else if got \<noteq> token then Released (Inr ()) else DeleteKey))"

definition release_del :: "string option \<Rightarrow> redis_key \<Rightarrow> unit result \<times> redis_key" where
  "release_del fault k = (case fault of Some e \<Rightarrow> (Inl (ExtErr e), k) | None \<Rightarrow> (Inr (), None))"

section \<open>Replicas\<close>

text \<open>Where a replica is in the loop: not holding the lock, draining or about to release (with its token and the expiry of its
  lock), or between \<open>GET\<close> and \<open>DEL\<close>.\<close>

datatype relay_pc = Follower | Leader u64 time | Deleting u64 time

fun holds :: "relay_pc \<Rightarrow> (u64 \<times> time) option" where
  "holds Follower = None"
| "holds (Leader t d) = Some (t, d)"
| "holds (Deleting t d) = Some (t, d)"

type_synonym lock_state = "time \<times> redis_key \<times> (nat \<Rightarrow> relay_pc)"

text \<open>Steps of the replicas and of the clock; when \<open>timely\<close>, a replica that holds the lock releases it before it expires.\<close>

inductive lock_step :: "bool \<Rightarrow> duration \<Rightarrow> lock_state \<Rightarrow> lock_state \<Rightarrow> bool" for timely ttl where
  acquire: "pc i = Follower \<Longrightarrow> Acquire fault clock now ttl k = (Inr tok, k') \<Longrightarrow>
    lock_step timely ttl (now, k, pc) (now, k', pc(i := Leader tok (now + ttl)))"
| refused: "pc i = Follower \<Longrightarrow> Acquire fault clock now ttl k = (Inl e, k') \<Longrightarrow> lock_step timely ttl (now, k, pc) (now, k', pc)"
| released: "pc i = Leader tok d \<Longrightarrow> release_get fault now tok k = Released r \<Longrightarrow> lock_step timely ttl (now, k, pc) (now, k, pc(i := Follower))"
| own: "pc i = Leader tok d \<Longrightarrow> release_get fault now tok k = DeleteKey \<Longrightarrow> lock_step timely ttl (now, k, pc) (now, k, pc(i := Deleting tok d))"
| deleted: "pc i = Deleting tok d \<Longrightarrow> release_del fault k = (r, k') \<Longrightarrow> lock_step timely ttl (now, k, pc) (now, k', pc(i := Follower))"
| tick: "now \<le> now' \<Longrightarrow> (timely \<longrightarrow> (\<forall>i tok d. holds (pc i) = Some (tok, d) \<longrightarrow> now' < d)) \<Longrightarrow>
    lock_step timely ttl (now, k, pc) (now', k, pc)"

definition lock_start :: "time \<Rightarrow> lock_state" where "lock_start t = (t, None, \<lambda>i. Follower)"

text \<open>Whoever holds the lock has its token in Redis, unexpired; so there is at most one.\<close>

definition lock_inv :: "lock_state \<Rightarrow> bool" where
  "lock_inv s = (case s of (now, k, pc) \<Rightarrow>
     (\<forall>i tok d. holds (pc i) = Some (tok, d) \<longrightarrow> k = Some (tok, d) \<and> now < d) \<and>
     (\<forall>i j. holds (pc i) \<noteq> None \<longrightarrow> holds (pc j) \<noteq> None \<longrightarrow> i = j))"

lemma Acquire_inr: "Acquire fault clock now ttl k = (Inr tok, k') \<Longrightarrow> redis_live now k = None \<and> k' = Some (tok, now + ttl)"
  by (auto simp: Acquire_def SetNX_def Let_def split: option.splits)

lemma Acquire_inl: "Acquire fault clock now ttl k = (Inl e, k') \<Longrightarrow> k' = k"
  by (auto simp: Acquire_def SetNX_def Let_def split: option.splits)

lemma lock_step_inv: "lock_step True ttl s s' \<Longrightarrow> 0 < ttl \<Longrightarrow> lock_inv s \<Longrightarrow> lock_inv s'"
proof (induction rule: lock_step.induct)
  case (acquire pc i fault clock now k tok k')
  have free: "holds (pc j) = None" for j
    using Acquire_inr [OF acquire(2)] acquire(4) by (cases "holds (pc j)") (auto simp: lock_inv_def redis_live_def)
  show ?case using Acquire_inr [OF acquire(2)] acquire(3) free by (auto simp: lock_inv_def)
next
  case (refused pc i fault clock now k e k')
  then show ?case using Acquire_inl by blast
next
  case (released pc i tok d fault now k r)
  then show ?case by (auto simp: lock_inv_def)
next
  case (own pc i tok d fault now k)
  then have h: "holds (pc i) = Some (tok, d)" by simp
  then have "holds ((pc(i := Deleting tok d)) j) = holds (pc j)" for j by simp
  then show ?case using own(4) unfolding lock_inv_def by simp
next
  case (deleted pc i tok d fault k r k' now)
  then have h: "holds (pc i) = Some (tok, d)" by simp
  have ex: "\<forall>a b. holds (pc a) \<noteq> None \<longrightarrow> holds (pc b) \<noteq> None \<longrightarrow> a = b" using deleted(4) by (simp add: lock_inv_def)
  have "holds (pc j) = None" if "j \<noteq> i" for j using ex h that by (metis option.distinct(1))
  then show ?case by (auto simp: lock_inv_def)
next
  case (tick now now' pc k)
  then show ?case unfolding lock_inv_def by auto
qed

interpretation lock_history: history "lock_step True (ro_LockTTL (NewRelay opts))" lock_inv "lock_start t" for opts t
proof unfold_locales
  have "0 < ro_LockTTL (NewRelay opts)" by (simp add: NewRelay_def second_def)
  then show "lock_step True (ro_LockTTL (NewRelay opts)) s s' \<Longrightarrow> lock_inv s \<Longrightarrow> lock_inv s'" for s s' using lock_step_inv by blast
qed (simp add: lock_inv_def lock_start_def)

section \<open>Properties\<close>




text \<open>Without that, the release of a slow holder deletes the lock of its successor, because \<open>GET\<close> and \<open>DEL\<close> are two commands:
  two replicas then drain at the same time although the locks of both are unexpired.\<close>

lemma slow_release_breaks_lock:
  "\<exists>now k pc a b. (lock_step False (30 * second))\<^sup>*\<^sup>* (lock_start 0) (now, k, pc) \<and>
     pc 1 = Leader a (now + 30 * second) \<and> pc 2 = Leader b (now + 30 * second)"
proof -
  let ?T = "30 * second" let ?S = "lock_step False ?T"
  let ?F = "\<lambda>i :: nat. Follower"
  have u: "i64_to_u64 (i64 1) = 1" "i64_to_u64 (i64 2) = 2" "i64_to_u64 (i64 3) = 3"
    by (simp_all add: i64_id in_i64_def i64_to_u64_def)
  have "Acquire None 1 0 ?T None = (Inr 1, Some (1, 0 + ?T))" by (simp add: Acquire_def SetNX_def redis_live_def u)
  then have 1: "?S (0, None, ?F) (0, Some (1, 0 + ?T), ?F(0 := Leader 1 (0 + ?T)))" by (rule lock_step.acquire [OF refl])
  have "?S (0, Some (1, 0 + ?T), ?F(0 := Leader 1 (0 + ?T))) (0, Some (1, 0 + ?T), (?F(0 := Leader 1 (0 + ?T)))(0 := Deleting 1 (0 + ?T)))"
    by (rule lock_step.own [where fault = None]) (simp_all add: release_get_def redis_live_def second_def)
  then have 2: "?S (0, Some (1, 0 + ?T), ?F(0 := Leader 1 (0 + ?T))) (0, Some (1, 0 + ?T), ?F(0 := Deleting 1 (0 + ?T)))" by simp
  have 3: "?S (0, Some (1, 0 + ?T), ?F(0 := Deleting 1 (0 + ?T))) (?T, Some (1, 0 + ?T), ?F(0 := Deleting 1 (0 + ?T)))"
    by (rule lock_step.tick) (simp_all add: second_def)
  have "Acquire None 2 ?T ?T (Some (1, 0 + ?T)) = (Inr 2, Some (2, ?T + ?T))" by (simp add: Acquire_def SetNX_def redis_live_def u)
  then have 4: "?S (?T, Some (1, 0 + ?T), ?F(0 := Deleting 1 (0 + ?T)))
      (?T, Some (2, ?T + ?T), ?F(0 := Deleting 1 (0 + ?T), 1 := Leader 2 (?T + ?T)))" by (rule lock_step.acquire [rotated]) simp
  have 5: "?S (?T, Some (2, ?T + ?T), ?F(0 := Deleting 1 (0 + ?T), 1 := Leader 2 (?T + ?T)))
      (?T, None, (?F(0 := Deleting 1 (0 + ?T), 1 := Leader 2 (?T + ?T)))(0 := Follower))"
    by (rule lock_step.deleted [where fault = None and r = "Inr ()"]) (simp_all add: release_del_def)
  have "Acquire None 3 ?T ?T None = (Inr 3, Some (3, ?T + ?T))" by (simp add: Acquire_def SetNX_def redis_live_def u)
  then have 6: "?S (?T, None, (?F(0 := Deleting 1 (0 + ?T), 1 := Leader 2 (?T + ?T)))(0 := Follower))
      (?T, Some (3, ?T + ?T), (?F(0 := Deleting 1 (0 + ?T), 1 := Leader 2 (?T + ?T)))(0 := Follower, 2 := Leader 3 (?T + ?T)))"
    by (rule lock_step.acquire [rotated]) simp
  have "?S\<^sup>*\<^sup>* (lock_start 0)
      (?T, Some (3, ?T + ?T), (?F(0 := Deleting 1 (0 + ?T), 1 := Leader 2 (?T + ?T)))(0 := Follower, 2 := Leader 3 (?T + ?T)))"
    unfolding lock_start_def using 1 2 3 4 5 6 by (meson converse_rtranclp_into_rtranclp r_into_rtranclp)
  then show ?thesis by (intro exI conjI, assumption) simp_all
qed

end
