(* ===== verification/Vb_Policy.thy ===== *)
theory Vb_Policy
  imports Vb_Web Room_Domain
begin

text \<open>
  Two libraries of decisions: role-based access control (\<open>libs/rbac/rbac.go\<close>) and feature flags
  (\<open>libs/featureflag/featureflag.go\<close>). The interface \<open>Policy\<close> of the code is the locale \<open>role_policy\<close>; what holds of the
  evaluator with every such policy is proved there and interpreted on \<open>DefaultPolicy\<close>.
\<close>

section \<open>Roles and actions\<close>

type_synonym Action = string

definition ActionCreateRoom :: Action where "ActionCreateRoom = ''room.create''"
definition ActionDeleteRoom :: Action where "ActionDeleteRoom = ''room.delete''"
definition ActionInviteUser :: Action where "ActionInviteUser = ''room.invite''"
definition ActionKickUser :: Action where "ActionKickUser = ''room.kick''"
definition ActionPromoteUser :: Action where "ActionPromoteUser = ''room.promote''"
definition ActionCommandSync :: Action where "ActionCommandSync = ''sync.command''"
definition ActionManageMedia :: Action where "ActionManageMedia = ''media.manage''"
definition ActionUploadMedia :: Action where "ActionUploadMedia = ''media.upload''"
definition ActionRotateKeys :: Action where "ActionRotateKeys = ''auth.rotate_keys''"
definition ActionViewUsers :: Action where "ActionViewUsers = ''user.view_all''"

lemmas action_defs = ActionCreateRoom_def ActionDeleteRoom_def ActionInviteUser_def ActionKickUser_def ActionPromoteUser_def
  ActionCommandSync_def ActionManageMedia_def ActionUploadMedia_def ActionRotateKeys_def ActionViewUsers_def

record Subject =
  sb_UserID :: string
  sb_SystemRole :: int
  sb_RoomRole :: int
  sb_RoomID :: string

record Resource =
  rr_Kind :: string
  rr_RoomID :: string
  rr_ID :: string

type_synonym Policy = "Subject \<Rightarrow> Action \<Rightarrow> Resource \<Rightarrow> bool"

definition SYSTEM_ROLE_UNSPECIFIED :: int where "SYSTEM_ROLE_UNSPECIFIED = 0"

definition Evaluator_Allow :: "Policy \<Rightarrow> Policy" where
  "Evaluator_Allow allow s a r =
     (if sb_SystemRole s = SYSTEM_ROLE_UNSPECIFIED \<and> sb_RoomRole s = ROOM_ROLE_UNSPECIFIED then False else allow s a r)"

definition DefaultPolicy_Allow :: Policy where
  "DefaultPolicy_Allow s a r =
     (if sb_SystemRole s \<ge> SYSTEM_ROLE_ADMINISTRATOR then True
      else if a \<in> {ActionCreateRoom, ActionUploadMedia} then sb_SystemRole s \<ge> SYSTEM_ROLE_USER
      else if a = ActionCommandSync then sb_RoomRole s \<ge> ROOM_ROLE_MODERATOR \<or> sb_RoomRole s = ROOM_ROLE_OWNER
      else if a \<in> {ActionDeleteRoom, ActionKickUser, ActionPromoteUser, ActionInviteUser, ActionManageMedia}
      then sb_RoomRole s \<ge> ROOM_ROLE_OWNER \<or> sb_RoomRole s = ROOM_ROLE_MODERATOR \<and> a \<noteq> ActionDeleteRoom
      else if a \<in> {ActionRotateKeys, ActionViewUsers} then sb_SystemRole s \<ge> SYSTEM_ROLE_ADMINISTRATOR
      else False)"

text \<open>What a sensible policy promises: more rights with a higher role, and nothing for a subject without any.\<close>

locale role_policy =
  fixes allow :: Policy
  assumes more_system: "allow s a r \<Longrightarrow> sb_SystemRole s \<le> n \<Longrightarrow> allow (s\<lparr>sb_SystemRole := n\<rparr>) a r"
    and more_room: "allow s a r \<Longrightarrow> sb_RoomRole s \<le> n \<Longrightarrow> allow (s\<lparr>sb_RoomRole := n\<rparr>) a r"
    and nobody: "sb_SystemRole s \<le> 0 \<Longrightarrow> sb_RoomRole s \<le> 0 \<Longrightarrow> \<not> allow s a r"
begin

lemma guard_redundant: "Evaluator_Allow allow s a r = allow s a r"
  using nobody [of s a r] by (simp add: Evaluator_Allow_def SYSTEM_ROLE_UNSPECIFIED_def ROOM_ROLE_UNSPECIFIED_def)

lemma evaluator_mono:
  assumes "Evaluator_Allow allow s a r" "sb_SystemRole s \<le> m" "sb_RoomRole s \<le> n"
  shows "Evaluator_Allow allow (s\<lparr>sb_SystemRole := m, sb_RoomRole := n\<rparr>) a r"
proof -
  have "allow (s\<lparr>sb_SystemRole := m\<rparr>) a r" using assms more_system by (simp add: guard_redundant)
  then have "allow (s\<lparr>sb_SystemRole := m\<rparr>\<lparr>sb_RoomRole := n\<rparr>) a r" using more_room assms(3) by simp
  then show ?thesis by (simp add: guard_redundant)
qed

end

lemmas role_defs = SYSTEM_ROLE_ADMINISTRATOR_def SYSTEM_ROLE_USER_def ROOM_ROLE_MODERATOR_def ROOM_ROLE_OWNER_def


lemma threshold_mono:
  fixes x y x' y' :: int
  assumes "x \<le> x'" "y \<le> y'"
    "if 4 \<le> x then True else if A then 2 \<le> x else if B then 3 \<le> y \<or> y = 4 else if C then 4 \<le> y \<or> y = 3 \<and> D else if E then 4 \<le> x else False"
  shows "if 4 \<le> x' then True else if A then 2 \<le> x' else if B then 3 \<le> y' \<or> y' = 4 else if C then 4 \<le> y' \<or> y' = 3 \<and> D else if E then 4 \<le> x' else False"
  using assms by (cases A; cases B; cases C; cases D; cases "4 \<le> x"; cases E) auto

lemma DefaultPolicy_mono:
  assumes "DefaultPolicy_Allow s a r" "sb_SystemRole s \<le> sb_SystemRole s'" "sb_RoomRole s \<le> sb_RoomRole s'"
  shows "DefaultPolicy_Allow s' a r"
  using threshold_mono [OF assms(2,3)] assms(1) unfolding DefaultPolicy_Allow_def role_defs by blast

lemma DefaultPolicy_nobody: "sb_SystemRole s \<le> 0 \<Longrightarrow> sb_RoomRole s \<le> 0 \<Longrightarrow> \<not> DefaultPolicy_Allow s a r"
  unfolding DefaultPolicy_Allow_def role_defs by (simp split del: if_split) (auto simp del: insert_iff)

interpretation default_policy: role_policy DefaultPolicy_Allow
  by unfold_locales (auto intro: DefaultPolicy_mono dest: DefaultPolicy_nobody)

text \<open>More roles never take a right away.\<close>

lemma rbac_monotone:
  assumes "Evaluator_Allow DefaultPolicy_Allow s a r" "sb_SystemRole s \<le> m" "sb_RoomRole s \<le> n"
  shows "Evaluator_Allow DefaultPolicy_Allow (s\<lparr>sb_SystemRole := m, sb_RoomRole := n\<rparr>) a r"
  by (rule default_policy.evaluator_mono [OF assms])

text \<open>Moderators of a room may do everything in it but delete it; unknown actions are for administrators only.\<close>

lemma rbac_moderator:
  "sb_RoomRole s = ROOM_ROLE_MODERATOR \<Longrightarrow>
   a \<in> {ActionCommandSync, ActionKickUser, ActionPromoteUser, ActionInviteUser, ActionManageMedia} \<Longrightarrow> Evaluator_Allow DefaultPolicy_Allow s a r"
  unfolding default_policy.guard_redundant by (auto simp: DefaultPolicy_Allow_def action_defs role_defs)

lemma rbac_delete:
  "sb_SystemRole s < SYSTEM_ROLE_ADMINISTRATOR \<Longrightarrow>
   Evaluator_Allow DefaultPolicy_Allow s ActionDeleteRoom r \<longleftrightarrow> sb_RoomRole s \<ge> ROOM_ROLE_OWNER"
  unfolding default_policy.guard_redundant by (auto simp: DefaultPolicy_Allow_def action_defs role_defs)

section \<open>Feature flags\<close>

type_synonym Variant = string

definition VariantOff :: Variant where "VariantOff = ''off''"
definition VariantOn :: Variant where "VariantOn = ''on''"

record Flag =
  fg_Key :: string
  fg_Defaults :: "(string \<times> Variant) list"
  fg_RolloutPercent :: "8 word"
  fg_RolloutVariant :: Variant
  fg_UserOverrides :: "(string \<times> Variant) list"
  fg_RoomOverrides :: "(string \<times> Variant) list"

record FlagContext =
  fc_UserID :: string
  fc_RoomID :: string
  fc_Environment :: string

text \<open>FNV-1a in 32 bits (\<open>hash/fnv\<close>).\<close>

definition fnv_step :: "32 word \<Rightarrow> char \<Rightarrow> 32 word" where
  "fnv_step h c = (h XOR word_of_nat (of_char c)) * 16777619"

definition fnv32a :: "string \<Rightarrow> 32 word" where
  "fnv32a s = foldl fnv_step 2166136261 s"

text \<open>\<open>bucket\<close>: key and user are written to the hash one after the other.\<close>

definition bucket :: "string \<Rightarrow> string \<Rightarrow> 8 word" where
  "bucket key userID = ucast (foldl fnv_step (fnv32a key) userID mod 100)"

text \<open>A store answers with an error, or the flag if it knows it.\<close>

type_synonym flag_store = "string \<Rightarrow> Flag option result"

definition flag_value :: "Flag \<Rightarrow> string \<Rightarrow> FlagContext \<Rightarrow> Variant" where
  "flag_value flag key ec =
     (case map_of (fg_UserOverrides flag) (fc_UserID ec) of Some v \<Rightarrow> v | None \<Rightarrow>
      (case map_of (fg_RoomOverrides flag) (fc_RoomID ec) of Some v \<Rightarrow> v | None \<Rightarrow>
        if fg_RolloutPercent flag > 0 \<and> fc_UserID ec \<noteq> [] \<and> bucket key (fc_UserID ec) < fg_RolloutPercent flag
        then (if fg_RolloutVariant flag = [] then VariantOn else fg_RolloutVariant flag)
        else (case map_of (fg_Defaults flag) (fc_Environment ec) of Some v \<Rightarrow> v | None \<Rightarrow>
               (case map_of (fg_Defaults flag) ''default'' of Some v \<Rightarrow> v | None \<Rightarrow> VariantOff))))"

definition Evaluate :: "flag_store \<Rightarrow> string \<Rightarrow> FlagContext \<Rightarrow> Variant \<times> go_error option" where
  "Evaluate store key ec = (case store key of
     Inl e \<Rightarrow> (VariantOff, Some e)
   | Inr None \<Rightarrow> (VariantOff, None)
   | Inr (Some flag) \<Rightarrow> (flag_value flag key ec, None))"

definition IsOn :: "flag_store \<Rightarrow> string \<Rightarrow> FlagContext \<Rightarrow> bool \<times> go_error option" where
  "IsOn store key ec = (case Evaluate store key ec of (v, err) \<Rightarrow> (v = VariantOn, err))"

text \<open>\<open>NewMemoryStore\<close>: later flags of the same key replace earlier ones.\<close>

definition NewMemoryStore :: "Flag list \<Rightarrow> (string \<times> Flag) list" where
  "NewMemoryStore flags = fold (\<lambda>f m. AList.update (fg_Key f) f m) flags []"

definition MemoryStore_Get :: "(string \<times> Flag) list \<Rightarrow> flag_store" where
  "MemoryStore_Get m key = Inr (map_of m key)"


lemma bucket_lt: "unat (bucket key u) < 100"
proof -
  let ?m = "foldl fnv_step (fnv32a key) u mod (100 :: 32 word)"
  have "unat ?m < unat (100 :: 32 word)" unfolding unat_mod_distrib by (rule mod_less_divisor) simp
  moreover have "unat (ucast ?m :: 8 word) \<le> unat ?m" by (simp add: unsigned_ucast_eq take_bit_nat_less_eq_self)
  ultimately show ?thesis by (simp add: bucket_def)
qed

lemma bucket_shift: "bucket (key @ u) v = bucket key (u @ v)"
  by (simp add: bucket_def fnv32a_def)

lemma MemoryStore_last:
  "MemoryStore_Get (NewMemoryStore (flags @ [f])) (fg_Key f) = Inr (Some f)"
  by (simp add: MemoryStore_Get_def NewMemoryStore_def update_conv')

text \<open>Raising the percentage of a rollout only adds users: whoever was in the rollout keeps the variant, and at 100 percent
  every user without an override gets it.\<close>

theorem rollout_monotone:
  assumes "p \<le> q" "bucket key (fc_UserID ec) < p"
  shows "flag_value (f\<lparr>fg_RolloutPercent := q\<rparr>) key ec = flag_value (f\<lparr>fg_RolloutPercent := p\<rparr>) key ec"
proof -
  have "bucket key (fc_UserID ec) < q" "0 < q" "0 < p" using assms by (simp_all add: word_less_nat_alt word_le_nat_alt)
  then show ?thesis using assms(2) by (simp add: flag_value_def cong: option.case_cong)
qed

lemma rollout_full:
  assumes "map_of (fg_UserOverrides f) (fc_UserID ec) = None" "map_of (fg_RoomOverrides f) (fc_RoomID ec) = None"
    "fg_RolloutPercent f = 100" "fc_UserID ec \<noteq> []"
  shows "flag_value f key ec = (if fg_RolloutVariant f = [] then VariantOn else fg_RolloutVariant f)"
  using assms bucket_lt [of key "fc_UserID ec"] by (simp add: flag_value_def word_less_nat_alt)

end
