(* ===== verification/Vb_Http.thy ===== *)
theory Vb_Http
  imports Vb_Web Vb_Errors "HOL-Library.AList"
begin

text \<open>
  The HTTP and RPC layers around the handlers: the middleware chain of the Gin engine and the CORS wrapper of the Connect
  handlers (\<open>libs/web/web.go\<close>), and the interceptors of the Connect server (\<open>libs/rpc/rpc.go\<close>). Gin's router, the
  OpenTelemetry interceptor and the network are parameters.
\<close>

section \<open>Requests and handlers\<close>

text \<open>The parts of a request the middleware reads; a missing header is the empty string.\<close>

record web_request =
  wq_Method :: string
  wq_Path :: string
  wq_Origin :: string
  wq_RequestID :: string

text \<open>The headers are those set on the writer so far; \<open>Set\<close> replaces.\<close>

type_synonym web_headers = "(string \<times> string) list"

record web_response =
  wp_Status :: int
  wp_Headers :: web_headers
  wp_Body :: string

type_synonym web_handler = "web_request \<Rightarrow> web_headers \<Rightarrow> web_response"

definition set_headers :: "(string \<times> string) list \<Rightarrow> web_headers \<Rightarrow> web_headers" where
  "set_headers new hs = fold (\<lambda>(k, v). AList.update k v) new hs"

section \<open>CORS\<close>

definition corsAllowHeaders :: string where
  "corsAllowHeaders = ''Authorization, Content-Type, Connect-Protocol-Version, Connect-Timeout-Ms, Connect-Accept-Encoding, Connect-Content-Encoding, X-Request-ID, X-Vibesync-User-Id, X-Vibesync-System-Role, Grpc-Timeout, Grpc-Encoding''"

definition cors_headers :: "string \<Rightarrow> (string \<times> string) list" where
  "cors_headers origin =
     [(''Access-Control-Allow-Origin'', origin), (''Access-Control-Allow-Credentials'', ''true''),
      (''Access-Control-Allow-Methods'', ''GET, POST, PUT, DELETE, OPTIONS''), (''Access-Control-Allow-Headers'', corsAllowHeaders),
      (''Access-Control-Max-Age'', ''86400'')]"

definition no_content :: "web_headers \<Rightarrow> web_response" where
  "no_content hs = \<lparr>wp_Status = 204, wp_Headers = hs, wp_Body = []\<rparr>"

definition corsMiddleware :: "string list \<Rightarrow> web_handler \<Rightarrow> web_handler" where
  "corsMiddleware allowOrigins next_h rq hs =
     (let origin = wq_Origin rq in
      if origin = [] \<or> origin \<notin> set allowOrigins then next_h rq hs
      else (let hs' = set_headers (cors_headers origin) hs in
        if wq_Method rq = ''OPTIONS'' then no_content hs' else next_h rq hs'))"

definition WrapCORS :: "web_handler \<Rightarrow> string list \<Rightarrow> web_handler" where
  "WrapCORS h allowOrigins rq hs =
     (let origin = wq_Origin rq;
          hs' = (if origin \<noteq> [] \<and> origin \<in> set allowOrigins then set_headers (cors_headers origin) hs else hs) in
      if wq_Method rq = ''OPTIONS'' \<and> origin \<noteq> [] then no_content hs' else h rq hs')"

section \<open>The engine\<close>

definition headerRequestID :: string where "headerRequestID = ''X-Request-ID''"

text \<open>\<open>newRequestID\<close>: the 16 random bytes in hexadecimal; the source of randomness does not fail.\<close>

definition hex_char :: "nat \<Rightarrow> char" where "hex_char n = (if n < 10 then char_of (48 + n) else char_of (87 + n))"

definition hex_encode :: "8 word list \<Rightarrow> string" where
  "hex_encode bs = concat (map (\<lambda>b. [hex_char (unat b div 16), hex_char (unat b mod 16)]) bs)"

definition newRequestID :: "8 word list \<Rightarrow> string" where "newRequestID bytes = hex_encode bytes"

text \<open>The identifier is the client's, or a fresh one; it is stored in the context, which the model passes as an argument to the
  next handler, and in the response.\<close>

definition requestIDMiddleware :: "8 word list \<Rightarrow> (string \<Rightarrow> web_handler) \<Rightarrow> web_handler" where
  "requestIDMiddleware bytes next_h rq hs =
     (let rid = (if wq_RequestID rq = [] then newRequestID bytes else wq_RequestID rq) in
      next_h rid rq (set_headers [(headerRequestID, rid)] hs))"

text \<open>The level at which a request is logged.\<close>

datatype log_level = LevelInfo | LevelWarn | LevelError

fun severity :: "log_level \<Rightarrow> nat" where
  "severity LevelInfo = 0"
| "severity LevelWarn = 1"
| "severity LevelError = 2"

instantiation log_level :: linorder
begin

definition less_eq_log_level :: "log_level \<Rightarrow> log_level \<Rightarrow> bool" where "less_eq_log_level a b \<longleftrightarrow> severity a \<le> severity b"
definition less_log_level :: "log_level \<Rightarrow> log_level \<Rightarrow> bool" where "less_log_level a b \<longleftrightarrow> severity a < severity b"

instance
proof
  fix a b :: log_level
  show "a \<le> b \<Longrightarrow> b \<le> a \<Longrightarrow> a = b" by (cases a; cases b) (simp_all add: less_eq_log_level_def)
qed (auto simp: less_eq_log_level_def less_log_level_def)

end

definition access_level :: "int \<Rightarrow> log_level" where
  "access_level status = (if status \<ge> 500 then LevelError else if status \<ge> 400 then LevelWarn else LevelInfo)"

definition rateLimitMiddleware :: "int \<Rightarrow> web_handler \<Rightarrow> web_handler" where
  "rateLimitMiddleware n next_h = next_h"

definition json_status :: "string \<Rightarrow> string" where
  "json_status v = ''{'' @ CHR 0x22 # ''status'' @ CHR 0x22 # '':'' @ CHR 0x22 # v @ CHR 0x22 # ''}''"

definition healthz :: web_handler where
  "healthz rq hs = \<lparr>wp_Status = 200, wp_Headers = hs, wp_Body = json_status ''ok''\<rparr>"

text \<open>The readiness flag is the argument.\<close>

definition readyz :: "bool \<Rightarrow> web_handler" where
  "readyz ready rq hs =
     (if \<not> ready then \<lparr>wp_Status = 503, wp_Headers = hs, wp_Body = []\<rparr>
      else \<lparr>wp_Status = 200, wp_Headers = hs, wp_Body = json_status ''ready''\<rparr>)"

record web_options =
  wo_CORSAllowOrigins :: "string list"
  wo_RateLimitPerSecond :: int

text \<open>The engine of \<open>New\<close>: \<open>routes\<close> are the service's own routes, with the answer to unknown paths.\<close>

definition web_New :: "web_options \<Rightarrow> bool \<Rightarrow> (string \<Rightarrow> web_handler) \<Rightarrow> 8 word list \<Rightarrow> web_handler" where
  "web_New opts ready routes bytes =
     requestIDMiddleware bytes (\<lambda>rid.
       (let route = (\<lambda>rq hs.
              if wq_Method rq = ''GET'' \<and> wq_Path rq = ''/healthz'' then healthz rq hs
              else if wq_Method rq = ''GET'' \<and> wq_Path rq = ''/readyz'' then readyz ready rq hs
              else routes rid rq hs);
            limited = (if wo_RateLimitPerSecond opts > 0 then rateLimitMiddleware (wo_RateLimitPerSecond opts) route else route) in
        if wo_CORSAllowOrigins opts \<noteq> [] then corsMiddleware (wo_CORSAllowOrigins opts) limited else limited))"

section \<open>Interceptors\<close>

text \<open>A handler panics, or returns a response (or nil) and an error (or nil).\<close>

datatype 'r rpc_outcome = Panics string | Returns "'r option" "go_error option"

type_synonym ('q, 'r) rpc_handler = "'q \<Rightarrow> 'r rpc_outcome"

text \<open>The deferred \<open>recover\<close> stops the panic; the results of the interceptor are not named and keep their zero values.\<close>

definition recoveryInterceptor :: "('q, 'r) rpc_handler \<Rightarrow> ('q, 'r) rpc_handler" where
  "recoveryInterceptor next_h rq = (case next_h rq of Panics p \<Rightarrow> Returns None None | r \<Rightarrow> r)"

definition errorTranslateInterceptor :: "('q, 'r) rpc_handler \<Rightarrow> ('q, 'r) rpc_handler" where
  "errorTranslateInterceptor next_h rq = (case next_h rq of Panics p \<Rightarrow> Panics p | Returns resp err \<Rightarrow> Returns resp (ToConnect err))"

text \<open>The chain of \<open>New\<close>, the first interceptor outermost.\<close>

definition rpc_New :: "(('q, 'r) rpc_handler \<Rightarrow> ('q, 'r) rpc_handler) \<Rightarrow> ('q, 'r) rpc_handler \<Rightarrow> ('q, 'r) rpc_handler" where
  "rpc_New otel h = recoveryInterceptor (errorTranslateInterceptor (otel h))"

section \<open>Properties\<close>

lemma map_of_set_headers: "map_of (set_headers new hs) = map_of hs ++ map_of (rev new)"
  by (induction new arbitrary: hs) (auto simp: set_headers_def update_conv' split: prod.splits)

lemma set_headers_keep: "k \<notin> fst ` set new \<Longrightarrow> map_of (set_headers new hs) k = map_of hs k"
  by (simp add: map_of_set_headers map_add_def split: option.split) (metis map_of_SomeD fst_conv image_eqI set_rev)

lemma set_headers_one: "map_of (set_headers [(k, v)] hs) k = Some v"
  by (simp add: map_of_set_headers)

text \<open>The two implementations of the CORS policy agree on every request but one kind: a preflight from an origin that is not
  on the list is answered by the wrapper with an empty 204 response, and passed on to the handler by the middleware. Both
  answer with the header that allows an origin only for an origin on the list, if the handler does not set it itself.\<close>

theorem cors_policies:
  "WrapCORS h origins rq hs =
     (if wq_Method rq = ''OPTIONS'' \<and> wq_Origin rq \<noteq> [] \<and> wq_Origin rq \<notin> set origins then no_content hs else corsMiddleware origins h rq hs) \<and>
   (wq_Origin rq \<notin> set origins \<longrightarrow> corsMiddleware origins h rq hs = h rq hs) \<and>
   (wq_Origin rq \<in> set origins \<and> wq_Origin rq \<noteq> [] \<and> wq_Method rq = ''OPTIONS'' \<longrightarrow>
      map_of (wp_Headers (WrapCORS h origins rq hs)) ''Access-Control-Allow-Origin'' = Some (wq_Origin rq))"
  by (auto simp: WrapCORS_def corsMiddleware_def Let_def no_content_def map_of_set_headers cors_headers_def map_add_def)

text \<open>Every answer of the engine carries the request identifier, the client's own if it sent one, unless a route replaces it; and
  the readiness probe fails exactly until the service is ready.\<close>

lemma engine_request_id:
  assumes "\<And>rid rq hs. map_of (wp_Headers (routes rid rq hs)) headerRequestID = map_of hs headerRequestID"
  shows "map_of (wp_Headers (web_New opts ready routes bytes rq [])) headerRequestID =
    Some (if wq_RequestID rq = [] then newRequestID bytes else wq_RequestID rq)"
proof -
  have "headerRequestID \<notin> fst ` set (cors_headers o')" for o' by (simp add: headerRequestID_def cors_headers_def)
  note keep = set_headers_keep [OF this]
  show ?thesis
    by (simp add: web_New_def requestIDMiddleware_def Let_def rateLimitMiddleware_def corsMiddleware_def healthz_def readyz_def no_content_def
        assms keep set_headers_one)
qed

lemma readyz_status:
  "wq_Method rq = ''GET'' \<Longrightarrow> wq_Path rq = ''/readyz'' \<Longrightarrow>
   wp_Status (web_New opts ready routes bytes rq []) = (if ready then 200 else 503)"
  by (simp add: web_New_def requestIDMiddleware_def Let_def rateLimitMiddleware_def corsMiddleware_def readyz_def)

text \<open>A worse status is never logged at a lower level.\<close>

lemma access_level_mono: "s \<le> t \<Longrightarrow> access_level s \<le> access_level t"
  by (auto simp: access_level_def less_eq_log_level_def)

text \<open>A panic in a handler does not reach the server, but neither does an error: response and error are nil.\<close>

lemma rpc_panic_is_silent: "otel h rq = Panics p \<Longrightarrow> rpc_New otel h rq = Returns None None"
  by (simp add: rpc_New_def recoveryInterceptor_def errorTranslateInterceptor_def)

lemma rpc_errors_translated: "otel h rq = Returns resp err \<Longrightarrow> rpc_New otel h rq = Returns resp (ToConnect err)"
  by (simp add: rpc_New_def recoveryInterceptor_def errorTranslateInterceptor_def)

end
