(* ===== verification/Auth_OAuth.thy ===== *)
theory Auth_OAuth
  imports Auth_Service
begin

text \<open>
  The OAuth providers of the auth service (\<open>infra/oauth/provider.go\<close>, \<open>spotify.go\<close>, \<open>google.go\<close>) and the registry built from the
  configuration (\<open>buildOAuthRegistry\<close> in \<open>cmd/auth-service/main.go\<close>). The library \<open>golang.org/x/oauth2\<close>, the web and the
  decoding of the profiles are parameters.
\<close>

section \<open>Parameters\<close>

record oauth_config =
  oc_Name :: string
  oc_ClientID :: string
  oc_ClientSecret :: string
  oc_Scopes :: "string list"
  oc_RedirectURL :: string
  oc_AuthURL :: string
  oc_TokenURL :: string
  oc_ProfileURL :: string
  oc_MapProfile :: "(string \<Rightarrow> ProviderProfile result) option"

text \<open>A token of the library: the extra field that is used later (the id token is not), and the expiry (zero when unknown).\<close>

record oauth2_token =
  ot_AccessToken :: string
  ot_refresh_token :: "string option"
  ot_Expiry :: time

text \<open>The library's \<open>AuthCodeURL\<close> and \<open>Exchange\<close> with their extra parameters, and the GET of a profile with a bearer token: an
  error, or the status code, the status text, and the body or the error of reading it.\<close>

record oauth_world =
  ow_AuthCodeURL :: "oauth_config \<Rightarrow> string \<Rightarrow> (string \<times> string) list \<Rightarrow> string"
  ow_Exchange :: "oauth_config \<Rightarrow> string \<Rightarrow> (string \<times> string) list \<Rightarrow> oauth2_token result"
  ow_Get :: "string \<Rightarrow> string \<Rightarrow> (int \<times> string \<times> string result) result"
  ow_now :: time

section \<open>The base provider\<close>

definition base_AuthorizationURL :: "oauth_world \<Rightarrow> oauth_config \<Rightarrow> string \<Rightarrow> string \<Rightarrow> string \<Rightarrow> string result" where
  "base_AuthorizationURL w cfg redirectURI state codeChallenge =
     Inr (ow_AuthCodeURL w cfg state [(''code_challenge'', codeChallenge), (''code_challenge_method'', ''S256'')])"

definition providerTokensFromOauth2 :: "time \<Rightarrow> oauth2_token \<Rightarrow> ProviderTokens" where
  "providerTokensFromOauth2 now t =
     \<lparr>tk_AccessToken = ot_AccessToken t, tk_RefreshToken = (case ot_refresh_token t of Some v \<Rightarrow> v | None \<Rightarrow> []),
      tk_ExpiresIn = (if ot_Expiry t = zero_time then 0 else time_sub (ot_Expiry t) now)\<rparr>"

definition base_Exchange :: "oauth_world \<Rightarrow> oauth_config \<Rightarrow> string \<Rightarrow> string \<Rightarrow> string \<Rightarrow> ProviderTokens result" where
  "base_Exchange w cfg code redirectURI codeVerifier =
     (let opts = (if codeVerifier \<noteq> [] then [(''code_verifier'', codeVerifier)] else []) in
      case ow_Exchange w cfg code opts of
        Inl err \<Rightarrow> Inl err
      | Inr tok \<Rightarrow> Inr (providerTokensFromOauth2 (ow_now w) tok))"

definition defaultProfileFetch :: "oauth_world \<Rightarrow> oauth_config \<Rightarrow> ProviderTokens \<Rightarrow> ProviderProfile result" where
  "defaultProfileFetch w cfg tokens =
     (case oc_MapProfile cfg of
        None \<Rightarrow> Inl (PlainErr ''oauth: profile URL or mapper missing'')
      | Some mapProfile \<Rightarrow>
          if oc_ProfileURL cfg = [] then Inl (PlainErr ''oauth: profile URL or mapper missing'')
          else (case ow_Get w (oc_ProfileURL cfg) (''Bearer '' @ tk_AccessToken tokens) of
              Inl err \<Rightarrow> Inl err
            | Inr (status, text, body) \<Rightarrow>
                if status \<noteq> 200 then Inl (PlainErr (''oauth: profile fetch status '' @ text))
                else (case body of Inl err \<Rightarrow> Inl err | Inr raw \<Rightarrow> mapProfile raw)))"

text \<open>Neither of the two providers sets \<open>ProfileFetch\<close>.\<close>

definition baseProvider :: "oauth_world \<Rightarrow> oauth_config \<Rightarrow> OAuthProvider" where
  "baseProvider w cfg = \<lparr>op_Name = oc_Name cfg, op_AuthorizationURL = base_AuthorizationURL w cfg, op_Exchange = base_Exchange w cfg,
     op_Profile = defaultProfileFetch w cfg\<rparr>"

section \<open>Spotify and Google\<close>

record spotifyProfileJSON =
  sf_ID :: string
  sf_DisplayName :: string
  sf_Email :: string
  sf_Images :: "string list"

record googleProfileJSON =
  gj_Sub :: string
  gj_Email :: string
  gj_EmailVerified :: bool
  gj_Name :: string
  gj_Picture :: string

definition mapSpotifyProfile :: "(string \<Rightarrow> spotifyProfileJSON result) \<Rightarrow> string \<Rightarrow> ProviderProfile result" where
  "mapSpotifyProfile unmarshal raw = (case unmarshal raw of
     Inl err \<Rightarrow> Inl (PlainErr (''spotify: parse profile: '' @ err_text err))
   | Inr p \<Rightarrow> Inr \<lparr>pp_Provider = ''spotify'', pp_ProviderUserID = sf_ID p, pp_Email = sf_Email p, pp_EmailVerified = True,
       pp_DisplayName = sf_DisplayName p, pp_AvatarURL = (case sf_Images p of [] \<Rightarrow> [] | u # _ \<Rightarrow> u)\<rparr>)"

definition mapGoogleProfile :: "(string \<Rightarrow> googleProfileJSON result) \<Rightarrow> string \<Rightarrow> ProviderProfile result" where
  "mapGoogleProfile unmarshal raw = (case unmarshal raw of
     Inl err \<Rightarrow> Inl (PlainErr (''google: parse profile: '' @ err_text err))
   | Inr p \<Rightarrow> Inr \<lparr>pp_Provider = ''google'', pp_ProviderUserID = gj_Sub p, pp_Email = gj_Email p, pp_EmailVerified = gj_EmailVerified p,
       pp_DisplayName = gj_Name p, pp_AvatarURL = gj_Picture p\<rparr>)"

definition NewSpotifyProvider :: "oauth_world \<Rightarrow> (string \<Rightarrow> spotifyProfileJSON result) \<Rightarrow> oauth_config \<Rightarrow> OAuthProvider" where
  "NewSpotifyProvider w unmarshal cfg = baseProvider w
     (cfg\<lparr>oc_Name := ''spotify'', oc_AuthURL := ''https://accounts.spotify.com/authorize'', oc_TokenURL := ''https://accounts.spotify.com/api/token'',
       oc_ProfileURL := ''https://api.spotify.com/v1/me'', oc_MapProfile := Some (mapSpotifyProfile unmarshal)\<rparr>)"

definition NewGoogleProvider :: "oauth_world \<Rightarrow> (string \<Rightarrow> googleProfileJSON result) \<Rightarrow> oauth_config \<Rightarrow> OAuthProvider" where
  "NewGoogleProvider w unmarshal cfg = baseProvider w
     (cfg\<lparr>oc_Name := ''google'', oc_AuthURL := ''https://accounts.google.com/o/oauth2/v2/auth'', oc_TokenURL := ''https://oauth2.googleapis.com/token'',
       oc_ProfileURL := ''https://openidconnect.googleapis.com/v1/userinfo'', oc_MapProfile := Some (mapGoogleProfile unmarshal)\<rparr>)"

section \<open>The registry\<close>

definition NewRegistry :: "OAuthProvider list \<Rightarrow> (string \<times> OAuthProvider) list" where
  "NewRegistry providers = fold (\<lambda>p m. AList.update (op_Name p) p m) providers []"

definition Registry_Get :: "(string \<times> OAuthProvider) list \<Rightarrow> string \<Rightarrow> OAuthProvider option" where
  "Registry_Get r name = map_of r name"

text \<open>The configuration of a provider: enabled, its credentials as read from the environment, its scopes.\<close>

record oauth_settings =
  os_Enabled :: bool
  os_ClientID :: string
  os_ClientSecret :: string
  os_Scopes :: "string list"

definition provider_config :: "string \<Rightarrow> oauth_settings \<Rightarrow> oauth_config" where
  "provider_config redirect s = \<lparr>oc_Name = [], oc_ClientID = os_ClientID s, oc_ClientSecret = os_ClientSecret s, oc_Scopes = os_Scopes s,
     oc_RedirectURL = redirect, oc_AuthURL = [], oc_TokenURL = [], oc_ProfileURL = [], oc_MapProfile = None\<rparr>"

definition buildOAuthRegistry ::
  "oauth_world \<Rightarrow> (string \<Rightarrow> spotifyProfileJSON result) \<Rightarrow> (string \<Rightarrow> googleProfileJSON result) \<Rightarrow> string \<Rightarrow> oauth_settings \<Rightarrow> oauth_settings
   \<Rightarrow> (string \<times> OAuthProvider) list option" where
  "buildOAuthRegistry w us ug redirectURIBase spotify google =
     (let redirect = redirectURIBase @ ''/api/v1/oauth/callback'';
          providers = (if os_Enabled spotify then [NewSpotifyProvider w us (provider_config redirect spotify)] else []) @
            (if os_Enabled google then [NewGoogleProvider w ug (provider_config redirect google)] else []) in
      if providers = [] then None else Some (NewRegistry providers))"

section \<open>Properties\<close>

lemma op_Name_provider [simp]:
  "op_Name (NewSpotifyProvider w u cfg) = ''spotify''" "op_Name (NewGoogleProvider w ug cfg) = ''google''"
  by (simp_all add: NewSpotifyProvider_def NewGoogleProvider_def baseProvider_def)

text \<open>A name is registered exactly if that provider is enabled, and it yields the provider of that name.\<close>

lemma registry_providers:
  assumes "buildOAuthRegistry w us ug base spotify google = Some r"
  shows "Registry_Get r name \<noteq> None \<longleftrightarrow> name = ''spotify'' \<and> os_Enabled spotify \<or> name = ''google'' \<and> os_Enabled google"
    and "Registry_Get r name = Some p \<Longrightarrow> op_Name p = name"
  using assms by (auto simp: buildOAuthRegistry_def Registry_Get_def NewRegistry_def Let_def split: if_splits)

text \<open>The verifier of the PKCE exchange reaches the provider unchanged.\<close>

lemma exchange_sends_verifier:
  "v \<noteq> [] \<Longrightarrow> base_Exchange w cfg code r v = map_sum id (providerTokensFromOauth2 (ow_now w)) (ow_Exchange w cfg code [(''code_verifier'', v)])"
  by (simp add: base_Exchange_def split: sum.split)

text \<open>Whether the provider has verified the email is read from the answer of Google and never used: an account is found or
  created by the email in the same way.\<close>

lemma email_verified_ignored:
  "oauth_tx env c name (profile\<lparr>pp_EmailVerified := b\<rparr>) label tokens = oauth_tx env c name profile label tokens"
proof -
  have "deriveUsername (profile\<lparr>pp_EmailVerified := b\<rparr>) = deriveUsername profile" by (simp add: deriveUsername_def)
  then have "oauth_new_user env c name (profile\<lparr>pp_EmailVerified := b\<rparr>) = oauth_new_user env c name profile"
    unfolding oauth_new_user_def by (simp add: Let_def cong: sum.case_cong)
  then show ?thesis by (simp add: oauth_tx_def oauth_user_def)
qed

end
