(* ===== verification/Permission_Port.thy ===== *)
theory Permission_Port
  imports Room_Access Media_Queue Sync_Service
begin

text \<open>
  The interface between the services: the sync service and the media service ask the room service whether a user may do
  something in a room (\<open>ports.RoomPermissions\<close>, implemented by \<open>infra/roomclient\<close>). The locale \<open>room_permissions\<close> is its contract,
  \<open>live_permissions\<close> the contract of a room service that can be reached; the handlers that rely on them are treated once for all,
  and the room service's own query is shown to satisfy them.
\<close>

section \<open>The contract\<close>

locale room_permissions =
  fixes has :: "string \<Rightarrow> string \<Rightarrow> int \<Rightarrow> bool result" and granted :: "string \<Rightarrow> string \<Rightarrow> int \<Rightarrow> bool"
  assumes sound: "has r u p = Inr True \<Longrightarrow> granted r u p"
begin

lemma authorized_command:
  assumes "authorizeCommand has rs u kind = Inr ()"
  shows "u = HostID rs \<or> u = OwnerID rs \<or> (\<exists>p. commandPermission kind = (p, True) \<and> granted (rs_roomID rs) u p)"
  using assms sound by (auto simp: authorizeCommand_def split: if_splits prod.splits sum.splits)

lemma queue_permission: "requireQueuePermission has u r p act = Inr () \<Longrightarrow> u \<noteq> [] \<and> granted r u p"
  using sound by (auto simp: requireQueuePermission_def split: if_splits sum.splits)

lemma queue_changes_granted:
  assumes "AddToQueue has c r m db = (Inr item, db')"
  shows "granted r (rq_userHeader c) ROOM_PERMISSION_ADD_QUEUE"
  using assms queue_permission [of "rq_userHeader c" r ROOM_PERMISSION_ADD_QUEUE]
  by (auto simp: AddToQueue_def ctxDone_def Let_def split: option.splits if_splits sum.splits)

end

locale live_permissions = room_permissions +
  assumes complete: "r \<noteq> [] \<Longrightarrow> u \<noteq> [] \<Longrightarrow> granted r u p \<Longrightarrow> has r u p = Inr True"
begin

lemma command_iff:
  assumes "rs_roomID rs \<noteq> []" "u \<noteq> []" "u \<noteq> HostID rs" "u \<noteq> OwnerID rs"
  shows "authorizeCommand has rs u kind = Inr () \<longleftrightarrow> (\<exists>p. commandPermission kind = (p, True) \<and> granted (rs_roomID rs) u p)"
proof
  show "authorizeCommand has rs u kind = Inr () \<Longrightarrow> \<exists>p. commandPermission kind = (p, True) \<and> granted (rs_roomID rs) u p"
    using authorized_command [of rs u kind] assms by blast
next
  assume "\<exists>p. commandPermission kind = (p, True) \<and> granted (rs_roomID rs) u p"
  then obtain p where "commandPermission kind = (p, True)" "has (rs_roomID rs) u p = Inr True" using complete [OF assms(1,2)] by blast
  then show "authorizeCommand has rs u kind = Inr ()" by (simp add: authorizeCommand_def)
qed

lemma queue_iff: "r \<noteq> [] \<Longrightarrow> u \<noteq> [] \<Longrightarrow> requireQueuePermission has u r p act = Inr () \<longleftrightarrow> granted r u p"
proof
  assume "r \<noteq> []" "u \<noteq> []" "granted r u p"
  then have "has r u p = Inr True" by (rule complete)
  then show "requireQueuePermission has u r p act = Inr ()" using \<open>u \<noteq> []\<close> by (simp add: requireQueuePermission_def)
qed (use queue_permission in blast)

end

section \<open>The room service as the provider\<close>

text \<open>The client over the room service's query, answered from the tables \<open>db\<close>; and what the tables grant.\<close>

definition room_port :: "call \<Rightarrow> room_db \<Rightarrow> string \<Rightarrow> string \<Rightarrow> int \<Rightarrow> bool result" where
  "room_port c db = roomclient_Has (\<lambda>r u. fst (GetMemberPermissions c r u db))"

definition room_granted :: "room_db \<Rightarrow> string \<Rightarrow> string \<Rightarrow> int \<Rightarrow> bool" where
  "room_granted db r u p = (case find_room r db of
     None \<Rightarrow> False
   | Some w \<Rightarrow> rm_OwnerID w = u \<or> p \<in> set (ToProto (case find_perm r u db of None \<Rightarrow> 0 | Some k \<Rightarrow> perm_of_i16 k)))"

definition reachable_call :: "call \<Rightarrow> call" where
  "reachable_call c = c\<lparr>rq_ctxErr := None, rq_faults := no_faults\<rparr>"

lemma GetMemberPermissions_answer:
  assumes "fst (GetMemberPermissions c r u db) = Inr (isOwner, ps)"
  shows "\<exists>w. find_room r db = Some w \<and> isOwner = (rm_OwnerID w = u) \<and>
    ps = ToProto (case find_perm r u db of None \<Rightarrow> 0 | Some k \<Rightarrow> perm_of_i16 k)"
  using assms
  by (auto simp: GetMemberPermissions_def ctxDone_def run_tx_def member_perms_tx_def tx_lookup_def GetByID_def
      Permission_Get_def perm_row_query_def tx_defs scanRoom_def split: option.splits prod.splits sum.splits if_splits)

lemma room_port_sound: "room_port c db r u p = Inr True \<Longrightarrow> room_granted db r u p"
  by (auto simp: room_port_def roomclient_Has_def room_granted_def list_ex_iff split: if_splits sum.splits prod.splits
      dest!: GetMemberPermissions_answer)

lemma room_port_complete:
  assumes "r \<noteq> []" "u \<noteq> []" "room_granted db r u p"
  shows "room_port (reachable_call c) db r u p = Inr True"
proof -
  obtain w where w: "find_room r db = Some w" using assms(3) by (auto simp: room_granted_def split: option.splits)
  have "fst (GetMemberPermissions (reachable_call c) r u db) =
      Inr (rm_OwnerID w = u, ToProto (case find_perm r u db of None \<Rightarrow> 0 | Some k \<Rightarrow> perm_of_i16 k))"
    using w by (simp add: GetMemberPermissions_no_faults reachable_call_def)
  then show ?thesis using assms w by (auto simp: room_port_def roomclient_Has_def room_granted_def list_ex_iff)
qed

interpretation room_port: room_permissions "room_port c db" "room_granted db" for c db
  by unfold_locales (rule room_port_sound)

interpretation room_port_live: live_permissions "room_port (reachable_call c) db" "room_granted db" for c db
  by unfold_locales (rule room_port_complete)


section \<open>Grants govern commands\<close>

lemma Command_reply_iff:
  assumes "r \<noteq> []" "u \<noteq> []"
  shows "(\<exists>reply sv'. Command cv has None fl r u reqKind seek rate m tok nowMs now now' sv = (Inr reply, sv')) \<longleftrightarrow>
    authorizeCommand has (fst (GetOrCreate fl r sv)) u (i8 reqKind) = Inr ()"
proof -
  obtain rs sv1 where g: "GetOrCreate fl r sv = (rs, sv1)" by fastforce
  obtain reply rs' where p: "ProcessCommandAuthorized cv (i8 reqKind) seek rate m tok nowMs now now' rs = (reply, rs')" by fastforce
  show ?thesis using assms by (simp add: Command_def g p Let_def split: sum.split) (metis prod_cases3)
qed

lemma commandPermission_range: "commandPermission kind = (p, True) \<Longrightarrow> p \<in> {1..5}"
  by (auto simp: commandPermission_def PermSeek_def PermPausePlay_def PermSwitchQueue_def split: if_splits)

lemma granted_after_grant:
  assumes "GrantPermissions c r u ps db = (Inr res, db')"
  shows "room_granted db' r u p \<longleftrightarrow> p \<in> set ps \<and> p \<in> {1..5}"
proof -
  have "fst (GetMemberPermissions (reachable_call c) r u db') = Inr (False, res)" "set res = set ps \<inter> {1..5}"
    using grant_then_query [OF assms, of "reachable_call c"] by (simp_all add: reachable_call_def)
  then show ?thesis using GetMemberPermissions_answer by (fastforce simp: room_granted_def)
qed

text \<open>C19: What the owner grants in the room service decides what the user may do in the other services: after a successful grant, and
  while the room service answers, a user who is neither host nor owner gets a command past the sync service exactly if the
  permission of that kind of command is among the granted ones, and passes the media service's check for adding to and
  removing from the queue exactly if those permissions are. A grant replaces the earlier one, so leaving a permission out
  revokes it.\<close>

theorem grants_govern_commands:
  assumes "GrantPermissions c r u ps db = (Inr res, db')" "service_ok sv" "r \<noteq> []" "u \<noteq> []"
    and "u \<noteq> HostID (fst (GetOrCreate fl r sv))" "u \<noteq> OwnerID (fst (GetOrCreate fl r sv))"
  shows "((\<exists>reply sv'. Command cv (room_port (reachable_call q) db') None fl r u reqKind seek rate m tok nowMs now now' sv = (Inr reply, sv')) \<longleftrightarrow>
      (\<exists>p\<in>set ps. commandPermission (i8 reqKind) = (p, True))) \<and>
    (requireQueuePermission (room_port (reachable_call q) db') u r ROOM_PERMISSION_ADD_QUEUE act = Inr () \<longleftrightarrow> ROOM_PERMISSION_ADD_QUEUE \<in> set ps) \<and>
    (requireQueuePermission (room_port (reachable_call q) db') u r ROOM_PERMISSION_REMOVE_QUEUE act = Inr () \<longleftrightarrow> ROOM_PERMISSION_REMOVE_QUEUE \<in> set ps)"
proof -
  obtain rs sv1 where g: "GetOrCreate fl r sv = (rs, sv1)" by fastforce
  have id: "rs_roomID rs = r" using GetOrCreate_ok(2) [OF assms(2) g] .
  note granted = granted_after_grant [OF assms(1)]
  have "authorizeCommand (room_port (reachable_call q) db') rs u (i8 reqKind) = Inr () \<longleftrightarrow> (\<exists>p\<in>set ps. commandPermission (i8 reqKind) = (p, True))"
    using room_port_live.command_iff [of rs u] assms(3-6) commandPermission_range by (auto simp: id g granted)
  moreover have "ROOM_PERMISSION_ADD_QUEUE \<in> {1..5}" "ROOM_PERMISSION_REMOVE_QUEUE \<in> {1..5}"
    by (simp_all add: ROOM_PERMISSION_ADD_QUEUE_def ROOM_PERMISSION_REMOVE_QUEUE_def)
  ultimately show ?thesis using Command_reply_iff [OF assms(3,4)] room_port_live.queue_iff [OF assms(3,4)] granted by (simp add: g)
qed

text \<open>Bob is granted playing and pausing (and an unknown permission): he can play, not seek, and not add to the queue.\<close>

theorem grants_govern_commands_witness:
  "let db = snd (GrantPermissions ann ''r1'' ''bob'' [2, 9] shared_db); has = room_port (reachable_call ann) db in
   (\<exists>reply sv'. Command (\<lambda>_. 0) has None no_faults ''r1'' ''bob'' CmdPlay None None [] 0 1000 0 0 sample_service = (Inr reply, sv')) \<and>
   \<not> (\<exists>reply sv'. Command (\<lambda>_. 0) has None no_faults ''r1'' ''bob'' CmdSeek (Some 5) None [] 0 1000 0 0 sample_service = (Inr reply, sv')) \<and>
   requireQueuePermission has ''bob'' ''r1'' ROOM_PERMISSION_ADD_QUEUE ''media.queue.add'' \<noteq> Inr ()"
proof -
  let ?db = "snd (GrantPermissions ann ''r1'' ''bob'' [2, 9] shared_db)"
  obtain res where "GrantPermissions ann ''r1'' ''bob'' [2, 9] shared_db = (Inr res, ?db)" using is_InrD [OF sample_grant] by blast
  note t = grants_govern_commands [OF this sample_service_ok, where fl = no_faults and q = ann and cv = "\<lambda>_. 0"]
  have h: "HostID (fst (GetOrCreate no_faults ''r1'' sample_service)) = ''ann''" "OwnerID (fst (GetOrCreate no_faults ''r1'' sample_service)) = ''ann''"
    by (simp_all add: sample_get HostID_def OwnerID_def)
  have i: "commandPermission (i8 CmdPlay) = (2, True)" "commandPermission (i8 CmdSeek) = (1, True)"
    by (simp_all add: i8_id commandPermission_def PermSeek_def PermPausePlay_def)
  show ?thesis unfolding Let_def
    using t [where reqKind = CmdPlay] t [where reqKind = CmdSeek] h i by (simp add: ROOM_PERMISSION_ADD_QUEUE_def)
qed

end
