(* ===== verification/Spec2Isabelle.thy ===== *)
theory Spec2Isabelle
  imports Room_Sync_Host Kafka_Consumer Vb_Errors Room_Spec Room_Access Media_Queue Event_Flow Provider_Properties Relay_Lock Vb_Policy Vb_Http Auth_OAuth Permission_Port
begin

text \<open>
  VibeSync is a set of Go services for watching and listening together. A room has an owner, members with roles and
  permissions, a queue of media and one playback state that all members follow. The services keep their own PostgreSQL
  tables, call each other over Connect-RPC and exchange events over Kafka through a transactional outbox.

  \<^bold>\<open>Parts and theories.\<close> Paths are under \<open>src/\<close>; \<open>apps/X\<close> stands for \<open>apps/X-service/internal\<close>.

  \<^item> Foundations. \<open>Prelude\<close> (Go's fixed-width integers, times, strings), \<open>Go_Float\<close> (\<open>float64\<close> with rounding), \<open>Go_Base64\<close>,
    \<open>Go_Time\<close> (RFC 3339 and the calendar), \<open>Vb_History\<close> (the locales \<open>invariant_system\<close> and \<open>history\<close>, interpreted on every
    step relation below), \<open>Vb_Errors\<close> (\<open>libs/errors\<close>: typed errors and their way through Connect), \<open>Vb_Tx\<close> and \<open>Vb_Sql\<close>
    (transactions with faults and rollback, values of columns), \<open>Vb_Call\<close> and \<open>Vb_Web\<close> (what a handler receives),
    \<open>Vb_Http\<close> (\<open>libs/web\<close>, \<open>libs/rpc\<close>), \<open>Vb_Policy\<close> (\<open>libs/rbac\<close>, \<open>libs/featureflag\<close>).
  \<^item> Sync service, \<open>apps/sync\<close>. \<open>Sync_State\<close> and \<open>Sync_Heartbeat\<close> (\<open>domain/\<close>: playback state, commands, clock
    estimates, drift controller), \<open>Room_Sync\<close> (\<open>app/room_sync.go\<close>: the object that owns a room, one definition per method),
    \<open>Room_Sync_Run\<close> and \<open>Room_Sync_Host\<close> (a room as the state machine \<open>room_step\<close>; epochs, fencing, subscribers, recovery,
    host election), \<open>Sync_Service\<close> (\<open>app/service.go\<close>, \<open>handlers.go\<close>, the checkpoint table, the permission client, presence).
  \<^item> Playback service, \<open>apps/playback\<close>: \<open>Playback\<close>. The fencing rule it shares with the sync service is the locale
    \<open>fenced\<close> of \<open>Fencing\<close>, interpreted on both.
  \<^item> Room service, \<open>apps/room\<close>. \<open>Room_Domain\<close>, \<open>Room_Repo\<close> (tables and statements), \<open>Room_Service\<close> (all handlers),
    \<open>Room_Invariant\<close>, \<open>Room_Properties\<close> (histories), \<open>Room_Spec\<close> (abstract specification and refinement), \<open>Room_Access\<close> (rights).
  \<^item> Media service, \<open>apps/media\<close>: \<open>Media_Service\<close>, and \<open>Media_Queue\<close> (queues refine lists).
  \<^item> Auth service, \<open>apps/auth\<close>. \<open>Auth_Domain\<close>, \<open>Auth_Repo\<close>, \<open>Auth_Crypto\<close> (passwords and encryption at rest; the port
    \<open>PasswordHasher\<close> is the locale \<open>password_hasher\<close>), \<open>Auth_Service\<close> (login, registration, refresh, OAuth), \<open>Auth_OAuth\<close> (the
    providers), \<open>Auth_Keys\<close> (access tokens, key rotation, start-up), \<open>Auth_Tokens\<close>, \<open>Auth_Sessions\<close>, \<open>Auth_Access\<close>,
    \<open>Auth_Properties\<close>, \<open>Auth_Key_Properties\<close>.
  \<^item> User service, \<open>apps/user\<close>: \<open>User_Service\<close>, \<open>User_Properties\<close>. Provider service, \<open>apps/provider\<close>: \<open>Provider_Service\<close>,
    \<open>Provider_Properties\<close>.
  \<^item> Between the services. \<open>Vb_Outbox\<close> and \<open>Outbox\<close> (staging events and draining them), \<open>Relay_Run\<close> (the relay's loop),
    \<open>Relay_Lock\<close> (leader election in Redis), \<open>Kafka_Consumer\<close> (idempotency middleware and consumer loop), \<open>Permission_Port\<close>
    (the port \<open>RoomPermissions\<close> as the locales \<open>room_permissions\<close> and \<open>live_permissions\<close>), \<open>Event_Flow\<close> and this theory
    (events from the service that stages them to the table of the service that consumes them).

  \<^bold>\<open>How code is modelled.\<close> A struct is a record whose fields carry a short prefix, a handler or method is a definition of the
  same name from its inputs and the state to a result (an error of type \<open>go_error\<close> or a value) and the new state. Integers
  have their width: \<open>uint64\<close> values are words, signed ones are \<open>int\<close> with the conversion written out, so that epochs,
  tokens and enum conversions wrap as in Go. Everything outside the program is an argument: the clock, fresh identifiers
  and random bytes (\<open>call\<close>), the errors of the database (\<open>faults\<close>, one per statement), the iteration order of maps, answers
  of other services, HTTP and Redis, JSON decoders, and the third-party libraries for argon2, AES-GCM, RSA, JOSE and
  OAuth. What is assumed of such a library is a named predicate (\<open>jose_ok\<close>, \<open>opens_sealed\<close>, \<open>setNX_law\<close>), and the witnesses
  instantiate it. Theorems hold for every fault unless they say otherwise.

  \<^bold>\<open>What is shown.\<close>
  \<^item> Rooms (\<open>Room_Sync_Run\<close>, \<open>Room_Sync_Host\<close>, \<open>Sync_Service\<close>): epochs identify states, a replaced host is fenced off,
    subscribers see frames in order, recovery and restart lose nothing, the tick elects the host it should, only
    authorised users command, positions do not run backwards, the invariants of rooms and of the service.
  \<^item> Room and media service: the invariant of the tables in every history, refinement of an abstract room with members,
    roles and grants, access control, capacity, queues as lists.
  \<^item> Auth service: the refresh tokens of a login form a chain with one live end; a used token is dead; what is handed out
    works; who can log in; OAuth states are used once; one key is active, tokens survive rotation.
  \<^item> Users and providers: unique identities, idempotent consumption, who may edit a profile, answers from the cache.
  \<^item> Delivery: at least once, the relay ends only by cancellation and never spins, it publishes everything, at most one
    replica holds a lock that is released in time.
  \<^item> Across services: a registration reaches the user service, a created room the sync service, a playback state the
    playback service, and the owner's grants decide what commands and queue changes are accepted elsewhere.

  Several theorems state what the code does where a comment promises something else: reuse of a refresh token revokes
  nothing (\<open>Auth_Properties\<close>), two concurrent refreshes fork a family, a key rotation is not used before a restart,
  introspection never answers \<open>inactive\<close> (\<open>Auth_Key_Properties\<close>), a slow holder of the relay lock deletes its successor's
  (\<open>Relay_Lock\<close>), a recovered panic is answered with neither response nor error (\<open>Vb_Http\<close>), an owner can be kicked and a
  listing skips rooms (\<open>Room_Access\<close>).

  \<^bold>\<open>Bounds and termination.\<close> Loops over data are structural recursions. The relay's \<open>Run\<close> is a partial function into
  \<open>option\<close>, and its theorem says when it returns; no definition uses fuel. Counters that would wrap after \<open>2 ^ 64\<close> steps are covered by hypotheses that the values
  stay below.

  \<^bold>\<open>Assumptions of the model.\<close> A commit that reports an error has rolled back. Transactions of one service are serialised;
  where the code relies on more (concurrent refreshes, the relay lock) the interleaving is modelled. \<open>float64\<close> expressions
  are not fused, and zeros have no sign. Identifiers are ASCII without NUL; JSON documents have exactly the keys of the
  Go structs; JSONB is stored as text. \<open>crypto/rand\<close> does not fail. The registry of OAuth providers of the auth service is
  absent or present as the handlers test it; \<open>main\<close> stores a typed nil pointer there, which that test does not recognise.

  \<^bold>\<open>Not modelled.\<close> Generated protocol code (\<open>gen/\<close>), the wiring in \<open>cmd/*/main.go\<close> apart from the signer's bootstrap and the
  OAuth registry, configuration files, connection pools, HTTP servers and their shutdown, logging, tracing and metrics,
  the unused interfaces \<open>libs/store\<close>, \<open>libs/storage\<close>, \<open>libs/mongo\<close>, \<open>libs/redislib\<close>, the ULID wrapper \<open>libs/id\<close>, test
  clients, the TypeScript frontend and the deployment files: input and output, generated or third-party code, or no state of
  their own. The services carry copies of the relay, the consumer loop, the outbox writer and the room client; each is
  modelled from one of them.
\<close>

section \<open>Events between services\<close>

text \<open>C20: A registered user reaches the read model: a successful registration stages exactly one event, and when the relay's
  message for it is consumed by the user service, in whose table neither the identifier nor the email nor the username
  occurs, that table gains exactly one row: the identifier, email and username as the auth service stored them,
  the role of a plain user, and the time of registration in whole seconds. The display name given at registration is
  not part of the event; the row shows the username instead. Assumed is an email of printable ASCII.\<close>

theorem registered_user_is_projected:
  assumes "Register env c req db = (Inr a, db1)" "rq_newID c 0 \<noteq> ''''" "list_all printable (rg_Email req)" "year_in_range (rq_now c 0)"
  shows "\<exists>row w. au_outbox db1 = au_outbox db @ [row] \<and> au_users db1 = au_users db @ [(us_ID w, w)] \<and>
    ((\<forall>(k, v)\<in>set udb. k \<noteq> us_ID w \<and> ci (ur_Email v) \<noteq> ci (us_Email w) \<and> ur_Username v \<noteq> us_Username w) \<longrightarrow>
      UserCreated_Handle ci U no_faults now (PublishOne t row) udb =
        (None, udb @ [(us_ID w, read_model_row w (rq_now c 0 div 10 ^ 9 * 10 ^ 9))]))"
  using assms(1)
proof (rule Register_stages)
  fix user hash w row
  let ?u = "(SetPassword (rq_now c 1) hash user)\<lparr>us_ID := rq_newID c 0\<rparr>" and ?r = "read_model_row w (rq_now c 0 div 10 ^ 9 * 10 ^ 9)"
  assume user: "NewUser (rq_lower c) (rq_now c 0)
      \<lparr>nu_Email = rg_Email req, nu_Username = rg_Username req, nu_DisplayName = rg_DisplayName req, nu_AvatarURL = ''''\<rparr> = Inr user"
    and w: "user_row_of ?u = Some w" "au_users db1 = au_users db @ [(us_ID w, w)]"
    and row: "outbox_row_of (user_created (rq_newID c 1) ?u ''password'' (rq_now c 0)) (rq_newID c 0) = Some row"
      "rq_newID c 0 \<noteq> '''' \<longrightarrow> au_outbox db1 = au_outbox db @ [row]"
  note un = user_created_unmarshal [OF row(1), of t]
  obtain u where u: "ProjectFromEvent U \<lparr>uc_UserID = us_ID ?u, uc_Email = us_Email ?u, uc_Username = us_Username ?u, uc_Provider = ''password'',
      uc_CreatedAt = Format_RFC3339 (rq_now c 0)\<rparr> now = Inr u" "profile_row_of u = Some ?r"
    using registered_row [OF user w(1) _ assms(2) refl assms(4), where V = U and now = now and pr = "''password''"] assms(3)
    by (auto simp: SetPassword_def)
  have "UserCreated_Handle ci U no_faults now (PublishOne t row) udb = (None, udb @ [(us_ID w, ?r)])"
    if "\<forall>(k, v)\<in>set udb. k \<noteq> us_ID w \<and> ci (ur_Email v) \<noteq> ci (us_Email w) \<and> ur_Username v \<noteq> us_Username w"
  proof -
    have "\<not> identity_taken ci ?r udb" using that by (auto simp: identity_taken_def list_ex_iff)
    moreover have m: "map_of udb (us_ID w) = None" using that by (auto simp: map_of_eq_None_iff)
    then have "AList.update (us_ID w) (merged_row ?r udb) udb = udb @ [(us_ID w, ?r)]" by (simp add: update_fresh merged_row_def)
    ultimately show ?thesis using Handle_projected [OF un u(1)] u(2) by (auto simp: no_faults_def)
  qed
  then show ?thesis using w(2) row(2) assms(2) by blast
qed

theorem registered_user_is_projected_witness:
  "\<exists>row w db1 a. Register sample_auth_env (auth_call ''r'' 1) sample_register empty_auth_db = (Inr a, db1) \<and> au_outbox db1 = [row] \<and>
     UserCreated_Handle id id no_faults 5 (PublishOne 7 row) [] = (None, [(us_ID w, read_model_row w 0)])"
proof (rule sample_history)
  fix a db1 a' db2
  assume reg: "Register sample_auth_env (auth_call ''r'' 1) sample_register empty_auth_db = (Inr a, db1)"
  have h: "rq_newID (auth_call ''r'' 1) 0 \<noteq> ''''" "list_all printable (rg_Email sample_register)" "rq_now (auth_call ''r'' 1) 0 = 0"
    by (simp_all add: auth_call_def sample_register_def printable_def)
  have y: "year_in_range (rq_now (auth_call ''r'' 1) 0)" unfolding h(3) by (simp add: year_in_range_def civil_from_days_examples)
  from registered_user_is_projected [OF reg h(1,2) y, of "[]" id id 5 7] obtain row w where r: "au_outbox db1 = au_outbox empty_auth_db @ [row]"
      "UserCreated_Handle id id no_faults 5 (PublishOne 7 row) [] = (None, [] @ [(us_ID w, read_model_row w (0 div 10 ^ 9 * 10 ^ 9))])"
    unfolding h(3) by fastforce
  have "au_outbox db1 = [row]" using r(1) by (simp add: empty_auth_db_def)
  then show ?thesis using reg r(2) by auto
qed

text \<open>C21: A created room reaches the sync service: a successful call stages exactly one event, and when the relay's message
  for it is consumed by the sync service, the room exists there, has a host, and its owner is the creator, unless the
  sync service already knew an owner. Consuming the message again changes nothing.\<close>

theorem created_room_is_synced:
  assumes "CreateRoom c req db = (Inr p, db1)" "rq_newID c 0 \<noteq> ''''" "rq_userHeader c \<noteq> ''''"
  shows "\<exists>row. db_outbox db1 = db_outbox db @ [row] \<and>
    (let msg = PublishOne t row; sv1 = snd (RoomCreated_Handle now now' msg sv) in
      (\<exists>rs. sv_rooms sv1 (rq_newID c 0) = Some rs \<and> HostID rs \<noteq> '''' \<and>
        ((\<forall>rs0. sv_rooms sv (rq_newID c 0) = Some rs0 \<longrightarrow> OwnerID rs0 = '''') \<longrightarrow> OwnerID rs = rq_userHeader c)) \<and>
      RoomCreated_Handle now2 now3 msg sv1 = (None, sv1))"
  using assms(1,2)
proof (rule CreateRoom_stages)
  fix row and room :: Room
  assume row: "db_outbox db1 = db_outbox db @ [row]" and room: "rm_ID room = rq_newID c 0" "rm_OwnerID room = rq_userHeader c" "in_i64 (rm_Visibility room)"
    and ev: "outbox_row_of (room_event (rq_newID c 1) ''room.created.v1'' (rm_ID room)
          [(''room_id'', JStr (rm_ID room)), (''slug'', JStr (rm_Slug room)), (''name'', JStr (rm_Name room)),
           (''owner_id'', JStr (rm_OwnerID room)), (''visibility'', JInt (rm_Visibility room))] (rq_now c 2)) (rq_newID c 0) = Some row"
  have "unmarshal_RoomCreated (msg_Value (PublishOne t row)) = Some \<lparr>rc_RoomID = rm_ID room, rc_Slug = rm_Slug room, rc_Name = rm_Name room,
      rc_OwnerID = rm_OwnerID room, rc_Visibility = rm_Visibility room\<rparr>"
    using outbox_row_payload [OF ev] room(3)
    by (simp add: room_event_def json_marshal_def json_ok_def PublishOne_def Publish_def Let_def unmarshal_RoomCreated_def json_get in_i64_def)
  from room_created_idempotent [OF this _ _ refl, of now now' sv now2 now3] row room assms(2,3) show ?thesis by (auto simp: Let_def)
qed

theorem created_room_is_synced_witness:
  "\<exists>row. db_outbox sample_db = [row] \<and>
     (\<exists>rs. sv_rooms (snd (RoomCreated_Handle 0 0 (PublishOne 0 row) (new_service default_SyncConfig False Map.empty []))) ''r1'' = Some rs \<and> OwnerID rs = ''ann'')"
proof -
  obtain p where r: "CreateRoom (sample_call ''ann'' ''r1'') sample_create empty_room_db = (Inr p, sample_db)"
    using sample_exec by (auto simp: outcome_def split: prod.splits sum.splits)
  have h: "rq_newID (sample_call ''ann'' ''r1'') 0 = ''r1''" "rq_userHeader (sample_call ''ann'' ''r1'') = ''ann''" by (simp_all add: sample_call_def)
  from created_room_is_synced [OF r, of 0 0 0 "new_service default_SyncConfig False Map.empty []" 0 0] h
  show ?thesis by (auto simp: Let_def empty_room_db_def new_service_def)
qed

text \<open>C22: The playback state reaches the playback service: the event that a room stages at its snapshot timer, once relayed and
  consumed, gives the playback service's room the epoch, status, position, time base, rate and host of the sync service's
  room. The media and the fencing token are not part of the event and stay as they were.\<close>

theorem sync_state_reaches_playback:
  assumes "makeStager fl (stageOutbox cv it now i now' rs) sv = (Inr (), sv1)" "state_ok (rs_state rs)" "\<forall>v. in_i32 (cv v)" "rs_roomID rs \<noteq> ''''"
  shows "\<exists>row r. sv_outbox sv1 = sv_outbox sv @ [row] \<and>
    SyncUpdated_Handle t (PublishOne t' row) cache = (None, cache(rs_roomID rs \<mapsto> r)) \<and>
    pl_Epoch r = ss_Epoch (rs_state rs) \<and> pl_Status r = ss_Status (rs_state rs) \<and> pl_MediaTimeMs r = ss_MediaTimeMs (rs_state rs) \<and>
    pl_WallTimeMs r = ss_WallTimeMs (rs_state rs) \<and> pl_PlaybackRate r = ss_PlaybackRate (rs_state rs) \<and> pl_HostID r = ss_HostID (rs_state rs) \<and>
    pl_MediaID r = pl_MediaID (room_of (rs_roomID rs) cache) \<and> pl_FencingToken r = pl_FencingToken (room_of (rs_roomID rs) cache)"
proof -
  let ?ev = "stageOutbox cv it now i now' rs"
  have key: "ev_Topic ?ev \<noteq> ''''" "ev_Key ?ev = rs_roomID rs" by (simp_all add: stageOutbox_def Let_def)
  obtain row where row: "outbox_row_of ?ev (rs_roomID rs) = Some row" "sv_outbox sv1 = sv_outbox sv @ [row]"
    using assms(1,4) key
    by (auto simp: makeStager_def run_tx_inr Append_def append_one_def insert_outbox_def tx_inr Let_def split: prod.splits option.splits if_splits)
  obtain d p where u: "unmarshal_SyncUpdated (msg_Value (PublishOne t' row)) =
    Some \<lparr>su_RoomID = rs_roomID rs, su_Epoch = ss_Epoch (rs_state rs), su_Status = ss_Status (rs_state rs),
      su_MediaTime = ss_MediaTimeMs (rs_state rs), su_WallTime = ss_WallTimeMs (rs_state rs), su_Rate = ss_PlaybackRate (rs_state rs),
      su_HostID = ss_HostID (rs_state rs), su_DriftMs = d, su_Peers = p\<rparr>" (is "_ = Some ?e")
    using staged_unmarshal [OF row(1) assms(2,3)] by blast
  have "i16 (ss_Status (rs_state rs)) = ss_Status (rs_state rs)" using assms(2) by (intro i16_id) (auto simp: state_ok_def in_i8_def)
  then show ?thesis using u row(2) assms(4)
    by (intro exI [of _ row] exI [of _ "snd (ApplyFromEvent ?e t (room_of (rs_roomID rs) cache))"])
      (simp add: SyncUpdated_Handle_def cache_ApplyFromEvent_def ApplyFromEvent_def Let_def)
qed

theorem sync_state_reaches_playback_witness:
  "\<exists>sv1 row r. makeStager no_faults (stageOutbox (\<lambda>_. 0) [] 0 ''e1'' 0 (fst (GetOrCreate no_faults ''r1'' sample_service))) sample_service = (Inr (), sv1) \<and>
     sv_outbox sv1 = [row] \<and> SyncUpdated_Handle 0 (PublishOne 0 row) Map.empty = (None, [''r1'' \<mapsto> r]) \<and> pl_HostID r = ''ann''"
proof -
  let ?rs = "Start (NewRoomSync default_SyncConfig ''r1'' ((fresh_state ''r1'')\<lparr>ss_HostID := ''ann'', ss_OwnerID := ''ann''\<rparr>) False)"
  let ?ev = "stageOutbox (\<lambda>_. 0) [] 0 ''e1'' 0 ?rs"
  have st: "rs_state ?rs = (fresh_state ''r1'')\<lparr>ss_HostID := ''ann'', ss_OwnerID := ''ann''\<rparr>" "rs_roomID ?rs = ''r1''"
    by (simp_all add: Start_def NewRoomSync_def)
  have ok: "state_ok (rs_state ?rs)" unfolding st by (simp add: state_ok_def fresh_state_def zero_SyncState_def rate_ok_def in_i8_def StatusPaused_def StatusPlaying_def)
  have pay: "ev_Payload ?ev \<noteq> None"
    by (simp add: stageOutbox_def json_marshal_def json_ok_def buildSnapshotLocked_def stateToProtoLocked_def st fresh_state_def Let_def)
  have ev: "ev_ID ?ev = ''e1''" "ev_Topic ?ev = ''sync.updated.v1''" "ev_Key ?ev = ''r1''" "ev_AggregateID ?ev = ''r1''" "ev_Version ?ev = ''v1''"
    by (simp_all add: stageOutbox_def Let_def st)
  obtain row where "outbox_row_of ?ev ''r1'' = Some row" using pay ev by (auto simp: outbox_row_of_def)
  then have "\<exists>sv1. makeStager no_faults ?ev sample_service = (Inr (), sv1)"
    using ev by (auto simp: makeStager_def Append_def append_one_def insert_outbox_def run_tx_def tx_defs sample_service_def put_room_def new_service_def Let_def)
  then obtain sv1 where s: "makeStager no_faults ?ev sample_service = (Inr (), sv1)" by blast
  have "\<exists>row r. sv_outbox sv1 = sv_outbox sample_service @ [row] \<and> SyncUpdated_Handle 0 (PublishOne 0 row) Map.empty = (None, [rs_roomID ?rs \<mapsto> r]) \<and>
      pl_HostID r = ss_HostID (rs_state ?rs)"
    using sync_state_reaches_playback [OF s ok, of 0 0 Map.empty] by (auto simp: in_i32_def st)
  then show ?thesis using s unfolding sample_get st by (auto simp: sample_service_def put_room_def new_service_def)
qed

end
